(* ===== verification/Prelude.thy ===== *)
theory Prelude
  imports Complex_Main "HOL-Library.Char_ord" "HOL-Library.List_Lexorder"
    "HOL-Library.Product_Lexorder" "HOL-Library.AList"
begin

text \<open>
  The shared vocabulary of the development: Python exceptions as values, the result type
  \<open>py_exc + 'a\<close> with its bind, loops that stop at the first exception, Python's
  insertion-ordered dictionaries as association lists, and \<open>str.strip\<close>.
  The locale \<open>guarded_loop\<close> states the one induction every loop proof of the
  components needs: an invariant kept by each step that does not raise holds after the loop.
\<close>

named_theorems eval_simps \<open>equations that evaluate the model on concrete inputs\<close>
named_theorems res_elims \<open>inversion rules for computations that did not raise\<close>

section \<open>Exceptions and results\<close>

text \<open>
  The built-in exceptions the code raises or lets through, and \<open>Raised C m\<close> for an
  exception class \<open>C\<close> that the program declares itself, with its message or state code.
\<close>

datatype py_exc =
    TypeError string
  | ValueError string
  | AssertionError string
  | KeyError
  | InvalidOperation
  | ZeroDivision
  | Raised string string

type_synonym 'a res = "py_exc + 'a"

definition rbind :: "'e + 'a \<Rightarrow> ('a \<Rightarrow> 'e + 'b) \<Rightarrow> 'e + 'b" where
  "rbind m f = (case m of Inl e \<Rightarrow> Inl e | Inr a \<Rightarrow> f a)"

definition require :: "bool \<Rightarrow> 'e \<Rightarrow> 'e + unit" where
  "require b e = (if b then Inr () else Inl e)"

declare rbind_def [code_unfold]

text \<open>
  Evaluation is call by value: with these congruences the simplifier reduces what is bound
  before it looks at the body.
\<close>

lemma rbind_weak_cong: "m = m' \<Longrightarrow> rbind m f = rbind m' f"
  by simp

lemma case_prod_weak: "p = q \<Longrightarrow> case_prod f p = case_prod f q"
  by simp

lemmas eval_congs = rbind_weak_cong let_weak_cong case_prod_weak

lemma rbind_simps [simp]: "rbind (Inl e) f = Inl e" "rbind (Inr a) f = f a"
  by (simp_all add: rbind_def)

lemma rbind_Inr_iff: "rbind m f = Inr b \<longleftrightarrow> (\<exists>a. m = Inr a \<and> f a = Inr b)"
  by (cases m) auto

lemma rbind_InrE [elim!, res_elims]:
  assumes "rbind m f = Inr b"
  obtains a where "m = Inr a" "f a = Inr b"
  using assms by (cases m) auto

lemma guard_InrE [elim!, res_elims]:
  assumes "(if b then Inl e else m) = Inr a"
  obtains "\<not> b" "m = Inr a"
  using assms by (auto split: if_splits)

lemma rbind_InlE [elim!]:
  assumes "rbind m f = Inl e"
  obtains "m = Inl e" | a where "m = Inr a" "f a = Inl e"
  using assms by (cases m) auto

lemma rbind_assoc: "rbind (rbind m f) g = rbind m (\<lambda>a. rbind (f a) g)"
  by (cases m) auto

lemma require_Inr_iff [simp]: "require b e = Inr u \<longleftrightarrow> b"
  by (simp add: require_def)

lemma require_simps [simp]: "require True e = Inr ()" "require False e = Inl e"
  by (simp_all add: require_def)

lemma require_Inl_iff [simp]: "require b e = Inl e' \<longleftrightarrow> \<not> b \<and> e' = e"
  by (auto simp: require_def)

text \<open>A list comprehension whose body may raise: the first exception wins.\<close>

fun map_res :: "('a \<Rightarrow> 'e + 'b) \<Rightarrow> 'a list \<Rightarrow> 'e + 'b list" where
  "map_res f [] = Inr []"
| "map_res f (x # xs) = rbind (f x) (\<lambda>y. rbind (map_res f xs) (\<lambda>ys. Inr (y # ys)))"

lemma map_res_Inr:
  "map_res f xs = Inr ys \<Longrightarrow> length ys = length xs \<and> (\<forall>i < length xs. f (xs ! i) = Inr (ys ! i))"
proof (induction xs arbitrary: ys)
  case Nil
  then show ?case by simp
next
  case (Cons x xs)
  then obtain y zs where y: "f x = Inr y" and zs: "map_res f xs = Inr zs" and ys: "ys = y # zs"
    by auto
  from Cons.IH [OF zs] y ys show ?case
    by (auto simp: nth_Cons split: nat.splits)
qed

lemma map_res_Inr_set:
  assumes "map_res f xs = Inr ys" "y \<in> set ys"
  obtains x where "x \<in> set xs" "f x = Inr y"
  using map_res_Inr [OF assms(1)] assms(2) that by (metis in_set_conv_nth)

lemma map_res_defined: "map_res f xs = Inr ys \<Longrightarrow> x \<in> set xs \<Longrightarrow> \<exists>y. f x = Inr y"
  by (induction xs arbitrary: ys) auto

lemma map_res_map: "(\<And>x. x \<in> set xs \<Longrightarrow> f x = Inr (g x)) \<Longrightarrow> map_res f xs = Inr (map g xs)"
  by (induction xs) auto

section \<open>Loops that stop at the first exception\<close>

fun fold_res :: "('s \<Rightarrow> 'a \<Rightarrow> 'e + 's) \<Rightarrow> 's \<Rightarrow> 'a list \<Rightarrow> 'e + 's" where
  "fold_res step s [] = Inr s"
| "fold_res step s (x # xs) = rbind (step s x) (\<lambda>s'. fold_res step s' xs)"

lemma fold_res_append:
  "fold_res step s (xs @ ys) = rbind (fold_res step s xs) (\<lambda>s'. fold_res step s' ys)"
  by (induction xs arbitrary: s) (auto simp: rbind_assoc)

lemma fold_res_Inl: "fold_res step s xs = Inl e \<Longrightarrow> \<exists>s' x. x \<in> set xs \<and> step s' x = Inl e"
  by (induction xs arbitrary: s) force+

lemma map_res_Inl: "map_res f xs = Inl e \<Longrightarrow> \<exists>x \<in> set xs. f x = Inl e"
  by (induction xs) force+

locale guarded_loop =
  fixes step :: "'s \<Rightarrow> 'a \<Rightarrow> 'e + 's"
    and inv :: "'s \<Rightarrow> bool"
    and ok :: "'a \<Rightarrow> bool"
  assumes step_inv: "inv s \<Longrightarrow> ok x \<Longrightarrow> step s x = Inr s' \<Longrightarrow> inv s'"
begin

lemma loop_inv: "inv s \<Longrightarrow> list_all ok xs \<Longrightarrow> fold_res step s xs = Inr s' \<Longrightarrow> inv s'"
  by (induction xs arbitrary: s) (auto dest: step_inv)

end

text \<open>
  A loop that refines an abstract one: the abstract step cannot fail, and the relation
  between abstract and concrete state survives every concrete step that does not raise.
\<close>

locale refined_loop =
  fixes step :: "'s \<Rightarrow> 'a \<Rightarrow> 'e + 's"
    and astep :: "'t \<Rightarrow> 'a \<Rightarrow> 't"
    and rel :: "'t \<Rightarrow> 's \<Rightarrow> bool"
  assumes step_rel: "rel t s \<Longrightarrow> step s x = Inr s' \<Longrightarrow> rel (astep t x) s'"
begin

lemma loop_rel: "rel t s \<Longrightarrow> fold_res step s xs = Inr s' \<Longrightarrow> rel (foldl astep t xs) s'"
  by (induction xs arbitrary: s t) (auto dest: step_rel)

end

text \<open>A refining loop that raises only expected exceptions.\<close>

locale checked_loop = refined_loop step astep rel
  for step :: "'s \<Rightarrow> 'a \<Rightarrow> 'e + 's" and astep :: "'t \<Rightarrow> 'a \<Rightarrow> 't" and rel :: "'t \<Rightarrow> 's \<Rightarrow> bool" +
  fixes expected :: "'e \<Rightarrow> bool"
  assumes step_error: "rel t s \<Longrightarrow> step s x = Inl e \<Longrightarrow> expected e"
begin

lemma loop_error: "rel t s \<Longrightarrow> fold_res step s xs = Inl e \<Longrightarrow> expected e"
proof (induction xs arbitrary: s t)
  case (Cons x xs)
  then show ?case by (cases "step s x") (auto dest: step_rel step_error)
qed simp

end

section \<open>Actions on a state that persists when they raise\<close>

type_synonym ('s, 'a) act = "'s \<Rightarrow> 's \<times> 'a res"

definition act_return :: "'a \<Rightarrow> ('s, 'a) act" where "act_return a s = (s, Inr a)"
definition act_raise :: "py_exc \<Rightarrow> ('s, 'a) act" where "act_raise e s = (s, Inl e)"
definition act_res :: "'a res \<Rightarrow> ('s, 'a) act" where "act_res r s = (s, r)"

definition act_bind :: "('s, 'a) act \<Rightarrow> ('a \<Rightarrow> ('s, 'b) act) \<Rightarrow> ('s, 'b) act" where
  "act_bind m f s = (case m s of (s', r) \<Rightarrow> (case r of Inl e \<Rightarrow> (s', Inl e) | Inr a \<Rightarrow> f a s'))"

lemma act_simps [simp]: "act_return a s = (s, Inr a)" "act_raise e s = (s, Inl e)" "act_res r s = (s, r)"
  by (simp_all add: act_return_def act_raise_def act_res_def)

lemma act_bind_simps [simp]: "act_bind (act_res (Inr a)) f s = f a s" "act_bind (act_res (Inl e)) f s = (s, Inl e)"
  by (simp_all add: act_bind_def)

lemma act_bind_cases:
  assumes "act_bind m f s = (s', r)"
  obtains (raised) e where "m s = (s', Inl e)" "r = Inl e"
    | (returned) a s1 where "m s = (s1, Inr a)" "f a s1 = (s', r)"
  using assms by (auto simp: act_bind_def split: prod.splits sum.splits)

section \<open>Dictionaries and strings\<close>

type_synonym ('k, 'v) dict = "('k \<times> 'v) list"

abbreviation dict_get :: "('k, 'v) dict \<Rightarrow> 'k \<Rightarrow> 'v option" where
  "dict_get d k \<equiv> map_of d k"

abbreviation dict_set :: "('k, 'v) dict \<Rightarrow> 'k \<Rightarrow> 'v \<Rightarrow> ('k, 'v) dict" where
  "dict_set d k v \<equiv> AList.update k v d"

abbreviation dict_get_or :: "('k, 'v) dict \<Rightarrow> 'k \<Rightarrow> 'v \<Rightarrow> 'v" where
  "dict_get_or d k v \<equiv> (case dict_get d k of None \<Rightarrow> v | Some x \<Rightarrow> x)"

text \<open>The code points below 256 that Python's \<open>str.strip\<close> removes.\<close>

definition py_space :: "char \<Rightarrow> bool" where
  "py_space c = (let n = (of_char c :: nat) in
     (9 \<le> n \<and> n \<le> 13) \<or> (28 \<le> n \<and> n \<le> 32) \<or> n = 133 \<or> n = 160)"

definition strip :: "string \<Rightarrow> string" where
  "strip s = rev (dropWhile py_space (rev (dropWhile py_space s)))"

lemma dropWhile_fixed: "dropWhile P xs = xs \<longleftrightarrow> xs = [] \<or> \<not> P (hd xs)"
proof (cases xs)
  case (Cons a list)
  have "dropWhile P list \<noteq> a # list"
    using length_dropWhile_le [of P list] by auto
  with Cons show ?thesis by auto
qed simp

lemma strip_idem [simp]: "strip (strip s) = strip s"
proof -
  define u where "u = dropWhile py_space s"
  define v where "v = rev (dropWhile py_space (rev u))"
  have u: "u = [] \<or> \<not> py_space (hd u)"
    using hd_dropWhile [of py_space s] by (auto simp: u_def)
  have "u = v @ rev (takeWhile py_space (rev u))"
    by (metis rev_append rev_rev_ident takeWhile_dropWhile_id v_def)
  with u have v: "v = [] \<or> \<not> py_space (hd v)" by (metis append_is_Nil_conv hd_append2)
  have rv: "rev v = [] \<or> \<not> py_space (hd (rev v))"
    using hd_dropWhile [of py_space "rev u"] by (auto simp: v_def)
  have "strip v = v" using v rv unfolding strip_def by (metis dropWhile_fixed rev_rev_ident)
  then show ?thesis by (simp add: strip_def u_def v_def)
qed

lemmas [eval_simps] = py_space_def strip_def Let_def

section \<open>Lists\<close>

lemma sum_list_update:
  assumes "distinct (map fst d)"
  shows "sum_list (map (\<lambda>(k, v). f k v) (AList.update k v d)) =
    sum_list (map (\<lambda>(k, v). f k v) d) - (case map_of d k of None \<Rightarrow> 0 | Some w \<Rightarrow> f k w) + (f k v :: rat)"
  using assms by (induction d) (auto split: option.splits)

fun first_match :: "('a \<Rightarrow> bool) \<Rightarrow> 'a list \<Rightarrow> 'a option" where
  "first_match p [] = None"
| "first_match p (x # xs) = (if p x then Some x else first_match p xs)"

lemma first_match_None: "first_match P xs = None \<longleftrightarrow> (\<forall>x \<in> set xs. \<not> P x)"
  by (induction xs) auto

text \<open>Python's \<open>max\<close> with a key: the first of the greatest.\<close>

fun max_by :: "('a \<Rightarrow> 'k::linorder) \<Rightarrow> 'a \<Rightarrow> 'a list \<Rightarrow> 'a" where
  "max_by key x [] = x"
| "max_by key x (y # ys) = max_by key (if key x < key y then y else x) ys"

lemma max_by_greatest:
  "max_by key x xs \<in> insert x (set xs) \<and> (\<forall>y \<in> insert x (set xs). key y \<le> key (max_by key x xs))"
proof (induction xs arbitrary: x)
  case (Cons y ys)
  from Cons [of "if key x < key y then y else x"] show ?case by (auto split: if_splits)
qed simp

end
