(* ===== verification/Py_Decimal.thy ===== *)
theory Py_Decimal
  imports Prelude
begin

text \<open>
  The numbers of the program. A Python \<open>Decimal\<close> is the rational it denotes; an
  operation in a context of precision \<open>p\<close> is the exact operation followed by
  \<open>dec p\<close>, rounding half to even at \<open>p\<close> significant digits. A binary float
  operation is the exact one followed by \<open>b64\<close>. Both are instances of
  \<open>sig_round\<close>. Decimals that differ only in trailing zeros or in the sign of zero
  are one value, and the exponent limits (a million digits) are not modelled.
  The locale \<open>rounding\<close> is the interface the components use: a rounding is
  monotone, odd and fixes its own results.
\<close>

section \<open>Rounding half to even\<close>

definition round_half_even :: "rat \<Rightarrow> int" where
  "round_half_even x =
     (let f = \<lfloor>x\<rfloor>; d = x - of_int f
      in if d < 1/2 \<or> (d = 1/2 \<and> even f) then f else f + 1)"

lemma round_half_even_of_int [simp]: "round_half_even (of_int n) = n"
  by (simp add: round_half_even_def)

lemma round_half_even_0 [simp]: "round_half_even 0 = 0"
  using round_half_even_of_int [of 0] by simp

lemma round_half_even_error: "\<bar>of_int (round_half_even x) - x\<bar> \<le> 1/2"
proof -
  have "of_int \<lfloor>x\<rfloor> \<le> x" "x < of_int \<lfloor>x\<rfloor> + 1" by linarith+
  then show ?thesis unfolding round_half_even_def Let_def abs_le_iff
    by (auto simp del: of_int_floor_le)
qed

lemma round_half_even_floor: "\<lfloor>x\<rfloor> \<le> round_half_even x"
  by (simp add: round_half_even_def Let_def)

lemma round_half_even_le_ceiling: "round_half_even x \<le> \<lceil>x\<rceil>"
proof (cases "x - of_int \<lfloor>x\<rfloor> = 0")
  case True
  then have "x = of_int \<lfloor>x\<rfloor>" by simp
  then show ?thesis by (metis ceiling_of_int order_refl round_half_even_of_int)
next
  case False
  have "of_int \<lfloor>x\<rfloor> \<le> x" by linarith
  with False have "of_int \<lfloor>x\<rfloor> < x" by linarith
  then have "\<lfloor>x\<rfloor> + 1 \<le> \<lceil>x\<rceil>" by linarith
  then show ?thesis by (auto simp: round_half_even_def Let_def)
qed

lemma round_half_even_mono:
  assumes "x \<le> y"
  shows "round_half_even x \<le> round_half_even y"
proof (cases "\<lfloor>x\<rfloor> = \<lfloor>y\<rfloor>")
  case True
  with assms show ?thesis by (auto simp: round_half_even_def Let_def)
next
  case False
  with assms have "\<lfloor>x\<rfloor> + 1 \<le> \<lfloor>y\<rfloor>" using floor_mono [OF assms] by linarith
  moreover have "round_half_even x \<le> \<lfloor>x\<rfloor> + 1" by (simp add: round_half_even_def Let_def)
  ultimately show ?thesis using round_half_even_floor [of y] by linarith
qed

lemma round_half_even_minus: "round_half_even (- x) = - round_half_even x"
proof (cases "x = of_int \<lfloor>x\<rfloor>")
  case True
  then show ?thesis
    by (metis of_int_minus round_half_even_of_int)
next
  case False
  have fl: "of_int \<lfloor>x\<rfloor> \<le> x" "x < of_int \<lfloor>x\<rfloor> + 1" by linarith+
  with False have "of_int \<lfloor>x\<rfloor> < x" by linarith
  with fl have neg: "\<lfloor>- x\<rfloor> = - \<lfloor>x\<rfloor> - 1" by (intro floor_unique) auto
  show ?thesis
    unfolding round_half_even_def Let_def neg
    by (auto simp: algebra_simps)
qed

lemma round_half_even_ge: "of_int n \<le> x \<Longrightarrow> n \<le> round_half_even x"
  using round_half_even_mono [of "of_int n" x] by simp

lemma round_half_even_le: "x \<le> of_int n \<Longrightarrow> round_half_even x \<le> n"
  using round_half_even_mono [of x "of_int n"] by simp

section \<open>The exponent of the leading digit\<close>

text \<open>The exponent \<open>e\<close> with \<open>b ^ e \<le> \<bar>x\<bar> < b ^ (e + 1)\<close>, found by scaling.\<close>

function adj_up :: "rat \<Rightarrow> rat \<Rightarrow> int" where
  "adj_up b x = (if b < 2 \<or> x < b then 0 else 1 + adj_up b (x / b))"
  by pat_completeness auto
termination
proof (relation "measure (\<lambda>(b, x). nat \<lfloor>x\<rfloor>)", goal_cases)
  case 1
  show ?case by simp
next
  case (2 b x)
  then have b: "2 \<le> b" "b \<le> x" by auto
  then have "x / b \<le> x / 2" by (intro divide_left_mono) auto
  moreover have "x / 2 \<le> x - 1" using b by simp
  ultimately have "\<lfloor>x / b\<rfloor> \<le> \<lfloor>x - 1\<rfloor>" by (intro floor_mono) linarith
  moreover have "1 \<le> \<lfloor>x\<rfloor>" using b by linarith
  ultimately show ?case by simp
qed

function adj_dn :: "rat \<Rightarrow> rat \<Rightarrow> int" where
  "adj_dn b x = (if b < 2 \<or> x \<le> 0 \<or> 1 \<le> x then 0 else adj_dn b (x * b) - 1)"
  by pat_completeness auto
termination
proof (relation "measure (\<lambda>(b, x). nat \<lceil>1 / x\<rceil>)", goal_cases)
  case 1
  show ?case by simp
next
  case (2 b x)
  then have b: "2 \<le> b" "0 < x" "x < 1" by auto
  define y where "y = 1 / x"
  have y: "1 < y" using b by (simp add: y_def)
  have "1 / (x * b) = y / b" by (simp add: y_def)
  also have "y / b \<le> y / 2" using b y by (intro divide_left_mono) auto
  finally have le: "\<lceil>1 / (x * b)\<rceil> \<le> \<lceil>y / 2\<rceil>" by (rule ceiling_mono)
  have "\<lceil>y / 2\<rceil> < \<lceil>y\<rceil>"
  proof (cases "y \<le> 2")
    case True
    then have "\<lceil>y / 2\<rceil> \<le> 1" by (simp add: ceiling_le_iff)
    moreover have "1 < \<lceil>y\<rceil>" using y by (simp add: less_ceiling_iff)
    ultimately show ?thesis by linarith
  next
    case False
    then have "y / 2 \<le> y - 1" by simp
    then have "\<lceil>y / 2\<rceil> \<le> \<lceil>y - 1\<rceil>" by (rule ceiling_mono)
    then show ?thesis by simp
  qed
  with le y have "\<lceil>1 / (x * b)\<rceil> < \<lceil>1 / x\<rceil>" "0 < \<lceil>1 / x\<rceil>"
    using b by (auto simp: y_def)
  then show ?case by simp
qed

declare adj_up.simps [simp del] adj_dn.simps [simp del]

definition adjusted :: "rat \<Rightarrow> rat \<Rightarrow> int" where
  "adjusted b x = (if 1 \<le> \<bar>x\<bar> then adj_up b \<bar>x\<bar> else adj_dn b \<bar>x\<bar>)"

lemma adjusted_abs: "adjusted b \<bar>x\<bar> = adjusted b x"
  by (simp add: adjusted_def)

lemma adj_up_bounds:
  "2 \<le> b \<Longrightarrow> 1 \<le> x \<Longrightarrow> b powi adj_up b x \<le> x \<and> x < b powi (adj_up b x + 1)"
proof (induction b x rule: adj_up.induct)
  case (1 b x)
  show ?case
  proof (cases "x < b")
    case True
    with 1 show ?thesis by (simp add: adj_up.simps [of b x])
  next
    case False
    with 1 have IH: "b powi adj_up b (x / b) \<le> x / b" "x / b < b powi (adj_up b (x / b) + 1)"
      by (simp_all add: field_simps)
    have eq: "adj_up b x = adj_up b (x / b) + 1"
      using False 1 by (simp add: adj_up.simps [of b x])
    show ?thesis unfolding eq using IH "1.prems"
      by (simp add: power_int_add power2_eq_square field_simps)
  qed
qed

lemma adj_dn_bounds:
  "2 \<le> b \<Longrightarrow> 0 < x \<Longrightarrow> x < b \<Longrightarrow> b powi adj_dn b x \<le> x \<and> x < b powi (adj_dn b x + 1)"
proof (induction b x rule: adj_dn.induct)
  case (1 b x)
  show ?case
  proof (cases "1 \<le> x")
    case True
    with 1 show ?thesis by (simp add: adj_dn.simps [of b x])
  next
    case False
    with 1 have "b powi adj_dn b (x * b) \<le> x * b \<and> x * b < b powi (adj_dn b (x * b) + 1)"
      by simp
    moreover have eq: "adj_dn b x = adj_dn b (x * b) - 1"
      using False 1 by (simp add: adj_dn.simps [of b x])
    ultimately show ?thesis unfolding eq using "1.prems"
      by (simp add: power_int_diff power_int_add field_simps)
  qed
qed

lemma adjusted_bounds:
  assumes "2 \<le> b" "x \<noteq> 0"
  shows "b powi adjusted b x \<le> \<bar>x\<bar>" "\<bar>x\<bar> < b powi (adjusted b x + 1)"
  using assms adj_up_bounds [of b "\<bar>x\<bar>"] adj_dn_bounds [of b "\<bar>x\<bar>"]
  by (auto simp: adjusted_def)

lemma powi_less_cancel: "1 < (b::rat) \<Longrightarrow> b powi m < b powi n \<Longrightarrow> m < n"
  by (metis linorder_not_le order_less_imp_le power_int_increasing)

lemma powi_mono: "1 \<le> (b::rat) \<Longrightarrow> m \<le> n \<Longrightarrow> b powi m \<le> b powi n"
  by (rule power_int_increasing)

lemma adjusted_less:
  assumes "2 \<le> b" "x \<noteq> 0" "\<bar>x\<bar> < b powi n"
  shows "adjusted b x < n"
  using adjusted_bounds(1) [OF assms(1,2)] assms by (intro powi_less_cancel [of b]) auto

lemma adjusted_mono:
  assumes "2 \<le> b" "0 < x" "x \<le> y"
  shows "adjusted b x \<le> adjusted b y"
proof -
  have "b powi adjusted b x \<le> \<bar>x\<bar>" "\<bar>y\<bar> < b powi (adjusted b y + 1)"
    using adjusted_bounds [of b x] adjusted_bounds [of b y] assms by simp_all
  with assms have "b powi adjusted b x < b powi (adjusted b y + 1)" by linarith
  with assms powi_less_cancel [of b] show ?thesis by force
qed

section \<open>Rounding to a number of significant digits\<close>

definition sig_round :: "nat \<Rightarrow> nat \<Rightarrow> rat \<Rightarrow> rat" where
  "sig_round b p x =
     (if x = 0 then 0
      else let u = of_nat b powi (adjusted (of_nat b) x - (int p - 1))
           in of_int (round_half_even (x / u)) * u)"

definition representable :: "nat \<Rightarrow> nat \<Rightarrow> rat \<Rightarrow> bool" where
  "representable b p x \<longleftrightarrow> (\<exists>n k. x = of_int n * of_nat b powi k \<and> \<bar>n\<bar> < int b ^ p)"

lemma of_nat_ge2: "2 \<le> b \<Longrightarrow> (2::rat) \<le> of_nat b"
  by (metis of_nat_le_iff of_nat_numeral)

lemma sig_round_0 [simp]: "sig_round b p 0 = 0"
  by (simp add: sig_round_def)

lemma sig_round_minus: "sig_round b p (- x) = - sig_round b p x"
  by (simp add: sig_round_def Let_def adjusted_def round_half_even_minus)

lemma sig_round_range:
  assumes b: "2 \<le> b" and p: "1 \<le> p" and x: "0 < x"
  shows "of_nat b powi adjusted (of_nat b) x \<le> sig_round b p x"
    and "sig_round b p x \<le> of_nat b powi (adjusted (of_nat b) x + 1)"
proof -
  define B :: rat where "B = of_nat b"
  define e where "e = adjusted B x - (int p - 1)"
  have B: "2 \<le> B" using of_nat_ge2 [OF b] by (simp add: B_def)
  have u: "0 < B powi e" using B by (intro zero_less_power_int) simp
  have split: "B powi adjusted B x = B powi (int p - 1) * B powi e"
    "B powi (adjusted B x + 1) = B powi int p * B powi e"
    unfolding e_def using B by (subst power_int_add [symmetric]; simp)+
  have lo: "B powi (int p - 1) * B powi e \<le> x" and hi: "x < B powi int p * B powi e"
    using adjusted_bounds [OF B, of x] x unfolding split by simp_all
  have "B powi (int p - 1) = of_int (int b ^ (p - 1))"
    using p by (simp add: B_def power_int_def nat_diff_distrib)
  then have m1: "int b ^ (p - 1) \<le> round_half_even (x / B powi e)"
    using lo u by (intro round_half_even_ge) (simp add: pos_le_divide_eq)
  have m2: "round_half_even (x / B powi e) \<le> int b ^ p"
    using hi u by (intro round_half_even_le) (simp add: pos_divide_le_eq B_def power_int_def)
  have sr: "sig_round b p x = of_int (round_half_even (x / B powi e)) * B powi e"
    using x by (simp add: sig_round_def Let_def e_def B_def)
  note split(1)
  also have "B powi (int p - 1) \<le> of_int (round_half_even (x / B powi e))"
    using m1 \<open>B powi (int p - 1) = _\<close> by (simp only: of_int_le_iff)
  finally show "of_nat b powi adjusted (of_nat b) x \<le> sig_round b p x"
    using u by (simp add: sr mult_right_mono flip: B_def)
  have "(of_int (round_half_even (x / B powi e)) :: rat) \<le> of_int (int b ^ p)"
    using m2 by (simp only: of_int_le_iff)
  also have "of_int (int b ^ p) = B powi int p" by (simp add: B_def)
  finally have "sig_round b p x \<le> B powi int p * B powi e"
    using u by (simp add: sr mult_right_mono)
  also note split(2) [symmetric]
  finally show "sig_round b p x \<le> of_nat b powi (adjusted (of_nat b) x + 1)"
    by (simp add: B_def)
qed

lemma sig_round_mono_pos:
  assumes b: "2 \<le> b" and p: "1 \<le> p" and x: "0 < x" "x \<le> y"
  shows "sig_round b p x \<le> sig_round b p y"
proof (cases "adjusted (of_nat b) x = adjusted (of_nat b) y")
  case True
  define u where "u = (of_nat b :: rat) powi (adjusted (of_nat b) x - (int p - 1))"
  have u: "0 < u" using of_nat_ge2 [OF b] by (auto simp: u_def intro!: zero_less_power_int)
  have "round_half_even (x / u) \<le> round_half_even (y / u)"
    using x u by (intro round_half_even_mono divide_right_mono) auto
  with u have "(of_int (round_half_even (x / u)) :: rat) * u \<le> of_int (round_half_even (y / u)) * u"
    by (intro mult_right_mono) auto
  with x True show ?thesis by (simp add: sig_round_def Let_def u_def)
next
  case False
  note B = of_nat_ge2 [OF b]
  from False adjusted_mono [OF B x] have "adjusted (of_nat b) x + 1 \<le> adjusted (of_nat b) y" by linarith
  with B have "(of_nat b :: rat) powi (adjusted (of_nat b) x + 1) \<le> of_nat b powi adjusted (of_nat b) y"
    by (intro powi_mono) auto
  with sig_round_range(2) [OF b p x(1)] sig_round_range(1) [OF b p, of y] x show ?thesis by linarith
qed

lemma sig_round_pos: "2 \<le> b \<Longrightarrow> 1 \<le> p \<Longrightarrow> 0 < x \<Longrightarrow> 0 < sig_round b p x"
  using sig_round_range(1) [of b p x] of_nat_ge2 [of b]
    zero_less_power_int [of "of_nat b :: rat" "adjusted (of_nat b) x"]
  by linarith

lemma sig_round_mono:
  assumes "2 \<le> b" "1 \<le> p" "x \<le> y"
  shows "sig_round b p x \<le> sig_round b p y"
proof -
  note [simp] = sig_round_minus
  consider "0 < x" | "x \<le> 0" "0 \<le> y" | "y < 0" by linarith
  then show ?thesis
  proof cases
    case 1
    with assms show ?thesis by (intro sig_round_mono_pos) auto
  next
    case 2
    have "sig_round b p x \<le> 0"
      using sig_round_pos [OF assms(1,2), of "- x"] 2 by (cases "x = 0") auto
    moreover have "0 \<le> sig_round b p y"
      using sig_round_pos [OF assms(1,2), of y] 2 by (cases "y = 0") auto
    ultimately show ?thesis by linarith
  next
    case 3
    with sig_round_mono_pos [OF assms(1,2), of "- y" "- x"] assms(3) show ?thesis by auto
  qed
qed

lemma sig_round_representable:
  assumes b: "2 \<le> b" and r: "representable b p x"
  shows "sig_round b p x = x"
proof (cases "x = 0")
  case False
  from r obtain n k where x: "x = of_int n * of_nat b powi k" and n: "\<bar>n\<bar> < int b ^ p"
    by (auto simp: representable_def)
  note B = of_nat_ge2 [OF b]
  have "\<bar>x\<bar> = of_int \<bar>n\<bar> * of_nat b powi k" using B by (simp add: x abs_mult power_int_abs)
  also have "\<dots> < of_nat b powi int p * of_nat b powi k"
  proof (rule mult_strict_right_mono)
    have "(of_int \<bar>n\<bar> :: rat) < of_int (int b ^ p)" using n by (simp only: of_int_less_iff)
    then show "(of_int \<bar>n\<bar> :: rat) < of_nat b powi int p" by simp
  qed (use B in \<open>auto intro!: zero_less_power_int\<close>)
  also have "\<dots> = of_nat b powi (int p + k)" using B by (simp add: power_int_add)
  finally have "adjusted (of_nat b) x < int p + k" by (rule adjusted_less [OF B False])
  then have d: "adjusted (of_nat b) x - (int p - 1) = k - int d"
    if "d = nat (k - (adjusted (of_nat b) x - (int p - 1)))" for d
    using that by simp
  define d where "d = nat (k - (adjusted (of_nat b) x - (int p - 1)))"
  have "x / of_nat b powi (k - int d) = of_int (n * int b ^ d)"
    using B by (simp add: x power_int_diff)
  then show ?thesis
    using B False unfolding sig_round_def Let_def d [OF d_def]
    by (simp del: of_int_mult of_int_power) (simp add: x power_int_diff)
qed simp

lemma sig_round_is_representable:
  assumes b: "2 \<le> b" and p: "1 \<le> p"
  shows "representable b p (sig_round b p x)"
proof (cases "x = 0")
  case True
  then show ?thesis using b by (auto simp: representable_def intro!: exI [of _ 0])
next
  case False
  define e where "e = adjusted (of_nat b) x - (int p - 1)"
  define m where "m = round_half_even (x / of_nat b powi e)"
  note B = of_nat_ge2 [OF b]
  have sr: "sig_round b p x = of_int m * of_nat b powi e"
    using False by (simp add: sig_round_def Let_def e_def m_def)
  have "\<bar>sig_round b p x\<bar> = sig_round b p \<bar>x\<bar>"
    using sig_round_pos [OF b p, of "\<bar>x\<bar>"] False by (auto simp: abs_if sig_round_minus)
  also have "\<dots> \<le> of_nat b powi (adjusted (of_nat b) x + 1)"
    using sig_round_range(2) [OF b p, of "\<bar>x\<bar>"] False by (simp add: adjusted_abs)
  also have "\<dots> = of_nat b powi int p * of_nat b powi e"
    unfolding e_def using B by (subst power_int_add [symmetric]; simp)
  finally have "of_int \<bar>m\<bar> * of_nat b powi e \<le> (of_nat b ^ p :: rat) * of_nat b powi e"
    using B by (simp add: sr abs_mult power_int_abs)
  then have "(of_int \<bar>m\<bar> :: rat) \<le> of_nat b ^ p"
    using B by (simp add: mult_le_cancel_right)
  then have m: "\<bar>m\<bar> \<le> int b ^ p"
    by (metis of_int_le_iff of_int_of_nat_eq of_int_power)
  show ?thesis
  proof (cases "\<bar>m\<bar> = int b ^ p")
    case True
    then have eq: "\<bar>m\<bar> = int b ^ (p - 1) * int b" using p by (simp flip: power_Suc2)
    define c where "c = sgn m * int b ^ (p - 1)"
    have "m = c * int b" using eq mult_sgn_abs [of m] by (simp add: c_def mult.assoc)
    then have "of_int m * of_nat b powi e = of_int c * (of_nat b :: rat) powi (e + 1)"
      using B by (simp add: power_int_add)
    moreover have "\<bar>c\<bar> < int b ^ p"
      using b p by (simp add: c_def abs_mult abs_sgn_eq power_strict_increasing)
    ultimately show ?thesis unfolding sr representable_def by blast
  next
    case False
    with m have "\<bar>m\<bar> < int b ^ p" by linarith
    with sr show ?thesis unfolding representable_def by blast
  qed
qed

lemma sig_round_error:
  assumes b: "2 \<le> b" and x: "\<bar>x\<bar> < of_nat b powi m"
  shows "\<bar>sig_round b p x - x\<bar> \<le> of_nat b powi (m - int p) / 2"
proof (cases "x = 0")
  case True
  then show ?thesis using of_nat_ge2 [OF b] by (simp add: zero_le_power_int)
next
  case False
  note B = of_nat_ge2 [OF b]
  define u where "u = (of_nat b :: rat) powi (adjusted (of_nat b) x - (int p - 1))"
  have u: "0 < u" using B by (auto simp: u_def intro!: zero_less_power_int)
  have "sig_round b p x - x = (of_int (round_half_even (x / u)) - x / u) * u"
    using False u by (simp add: sig_round_def Let_def flip: u_def) (simp add: field_simps)
  then have "\<bar>sig_round b p x - x\<bar> = \<bar>of_int (round_half_even (x / u)) - x / u\<bar> * u"
    using u by (simp add: abs_mult)
  also have "\<dots> \<le> 1/2 * u" using u by (intro mult_right_mono round_half_even_error) auto
  also have "u \<le> of_nat b powi (m - int p)"
    unfolding u_def using B adjusted_less [OF B False x] by (intro powi_mono) auto
  finally show ?thesis by simp
qed

section \<open>The rounding interface\<close>

locale rounding =
  fixes rnd :: "rat \<Rightarrow> rat"
  assumes rnd_mono: "x \<le> y \<Longrightarrow> rnd x \<le> rnd y"
    and rnd_minus: "rnd (- x) = - rnd x"
    and rnd_rnd: "rnd (rnd x) = rnd x"
begin

lemma rnd_zero: "rnd 0 = 0"
  using rnd_minus [of 0] by simp

lemma rnd_nonneg: "0 \<le> x \<Longrightarrow> 0 \<le> rnd x"
  using rnd_mono [of 0 x] by (simp add: rnd_zero)

lemma rnd_nonpos: "x \<le> 0 \<Longrightarrow> rnd x \<le> 0"
  using rnd_mono [of x 0] by (simp add: rnd_zero)

lemma rnd_le_fixed: "rnd c = c \<Longrightarrow> x \<le> c \<Longrightarrow> rnd x \<le> c"
  using rnd_mono by metis

lemma rnd_ge_fixed: "rnd c = c \<Longrightarrow> c \<le> x \<Longrightarrow> c \<le> rnd x"
  using rnd_mono by metis

lemma rnd_diff_nonneg: "y \<le> x \<Longrightarrow> 0 \<le> rnd (x - y)"
  by (rule rnd_nonneg) simp

lemma rnd_abs: "\<bar>rnd x\<bar> = rnd \<bar>x\<bar>"
  using rnd_nonneg [of x] rnd_nonpos [of x] by (auto simp: abs_if rnd_minus not_less)

end

text \<open>
  The contexts of the program: precision 38 in the accounting and capacity kernels, 28
  (the default context) where the code opens none, 50 in the live-abort kernel, 60 in the
  regulatory-fee code. \<open>b64\<close> is the binary64 arithmetic of Python floats, without the
  exponent range.
\<close>

definition dec :: "nat \<Rightarrow> rat \<Rightarrow> rat" where
  "dec p = sig_round 10 p"

definition b64 :: "rat \<Rightarrow> rat" where
  "b64 = sig_round 2 53"

lemma rounding_sig_round: "2 \<le> b \<Longrightarrow> 1 \<le> p \<Longrightarrow> rounding (sig_round b p)"
  by unfold_locales
    (simp_all add: sig_round_mono sig_round_minus sig_round_representable sig_round_is_representable)

lemma rounding_dec: "1 \<le> p \<Longrightarrow> rounding (dec p)"
  by (simp add: dec_def rounding_sig_round)

interpretation dec28: rounding "dec 28" by (simp add: rounding_dec)
interpretation dec38: rounding "dec 38" by (simp add: rounding_dec)
interpretation dec50: rounding "dec 50" by (simp add: rounding_dec)
interpretation dec60: rounding "dec 60" by (simp add: rounding_dec)
interpretation b64: rounding b64 by (simp add: b64_def rounding_sig_round)

lemma dec_exact: "\<bar>n\<bar> < 10 ^ p \<Longrightarrow> dec p (of_int n * 10 powi k) = of_int n * 10 powi k"
  unfolding dec_def by (rule sig_round_representable) (auto simp: representable_def)

lemma dec_error: "\<bar>x\<bar> < 10 powi m \<Longrightarrow> \<bar>dec p x - x\<bar> \<le> 10 powi (m - int p) / 2"
  using sig_round_error [of 10 x m p] by (simp add: dec_def)

lemma dec_relative_error: "\<bar>dec p x - x\<bar> \<le> \<bar>x\<bar> * (10 powi (1 - int p) / 2)"
proof (cases "x = 0")
  case False
  have "\<bar>dec p x - x\<bar> \<le> 10 powi (adjusted 10 x + 1 - int p) / 2"
    by (rule dec_error [OF adjusted_bounds(2)]) (use False in auto)
  also have "\<dots> = 10 powi adjusted 10 x * (10 powi (1 - int p) / 2)"
    by (simp add: power_int_add power_int_diff)
  also have "\<dots> \<le> \<bar>x\<bar> * (10 powi (1 - int p) / 2)"
    using adjusted_bounds(1) [of 10 x] False by (intro mult_right_mono) auto
  finally show ?thesis .
qed (simp add: dec_def)

lemma dec_pos: "1 \<le> p \<Longrightarrow> 0 < x \<Longrightarrow> 0 < dec p x"
  by (simp add: dec_def sig_round_pos)

text \<open>The two sides of the relative error at 38 digits.\<close>

definition eps38 :: rat where "eps38 = 1 / (2 * 10 ^ 37)"

lemma dec38_bounds:
  assumes "0 \<le> x"
  shows "dec 38 x \<le> x * (1 + eps38)" "x * (1 - eps38) \<le> dec 38 x"
proof -
  have "\<bar>dec 38 x - x\<bar> \<le> x * eps38"
    using dec_relative_error [of 38 x] assms by (simp add: eps38_def power_int_minus divide_simps)
  then show "dec 38 x \<le> x * (1 + eps38)" "x * (1 - eps38) \<le> dec 38 x"
    by (simp_all add: algebra_simps abs_le_iff)
qed

text \<open>Evaluation on numerals.\<close>

lemma floor_numeral_divide [simp]:
  "\<lfloor>(numeral a / numeral b) :: rat\<rfloor> = numeral a div numeral b"
  "\<lfloor>- (numeral a / numeral b) :: rat\<rfloor> = - numeral a div numeral b"
  "\<lfloor>(1 / numeral b) :: rat\<rfloor> = 1 div numeral b"
  "\<lfloor>- (1 / numeral b) :: rat\<rfloor> = - 1 div numeral b"
  by (metis floor_divide_of_int_eq of_int_numeral of_int_minus minus_divide_left of_int_1)+

lemmas [eval_simps] = dec_def b64_def sig_round_def adjusted_def adj_up.simps adj_dn.simps
  round_half_even_def

lemma dec_of_int: "\<bar>n\<bar> < 10 ^ p \<Longrightarrow> dec p (of_int n) = of_int n"
  using dec_exact [of n p 0] by simp

end
