(* ===== verification/Py_Values.thy ===== *)
theory Py_Values
  imports Py_Decimal
begin

text \<open>
  Python's \<open>Decimal.quantize\<close>, sums and square roots in a context, the numeral syntax
  that \<open>Decimal(text)\<close> accepts, and the dynamically typed arguments of the program's
  entry points. The dates of the program are ISO texts or proleptic ordinals.
\<close>

section \<open>Values on a grid and quantisation\<close>

definition on_grid :: "int \<Rightarrow> rat \<Rightarrow> bool" where
  "on_grid k x \<longleftrightarrow> (\<exists>n. x = of_int n * 10 powi k)"

lemma on_gridI [intro]: "x = of_int n * 10 powi k \<Longrightarrow> on_grid k x"
  by (auto simp: on_grid_def)

lemma on_grid_0 [simp]: "on_grid k 0"
  by (auto simp: on_grid_def intro!: exI [of _ 0])

lemma on_grid_minus [simp]: "on_grid k (- x) = on_grid k x"
  by (auto simp: on_grid_def) (metis minus_mult_left of_int_minus minus_minus)+

lemma on_grid_add [intro]: "on_grid k x \<Longrightarrow> on_grid k y \<Longrightarrow> on_grid k (x + y)"
  by (auto simp: on_grid_def) (metis of_int_add distrib_right)

lemma on_grid_diff [intro]: "on_grid k x \<Longrightarrow> on_grid k y \<Longrightarrow> on_grid k (x - y)"
  using on_grid_add [of k x "- y"] by simp

lemma on_grid_abs [simp]: "on_grid k \<bar>x\<bar> = on_grid k x"
  by (simp add: abs_if)

lemma on_grid_sum_list: "(\<And>x. x \<in> set xs \<Longrightarrow> on_grid k x) \<Longrightarrow> on_grid k (sum_list xs)"
  by (induction xs) auto

lemma on_grid_div: "on_grid k x \<longleftrightarrow> (\<exists>n. x / 10 powi k = of_int n)"
  by (auto simp: on_grid_def field_simps)

lemma dec_grid:
  assumes "on_grid k x" "\<bar>x\<bar> < 10 powi (int p + k)"
  shows "dec p x = x"
proof -
  from assms obtain n where x: "x = of_int n * 10 powi k" by (auto simp: on_grid_def)
  with assms(2) have "of_int \<bar>n\<bar> * 10 powi k < 10 ^ p * (10::rat) powi k"
    by (simp add: abs_mult power_int_abs power_int_add)
  then have "(of_int \<bar>n\<bar> :: rat) < of_int (10 ^ p)" by (simp add: mult_less_cancel_right)
  then have "\<bar>n\<bar> < 10 ^ p" by (simp only: of_int_less_iff)
  then show ?thesis unfolding x by (rule dec_exact)
qed

definition quantize :: "nat \<Rightarrow> int \<Rightarrow> rat \<Rightarrow> rat res" where
  "quantize p k x =
     (let n = round_half_even (x / 10 powi k)
      in if \<bar>n\<bar> < 10 ^ p then Inr (of_int n * 10 powi k) else Inl InvalidOperation)"

lemma quantize_InrD:
  assumes "quantize p k x = Inr y"
  shows "on_grid k y" "\<bar>y\<bar> < 10 powi (int p + k)" "\<bar>y - x\<bar> \<le> 10 powi k / 2"
    "y = of_int (round_half_even (x / 10 powi k)) * 10 powi k"
proof -
  define n where "n = round_half_even (x / 10 powi k)"
  from assms have y: "y = of_int n * 10 powi k" and n: "\<bar>n\<bar> < 10 ^ p"
    by (auto simp: quantize_def Let_def n_def split: if_splits)
  then show "on_grid k y" "y = of_int (round_half_even (x / 10 powi k)) * 10 powi k"
    by (auto simp: n_def)
  have "(of_int \<bar>n\<bar> :: rat) < of_int (10 ^ p)" using n by (simp only: of_int_less_iff)
  then have "of_int \<bar>n\<bar> * 10 powi k < 10 ^ p * (10::rat) powi k"
    by (intro mult_strict_right_mono) auto
  then show "\<bar>y\<bar> < 10 powi (int p + k)"
    by (simp add: y abs_mult power_int_abs power_int_add)
  have "y - x = (of_int n - x / 10 powi k) * 10 powi k" by (simp add: y field_simps)
  then have "\<bar>y - x\<bar> = \<bar>of_int n - x / 10 powi k\<bar> * 10 powi k"
    by (simp add: abs_mult power_int_abs)
  also have "\<dots> \<le> 1/2 * 10 powi k"
    unfolding n_def by (intro mult_right_mono round_half_even_error) auto
  finally show "\<bar>y - x\<bar> \<le> 10 powi k / 2" by simp
qed

lemma quantize_nonneg: "quantize p k x = Inr y \<Longrightarrow> 0 \<le> x \<Longrightarrow> 0 \<le> y"
  using round_half_even_ge [of 0 "x / 10 powi k"]
  by (auto dest!: quantize_InrD(4) intro!: mult_nonneg_nonneg)

lemma quantize_mono:
  "quantize p k x = Inr y \<Longrightarrow> quantize p k x' = Inr y' \<Longrightarrow> x \<le> x' \<Longrightarrow> y \<le> y'"
  by (auto dest!: quantize_InrD(4) intro!: mult_right_mono round_half_even_mono divide_right_mono)

lemma quantize_grid:
  assumes "on_grid k x" "\<bar>x\<bar> < 10 powi (int p + k)"
  shows "quantize p k x = Inr x"
proof -
  from assms obtain n where x: "x = of_int n * 10 powi k" by (auto simp: on_grid_def)
  with assms(2) have "of_int \<bar>n\<bar> * 10 powi k < 10 ^ p * (10::rat) powi k"
    by (simp add: abs_mult power_int_abs power_int_add)
  then have "(of_int \<bar>n\<bar> :: rat) < of_int (10 ^ p)" by (simp add: mult_less_cancel_right)
  then have "\<bar>n\<bar> < 10 ^ p" by (simp only: of_int_less_iff)
  then show ?thesis by (simp add: quantize_def x)
qed

lemma quantize_on_grid: "quantize p k x = Inr y \<Longrightarrow> on_grid k x \<Longrightarrow> y = x"
  by (auto dest!: quantize_InrD(4) simp: on_grid_def)

lemma quantize_below: "quantize p k x = Inr y \<Longrightarrow> x < 10 powi (int p + k)"
proof (rule ccontr)
  assume q: "quantize p k x = Inr y" and "\<not> x < 10 powi (int p + k)"
  then have "of_int (10 ^ p) \<le> x / 10 powi k" by (simp add: power_int_add pos_le_divide_eq)
  then have "10 ^ p \<le> round_half_even (x / 10 powi k)" by (rule round_half_even_ge)
  with q show False by (auto simp: quantize_def Let_def split: if_splits)
qed

lemma quantize_minus: "quantize p k x = Inr y \<Longrightarrow> quantize p k (- x) = Inr (- y)"
  by (auto simp: quantize_def Let_def round_half_even_minus split: if_splits)

lemma quantize_abs_below: "quantize p k x = Inr y \<Longrightarrow> \<bar>x\<bar> < 10 powi (int p + k)"
  using quantize_below [of p k x y] quantize_below [OF quantize_minus, of p k x y] by linarith

lemma quantize_idem: "quantize p k x = Inr y \<Longrightarrow> quantize p k y = Inr y"
  by (blast intro: quantize_grid dest: quantize_InrD)

section \<open>Context arithmetic\<close>

definition ddiv :: "nat \<Rightarrow> rat \<Rightarrow> rat \<Rightarrow> rat res" where
  "ddiv p a b = (if b = 0 then Inl (if a = 0 then InvalidOperation else ZeroDivision)
                 else Inr (dec p (a / b)))"

text \<open>\<open>x ** 2\<close>: an integer power works with three more digits and then rounds.\<close>

definition dsquare :: "nat \<Rightarrow> rat \<Rightarrow> rat" where
  "dsquare p x = dec p (dec (p + 3) (x * x))"

fun dsum :: "nat \<Rightarrow> rat \<Rightarrow> rat list \<Rightarrow> rat" where
  "dsum p acc [] = acc"
| "dsum p acc (x # xs) = dsum p (dec p (acc + x)) xs"

lemma dsum_nonneg: "1 \<le> p \<Longrightarrow> 0 \<le> acc \<Longrightarrow> (\<And>x. x \<in> set xs \<Longrightarrow> 0 \<le> x) \<Longrightarrow> 0 \<le> dsum p acc xs"
proof (induction xs arbitrary: acc)
  case (Cons x xs)
  then have "0 \<le> dec p (acc + x)" by (intro rounding.rnd_nonneg [OF rounding_dec]) auto
  with Cons show ?case by simp
qed simp

lemma dsum_ge: "1 \<le> p \<Longrightarrow> dec p acc = acc \<Longrightarrow> (\<And>x. x \<in> set xs \<Longrightarrow> 0 \<le> x) \<Longrightarrow> acc \<le> dsum p acc xs"
proof (induction xs arbitrary: acc)
  case (Cons x xs)
  then have r: "rounding (dec p)" by (simp add: rounding_dec)
  have "acc \<le> dec p (acc + x)" using Cons.prems by (intro rounding.rnd_ge_fixed [OF r]) auto
  also have "\<dots> \<le> dsum p (dec p (acc + x)) xs"
    using Cons.prems by (intro Cons.IH) (auto simp: rounding.rnd_rnd [OF r])
  finally show ?case by simp
qed simp

text \<open>A sum whose partial sums keep their digits is the exact sum.\<close>

lemma dsum_exact:
  assumes "on_grid k acc" "\<And>x. x \<in> set xs \<Longrightarrow> on_grid k x"
    and "\<bar>acc\<bar> + sum_list (map abs xs) < 10 powi (int p + k)"
  shows "dsum p acc xs = acc + sum_list xs"
  using assms
proof (induction xs arbitrary: acc)
  case (Cons x xs)
  have nonneg: "0 \<le> sum_list (map abs xs)" by (rule sum_list_nonneg) auto
  have "\<bar>acc + x\<bar> < 10 powi (int p + k)" using Cons.prems(3) nonneg by simp
  with Cons.prems have eq: "dec p (acc + x) = acc + x" by (intro dec_grid) auto
  have "dsum p (acc + x) xs = acc + x + sum_list xs"
    using Cons.prems by (intro Cons.IH) auto
  then show ?case by (simp add: eq)
qed simp

function isqrt :: "int \<Rightarrow> int" where
  "isqrt n = (if n \<le> 0 then 0
     else let r = 2 * isqrt (n div 4) in if (r + 1) * (r + 1) \<le> n then r + 1 else r)"
  by pat_completeness auto
termination
  by (relation "measure nat") auto

declare isqrt.simps [simp del]

lemma isqrt_correct: "0 \<le> n \<Longrightarrow> 0 \<le> isqrt n \<and> isqrt n * isqrt n \<le> n \<and> n < (isqrt n + 1) * (isqrt n + 1)"
proof (induction n rule: isqrt.induct)
  case (1 n)
  show ?case
  proof (cases "n \<le> 0")
    case True
    with "1.prems" show ?thesis by (simp add: isqrt.simps)
  next
    case False
    define r where "r = isqrt (n div 4)"
    from "1.IH" False have r: "0 \<le> r" "r * r \<le> n div 4" "n div 4 < (r + 1) * (r + 1)"
      by (auto simp: r_def)
    then have "4 * (r * r) \<le> n" "n < 4 * ((r + 1) * (r + 1))" by linarith+
    then have "(2 * r) * (2 * r) \<le> n" "n < (2 * r + 2) * (2 * r + 2)"
      by (auto simp: algebra_simps)
    then show ?thesis
      using False r by (auto simp: isqrt.simps [of n] Let_def r_def [symmetric] algebra_simps)
  qed
qed

definition dsqrt :: "nat \<Rightarrow> rat \<Rightarrow> rat res" where
  "dsqrt p x =
     (if x < 0 then Inl InvalidOperation
      else if x = 0 then Inr 0
      else let e = adjusted 10 x div 2 - (int p - 1);
               y = x / 10 powi (2 * e);
               n = isqrt \<lfloor>y\<rfloor>;
               h = of_int n * of_int n + of_int n + 1/4
           in Inr (of_int (if y < h \<or> (y = h \<and> even n) then n else n + 1) * 10 powi e))"

lemmas [eval_simps] = quantize_def ddiv_def dsquare_def isqrt.simps dsqrt_def

section \<open>Numerals\<close>

text \<open>A decimal is finite, with its value, or one of the infinities and NaNs.\<close>

datatype pydec = Finite rat | NonFinite

definition is_digit :: "char \<Rightarrow> bool" where
  "is_digit c = (CHR ''0'' \<le> c \<and> c \<le> CHR ''9'')"

definition digit_value :: "char \<Rightarrow> int" where
  "digit_value c = int (of_char c) - 48"

definition digits_value :: "string \<Rightarrow> int" where
  "digits_value s = foldl (\<lambda>a c. 10 * a + digit_value c) 0 s"

text \<open>The letters and digits an identifier may start with.\<close>

definition identifier_start :: "char \<Rightarrow> bool" where
  "identifier_start c = ((CHR ''A'' \<le> c \<and> c \<le> CHR ''Z'') \<or> (CHR ''a'' \<le> c \<and> c \<le> CHR ''z'') \<or> is_digit c)"

text \<open>\<open>str(n)\<close> of a natural number.\<close>

fun nat_text :: "nat \<Rightarrow> string" where
  "nat_text n = (if n < 10 then [char_of (48 + n)] else nat_text (n div 10) @ [char_of (48 + n mod 10)])"

declare nat_text.simps [simp del]

definition to_lower :: "char \<Rightarrow> char" where
  "to_lower c = (if CHR ''A'' \<le> c \<and> c \<le> CHR ''Z'' then char_of (of_char c + 32 :: nat) else c)"

definition split_sign :: "string \<Rightarrow> int \<times> string" where
  "split_sign s = (case s of [] \<Rightarrow> (1, [])
     | c # cs \<Rightarrow> if c = CHR ''-'' then (-1, cs) else if c = CHR ''+'' then (1, cs) else (1, s))"

definition exponent_part :: "string \<Rightarrow> int option" where
  "exponent_part s = (case s of [] \<Rightarrow> Some 0
     | c # cs \<Rightarrow> if c = CHR ''e''
        then (let (sg, ds) = split_sign cs
              in if ds \<noteq> [] \<and> list_all is_digit ds then Some (sg * digits_value ds) else None)
        else None)"

text \<open>
  \<open>Decimal(text)\<close>: surrounding white space and underscores are dropped, letters are
  read without case, and what remains is a sign, digits with an optional point and
  exponent, an infinity or a NaN.
\<close>

definition dec_of_text :: "string \<Rightarrow> pydec option" where
  "dec_of_text t =
     (let s = map to_lower (filter (\<lambda>c. c \<noteq> CHR ''_'') (strip t));
          (sg, r) = split_sign s;
          ip = takeWhile is_digit r;
          r1 = dropWhile is_digit r;
          has_point = (r1 \<noteq> [] \<and> hd r1 = CHR ''.'');
          r2 = (if has_point then tl r1 else r1);
          fp = (if has_point then takeWhile is_digit r2 else []);
          r3 = (if has_point then dropWhile is_digit r2 else r2);
          nan = (if take 4 r = ''snan'' then drop 4 r else drop 3 r)
      in if r = ''inf'' \<or> r = ''infinity'' then Some NonFinite
         else if (take 3 r = ''nan'' \<or> take 4 r = ''snan'') \<and> list_all is_digit nan then Some NonFinite
         else if ip = [] \<and> fp = [] then None
         else (case exponent_part r3 of
                 None \<Rightarrow> None
               | Some e \<Rightarrow> Some (Finite (of_int (sg * digits_value (ip @ fp)) * 10 powi (e - int (length fp))))))"

section \<open>Dynamically typed arguments\<close>

text \<open>
  A value of static type \<open>object\<close>. A float is given by the text \<open>str\<close> prints for
  it, which is all the program reads of one; \<open>PObj\<close> is any other object.
\<close>

datatype pyval =
    PNone
  | PBool bool
  | PInt int
  | PFloat string
  | PStr string
  | PDec pydec
  | PObj

text \<open>\<open>Decimal(str(value))\<close>, as the solvers parse their parameters.\<close>

definition dec_of_str_of :: "pyval \<Rightarrow> pydec option" where
  "dec_of_str_of v = (case v of
     PInt n \<Rightarrow> Some (Finite (of_int n))
   | PFloat t \<Rightarrow> dec_of_text t
   | PStr t \<Rightarrow> dec_of_text t
   | PDec d \<Rightarrow> Some d
   | _ \<Rightarrow> None)"

text \<open>
  A document as the JSON reader returns it. The loaders refuse duplicate keys, so an object is an
  association list; a number is kept as its text.
\<close>

datatype json = JNull | JBool bool | JNumber string | JString string | JList "json list" | JObject "(string \<times> json) list"

definition json_get :: "json \<Rightarrow> string \<Rightarrow> json" where
  "json_get d k = (case d of JObject kvs \<Rightarrow> (case map_of kvs k of None \<Rightarrow> JNull | Some v \<Rightarrow> v) | _ \<Rightarrow> JNull)"

end
