(* ===== verification/Equations.thy ===== *)
theory Equations
  imports Py_Values
begin

text \<open>
  The accounting kernel \<open>qme/quant/equations.py\<close>: evidence-bound prices and marks,
  trades, the portfolio state with its net asset value, the self-financing rebalance, share
  rounding, splits and dividends, fill timing, the capacity diagnostic and the return
  metrics. A dataclass is a record or a one-constructor datatype and its
  \<open>__post_init__\<close> a \<open>mk_\<close> function that returns the normalised value or the
  exception. Type tests on fields with a static type are discharged by the HOL types;
  arguments declared \<open>object\<close> are \<^typ>\<open>pyval\<close>.
  Operations that run in the caller's decimal context take its precision \<open>p\<close>.
\<close>

section \<open>Constants and argument checks\<close>

definition DECIMAL_PRECISION :: nat where "DECIMAL_PRECISION = 38"
definition DEFAULT_PRECISION :: nat where "DEFAULT_PRECISION = 28"

text \<open>A quantum is given by its exponent: \<open>0.00000001\<close> is \<open>- 8\<close>.\<close>

definition INTERNAL_CURRENCY_QUANTUM :: int where "INTERNAL_CURRENCY_QUANTUM = - 8"
definition REPORT_CURRENCY_QUANTUM :: int where "REPORT_CURRENCY_QUANTUM = - 2"
definition SHARE_STORAGE_QUANTUM :: int where "SHARE_STORAGE_QUANTUM = - 8"
definition COMPARISON_TOLERANCE :: rat where "COMPARISON_TOLERANCE = 1 / 1000000"
definition BPS_DENOMINATOR :: rat where "BPS_DENOMINATOR = 10000"

lemmas equations_constants = DECIMAL_PRECISION_def DEFAULT_PRECISION_def
  INTERNAL_CURRENCY_QUANTUM_def REPORT_CURRENCY_QUANTUM_def SHARE_STORAGE_QUANTUM_def
  COMPARISON_TOLERANCE_def BPS_DENOMINATOR_def

definition required_text :: "string \<Rightarrow> string \<Rightarrow> string res" where
  "required_text value name =
     (if strip value = [] then Inl (ValueError (name @ '' must be non-empty text'')) else Inr (strip value))"

definition is_hex :: "char \<Rightarrow> bool" where
  "is_hex c = (is_digit c \<or> (CHR ''a'' \<le> c \<and> c \<le> CHR ''f''))"

definition is_sha256 :: "string \<Rightarrow> bool" where
  "is_sha256 s = (length s = 64 \<and> list_all is_hex s)"

definition required_sha256 :: "string \<Rightarrow> string \<Rightarrow> string res" where
  "required_sha256 value name =
     rbind (required_text value name) (\<lambda>t.
       let normalized = map to_lower t
       in if is_sha256 normalized then Inr normalized
          else Inl (ValueError (name @ '' must be a lowercase SHA-256 hex digest'')))"

text \<open>An instant in microseconds; a naive one has no offset to UTC.\<close>

datatype pydatetime = Aware int | Naive int

definition aware_datetime :: "pydatetime \<Rightarrow> string \<Rightarrow> int res" where
  "aware_datetime value name = (case value of
     Aware t \<Rightarrow> Inr t
   | Naive _ \<Rightarrow> Inl (ValueError (name @ '' must be a timezone-aware datetime'')))"

definition decimal :: "pyval \<Rightarrow> string \<Rightarrow> rat res" where
  "decimal value name =
     rbind (case value of
         PBool _ \<Rightarrow> Inl (TypeError (name @ '' must be a base-10 value, not binary float''))
       | PFloat _ \<Rightarrow> Inl (TypeError (name @ '' must be a base-10 value, not binary float''))
       | PDec d \<Rightarrow> Inr d
       | PInt n \<Rightarrow> Inr (Finite (of_int n))
       | PStr t \<Rightarrow> (case dec_of_text t of
            None \<Rightarrow> Inl (ValueError (name @ '' is not a valid base-10 value''))
          | Some d \<Rightarrow> Inr d)
       | _ \<Rightarrow> Inl (TypeError (name @ '' must be Decimal, str, or int'')))
     (\<lambda>result. case result of
         Finite x \<Rightarrow> Inr x
       | NonFinite \<Rightarrow> Inl (ValueError (name @ '' must be finite'')))"

abbreviation PDecimal :: "rat \<Rightarrow> pyval" where "PDecimal x \<equiv> PDec (Finite x)"

lemma decimal_PDecimal [simp]: "decimal (PDecimal x) name = Inr x"
  by (simp add: decimal_def)

definition quantize_at :: "int \<Rightarrow> rat \<Rightarrow> rat res" where
  "quantize_at quantum value = quantize DECIMAL_PRECISION quantum value"

definition require_quantum :: "rat \<Rightarrow> int \<Rightarrow> string \<Rightarrow> rat res" where
  "require_quantum value quantum name =
     rbind (quantize_at quantum value) (\<lambda>quantized.
       if quantized \<noteq> value then Inl (ValueError (name @ '' is not representable at quantum''))
       else Inr quantized)"

lemmas [eval_simps] = equations_constants required_text_def decimal_def quantize_at_def require_quantum_def

definition round_report_currency :: "pyval \<Rightarrow> rat res" where
  "round_report_currency value =
     rbind (decimal value ''report_currency'') (quantize_at REPORT_CURRENCY_QUANTUM)"

fun decimal_mapping_loop ::
    "string \<Rightarrow> bool \<Rightarrow> bool \<Rightarrow> (string, rat) dict \<Rightarrow> (string, pyval) dict \<Rightarrow> (string, rat) dict res" where
  "decimal_mapping_loop name non_negative positive converted [] = Inr converted"
| "decimal_mapping_loop name non_negative positive converted ((raw_key, raw_value) # rest) =
     (let key = strip raw_key in
      if key = [] \<or> dict_get converted key \<noteq> None
      then Inl (ValueError (name @ '' contains a blank or duplicate symbol''))
      else rbind (decimal raw_value (name @ ''['' @ key @ '']'')) (\<lambda>value.
        if positive \<and> value \<le> 0 then Inl (ValueError (name @ ''['' @ key @ ''] must be positive''))
        else if non_negative \<and> value < 0 then Inl (ValueError (name @ ''['' @ key @ ''] must be non-negative''))
        else decimal_mapping_loop name non_negative positive (dict_set converted key value) rest))"

definition decimal_mapping ::
    "(string, pyval) dict \<Rightarrow> string \<Rightarrow> bool \<Rightarrow> bool \<Rightarrow> (string, rat) dict res" where
  "decimal_mapping values name non_negative positive =
     decimal_mapping_loop name non_negative positive [] values"

section \<open>Evidence-bound observations\<close>

record market_evidence_binding =
  security_id :: string
  source_id :: string
  snapshot_id :: string
  snapshot_sha256 :: string
  calendar_id :: string
  calendar_sha256 :: string
  observation_start_session :: int
  observation_end_session :: int
  available_at :: pydatetime
  analysis_as_of :: pydatetime

definition mk_market_evidence_binding ::
    "market_evidence_binding \<Rightarrow> market_evidence_binding res" where
  "mk_market_evidence_binding e =
     rbind (required_text (security_id e) ''security_id'') (\<lambda>sec.
     rbind (required_text (source_id e) ''source_id'') (\<lambda>src.
     rbind (required_text (snapshot_id e) ''snapshot_id'') (\<lambda>snap.
     rbind (required_text (calendar_id e) ''calendar_id'') (\<lambda>cal.
     rbind (required_sha256 (snapshot_sha256 e) ''snapshot_sha256'') (\<lambda>snap_sha.
     rbind (required_sha256 (calendar_sha256 e) ''calendar_sha256'') (\<lambda>cal_sha.
     if observation_start_session e > observation_end_session e
     then Inl (ValueError ''observation_start_session must not follow observation_end_session'')
     else
     rbind (aware_datetime (available_at e) ''available_at'') (\<lambda>available.
     rbind (aware_datetime (analysis_as_of e) ''analysis_as_of'') (\<lambda>cutoff.
     if available > cutoff
     then Inl (ValueError ''market evidence was unavailable at analysis_as_of'')
     else Inr (e\<lparr>security_id := sec, source_id := src, snapshot_id := snap, calendar_id := cal,
                 snapshot_sha256 := snap_sha, calendar_sha256 := cal_sha\<rparr>)))))))))"

datatype raw_execution_price = RawExecutionPrice (price_value: rat) (price_evidence: market_evidence_binding)
datatype raw_mark = RawMark (mark_value: rat) (mark_evidence: market_evidence_binding)
datatype raw_adv_notional = RawAdvNotional (adv_value: rat) (adv_evidence: market_evidence_binding)

definition mk_raw_execution_price :: "pyval \<Rightarrow> market_evidence_binding \<Rightarrow> raw_execution_price res" where
  "mk_raw_execution_price value evidence =
     rbind (decimal value ''raw_execution_price'') (\<lambda>v.
       if v \<le> 0 then Inl (ValueError ''raw_execution_price must be positive'')
       else Inr (RawExecutionPrice v evidence))"

definition mk_raw_mark :: "pyval \<Rightarrow> market_evidence_binding \<Rightarrow> raw_mark res" where
  "mk_raw_mark value evidence =
     rbind (decimal value ''raw_mark'') (\<lambda>v.
       if v \<le> 0 then Inl (ValueError ''raw_mark must be positive'')
       else Inr (RawMark v evidence))"

definition mk_raw_adv_notional :: "pyval \<Rightarrow> market_evidence_binding \<Rightarrow> raw_adv_notional res" where
  "mk_raw_adv_notional value evidence =
     rbind (decimal value ''raw_adv_notional'') (\<lambda>v.
       if v \<le> 0 then Inl (ValueError ''raw_adv_notional must be positive'')
       else Inr (RawAdvNotional v evidence))"

record exchange_session_ref =
  session_calendar_id :: string
  session_calendar_sha256 :: string
  session_date :: int
  ordinal :: int

definition mk_exchange_session_ref :: "string \<Rightarrow> string \<Rightarrow> int \<Rightarrow> int \<Rightarrow> exchange_session_ref res" where
  "mk_exchange_session_ref cal sha day ord =
     rbind (required_text cal ''calendar_id'') (\<lambda>cal'.
     rbind (required_sha256 sha ''calendar_sha256'') (\<lambda>sha'.
       if ord < 0 then Inl (ValueError ''session ordinal must be a non-negative integer'')
       else Inr \<lparr>session_calendar_id = cal', session_calendar_sha256 = sha', session_date = day, ordinal = ord\<rparr>))"

section \<open>Trades and transaction taxes\<close>

record trade =
  symbol :: string
  delta_shares :: rat
  execution_price :: raw_execution_price

definition mk_trade :: "string \<Rightarrow> pyval \<Rightarrow> raw_execution_price \<Rightarrow> trade res" where
  "mk_trade raw_symbol raw_delta price =
     (let sym = strip raw_symbol in
      if sym = [] then Inl (ValueError ''trade symbol must be non-empty'')
      else
      rbind (decimal raw_delta ''delta_shares'') (\<lambda>d.
      rbind (require_quantum d SHARE_STORAGE_QUANTUM ''delta_shares'') (\<lambda>delta.
      if delta = 0 then Inl (ValueError ''zero-share fills are not ledger events'')
      else if security_id (price_evidence price) \<noteq> sym
      then Inl (ValueError ''execution-price evidence security_id does not match trade symbol'')
      else Inr \<lparr>symbol = sym, delta_shares = delta, execution_price = price\<rparr>)))"

definition signed_notional :: "trade \<Rightarrow> rat res" where
  "signed_notional t =
     quantize_at INTERNAL_CURRENCY_QUANTUM
       (dec DECIMAL_PRECISION (delta_shares t * price_value (execution_price t)))"

definition gross_notional :: "nat \<Rightarrow> trade \<Rightarrow> rat res" where
  "gross_notional p t = rbind (signed_notional t) (\<lambda>n. Inr (dec p \<bar>n\<bar>))"

datatype transaction_tax_side = TaxNone | TaxBuy | TaxSell | TaxBoth

record transaction_tax_policy =
  policy_id :: string
  policy_sha256 :: string
  policy_source_id :: string
  assessment_base :: string
  assessment_side :: transaction_tax_side
  rate_bps :: rat
  rounding_mode :: string
  currency_quantum :: rat

definition mk_transaction_tax_policy ::
    "string \<Rightarrow> string \<Rightarrow> string \<Rightarrow> string \<Rightarrow> transaction_tax_side \<Rightarrow> pyval \<Rightarrow> string \<Rightarrow> pyval
     \<Rightarrow> transaction_tax_policy res" where
  "mk_transaction_tax_policy pid sha src base side raw_rate mode raw_quantum =
     rbind (required_text pid ''policy_id'') (\<lambda>pid'.
     rbind (required_text src ''source_id'') (\<lambda>src'.
     rbind (required_sha256 sha ''policy_sha256'') (\<lambda>sha'.
     if base \<noteq> ''RAW_FILL_NOTIONAL''
     then Inl (ValueError ''unsupported transaction-tax assessment base'')
     else
     rbind (decimal raw_rate ''transaction_tax_rate_bps'') (\<lambda>rate.
     rbind (decimal raw_quantum ''transaction_tax_currency_quantum'') (\<lambda>quantum.
     if rate < 0 \<or> rate \<ge> BPS_DENOMINATOR
     then Inl (ValueError ''transaction-tax rate must be in [0, 10000) bps'')
     else if side = TaxNone \<and> rate \<noteq> 0
     then Inl (ValueError ''NONE transaction-tax side requires a zero rate'')
     else if side \<noteq> TaxNone \<and> rate = 0
     then Inl (ValueError ''a non-NONE transaction-tax side requires a positive rate'')
     else if mode \<noteq> ''ROUND_HALF_EVEN'' \<or> quantum \<noteq> 10 powi INTERNAL_CURRENCY_QUANTUM
     then Inl (ValueError ''unsupported transaction-tax rounding policy'')
     else Inr \<lparr>policy_id = pid', policy_sha256 = sha', policy_source_id = src', assessment_base = base,
               assessment_side = side, rate_bps = rate, rounding_mode = mode, currency_quantum = quantum\<rparr>)))))"

definition assess :: "nat \<Rightarrow> transaction_tax_policy \<Rightarrow> trade \<Rightarrow> rat res" where
  "assess p policy t =
     (let applies = assessment_side policy = TaxBoth
            \<or> (assessment_side policy = TaxBuy \<and> delta_shares t > 0)
            \<or> (assessment_side policy = TaxSell \<and> delta_shares t < 0)
      in if \<not> applies then quantize_at INTERNAL_CURRENCY_QUANTUM 0
         else rbind (gross_notional p t) (\<lambda>gross.
           quantize_at INTERNAL_CURRENCY_QUANTUM
             (dec p (dec p (rate_bps policy / BPS_DENOMINATOR) * gross))))"

lemmas [eval_simps] = mk_trade_def signed_notional_def gross_notional_def assess_def

section \<open>The portfolio state\<close>

record portfolio_state =
  cash :: rat
  positions :: "(string, rat) dict"
  raw_marks :: "(string, raw_mark) dict"
  receivables :: rat

fun raw_marks_loop ::
    "(string, raw_mark) dict \<Rightarrow> (string, raw_mark) dict \<Rightarrow> (string, raw_mark) dict res" where
  "raw_marks_loop acc [] = Inr acc"
| "raw_marks_loop acc ((raw_symbol, mark) # rest) =
     (let sym = strip raw_symbol in
      if sym = [] \<or> dict_get acc sym \<noteq> None
      then Inl (ValueError ''raw_marks contains a blank or duplicate symbol'')
      else if security_id (mark_evidence mark) \<noteq> sym
      then Inl (ValueError ''raw-mark evidence security_id does not match mapping symbol'')
      else raw_marks_loop (dict_set acc sym mark) rest)"

fun storage_checked :: "string \<times> rat \<Rightarrow> (string \<times> rat) res" where
  "storage_checked (s, q) =
     rbind (require_quantum q SHARE_STORAGE_QUANTUM (''positions['' @ s @ '']'')) (\<lambda>q'. Inr (s, q'))"

definition mk_portfolio_state ::
    "pyval \<Rightarrow> (string, pyval) dict \<Rightarrow> (string, raw_mark) dict \<Rightarrow> pyval \<Rightarrow> portfolio_state res" where
  "mk_portfolio_state raw_cash raw_positions marks raw_receivables =
     rbind (decimal raw_cash ''cash'') (\<lambda>c0.
     rbind (quantize_at INTERNAL_CURRENCY_QUANTUM c0) (\<lambda>c.
     rbind (decimal raw_receivables ''receivables'') (\<lambda>r0.
     rbind (quantize_at INTERNAL_CURRENCY_QUANTUM r0) (\<lambda>r.
     if c < 0 then Inl (ValueError ''canonical no-margin cash must be non-negative'')
     else if r < 0 then Inl (ValueError ''receivables must be non-negative'')
     else
     rbind (decimal_mapping raw_positions ''positions'' True False) (\<lambda>ps0.
     rbind (map_res storage_checked ps0) (\<lambda>ps.
     rbind (raw_marks_loop [] marks) (\<lambda>ms.
     if list_ex (\<lambda>(s, q). q \<noteq> 0 \<and> dict_get ms s = None) ps
     then Inl (ValueError ''missing raw marks for positions'')
     else Inr \<lparr>cash = c, positions = ps, raw_marks = ms, receivables = r\<rparr>)))))))"

fun marked_position :: "(string, raw_mark) dict \<Rightarrow> string \<times> rat \<Rightarrow> rat res" where
  "marked_position marks (s, q) = (case dict_get marks s of
       None \<Rightarrow> Inl KeyError
     | Some m \<Rightarrow> quantize_at INTERNAL_CURRENCY_QUANTUM (dec DECIMAL_PRECISION (q * mark_value m)))"

definition nav :: "portfolio_state \<Rightarrow> rat res" where
  "nav s =
     rbind (map_res (marked_position (raw_marks s)) (positions s)) (\<lambda>vs.
       let marked_positions = dsum DECIMAL_PRECISION 0 vs
       in quantize_at INTERNAL_CURRENCY_QUANTUM
            (dec DECIMAL_PRECISION
              (dec DECIMAL_PRECISION (cash s + marked_positions) + receivables s)))"

lemmas [eval_simps] = decimal_mapping_def mk_portfolio_state_def nav_def

section \<open>The self-financing rebalance\<close>

record rebalance_result =
  result_before :: portfolio_state
  result_after :: portfolio_state
  result_trades :: "trade list"
  gross_trade_notional :: rat
  transaction_cost :: rat
  transaction_taxes :: rat
  gtn_ratio :: rat
  one_way_turnover :: rat

text \<open>The loop state of \<open>rebalance\<close>: the ledger so far and whether a buy was seen.\<close>

record rebalance_ledger =
  led_cash :: rat
  led_positions :: "(string, rat) dict"
  led_gross :: rat
  led_cost :: rat
  led_taxes :: rat
  led_buy_started :: bool

definition apply_fill ::
    "rat \<Rightarrow> transaction_tax_policy \<Rightarrow> rebalance_ledger \<Rightarrow> trade \<Rightarrow> rebalance_ledger res" where
  "apply_fill bps policy l t =
     (let buy = delta_shares t > 0 in
      if \<not> buy \<and> led_buy_started l then Inl (ValueError ''sell fills must precede every buy fill'')
      else let quantity = dec DECIMAL_PRECISION (dict_get_or (led_positions l) (symbol t) 0 + delta_shares t) in
      if quantity < 0 then Inl (ValueError (''trade would create a short position in '' @ symbol t))
      else
      rbind (gross_notional DECIMAL_PRECISION t) (\<lambda>gross.
      rbind (quantize_at INTERNAL_CURRENCY_QUANTUM
               (dec DECIMAL_PRECISION (dec DECIMAL_PRECISION (bps / BPS_DENOMINATOR) * gross))) (\<lambda>fill_cost.
      rbind (assess DECIMAL_PRECISION policy t) (\<lambda>fill_tax.
      rbind (signed_notional t) (\<lambda>signed.
      rbind (quantize_at INTERNAL_CURRENCY_QUANTUM
               (dec DECIMAL_PRECISION (dec DECIMAL_PRECISION (dec DECIMAL_PRECISION
                  (led_cash l - signed) - fill_cost) - fill_tax))) (\<lambda>cash_after.
      if cash_after < 0
      then Inl (ValueError ((if buy then ''buy'' else ''sell'') @ '' stage produces negative cash''))
      else Inr \<lparr>led_cash = cash_after,
                led_positions = dict_set (led_positions l) (symbol t) quantity,
                led_gross = dec DECIMAL_PRECISION (led_gross l + gross),
                led_cost = dec DECIMAL_PRECISION (led_cost l + fill_cost),
                led_taxes = dec DECIMAL_PRECISION (led_taxes l + fill_tax),
                led_buy_started = (led_buy_started l \<or> buy)\<rparr>))))))"

definition initial_ledger :: "portfolio_state \<Rightarrow> rebalance_ledger" where
  "initial_ledger pre =
     \<lparr>led_cash = cash pre, led_positions = positions pre, led_gross = 0, led_cost = 0,
      led_taxes = 0, led_buy_started = False\<rparr>"

definition rebalance ::
    "portfolio_state \<Rightarrow> trade list \<Rightarrow> pyval \<Rightarrow> transaction_tax_policy \<Rightarrow> pyval
     \<Rightarrow> (string, raw_mark) dict option \<Rightarrow> pyval option \<Rightarrow> rebalance_result res" where
  "rebalance pre fills cost_rate_bps tax_policy external raw_marks_after receivables_after =
     (if fills = [] then Inl (ValueError ''a rebalance requires at least one non-zero fill'')
      else
      rbind (decimal cost_rate_bps ''transaction_cost_rate_bps'') (\<lambda>bps.
      rbind (decimal external ''declared_external_flow'') (\<lambda>external_flow.
      if bps < 0 \<or> bps \<ge> BPS_DENOMINATOR
      then Inl (ValueError ''transaction-cost rate must be in [0, 10000) bps'')
      else if external_flow \<noteq> 0
      then Inl (Raised ''ExternalFlowNotSupported'' ''canonical runs reject deposits and withdrawals'')
      else
      rbind (nav pre) (\<lambda>nav_minus.
      if nav_minus \<le> 0 then Inl (ValueError ''NAV_minus must be positive'')
      else
      rbind (fold_res (apply_fill bps tax_policy) (initial_ledger pre) fills) (\<lambda>l.
      let marks = (case raw_marks_after of None \<Rightarrow> raw_marks pre | Some m \<Rightarrow> m) in
      rbind (case receivables_after of None \<Rightarrow> Inr (receivables pre)
             | Some r \<Rightarrow> decimal r ''receivables_after'') (\<lambda>recv.
      rbind (mk_portfolio_state (PDecimal (led_cash l))
               (map (\<lambda>(s, q). (s, PDecimal q)) (led_positions l)) marks (PDecimal recv)) (\<lambda>after.
      rbind (ddiv DECIMAL_PRECISION (led_gross l) nav_minus) (\<lambda>gtn.
      rbind (ddiv DECIMAL_PRECISION (led_gross l) (dec DECIMAL_PRECISION (2 * nav_minus))) (\<lambda>turnover.
      Inr \<lparr>result_before = pre, result_after = after, result_trades = fills,
           gross_trade_notional = led_gross l, transaction_cost = led_cost l,
           transaction_taxes = led_taxes l, gtn_ratio = gtn, one_way_turnover = turnover\<rparr>)))))))))"

lemmas [eval_simps] = apply_fill_def initial_ledger_def rebalance_def

definition signed_trade_notional :: "nat \<Rightarrow> rebalance_result \<Rightarrow> rat res" where
  "signed_trade_notional p r =
     rbind (map_res signed_notional (result_trades r)) (\<lambda>ns. Inr (dsum p 0 ns))"

definition common_mark_trade :: "(string, raw_mark) dict \<Rightarrow> trade \<Rightarrow> bool" where
  "common_mark_trade marks t = (case dict_get marks (symbol t) of
     None \<Rightarrow> False | Some m \<Rightarrow> mark_value m = price_value (execution_price t))"

text \<open>Dictionaries are compared as mappings: the order of the entries does not count.\<close>

definition same_marks :: "(string, raw_mark) dict \<Rightarrow> (string, raw_mark) dict \<Rightarrow> bool" where
  "same_marks a b = list_all (\<lambda>k. dict_get a k = dict_get b k) (map fst a @ map fst b)"

definition self_financing_error :: "nat \<Rightarrow> rebalance_result \<Rightarrow> rat res" where
  "self_financing_error p r =
     (if receivables (result_before r) \<noteq> receivables (result_after r)
      then Inl (ValueError ''self-financing identity requires unchanged receivables'')
      else if \<not> same_marks (raw_marks (result_before r)) (raw_marks (result_after r))
      then Inl (ValueError ''self-financing identity requires common before/after marks'')
      else if \<not> list_all (common_mark_trade (raw_marks (result_before r))) (result_trades r)
      then Inl (ValueError ''self-financing identity requires execution price equal to common mark'')
      else
      rbind (nav (result_before r)) (\<lambda>nav_before.
      rbind (nav (result_after r)) (\<lambda>nav_after.
      let expected = dec p (dec p (nav_before - transaction_cost r) - transaction_taxes r)
      in Inr (dec p (nav_after - expected)))))"

definition assert_self_financing :: "nat \<Rightarrow> rebalance_result \<Rightarrow> unit res" where
  "assert_self_financing p r =
     rbind (self_financing_error p r) (\<lambda>residual.
       if dec p \<bar>residual\<bar> > COMPARISON_TOLERANCE
       then Inl (AssertionError ''self-financing residual exceeds tolerance'') else Inr ())"

section \<open>Shares, splits and dividends\<close>

definition round_long_target_shares :: "pyval \<Rightarrow> raw_execution_price \<Rightarrow> pyval \<Rightarrow> rat res" where
  "round_long_target_shares target_notional price order_quantum =
     rbind (decimal target_notional ''target_notional'') (\<lambda>notional.
     rbind (decimal order_quantum ''order_quantum'') (\<lambda>quantum.
       if notional < 0 \<or> price_value price \<le> 0 \<or> quantum \<le> 0
       then Inl (ValueError ''target_notional must be non-negative; price and quantum must be positive'')
       else
       rbind (ddiv DECIMAL_PRECISION notional (price_value price)) (\<lambda>x.
       rbind (ddiv DECIMAL_PRECISION x quantum) (\<lambda>y.
       Inr (dec DECIMAL_PRECISION (of_int \<lfloor>y\<rfloor> * quantum))))))"

definition apply_split :: "pyval \<Rightarrow> pyval \<Rightarrow> rat res" where
  "apply_split quantity split_factor =
     rbind (decimal quantity ''quantity'') (\<lambda>shares.
     rbind (decimal split_factor ''split_factor'') (\<lambda>factor.
       if shares < 0 \<or> factor \<le> 0
       then Inl (ValueError ''quantity must be non-negative and split_factor must be positive'')
       else require_quantum (dec DECIMAL_PRECISION (shares * factor)) SHARE_STORAGE_QUANTUM
              ''post_split_quantity''))"

definition dividend_receivable :: "pyval \<Rightarrow> pyval \<Rightarrow> rat res" where
  "dividend_receivable eligible_quantity raw_cash_per_share =
     rbind (decimal eligible_quantity ''eligible_quantity'') (\<lambda>quantity.
     rbind (decimal raw_cash_per_share ''raw_cash_per_share'') (\<lambda>per_share.
       if quantity < 0 \<or> per_share < 0
       then Inl (ValueError ''dividend quantity and cash per share must be non-negative'')
       else quantize_at INTERNAL_CURRENCY_QUANTUM (dec DECIMAL_PRECISION (quantity * per_share))))"

definition validate_fill_timing ::
    "exchange_session_ref \<Rightarrow> exchange_session_ref \<Rightarrow> exchange_session_ref \<Rightarrow> unit res" where
  "validate_fill_timing signal_session eligible_session fill_session =
     (let ident = (\<lambda>s. (session_calendar_id s, session_calendar_sha256 s)) in
      if \<not> (ident signal_session = ident eligible_session \<and> ident signal_session = ident fill_session)
      then Inl (ValueError ''fill timing sessions do not share one calendar ID and hash'')
      else if ordinal eligible_session \<noteq> ordinal signal_session + 1
      then Inl (ValueError ''eligible session must be the consecutive exchange-session ordinal'')
      else if session_date eligible_session \<le> session_date signal_session
      then Inl (ValueError ''eligible session date must follow the signal session date'')
      else if ordinal fill_session < ordinal eligible_session
      then Inl (ValueError ''fill precedes the declared eligible session'')
      else if session_date fill_session < session_date eligible_session
      then Inl (ValueError ''fill date precedes the declared eligible session'')
      else Inr ())"

section \<open>The fixed-trade capacity diagnostic\<close>

record capacity_result =
  participation_by_symbol :: "(string, rat) dict"
  utilization_by_symbol :: "(string, rat) dict"
  maximum_utilization :: rat
  within_limit :: bool

fun adv_loop :: "(string, raw_adv_notional) dict \<Rightarrow> (string, raw_adv_notional) dict
    \<Rightarrow> (string, raw_adv_notional) dict res" where
  "adv_loop acc [] = Inr acc"
| "adv_loop acc ((raw_symbol, obs) # rest) =
     (let sym = strip raw_symbol in
      if sym = [] \<or> dict_get acc sym \<noteq> None
      then Inl (ValueError ''raw_adv_notional contains a blank or duplicate symbol'')
      else if security_id (adv_evidence obs) \<noteq> sym
      then Inl (ValueError ''raw-ADV evidence security_id does not match mapping symbol'')
      else adv_loop (dict_set acc sym obs) rest)"

definition add_notional :: "nat \<Rightarrow> (string, raw_adv_notional) dict \<Rightarrow> (string, rat) dict \<Rightarrow> trade
    \<Rightarrow> (string, rat) dict res" where
  "add_notional p adv notionals t =
     (if dict_get adv (symbol t) = None
      then Inl (ValueError (''missing raw ADV notional for '' @ symbol t))
      else rbind (gross_notional p t) (\<lambda>gross.
        Inr (dict_set notionals (symbol t) (dec p (dict_get_or notionals (symbol t) 0 + gross)))))"

definition evaluate_capacity ::
    "nat \<Rightarrow> trade list \<Rightarrow> (string, raw_adv_notional) dict \<Rightarrow> pyval \<Rightarrow> capacity_result res" where
  "evaluate_capacity p fills raw_adv maximum_participation =
     (if fills = [] then Inl (ValueError ''capacity requires at least one trade'')
      else
      rbind (decimal maximum_participation ''maximum_participation'') (\<lambda>limit.
      if limit \<le> 0 \<or> limit > 1 then Inl (ValueError ''maximum_participation must be in (0, 1]'')
      else
      rbind (adv_loop [] raw_adv) (\<lambda>adv.
      rbind (fold_res (add_notional p adv) [] fills) (\<lambda>notionals.
      rbind (map_res (\<lambda>(s, n). case dict_get adv s of
                 None \<Rightarrow> Inl KeyError
               | Some obs \<Rightarrow> rbind (ddiv DECIMAL_PRECISION n (adv_value obs)) (\<lambda>v. Inr (s, v))) notionals) (\<lambda>part.
      rbind (map_res (\<lambda>(s, v). rbind (ddiv DECIMAL_PRECISION v limit) (\<lambda>u. Inr (s, u))) part) (\<lambda>util.
      let maximum = Max (set (map snd util))
      in Inr \<lparr>participation_by_symbol = part, utilization_by_symbol = util,
              maximum_utilization = maximum, within_limit = (maximum \<le> 1)\<rparr>))))))"

section \<open>Return metrics\<close>

datatype metric_status = DEFINED | UNDEFINED

record metric_result =
  status :: metric_status
  metric_value :: "rat option"
  observations :: int
  reason :: "string option"
  zero_return_count :: "int option"
  total_observations :: "int option"

definition mk_metric_result ::
    "metric_status \<Rightarrow> rat option \<Rightarrow> int \<Rightarrow> string option \<Rightarrow> int option \<Rightarrow> int option \<Rightarrow> metric_result res" where
  "mk_metric_result st v n why zeros tot =
     (if n < 0 then Inl (ValueError ''observations must be non-negative'')
      else if st = DEFINED \<and> v = None then Inl (ValueError ''a defined metric requires a value'')
      else if st = UNDEFINED \<and> (v \<noteq> None \<or> why = None \<or> why = Some [])
      then Inl (ValueError ''an undefined metric requires no value and a reason'')
      else if zeros \<noteq> None \<and> the zeros < 0
      then Inl (ValueError ''zero_return_count must be non-negative'')
      else if (zeros = None) \<noteq> (tot = None)
      then Inl (ValueError ''hit-rate count evidence must be supplied together'')
      else if tot \<noteq> None \<and> the tot < n
      then Inl (ValueError ''total_observations cannot be smaller than observations'')
      else if zeros \<noteq> None \<and> tot \<noteq> Some (n + the zeros)
      then Inl (ValueError ''hit-rate count evidence does not reconcile'')
      else Inr \<lparr>status = st, metric_value = v, observations = n, reason = why,
                zero_return_count = zeros, total_observations = tot\<rparr>)"

definition undefined_metric :: "nat \<Rightarrow> string \<Rightarrow> metric_result res" where
  "undefined_metric n why = mk_metric_result UNDEFINED None (int n) (Some why) None None"

definition defined_metric :: "nat \<Rightarrow> rat \<Rightarrow> metric_result res" where
  "defined_metric n v = mk_metric_result DEFINED (Some v) (int n) None None None"

definition decimals :: "string \<Rightarrow> pyval list \<Rightarrow> rat list res" where
  "decimals name vs = map_res (\<lambda>v. decimal v name) vs"

fun returns_of :: "rat list \<Rightarrow> rat list res" where
  "returns_of (a # b # rest) =
     rbind (ddiv DECIMAL_PRECISION b a) (\<lambda>q.
     rbind (returns_of (b # rest)) (\<lambda>rs. Inr (dec DECIMAL_PRECISION (q - 1) # rs)))"
| "returns_of _ = Inr []"

definition period_returns :: "pyval list \<Rightarrow> pyval list option \<Rightarrow> rat list res" where
  "period_returns navs external_flows =
     rbind (decimals ''NAV'' navs) (\<lambda>values.
       if length values < 2 then Inl (ValueError ''at least two NAV observations are required'')
       else if list_ex (\<lambda>v. v \<le> 0) values then Inl (ValueError ''NAV observations must be positive'')
       else
       rbind (case external_flows of None \<Rightarrow> Inr ()
         | Some fs \<Rightarrow> rbind (decimals ''external_flow'' fs) (\<lambda>flows.
             if length flows \<noteq> length values - 1
             then Inl (ValueError ''external_flows must align with return intervals'')
             else if list_ex (\<lambda>f. f \<noteq> 0) flows
             then Inl (Raised ''ExternalFlowNotSupported'' ''time-weighted external-flow returns are not frozen'')
             else Inr ())) (\<lambda>_.
       returns_of values))"

definition mean :: "nat \<Rightarrow> rat list \<Rightarrow> rat res" where
  "mean p values = ddiv p (dsum p 0 values) (of_nat (length values))"

definition sample_std :: "nat \<Rightarrow> rat list \<Rightarrow> rat option res" where
  "sample_std p values =
     (if length values < 2 then Inr None
      else rbind (mean p values) (\<lambda>m.
        rbind (ddiv p (dsum p 0 (map (\<lambda>v. dsquare p (dec p (v - m))) values))
                 (of_nat (length values - 1))) (\<lambda>variance.
        rbind (dsqrt p variance) (\<lambda>s. Inr (Some s)))))"

definition annual_volatility :: "pyval list \<Rightarrow> pyval \<Rightarrow> metric_result res" where
  "annual_volatility returns annualization_factor =
     rbind (decimals ''return'' returns) (\<lambda>values.
     rbind (decimal annualization_factor ''annualization_factor'') (\<lambda>factor.
       if factor \<le> 0 then Inl (ValueError ''annualization_factor must be positive'')
       else
       rbind (sample_std DECIMAL_PRECISION values) (\<lambda>std.
       case std of None \<Rightarrow> undefined_metric (length values) ''INSUFFICIENT_OBSERVATIONS''
       | Some s \<Rightarrow> rbind (dsqrt DECIMAL_PRECISION factor) (\<lambda>root.
           defined_metric (length values) (dec DECIMAL_PRECISION (root * s))))))"

text \<open>The common part of the Sharpe and information ratios: a mean excess over its deviation.\<close>

definition excess_ratio :: "string \<Rightarrow> rat \<Rightarrow> rat list \<Rightarrow> metric_result res" where
  "excess_ratio zero_reason factor excess =
     rbind (sample_std DECIMAL_PRECISION excess) (\<lambda>std.
     case std of None \<Rightarrow> undefined_metric (length excess) ''INSUFFICIENT_OBSERVATIONS''
     | Some s \<Rightarrow>
         if s = 0 then undefined_metric (length excess) zero_reason
         else rbind (dsqrt DECIMAL_PRECISION factor) (\<lambda>root.
              rbind (mean DECIMAL_PRECISION excess) (\<lambda>m.
              rbind (ddiv DECIMAL_PRECISION (dec DECIMAL_PRECISION (root * m)) s) (\<lambda>v.
              defined_metric (length excess) v))))"

definition excess_returns :: "rat list \<Rightarrow> rat list \<Rightarrow> rat list" where
  "excess_returns values baseline =
     map2 (\<lambda>v b. dec DECIMAL_PRECISION (v - b)) values baseline"

definition sharpe_ratio :: "pyval list \<Rightarrow> pyval list \<Rightarrow> pyval \<Rightarrow> metric_result res" where
  "sharpe_ratio returns period_risk_free_returns annualization_factor =
     rbind (decimals ''return'' returns) (\<lambda>values.
     rbind (decimals ''risk_free_return'' period_risk_free_returns) (\<lambda>risk_free.
       if length values \<noteq> length risk_free
       then Inl (ValueError ''risk-free returns must align one-for-one with strategy returns'')
       else
       rbind (decimal annualization_factor ''annualization_factor'') (\<lambda>factor.
       if factor \<le> 0 then Inl (ValueError ''annualization_factor must be positive'')
       else excess_ratio ''ZERO_EXCESS_RETURN_VOLATILITY'' factor (excess_returns values risk_free))))"

definition information_ratio :: "pyval list \<Rightarrow> pyval list \<Rightarrow> pyval \<Rightarrow> metric_result res" where
  "information_ratio returns benchmark_returns annualization_factor =
     rbind (decimals ''return'' returns) (\<lambda>values.
     rbind (decimals ''benchmark_return'' benchmark_returns) (\<lambda>benchmark.
       if length values \<noteq> length benchmark
       then Inl (ValueError ''benchmark returns must align one-for-one with strategy returns'')
       else
       rbind (decimal annualization_factor ''annualization_factor'') (\<lambda>factor.
       if factor \<le> 0 then Inl (ValueError ''annualization_factor must be positive'')
       else excess_ratio ''ZERO_ACTIVE_RETURN_VOLATILITY'' factor (excess_returns values benchmark))))"

definition sortino_ratio :: "pyval list \<Rightarrow> pyval list \<Rightarrow> pyval \<Rightarrow> metric_result res" where
  "sortino_ratio returns period_minimum_acceptable_returns annualization_factor =
     rbind (decimals ''return'' returns) (\<lambda>values.
     rbind (decimals ''minimum_acceptable_return'' period_minimum_acceptable_returns) (\<lambda>minimums.
       if length values \<noteq> length minimums
       then Inl (ValueError ''MAR observations must align one-for-one with strategy returns'')
       else if values = [] then undefined_metric 0 ''INSUFFICIENT_OBSERVATIONS''
       else
       rbind (decimal annualization_factor ''annualization_factor'') (\<lambda>factor.
       if factor \<le> 0 then Inl (ValueError ''annualization_factor must be positive'')
       else
       let excess = excess_returns values minimums in
       rbind (mean DECIMAL_PRECISION (map (\<lambda>v. dsquare DECIMAL_PRECISION (min v 0)) excess)) (\<lambda>downside.
       if downside = 0 then undefined_metric (length excess) ''ZERO_DOWNSIDE_DEVIATION''
       else
       rbind (dsqrt DECIMAL_PRECISION downside) (\<lambda>deviation.
       rbind (dsqrt DECIMAL_PRECISION factor) (\<lambda>root.
       rbind (mean DECIMAL_PRECISION excess) (\<lambda>m.
       rbind (ddiv DECIMAL_PRECISION (dec DECIMAL_PRECISION (root * m)) deviation) (\<lambda>v.
       defined_metric (length excess) v))))))))"

fun drawdown_loop :: "rat \<Rightarrow> rat \<Rightarrow> rat list \<Rightarrow> rat res" where
  "drawdown_loop peak maximum [] = Inr maximum"
| "drawdown_loop peak maximum (v # vs) =
     (let peak' = max peak v in
      rbind (ddiv DECIMAL_PRECISION v peak') (\<lambda>q.
        drawdown_loop peak' (max maximum (dec DECIMAL_PRECISION (1 - q))) vs))"

definition max_drawdown :: "pyval list \<Rightarrow> metric_result res" where
  "max_drawdown navs =
     rbind (decimals ''NAV'' navs) (\<lambda>values.
       case values of [] \<Rightarrow> undefined_metric 0 ''INSUFFICIENT_OBSERVATIONS''
       | v0 # _ \<Rightarrow>
         if list_ex (\<lambda>v. v \<le> 0) values then Inl (ValueError ''NAV observations must be positive'')
         else rbind (drawdown_loop v0 0 values) (\<lambda>m. defined_metric (length values) m))"

definition hit_rate :: "pyval list \<Rightarrow> metric_result res" where
  "hit_rate returns =
     rbind (decimals ''return'' returns) (\<lambda>values.
       let non_zero = filter (\<lambda>v. v \<noteq> 0) values;
           zero_count = int (length values) - int (length non_zero)
       in if non_zero = []
          then mk_metric_result UNDEFINED None 0 (Some ''NO_NON_ZERO_RETURNS'') (Some zero_count)
                 (Some (int (length values)))
          else rbind (ddiv DECIMAL_PRECISION (of_nat (length (filter (\<lambda>v. v > 0) non_zero)))
                        (of_nat (length non_zero))) (\<lambda>v.
            mk_metric_result DEFINED (Some v) (int (length non_zero)) None (Some zero_count)
              (Some (int (length values)))))"

end
