(* ===== verification/Ledger.thy ===== *)
theory Ledger
  imports Equations
begin

text \<open>
  Properties of the accounting kernel: what a constructed portfolio state satisfies, that the
  rebalance moves exactly the traded amounts, and how large the self-financing residual
  can be. All amounts are multiples of the currency quantum below \<open>10 ^ 30\<close>, the
  largest magnitude \<open>quantize\<close> accepts at 38 digits.
\<close>

section \<open>Amounts\<close>

lemma quantize_at_InrD:
  assumes "quantize_at k x = Inr y"
  shows "on_grid k y" "\<bar>y\<bar> < 10 powi (38 + k)" "\<bar>y - x\<bar> \<le> 10 powi k / 2"
  using quantize_InrD [OF assms [unfolded quantize_at_def]] by (simp_all add: equations_constants)

lemma quantize_at_grid: "on_grid k x \<Longrightarrow> \<bar>x\<bar> < 10 powi (38 + k) \<Longrightarrow> quantize_at k x = Inr x"
  unfolding quantize_at_def by (rule quantize_grid) (auto simp: equations_constants)

lemma quantize_at_nonneg: "quantize_at k x = Inr y \<Longrightarrow> 0 \<le> x \<Longrightarrow> 0 \<le> y"
  unfolding quantize_at_def by (rule quantize_nonneg)

lemma quantize_at_0 [simp]: "quantize_at k 0 = Inr 0"
  by (rule quantize_at_grid) (simp_all add: zero_less_power_int)

lemma signed_notional_amount:
  assumes "signed_notional t = Inr n"
  shows "on_grid (- 8) n" "\<bar>n\<bar> < 10 ^ 30"
  using quantize_at_InrD(1,2) [OF assms [unfolded signed_notional_def]]
  by (simp_all add: equations_constants)

lemma dec38_amount: "on_grid (- 8) x \<Longrightarrow> \<bar>x\<bar> < 10 ^ 30 \<Longrightarrow> dec 38 x = x"
  by (rule dec_grid [where k = "- 8"]) simp_all

lemma gross_notional_amount:
  "signed_notional t = Inr n \<Longrightarrow> gross_notional 38 t = Inr \<bar>n\<bar>"
  using signed_notional_amount [of t n] dec38_amount [of "\<bar>n\<bar>"]
  by (simp add: gross_notional_def)

text \<open>A charge at a rate below 10000 basis points lies between zero and its base.\<close>

lemma charge_bounds:
  assumes rate: "0 \<le> rate" "rate < 10000" and g: "0 \<le> g" "on_grid (- 8) g" "g < 10 ^ 30"
    and c: "quantize_at (- 8) (dec 38 (dec 38 (rate / 10000) * g)) = Inr c"
  shows "0 \<le> c" "c \<le> g" "on_grid (- 8) c"
proof -
  have one: "dec 38 1 = 1" using dec_of_int [of 1 38] by simp
  have f: "0 \<le> dec 38 (rate / 10000)" "dec 38 (rate / 10000) \<le> 1"
    using rate by (auto intro!: dec38.rnd_nonneg dec38.rnd_le_fixed [OF one])
  then have fg: "0 \<le> dec 38 (rate / 10000) * g" "dec 38 (rate / 10000) * g \<le> g"
    using g by (auto simp: mult_left_le_one_le)
  have "dec 38 (dec 38 (rate / 10000) * g) \<le> g"
    using g by (intro dec38.rnd_le_fixed [OF _ fg(2)] dec38_amount) auto
  moreover have "quantize_at (- 8) g = Inr g" using g by (intro quantize_at_grid) auto
  ultimately show "c \<le> g" using c unfolding quantize_at_def by (blast intro: quantize_mono)
  show "0 \<le> c" by (rule quantize_at_nonneg [OF c]) (rule dec38.rnd_nonneg [OF fg(1)])
  show "on_grid (- 8) c" by (rule quantize_at_InrD(1) [OF c])
qed

definition wf_policy :: "transaction_tax_policy \<Rightarrow> bool" where
  "wf_policy pol \<longleftrightarrow> 0 \<le> rate_bps pol \<and> rate_bps pol < 10000"

lemma mk_transaction_tax_policy_wf:
  "mk_transaction_tax_policy pid sha src base side rate mode quantum = Inr pol \<Longrightarrow> wf_policy pol"
  by (auto simp: mk_transaction_tax_policy_def wf_policy_def equations_constants split: if_splits)

lemma assess_bounds:
  assumes "wf_policy pol" "signed_notional t = Inr n" "assess 38 pol t = Inr x"
  shows "0 \<le> x" "x \<le> \<bar>n\<bar>" "on_grid (- 8) x"
proof -
  note g = gross_notional_amount [OF assms(2)] signed_notional_amount [OF assms(2)]
  have "x = 0 \<or> quantize_at (- 8) (dec 38 (dec 38 (rate_bps pol / 10000) * \<bar>n\<bar>)) = Inr x"
    using assms(3) g(1) by (auto simp: assess_def Let_def equations_constants split: if_splits)
  then have "0 \<le> x \<and> x \<le> \<bar>n\<bar> \<and> on_grid (- 8) x"
    using charge_bounds [of "rate_bps pol" "\<bar>n\<bar>" x] assms(1) g by (auto simp: wf_policy_def)
  then show "0 \<le> x" "x \<le> \<bar>n\<bar>" "on_grid (- 8) x" by auto
qed

section \<open>One fill\<close>

text \<open>What the ledger holds between fills, with \<open>room\<close> for the fills to come.\<close>

definition ledger_ok :: "rat \<Rightarrow> rebalance_ledger \<Rightarrow> bool" where
  "ledger_ok room l \<longleftrightarrow>
     on_grid (- 8) (led_cash l) \<and> on_grid (- 8) (led_gross l) \<and> on_grid (- 8) (led_cost l)
     \<and> on_grid (- 8) (led_taxes l) \<and> 0 \<le> led_cash l \<and> 0 \<le> led_cost l \<and> led_cost l \<le> led_gross l
     \<and> 0 \<le> led_taxes l \<and> led_taxes l \<le> led_gross l
     \<and> led_cash l + 3 * room < 10 ^ 30 \<and> led_gross l + room < 10 ^ 30"

lemma apply_fill_cash:
  assumes fill: "apply_fill bps pol l t = Inr l'"
    and n: "signed_notional t = Inr n"
    and bps: "0 \<le> bps" "bps < 10000" and pol: "wf_policy pol"
    and ok: "ledger_ok (\<bar>n\<bar> + room) l" and room: "0 \<le> room"
  shows "led_cash l' = led_cash l - n - (led_cost l' - led_cost l) - (led_taxes l' - led_taxes l)"
    and "led_gross l' = led_gross l + \<bar>n\<bar>"
    and "ledger_ok room l'"
proof -
  note na = signed_notional_amount [OF n]
  from fill obtain c x where
    c: "quantize_at (- 8) (dec 38 (dec 38 (bps / 10000) * \<bar>n\<bar>)) = Inr c" and
    x: "assess 38 pol t = Inr x" and
    cash: "quantize_at (- 8) (dec 38 (dec 38 (dec 38 (led_cash l - n) - c) - x)) = Inr (led_cash l')" and
    nonneg: "0 \<le> led_cash l'" and
    sums: "led_gross l' = dec 38 (led_gross l + \<bar>n\<bar>)" "led_cost l' = dec 38 (led_cost l + c)"
      "led_taxes l' = dec 38 (led_taxes l + x)"
    using gross_notional_amount [OF n] n
    by (auto simp: apply_fill_def Let_def equations_constants not_less split: if_splits)
  note cb = charge_bounds [OF bps _ _ _ c] and xb = assess_bounds [OF pol n x]
  have cb': "0 \<le> c" "c \<le> \<bar>n\<bar>" "on_grid (- 8) c" using cb na by auto
  have okl: "on_grid (- 8) (led_cash l)" "on_grid (- 8) (led_gross l)" "on_grid (- 8) (led_cost l)"
    "on_grid (- 8) (led_taxes l)" "0 \<le> led_cash l" "0 \<le> led_cost l" "led_cost l \<le> led_gross l"
    "0 \<le> led_taxes l" "led_taxes l \<le> led_gross l"
    "led_cash l + 3 * (\<bar>n\<bar> + room) < 10 ^ 30" "led_gross l + (\<bar>n\<bar> + room) < 10 ^ 30"
    using ok by (auto simp: ledger_ok_def)
  have d1: "dec 38 (led_cash l - n) = led_cash l - n"
    using okl na room by (intro dec38_amount) (auto simp: abs_if split: if_splits)
  have d2: "dec 38 (led_cash l - n - c) = led_cash l - n - c"
    using okl na room cb' by (intro dec38_amount on_grid_diff) (auto simp: abs_if split: if_splits)
  have d3: "dec 38 (led_cash l - n - c - x) = led_cash l - n - c - x"
    using okl na room cb' xb by (intro dec38_amount on_grid_diff) (auto simp: abs_if split: if_splits)
  have "quantize_at (- 8) (led_cash l - n - c - x) = Inr (led_cash l - n - c - x)"
    using okl na room cb' xb by (intro quantize_at_grid on_grid_diff) (auto simp: abs_if split: if_splits)
  with cash d1 d2 d3 have cash': "led_cash l' = led_cash l - n - c - x" by simp
  have s1: "led_gross l' = led_gross l + \<bar>n\<bar>"
    using okl na room unfolding sums by (intro dec38_amount) auto
  have s2: "led_cost l' = led_cost l + c"
    using okl na room cb' unfolding sums by (intro dec38_amount) auto
  have s3: "led_taxes l' = led_taxes l + x"
    using okl na room xb unfolding sums by (intro dec38_amount) auto
  show "led_cash l' = led_cash l - n - (led_cost l' - led_cost l) - (led_taxes l' - led_taxes l)"
    and "led_gross l' = led_gross l + \<bar>n\<bar>"
    by (simp_all add: cash' s1 s2 s3)
  show "ledger_ok room l'"
    using okl na cb' xb nonneg room unfolding ledger_ok_def s1 s2 s3 cash'
    by (auto simp: abs_if split: if_splits)
qed

section \<open>All fills\<close>

lemma fills_cash:
  assumes "fold_res (apply_fill bps pol) l ts = Inr l'" "map_res signed_notional ts = Inr ns"
    and "0 \<le> bps" "bps < 10000" "wf_policy pol" "ledger_ok (sum_list (map abs ns)) l"
  shows "led_cash l' = led_cash l - sum_list ns - (led_cost l' - led_cost l) - (led_taxes l' - led_taxes l)
    \<and> led_gross l' = led_gross l + sum_list (map abs ns) \<and> ledger_ok 0 l'"
  using assms
proof (induction ts arbitrary: l ns)
  case Nil
  then show ?case by simp
next
  case (Cons t ts)
  then obtain l1 n ms where l1: "apply_fill bps pol l t = Inr l1"
    and rest: "fold_res (apply_fill bps pol) l1 ts = Inr l'"
    and n: "signed_notional t = Inr n" and ms: "map_res signed_notional ts = Inr ms"
    and ns: "ns = n # ms" by auto
  have room: "0 \<le> sum_list (map abs ms)" by (rule sum_list_nonneg) auto
  have ok: "ledger_ok (\<bar>n\<bar> + sum_list (map abs ms)) l" using Cons.prems(6) by (simp add: ns)
  note step = apply_fill_cash [OF l1 n Cons.prems(3-5) ok room]
  from Cons.IH [OF rest ms Cons.prems(3-5) step(3)] step(1,2) show ?case
    by (simp add: ns algebra_simps)
qed

lemma apply_fill_positions:
  assumes "apply_fill bps pol l t = Inr l'"
  shows "led_positions l' = dict_set (led_positions l) (symbol t)
      (dec 38 (dict_get_or (led_positions l) (symbol t) 0 + delta_shares t))"
    "0 \<le> dec 38 (dict_get_or (led_positions l) (symbol t) 0 + delta_shares t)"
    "\<not> (delta_shares t \<le> 0 \<and> led_buy_started l)"
    "led_buy_started l' = (led_buy_started l \<or> delta_shares t > 0)"
  using assms by (auto simp: apply_fill_def Let_def equations_constants not_less split: if_splits)

section \<open>Constructed states\<close>

definition normal_entry :: "string \<times> rat \<Rightarrow> bool" where
  "normal_entry = (\<lambda>(k, q). strip k = k \<and> k \<noteq> [] \<and> 0 \<le> q)"

definition wf_position :: "string \<times> rat \<Rightarrow> bool" where
  "wf_position x \<longleftrightarrow> normal_entry x \<and> on_grid (- 8) (snd x) \<and> snd x < 10 ^ 30"

definition wf_portfolio :: "portfolio_state \<Rightarrow> bool" where
  "wf_portfolio s \<longleftrightarrow>
     0 \<le> cash s \<and> on_grid (- 8) (cash s) \<and> cash s < 10 ^ 30
     \<and> 0 \<le> receivables s \<and> on_grid (- 8) (receivables s) \<and> receivables s < 10 ^ 30
     \<and> distinct (map fst (positions s)) \<and> list_all wf_position (positions s)
     \<and> list_all (\<lambda>(k, q). q \<noteq> 0 \<longrightarrow> dict_get (raw_marks s) k \<noteq> None) (positions s)"

definition wf_trade :: "trade \<Rightarrow> bool" where
  "wf_trade t \<longleftrightarrow> strip (symbol t) = symbol t \<and> symbol t \<noteq> [] \<and> on_grid (- 8) (delta_shares t)
     \<and> delta_shares t \<noteq> 0"

lemma require_quantum_Inr: "require_quantum v k name = Inr w \<Longrightarrow> w = v \<and> on_grid k v \<and> \<bar>v\<bar> < 10 powi (38 + k)"
  by (auto simp: require_quantum_def dest: quantize_at_InrD split: if_splits)

lemma mk_trade_wf: "mk_trade sy delta price = Inr t \<Longrightarrow> wf_trade t"
  by (auto simp: mk_trade_def wf_trade_def Let_def equations_constants
      dest!: require_quantum_Inr split: if_splits)

lemma decimal_mapping_loop_wf:
  assumes "decimal_mapping_loop name True pos acc raw = Inr d"
    and "distinct (map fst acc)" "list_all normal_entry acc"
  shows "distinct (map fst d) \<and> list_all normal_entry d"
  using assms
proof (induction name "True" pos acc raw rule: decimal_mapping_loop.induct)
  case (1 name positive converted)
  then show ?case by simp
next
  case (2 name positive converted raw_key raw_value rest)
  from "2.prems"(1) obtain v where v: "0 \<le> v" "strip raw_key \<noteq> []"
    "dict_get converted (strip raw_key) = None" "decimal raw_value (name @ ''['' @ strip raw_key @ '']'') = Inr v"
    "decimal_mapping_loop name True positive (dict_set converted (strip raw_key) v) rest = Inr d"
    "\<not> (positive \<and> v \<le> 0)"
    unfolding decimal_mapping_loop.simps Let_def by (elim res_elims) (auto simp: not_less)
  have "set (dict_set converted (strip raw_key) v) \<subseteq> insert (strip raw_key, v) (set converted)"
    using v(3) by (induction converted) (auto split: if_splits)
  with "2.prems"(3) v have "list_all normal_entry (dict_set converted (strip raw_key) v)"
    by (auto simp: list_all_iff normal_entry_def)
  with "2.hyps" v "2.prems" show ?case by (auto simp: distinct_update not_less)
qed

lemma map_res_same:
  assumes "map_res f xs = Inr ys" "\<And>x y. f x = Inr y \<Longrightarrow> y = x"
  shows "ys = xs"
proof (rule nth_equalityI)
  show "length ys = length xs" using map_res_Inr [OF assms(1)] by simp
  fix i assume "i < length ys"
  then show "ys ! i = xs ! i" using map_res_Inr [OF assms(1)] assms(2) by metis
qed

lemma storage_checked_Inr: "storage_checked x = Inr y \<Longrightarrow> y = x \<and> on_grid (- 8) (snd x) \<and> \<bar>snd x\<bar> < 10 ^ 30"
  by (cases x) (auto simp: equations_constants dest!: require_quantum_Inr)

lemma mk_portfolio_state_wf:
  assumes "mk_portfolio_state c ps ms r = Inr s"
  shows "wf_portfolio s"
proof -
  from assms obtain c0 r0 ps0 where
    cash: "quantize_at (- 8) c0 = Inr (cash s)" "0 \<le> cash s" and
    recv: "quantize_at (- 8) r0 = Inr (receivables s)" "0 \<le> receivables s" and
    ps0: "decimal_mapping ps ''positions'' True False = Inr ps0" and
    pos: "map_res storage_checked ps0 = Inr (positions s)" and
    marks: "\<not> list_ex (\<lambda>(k, q). q \<noteq> 0 \<and> dict_get (raw_marks s) k = None) (positions s)"
    by (auto simp: mk_portfolio_state_def INTERNAL_CURRENCY_QUANTUM_def
        not_less split: if_splits)
  have wf0: "distinct (map fst ps0)" "list_all normal_entry ps0"
    using decimal_mapping_loop_wf [OF ps0 [unfolded decimal_mapping_def]] by auto
  have eq: "positions s = ps0" by (rule map_res_same [OF pos]) (blast dest: storage_checked_Inr)
  have "on_grid (- 8) (snd x) \<and> \<bar>snd x\<bar> < 10 ^ 30" if "x \<in> set (positions s)" for x
    using map_res_Inr_set [OF pos that] by (blast dest: storage_checked_Inr)
  with wf0 have "list_all wf_position (positions s)"
    by (fastforce simp: wf_position_def list_all_iff eq)
  then show ?thesis
    using quantize_at_InrD(1,2) [OF cash(1)] quantize_at_InrD(1,2) [OF recv(1)] cash(2) recv(2) wf0 marks
    by (auto simp: wf_portfolio_def eq list_all_iff list_ex_iff)
qed

text \<open>Amounts and positions that are already normal pass through the constructor unchanged.\<close>

lemma dict_set_fresh: "k \<notin> fst ` set d \<Longrightarrow> dict_set d k v = d @ [(k, v)]"
  by (induction d) auto

lemma decimal_mapping_loop_normal:
  assumes "distinct (map fst (acc @ ps))" "list_all normal_entry ps"
  shows "decimal_mapping_loop name True False acc (map (\<lambda>(s, q). (s, PDecimal q)) ps) = Inr (acc @ ps)"
  using assms
proof (induction ps arbitrary: acc)
  case (Cons x ps)
  obtain k q where x: "x = (k, q)" by (cases x)
  with Cons.prems have k: "k \<notin> fst ` set acc" by auto
  then have "dict_get acc k = None" by (simp add: map_of_eq_None_iff)
  moreover have "strip k = k" "k \<noteq> []" "0 \<le> q" using Cons.prems(2) by (auto simp: x normal_entry_def)
  moreover have "decimal_mapping_loop name True False (acc @ [(k, q)]) (map (\<lambda>(s, q). (s, PDecimal q)) ps) =
      Inr ((acc @ [(k, q)]) @ ps)"
    using Cons.prems by (intro Cons.IH) (auto simp: x)
  ultimately show ?case using dict_set_fresh [OF k] by (simp add: x Let_def not_less)
qed simp

lemma mk_portfolio_state_cash:
  assumes "mk_portfolio_state (PDecimal c) ps ms r = Inr s" "on_grid (- 8) c"
  shows "cash s = c"
proof -
  from assms(1) have "quantize_at (- 8) c = Inr (cash s)"
    by (auto simp: mk_portfolio_state_def equations_constants split: if_splits)
  then show ?thesis using assms(2) unfolding quantize_at_def by (rule quantize_on_grid)
qed

lemma mk_portfolio_state_positions:
  assumes mk: "mk_portfolio_state c (map (\<lambda>(s, q). (s, PDecimal q)) ps) ms r = Inr s"
    and "distinct (map fst ps)" "list_all normal_entry ps"
  shows "positions s = ps"
proof -
  have "decimal_mapping (map (\<lambda>(s, q). (s, PDecimal q)) ps) ''positions'' True False = Inr ps"
    using decimal_mapping_loop_normal [of "[]" ps] assms(2,3) by (simp add: decimal_mapping_def)
  with mk have pos: "map_res storage_checked ps = Inr (positions s)"
    by (auto simp: mk_portfolio_state_def split: if_splits)
  show ?thesis by (rule map_res_same [OF pos]) (blast dest: storage_checked_Inr)
qed

section \<open>The rebalance\<close>

definition normal_positions :: "rebalance_ledger \<Rightarrow> bool" where
  "normal_positions l \<longleftrightarrow> distinct (map fst (led_positions l)) \<and> list_all normal_entry (led_positions l)"

lemma list_all_dict_set: "list_all P d \<Longrightarrow> P (k, v) \<Longrightarrow> list_all P (dict_set d k v)"
  by (induction d) auto

interpretation fill_loop: guarded_loop "apply_fill bps pol" normal_positions wf_trade for bps pol
proof unfold_locales
  fix l t l'
  assume l: "normal_positions l" and t: "wf_trade t" and fill: "apply_fill bps pol l t = Inr l'"
  note p = apply_fill_positions(1,2) [OF fill]
  have "normal_entry (symbol t, dec 38 (dict_get_or (led_positions l) (symbol t) 0 + delta_shares t))"
    using t p(2) by (simp add: normal_entry_def wf_trade_def)
  then have "list_all normal_entry (led_positions l')"
    using l unfolding p(1) normal_positions_def by (intro list_all_dict_set) auto
  moreover have "distinct (map fst (led_positions l'))"
    using l unfolding p(1) normal_positions_def by (intro distinct_update) auto
  ultimately show "normal_positions l'" by (simp add: normal_positions_def)
qed

lemma rebalance_InrE:
  assumes "rebalance before fills c pol x ma ra = Inr r"
  obtains bps nm l where
    "decimal c ''transaction_cost_rate_bps'' = Inr bps" "0 \<le> bps" "bps < 10000"
    "nav before = Inr nm" "0 < nm" "fills \<noteq> []"
    "fold_res (apply_fill bps pol) (initial_ledger before) fills = Inr l"
    "\<exists>recv. mk_portfolio_state (PDecimal (led_cash l)) (map (\<lambda>(s, q). (s, PDecimal q)) (led_positions l))
       (case ma of None \<Rightarrow> raw_marks before | Some m \<Rightarrow> m) (PDecimal recv) = Inr (result_after r)"
    "result_before r = before" "result_trades r = fills" "gross_trade_notional r = led_gross l"
    "transaction_cost r = led_cost l" "transaction_taxes r = led_taxes l"
  using assms unfolding rebalance_def Let_def BPS_DENOMINATOR_def
  by (elim res_elims) (rule that, (assumption | simp)+, auto)

lemma rebalance_after:
  assumes reb: "rebalance before fills c pol x ma ra = Inr r"
    and "wf_portfolio before" "list_all wf_trade fills"
  obtains bps l where "decimal c ''transaction_cost_rate_bps'' = Inr bps" "0 \<le> bps" "bps < 10000"
    "fold_res (apply_fill bps pol) (initial_ledger before) fills = Inr l"
    "positions (result_after r) = led_positions l" "normal_positions l"
    "on_grid (- 8) (led_cash l) \<Longrightarrow> cash (result_after r) = led_cash l"
    "gross_trade_notional r = led_gross l" "transaction_cost r = led_cost l" "transaction_taxes r = led_taxes l"
proof -
  from reb obtain bps l where l: "fold_res (apply_fill bps pol) (initial_ledger before) fills = Inr l"
    and ex: "\<exists>recv. mk_portfolio_state (PDecimal (led_cash l)) (map (\<lambda>(s, q). (s, PDecimal q)) (led_positions l))
       (case ma of None \<Rightarrow> raw_marks before | Some m \<Rightarrow> m) (PDecimal recv) = Inr (result_after r)"
    and o: "decimal c ''transaction_cost_rate_bps'' = Inr bps" "0 \<le> bps" "bps < 10000"
      "gross_trade_notional r = led_gross l" "transaction_cost r = led_cost l" "transaction_taxes r = led_taxes l"
    by (rule rebalance_InrE) blast
  from ex obtain recv where mk: "mk_portfolio_state (PDecimal (led_cash l))
      (map (\<lambda>(s, q). (s, PDecimal q)) (led_positions l))
      (case ma of None \<Rightarrow> raw_marks before | Some m \<Rightarrow> m) (PDecimal recv) = Inr (result_after r)" ..
  have "normal_positions (initial_ledger before)"
    using assms(2) by (auto simp: normal_positions_def initial_ledger_def wf_portfolio_def wf_position_def list_all_iff)
  from fill_loop.loop_inv [OF this assms(3) l] have n: "normal_positions l" .
  then have "positions (result_after r) = led_positions l"
    using mk_portfolio_state_positions [OF mk] by (auto simp: normal_positions_def)
  moreover have "cash (result_after r) = led_cash l" if "on_grid (- 8) (led_cash l)"
    using mk_portfolio_state_cash [OF mk] that by simp
  ultimately show ?thesis using that l n o by blast
qed

lemma rebalance_wf: "rebalance before fills c pol x ma ra = Inr r \<Longrightarrow> wf_portfolio (result_after r)"
  by (erule rebalance_InrE) (blast intro: mk_portfolio_state_wf)

lemma rebalance_cash:
  assumes reb: "rebalance before fills c pol x ma ra = Inr r"
    and wf: "wf_portfolio before" "wf_policy pol" "list_all wf_trade fills"
    and ns: "map_res signed_notional fills = Inr ns"
    and room: "cash before + 3 * sum_list (map abs ns) < 10 ^ 30"
  shows "cash (result_after r) = cash before - sum_list ns - transaction_cost r - transaction_taxes r"
    "gross_trade_notional r = sum_list (map abs ns)"
    "0 \<le> transaction_cost r" "transaction_cost r \<le> gross_trade_notional r"
    "0 \<le> transaction_taxes r" "transaction_taxes r \<le> gross_trade_notional r"
    "on_grid (- 8) (transaction_cost r)" "on_grid (- 8) (transaction_taxes r)"
proof -
  obtain bps l where bps: "0 \<le> bps" "bps < 10000"
    and l: "fold_res (apply_fill bps pol) (initial_ledger before) fills = Inr l"
    and after: "on_grid (- 8) (led_cash l) \<Longrightarrow> cash (result_after r) = led_cash l"
    and r: "gross_trade_notional r = led_gross l" "transaction_cost r = led_cost l" "transaction_taxes r = led_taxes l"
    by (rule rebalance_after [OF reb wf(1,3)]) blast
  have "0 \<le> sum_list (map abs ns)" by (rule sum_list_nonneg) auto
  with wf(1) room have "ledger_ok (sum_list (map abs ns)) (initial_ledger before)"
    by (auto simp: ledger_ok_def initial_ledger_def wf_portfolio_def)
  from fills_cash [OF l ns bps wf(2) this]
  have f: "led_cash l = cash before - sum_list ns - led_cost l - led_taxes l"
    "led_gross l = sum_list (map abs ns)" "ledger_ok 0 l"
    by (auto simp: initial_ledger_def)
  with after r show "cash (result_after r) = cash before - sum_list ns - transaction_cost r - transaction_taxes r"
    "gross_trade_notional r = sum_list (map abs ns)"
    "0 \<le> transaction_cost r" "transaction_cost r \<le> gross_trade_notional r"
    "0 \<le> transaction_taxes r" "transaction_taxes r \<le> gross_trade_notional r"
    "on_grid (- 8) (transaction_cost r)" "on_grid (- 8) (transaction_taxes r)"
    by (auto simp: ledger_ok_def)
qed

section \<open>Positions\<close>

definition traded :: "trade list \<Rightarrow> string \<Rightarrow> rat" where
  "traded ts s = sum_list (map delta_shares (filter (\<lambda>t. symbol t = s) ts))"

text \<open>What keeps every share count exact: the position plus everything still to trade.\<close>

definition shares_fit :: "trade list \<Rightarrow> (string, rat) dict \<Rightarrow> bool" where
  "shares_fit ts d \<longleftrightarrow> (\<forall>s. on_grid (- 8) (dict_get_or d s 0)
     \<and> \<bar>dict_get_or d s 0\<bar> + sum_list (map (\<lambda>t. \<bar>delta_shares t\<bar>) ts) < 10 ^ 30)"

lemma fills_positions_one:
  assumes fill: "apply_fill bps pol l t = Inr l1" and t: "wf_trade t" and fit: "shares_fit (t # ts) (led_positions l)"
  shows "led_positions l1 = dict_set (led_positions l) (symbol t)
      (dict_get_or (led_positions l) (symbol t) 0 + delta_shares t)"
    and "shares_fit ts (led_positions l1)"
proof -
  let ?q = "dict_get_or (led_positions l) (symbol t) 0"
  have nonneg: "0 \<le> sum_list (map (\<lambda>t. \<bar>delta_shares t\<bar>) ts)" by (rule sum_list_nonneg) auto
  have q: "on_grid (- 8) ?q" "\<bar>?q\<bar> + (\<bar>delta_shares t\<bar> + sum_list (map (\<lambda>t. \<bar>delta_shares t\<bar>) ts)) < 10 ^ 30"
    using fit by (auto simp: shares_fit_def)
  have "dec 38 (?q + delta_shares t) = ?q + delta_shares t"
    using q nonneg t by (intro dec38_amount on_grid_add) (auto simp: wf_trade_def)
  with apply_fill_positions(1) [OF fill]
  show p1: "led_positions l1 = dict_set (led_positions l) (symbol t) (?q + delta_shares t)" by simp
  have get: "dict_get_or (led_positions l1) k 0 =
      (if k = symbol t then ?q + delta_shares t else dict_get_or (led_positions l) k 0)" for k
    by (simp add: p1 update_conv')
  show "shares_fit ts (led_positions l1)"
    unfolding shares_fit_def get
  proof
    fix k
    have "on_grid (- 8) (dict_get_or (led_positions l) k 0)"
      "\<bar>dict_get_or (led_positions l) k 0\<bar> + (\<bar>delta_shares t\<bar> + sum_list (map (\<lambda>t. \<bar>delta_shares t\<bar>) ts)) < 10 ^ 30"
      using fit by (auto simp: shares_fit_def)
    moreover have "\<bar>?q + delta_shares t\<bar> \<le> \<bar>?q\<bar> + \<bar>delta_shares t\<bar>" by (rule abs_triangle_ineq)
    ultimately show "on_grid (- 8) (if k = symbol t then ?q + delta_shares t else dict_get_or (led_positions l) k 0) \<and>
        \<bar>if k = symbol t then ?q + delta_shares t else dict_get_or (led_positions l) k 0\<bar>
          + sum_list (map (\<lambda>t. \<bar>delta_shares t\<bar>) ts) < 10 ^ 30"
      using q nonneg t by (cases "k = symbol t") (simp_all add: wf_trade_def on_grid_add)
  qed
qed

lemma fills_positions:
  assumes "fold_res (apply_fill bps pol) l ts = Inr l'" "list_all wf_trade ts" "shares_fit ts (led_positions l)"
  shows "dict_get_or (led_positions l') s 0 = dict_get_or (led_positions l) s 0 + traded ts s"
  using assms
proof (induction ts arbitrary: l)
  case Nil
  then show ?case by (simp add: traded_def)
next
  case (Cons t ts)
  then obtain l1 where l1: "apply_fill bps pol l t = Inr l1"
    and rest: "fold_res (apply_fill bps pol) l1 ts = Inr l'" by auto
  from Cons.prems(2) have "wf_trade t" by simp
  note one = fills_positions_one [OF l1 this Cons.prems(3)]
  from Cons.IH [OF rest _ one(2)] Cons.prems(2) show ?case
    by (auto simp: one(1) traded_def update_conv')
qed

section \<open>Net asset value\<close>

definition positive_marks :: "(string, raw_mark) dict \<Rightarrow> bool" where
  "positive_marks ms \<longleftrightarrow> list_all (\<lambda>(k, m). 0 < mark_value m) ms"

lemma positive_marksD: "positive_marks ms \<Longrightarrow> dict_get ms k = Some m \<Longrightarrow> 0 < mark_value m"
  by (auto simp: positive_marks_def list_all_iff dest: map_of_SomeD)

lemma dec38_below: "dec 38 x < 10 ^ 30 \<Longrightarrow> x < 10 ^ 30"
  using dec38.rnd_ge_fixed [of "10 ^ 30" x] dec_of_int [of "10 ^ 30" 38] by force

lemma dsum_below_exact:
  assumes "on_grid (- 8) acc" "0 \<le> acc" "acc < 10 ^ 30"
    and "\<And>x. x \<in> set xs \<Longrightarrow> on_grid (- 8) x \<and> 0 \<le> x" and "dsum 38 acc xs < 10 ^ 30"
  shows "dsum 38 acc xs = acc + sum_list xs"
  using assms
proof (induction xs arbitrary: acc)
  case (Cons x xs)
  have x: "on_grid (- 8) x" "0 \<le> x" and xs: "\<And>y. y \<in> set xs \<Longrightarrow> on_grid (- 8) y \<and> 0 \<le> y"
    using Cons.prems(4) by simp_all
  have "dec 38 (acc + x) \<le> dsum 38 (dec 38 (acc + x)) xs"
    using xs by (intro dsum_ge) (simp_all add: dec38.rnd_rnd)
  also have "\<dots> < 10 ^ 30" using Cons.prems(5) by simp
  finally have lt: "acc + x < 10 ^ 30" by (rule dec38_below)
  then have eq: "dec 38 (acc + x) = acc + x"
    using Cons.prems(1,2) x by (intro dec38_amount on_grid_add) auto
  have "dsum 38 (acc + x) xs = acc + x + sum_list xs"
  proof (rule Cons.IH [OF _ _ lt xs])
    show "on_grid (- 8) (acc + x)" "0 \<le> acc + x" using Cons.prems(1,2) x by auto
    show "dsum 38 (acc + x) xs < 10 ^ 30" using Cons.prems(5) by (simp add: eq)
  qed
  then show ?case by (simp add: eq)
qed simp

lemma marked_position_amount:
  assumes "marked_position ms x = Inr v" "positive_marks ms" "0 \<le> snd x"
  shows "0 \<le> v" "on_grid (- 8) v"
proof -
  obtain k q where x: "x = (k, q)" by (cases x)
  with assms(1) obtain m where m: "dict_get ms k = Some m"
    and v: "quantize_at (- 8) (dec 38 (q * mark_value m)) = Inr v"
    by (auto simp: equations_constants split: option.splits)
  have "0 \<le> dec 38 (q * mark_value m)"
    using positive_marksD [OF assms(2) m] assms(3) by (intro dec38.rnd_nonneg) (simp add: x)
  with v show "0 \<le> v" "on_grid (- 8) v" by (auto dest: quantize_at_nonneg quantize_at_InrD)
qed

lemma nav_exact:
  assumes wf: "wf_portfolio s" "positive_marks (raw_marks s)" and nav: "nav s = Inr v"
  obtains vs where "map_res (marked_position (raw_marks s)) (positions s) = Inr vs"
    "v = cash s + sum_list vs + receivables s" "\<And>x. x \<in> set vs \<Longrightarrow> on_grid (- 8) x \<and> 0 \<le> x"
    "on_grid (- 8) v" "0 \<le> v"
proof -
  from nav obtain vs where vs: "map_res (marked_position (raw_marks s)) (positions s) = Inr vs"
    and q: "quantize_at (- 8) (dec 38 (dec 38 (cash s + dsum 38 0 vs) + receivables s)) = Inr v"
    by (auto simp: nav_def Let_def equations_constants)
  have pos: "on_grid (- 8) x \<and> 0 \<le> x" if x: "x \<in> set vs" for x
  proof -
    obtain y where y: "y \<in> set (positions s)" "marked_position (raw_marks s) y = Inr x"
      using map_res_Inr_set [OF vs x] by blast
    then have "0 \<le> snd y"
      using wf(1) by (auto simp: wf_portfolio_def list_all_iff wf_position_def normal_entry_def)
    from marked_position_amount [OF y(2) wf(2) this] show ?thesis by simp
  qed
  let ?M = "dsum 38 0 vs"
  have M0: "0 \<le> ?M" using pos by (intro dsum_nonneg) auto
  have amounts: "on_grid (- 8) (cash s)" "0 \<le> cash s" "on_grid (- 8) (receivables s)" "0 \<le> receivables s"
    using wf by (auto simp: wf_portfolio_def)
  have "dec 38 (dec 38 (cash s + ?M) + receivables s) < 10 ^ 30"
    using quantize_below [OF q [unfolded quantize_at_def]] by (simp add: equations_constants)
  from dec38_below [OF this] have t: "dec 38 (cash s + ?M) + receivables s < 10 ^ 30" .
  with amounts have "dec 38 (cash s + ?M) < 10 ^ 30" by simp
  from dec38_below [OF this] have cM: "cash s + ?M < 10 ^ 30" .
  with amounts have Mlt: "?M < 10 ^ 30" by simp
  have M: "?M = sum_list vs" using dsum_below_exact [of 0 vs] pos Mlt by simp
  have gM: "on_grid (- 8) (sum_list vs)" by (rule on_grid_sum_list) (use pos in auto)
  have d1: "dec 38 (cash s + sum_list vs) = cash s + sum_list vs"
    using amounts cM M0 gM unfolding M by (intro dec38_amount) auto
  have d2: "dec 38 (cash s + sum_list vs + receivables s) = cash s + sum_list vs + receivables s"
    using amounts M0 gM t d1 unfolding M by (intro dec38_amount) auto
  have "v = cash s + sum_list vs + receivables s"
    using q unfolding M d1 d2 quantize_at_def
    by (rule quantize_on_grid) (use amounts gM in auto)
  moreover have "on_grid (- 8) (cash s + sum_list vs + receivables s)" using amounts gM by auto
  moreover have "0 \<le> cash s + sum_list vs + receivables s" using amounts M0 M by simp
  ultimately show ?thesis using that [OF vs _ pos] by simp
qed

section \<open>The self-financing residual\<close>

definition amount_error :: rat where "amount_error = 5 / 10 ^ 9 + 1 / 10 ^ 18"

lemma quantized_product_error:
  assumes q: "quantize_at (- 8) (dec 38 x) = Inr v" and v: "\<bar>v\<bar> < 10 ^ 18"
  shows "\<bar>v - x\<bar> \<le> amount_error"
proof -
  have e1: "\<bar>v - dec 38 x\<bar> \<le> 5 / 10 ^ 9" using quantize_at_InrD(3) [OF q] by (simp add: power_int_minus)
  have fixed: "dec 38 (10 ^ 19) = 10 ^ 19" using dec_of_int [of "10 ^ 19" 38] by simp
  have "\<bar>x\<bar> < 10 ^ 19"
  proof (rule ccontr)
    assume "\<not> \<bar>x\<bar> < 10 ^ 19"
    then have "10 ^ 19 \<le> \<bar>dec 38 x\<bar>"
      unfolding dec38.rnd_abs by (intro dec38.rnd_ge_fixed [OF fixed]) simp
    with e1 v show False by (simp add: abs_if split: if_splits)
  qed
  then have "\<bar>dec 38 x - x\<bar> \<le> 1 / 10 ^ 18"
    using dec_error [of x 19 38] by (simp add: power_int_minus)
  with e1 show ?thesis unfolding amount_error_def by linarith
qed

definition mark_of :: "(string, raw_mark) dict \<Rightarrow> string \<Rightarrow> rat" where
  "mark_of ms s = (case dict_get ms s of None \<Rightarrow> 0 | Some m \<Rightarrow> mark_value m)"

definition exposure :: "(string, raw_mark) dict \<Rightarrow> (string, rat) dict \<Rightarrow> rat" where
  "exposure ms d = sum_list (map (\<lambda>(s, q). q * mark_of ms s) d)"

definition trade_value :: "trade \<Rightarrow> rat" where
  "trade_value t = delta_shares t * price_value (execution_price t)"

lemma marked_positions_error:
  assumes "map_res (marked_position ms) ps = Inr vs" "\<And>v. v \<in> set vs \<Longrightarrow> \<bar>v\<bar> < 10 ^ 18"
  shows "\<bar>sum_list vs - exposure ms ps\<bar> \<le> amount_error * of_nat (length ps)"
  using assms
proof (induction ps arbitrary: vs)
  case (Cons x ps)
  obtain k q where x: "x = (k, q)" by (cases x)
  with Cons.prems obtain v ws m where v: "quantize_at (- 8) (dec 38 (q * mark_value m)) = Inr v"
    and m: "dict_get ms k = Some m" and ws: "map_res (marked_position ms) ps = Inr ws" and vs: "vs = v # ws"
    by (auto simp: equations_constants split: option.splits)
  have "\<bar>v - q * mark_of ms k\<bar> \<le> amount_error"
    using quantized_product_error [OF v] Cons.prems(2) by (simp add: m mark_of_def vs)
  moreover have "\<bar>sum_list ws - exposure ms ps\<bar> \<le> amount_error * of_nat (length ps)"
    using Cons.prems(2) by (intro Cons.IH [OF ws]) (simp add: vs)
  ultimately show ?case by (simp add: vs x exposure_def algebra_simps)
qed (simp add: exposure_def)

lemma signed_notionals_error:
  assumes "map_res signed_notional ts = Inr ns" "\<And>n. n \<in> set ns \<Longrightarrow> \<bar>n\<bar> < 10 ^ 18"
  shows "\<bar>sum_list ns - sum_list (map trade_value ts)\<bar> \<le> amount_error * of_nat (length ts)"
  using assms
proof (induction ts arbitrary: ns)
  case (Cons t ts)
  then obtain n ms where n: "signed_notional t = Inr n" and ms: "map_res signed_notional ts = Inr ms"
    and ns: "ns = n # ms" by auto
  have "\<bar>n - trade_value t\<bar> \<le> amount_error"
    using n Cons.prems(2) unfolding signed_notional_def trade_value_def equations_constants
    by (intro quantized_product_error) (auto simp: ns)
  moreover have "\<bar>sum_list ms - sum_list (map trade_value ts)\<bar> \<le> amount_error * of_nat (length ts)"
    using Cons.prems(2) by (intro Cons.IH [OF ms]) (simp add: ns)
  ultimately show ?case by (simp add: ns algebra_simps)
qed simp

lemma fills_exposure:
  assumes "fold_res (apply_fill bps pol) l ts = Inr l'" "list_all wf_trade ts" "shares_fit ts (led_positions l)"
    and "normal_positions l" "list_all (common_mark_trade ms) ts"
  shows "exposure ms (led_positions l') = exposure ms (led_positions l) + sum_list (map trade_value ts)"
  using assms
proof (induction ts arbitrary: l)
  case (Cons t ts)
  then obtain l1 where l1: "apply_fill bps pol l t = Inr l1"
    and rest: "fold_res (apply_fill bps pol) l1 ts = Inr l'" by auto
  note one = fills_positions_one [OF l1 _ Cons.prems(3)]
  have t: "wf_trade t" "list_all wf_trade ts" "common_mark_trade ms t" "list_all (common_mark_trade ms) ts"
    using Cons.prems(2,5) by auto
  have "exposure ms (led_positions l1) = exposure ms (led_positions l) + delta_shares t * mark_of ms (symbol t)"
    using Cons.prems(4) unfolding exposure_def one(1) [OF t(1)] normal_positions_def
    by (subst sum_list_update) (auto simp: algebra_simps split: option.splits)
  moreover have "mark_of ms (symbol t) = price_value (execution_price t)"
    using t(3) by (auto simp: common_mark_trade_def mark_of_def split: option.splits)
  moreover have "normal_positions l1" by (rule fill_loop.step_inv [OF Cons.prems(4) t(1) l1])
  ultimately show ?case using Cons.IH [OF rest t(2) one(2) [OF t(1)] _ t(4)] by (simp add: trade_value_def)
qed simp

lemma same_marks_get:
  assumes "same_marks a b"
  shows "dict_get a k = dict_get b k"
proof (cases "k \<in> fst ` set a \<union> fst ` set b")
  case True
  with assms show ?thesis by (auto simp: same_marks_def list_all_iff)
next
  case False
  then have "dict_get a k = None" "dict_get b k = None" by (auto simp: map_of_eq_None_iff)
  then show ?thesis by simp
qed

lemma exposure_same_marks: "same_marks a b \<Longrightarrow> exposure a d = exposure b d"
  by (simp add: exposure_def mark_of_def same_marks_get)

lemma dec28_amount: "on_grid (- 8) x \<Longrightarrow> \<bar>x\<bar> < 10 ^ 20 \<Longrightarrow> dec 28 x = x"
  by (rule dec_grid [where k = "- 8"]) simp_all

lemma amount_le_sum_list: "(\<And>x. x \<in> set xs \<Longrightarrow> (0::rat) \<le> x) \<Longrightarrow> y \<in> set xs \<Longrightarrow> y \<le> sum_list xs"
proof (induction xs)
  case (Cons a xs)
  have "0 \<le> sum_list xs" "0 \<le> a" using Cons.prems(1) by (auto intro: sum_list_nonneg)
  with Cons show ?case by (cases "y = a") (force, fastforce)
qed simp

lemma nav_error:
  assumes "wf_portfolio s" "positive_marks (raw_marks s)" "nav s = Inr v" "v < 10 ^ 18"
  shows "\<bar>v - cash s - receivables s - exposure (raw_marks s) (positions s)\<bar>
      \<le> amount_error * of_nat (length (positions s))"
    and "on_grid (- 8) v" "0 \<le> v" "cash s \<le> v"
proof -
  obtain vs where vs: "map_res (marked_position (raw_marks s)) (positions s) = Inr vs"
    "v = cash s + sum_list vs + receivables s" "\<And>x. x \<in> set vs \<Longrightarrow> on_grid (- 8) x \<and> 0 \<le> x"
    "on_grid (- 8) v" "0 \<le> v"
    by (rule nav_exact [OF assms(1-3)]) blast
  have nonneg: "0 \<le> cash s" "0 \<le> receivables s" "0 \<le> sum_list vs"
    using assms(1) vs(3) by (auto simp: wf_portfolio_def intro: sum_list_nonneg)
  have "\<bar>x\<bar> < 10 ^ 18" if x: "x \<in> set vs" for x
  proof -
    have "x \<le> sum_list vs" using x vs(3) by (intro amount_le_sum_list) auto
    with x vs(2,3) nonneg assms(4) show ?thesis by fastforce
  qed
  from marked_positions_error [OF vs(1) this] vs(2)
  show "\<bar>v - cash s - receivables s - exposure (raw_marks s) (positions s)\<bar>
      \<le> amount_error * of_nat (length (positions s))" by simp
  show "on_grid (- 8) v" "0 \<le> v" "cash s \<le> v" using vs nonneg by auto
qed

lemma rebalance_exposure:
  assumes reb: "rebalance before fills c pol x ma ra = Inr r"
    and wf: "wf_portfolio before" "list_all wf_trade fills" and fit: "shares_fit fills (positions before)"
    and common: "list_all (common_mark_trade ms) fills"
  shows "exposure ms (positions (result_after r)) =
      exposure ms (positions before) + sum_list (map trade_value fills)"
proof -
  obtain bps l where l: "fold_res (apply_fill bps pol) (initial_ledger before) fills = Inr l"
    "positions (result_after r) = led_positions l"
    by (rule rebalance_after [OF reb wf]) blast
  have "normal_positions (initial_ledger before)"
    using wf(1) by (auto simp: normal_positions_def initial_ledger_def wf_portfolio_def wf_position_def list_all_iff)
  from fills_exposure [OF l(1) wf(2) _ this common] fit show ?thesis
    by (simp add: l(2) initial_ledger_def)
qed

lemma self_financing_residual:
  assumes reb: "rebalance before fills c pol x ma ra = Inr r"
    and wf: "wf_portfolio before" "wf_policy pol" "list_all wf_trade fills"
    and marks: "positive_marks (raw_marks before)" "positive_marks (raw_marks (result_after r))"
    and fit: "shares_fit fills (positions before)"
    and ns: "map_res signed_notional fills = Inr ns" and gross: "sum_list (map abs ns) < 10 ^ 18"
    and navs: "nav before = Inr nb" "nav (result_after r) = Inr na" and small: "nb < 10 ^ 18" "na < 10 ^ 18"
    and err: "self_financing_error 28 r = Inr e"
  shows "\<bar>e\<bar> \<le> amount_error * of_nat (length (positions before) + length (positions (result_after r)) + length fills)"
    and "dec 28 \<bar>e\<bar> = \<bar>e\<bar>"
proof -
  from reb have rb: "result_before r = before" "result_trades r = fills"
    by (rule rebalance_InrE; blast)+
  from err have recv: "receivables (result_after r) = receivables before"
    and same: "same_marks (raw_marks before) (raw_marks (result_after r))"
    and common: "list_all (common_mark_trade (raw_marks before)) fills"
    and e: "e = dec 28 (na - dec 28 (dec 28 (nb - transaction_cost r) - transaction_taxes r))"
    unfolding self_financing_error_def Let_def using rb navs by (auto elim!: res_elims)
  note b = nav_error [OF wf(1) marks(1) navs(1) small(1)]
    and a = nav_error [OF rebalance_wf [OF reb] marks(2) navs(2) small(2)]
  have "cash before + 3 * sum_list (map abs ns) < 10 ^ 30" using b(4) small gross by simp
  note cash = rebalance_cash [OF reb wf ns this]
  have t: "transaction_cost r < 10 ^ 18" "transaction_taxes r < 10 ^ 18" using cash(2,4,6) gross by auto
  let ?e = "na - (nb - transaction_cost r - transaction_taxes r)"
  have "dec 28 (nb - transaction_cost r) = nb - transaction_cost r"
    using b(2,3) cash(3,7) t small by (intro dec28_amount) auto
  moreover have "dec 28 (nb - transaction_cost r - transaction_taxes r) = nb - transaction_cost r - transaction_taxes r"
    using b(2,3) cash(3,5,7,8) t small by (intro dec28_amount on_grid_diff) auto
  moreover have fit28: "dec 28 ?e = ?e" "dec 28 \<bar>?e\<bar> = \<bar>?e\<bar>"
    using a(2,3) b(2,3) cash(3,5,7,8) t small by (intro dec28_amount; force)+
  ultimately have ee: "e = ?e" by (simp add: e)
  with fit28 show "dec 28 \<bar>e\<bar> = \<bar>e\<bar>" by simp
  have "\<bar>sum_list ns - sum_list (map trade_value fills)\<bar> \<le> amount_error * of_nat (length fills)"
  proof (rule signed_notionals_error [OF ns])
    fix n assume "n \<in> set ns"
    then have "\<bar>n\<bar> \<le> sum_list (map abs ns)" by (intro amount_le_sum_list) auto
    with gross show "\<bar>n\<bar> < 10 ^ 18" by simp
  qed
  with a(1) b(1) rebalance_exposure [OF reb wf(1,3) fit common] exposure_same_marks [OF same] recv cash(1)
  show "\<bar>e\<bar> \<le> amount_error * of_nat (length (positions before) + length (positions (result_after r)) + length fills)"
    unfolding ee by (simp add: algebra_simps)
qed

text \<open>At up to 199 rounded amounts the residual stays within the comparison tolerance.\<close>

lemma amount_error_199: "n \<le> 199 \<Longrightarrow> amount_error * of_nat n \<le> COMPARISON_TOLERANCE"
proof -
  assume "n \<le> 199"
  then have "(of_nat n :: rat) \<le> 199" by (metis of_nat_le_iff of_nat_numeral)
  then have "amount_error * of_nat n \<le> amount_error * 199"
    by (intro mult_left_mono) (simp_all add: amount_error_def)
  then show ?thesis by (simp add: amount_error_def COMPARISON_TOLERANCE_def)
qed

section \<open>The order of the fills\<close>

lemma buys_stay:
  "fold_res (apply_fill bps pol) l ts = Inr l' \<Longrightarrow> led_buy_started l \<Longrightarrow> t \<in> set ts \<Longrightarrow> 0 < delta_shares t"
  by (induction ts arbitrary: l) (auto dest: apply_fill_positions(3,4))

lemma fills_ordered:
  "fold_res (apply_fill bps pol) l ts = Inr l' \<Longrightarrow> i < j \<Longrightarrow> j < length ts \<Longrightarrow> 0 < delta_shares (ts ! i)
    \<Longrightarrow> 0 < delta_shares (ts ! j)"
proof (induction ts arbitrary: l i j)
  case (Cons t ts)
  then obtain l1 where l1: "apply_fill bps pol l t = Inr l1"
    and rest: "fold_res (apply_fill bps pol) l1 ts = Inr l'" by auto
  obtain k where j: "j = Suc k" using Cons.prems(2) by (cases j) auto
  with Cons.prems have k: "ts ! k \<in> set ts" by simp
  show ?case
  proof (cases i)
    case 0
    with Cons.prems(4) have "led_buy_started l1" using apply_fill_positions(4) [OF l1] by simp
    with buys_stay [OF rest _ k] show ?thesis by (simp add: j)
  next
    case (Suc i')
    with Cons.IH [OF rest, of i' k] Cons.prems show ?thesis by (simp add: j)
  qed
qed simp

section \<open>An example ledger\<close>

definition ex_evidence :: "string \<Rightarrow> market_evidence_binding" where
  "ex_evidence s = \<lparr>security_id = s, source_id = ''src'', snapshot_id = ''snap'',
     snapshot_sha256 = replicate 64 CHR ''a'', calendar_id = ''XNAS'',
     calendar_sha256 = replicate 64 CHR ''b'', observation_start_session = 1,
     observation_end_session = 2, available_at = Aware 10, analysis_as_of = Aware 20\<rparr>"

definition ex_trade :: "string \<Rightarrow> rat \<Rightarrow> rat \<Rightarrow> trade" where
  "ex_trade s d price = \<lparr>symbol = s, delta_shares = d, execution_price = RawExecutionPrice price (ex_evidence s)\<rparr>"

definition ex_marks :: "(string, raw_mark) dict" where
  "ex_marks = [(''A'', RawMark 50 (ex_evidence ''A'')), (''B'', RawMark (2001/100) (ex_evidence ''B''))]"

definition ex_before :: portfolio_state where
  "ex_before = \<lparr>cash = 1000, positions = [(''A'', 10)], raw_marks = ex_marks, receivables = 5/2\<rparr>"

definition ex_fills :: "trade list" where
  "ex_fills = [ex_trade ''A'' (- 4) 50, ex_trade ''B'' (19/2) (2001/100)]"

definition ex_policy :: transaction_tax_policy where
  "ex_policy = \<lparr>policy_id = ''p'', policy_sha256 = replicate 64 CHR ''c'', policy_source_id = ''s'',
     assessment_base = ''RAW_FILL_NOTIONAL'', assessment_side = TaxSell, rate_bps = 3,
     rounding_mode = ''ROUND_HALF_EVEN'', currency_quantum = 1 / 10 ^ 8\<rparr>"

lemmas ex_ledger_defs = ex_evidence_def ex_trade_def ex_marks_def ex_before_def ex_fills_def ex_policy_def

definition ex_after :: portfolio_state where
  "ex_after = \<lparr>cash = 201890981 / 200000, positions = [(''A'', 6), (''B'', 19 / 2)],
     raw_marks = ex_marks, receivables = 5 / 2\<rparr>"

definition ex_result :: rebalance_result where
  "ex_result = \<lparr>result_before = ex_before, result_after = ex_after, result_trades = ex_fills,
     gross_trade_notional = 78019 / 200, transaction_cost = 78019 / 200000, transaction_taxes = 3 / 50,
     gtn_ratio = 2596306156405990016638935108153078203 / 10000000000000000000000000000000000000,
     one_way_turnover = 2596306156405990016638935108153078203 / 20000000000000000000000000000000000000\<rparr>"

lemma ex_rebalance: "rebalance ex_before ex_fills (PInt 10) ex_policy (PInt 0) None None = Inr ex_result"
  by (simp add: eval_simps ex_ledger_defs ex_result_def ex_after_def cong: eval_congs)

lemma ex_notionals: "map_res signed_notional ex_fills = Inr [- 200, 38019 / 200]"
  by (simp add: eval_simps ex_ledger_defs cong: eval_congs)

lemma ex_navs: "nav ex_before = Inr (3005 / 2)" "nav ex_after = Inr (300409981 / 200000)"
  by (simp_all add: eval_simps ex_ledger_defs ex_after_def cong: eval_congs)

lemma ex_grid: "on_grid (- 8) 1000" "on_grid (- 8) (5 / 2)" "on_grid (- 8) 10" "on_grid (- 8) (- 4)"
  "on_grid (- 8) (19 / 2)"
  by (rule on_gridI [of _ "1000 * 10 ^ 8"] on_gridI [of _ "25 * 10 ^ 7"] on_gridI [of _ "10 ^ 9"]
      on_gridI [of _ "- 4 * 10 ^ 8"] on_gridI [of _ "95 * 10 ^ 7"], simp add: power_int_minus)+

lemma ex_wf: "wf_portfolio ex_before" "wf_policy ex_policy" "list_all wf_trade ex_fills"
    "shares_fit ex_fills (positions ex_before)"
  using ex_grid by (simp_all add: wf_portfolio_def wf_position_def normal_entry_def wf_policy_def wf_trade_def
      shares_fit_def ex_ledger_defs strip_def py_space_def)

section \<open>Properties of the rebalance\<close>

text \<open>
  C17: a rebalance that returns moves cash by exactly the quantised signed notionals of its
  fills, its cost and its taxes; the gross notional it reports is the sum of their sizes, and
  cost and taxes are each between zero and that sum.
\<close>

theorem rebalance_conserves_cash:
  assumes "rebalance before fills c pol flow ma ra = Inr r"
    and "wf_portfolio before" "wf_policy pol" "list_all wf_trade fills"
    and "map_res signed_notional fills = Inr ns"
    and "cash before + 3 * sum_list (map abs ns) < 10 ^ 30"
  shows "cash (result_after r) = cash before - sum_list ns - transaction_cost r - transaction_taxes r
    \<and> gross_trade_notional r = sum_list (map abs ns)
    \<and> 0 \<le> transaction_cost r \<and> transaction_cost r \<le> gross_trade_notional r
    \<and> 0 \<le> transaction_taxes r \<and> transaction_taxes r \<le> gross_trade_notional r"
  using rebalance_cash(1-6) [OF assms] by blast

theorem rebalance_conserves_cash_witness:
  "cash ex_after = cash ex_before - (- 200 + 38019 / 200) - 78019 / 200000 - 3 / 50"
proof -
  have "cash ex_before + 3 * sum_list (map abs [- 200, 38019 / 200]) < 10 ^ 30" by (simp add: ex_before_def)
  from rebalance_conserves_cash [OF ex_rebalance ex_wf(1,2,3) ex_notionals this] show ?thesis
    by (simp add: ex_result_def)
qed

text \<open>
  After a rebalance every symbol holds what it held before plus the sum of its fills,
  also for a symbol that was not held, that is bought and sold in several fills, or
  that no fill mentions.
\<close>

theorem rebalance_conserves_shares:
  assumes "rebalance before fills c pol flow ma ra = Inr r"
    and "wf_portfolio before" "list_all wf_trade fills" "shares_fit fills (positions before)"
  shows "dict_get_or (positions (result_after r)) s 0 = dict_get_or (positions before) s 0 + traded fills s"
proof -
  obtain bps l where "fold_res (apply_fill bps pol) (initial_ledger before) fills = Inr l"
    "positions (result_after r) = led_positions l"
    by (rule rebalance_after [OF assms(1-3)]) blast
  with fills_positions [of bps pol "initial_ledger before" fills l s] assms(3,4) show ?thesis
    by (simp add: initial_ledger_def)
qed

theorem rebalance_conserves_shares_witness:
  "dict_get_or (positions ex_after) ''A'' 0 = dict_get_or (positions ex_before) ''A'' 0 + traded ex_fills ''A''"
  using rebalance_conserves_shares [OF ex_rebalance ex_wf(1,3,4)] by (simp add: ex_result_def)

text \<open>
  C18: whatever the starting state, a rebalance that returns ends in a well-formed
  portfolio (no negative cash, receivables or position, distinct normalised symbols, every
  amount on its grid, a mark for every holding), and no sell follows a buy.
\<close>

theorem rebalance_safe:
  assumes "rebalance before fills c pol flow ma ra = Inr r"
  shows "wf_portfolio (result_after r)
    \<and> (\<forall>j < length fills. \<forall>i < j. 0 < delta_shares (fills ! i) \<longrightarrow> 0 < delta_shares (fills ! j))"
proof -
  obtain bps l where "fold_res (apply_fill bps pol) (initial_ledger before) fills = Inr l"
    by (rule rebalance_InrE [OF assms]) blast
  from fills_ordered [OF this] rebalance_wf [OF assms] show ?thesis by blast
qed

theorem rebalance_safe_witness: "wf_portfolio ex_after"
  using rebalance_safe [OF ex_rebalance] by (simp add: ex_result_def)

text \<open>
  C19: when the self-financing identity applies (unchanged receivables, common marks, fills at
  the marks), the check \<open>assert_self_financing\<close> passes for every rebalance with at most
  199 rounded amounts (positions before, positions after and fills together) and values
  below \<open>10 ^ 18\<close>: rounding to the currency quantum cannot exhaust the tolerance.
\<close>

theorem self_financing_check_passes:
  assumes "rebalance before fills c pol flow ma ra = Inr r"
    and "wf_portfolio before" "wf_policy pol" "list_all wf_trade fills"
    and "positive_marks (raw_marks before)" "positive_marks (raw_marks (result_after r))"
    and "shares_fit fills (positions before)"
    and "map_res signed_notional fills = Inr ns" "sum_list (map abs ns) < 10 ^ 18"
    and "nav before = Inr nb" "nav (result_after r) = Inr na" "nb < 10 ^ 18" "na < 10 ^ 18"
    and "receivables (result_after r) = receivables before"
    and "same_marks (raw_marks before) (raw_marks (result_after r))"
    and "list_all (common_mark_trade (raw_marks before)) fills"
    and "length (positions before) + length (positions (result_after r)) + length fills \<le> 199"
  shows "assert_self_financing 28 r = Inr ()"
proof -
  from assms(1) have rb: "result_before r = before" "result_trades r = fills"
    by (rule rebalance_InrE; blast)+
  then obtain e where e: "self_financing_error 28 r = Inr e"
    using assms(10,11,14-16) by (simp add: self_financing_error_def Let_def)
  from self_financing_residual [OF assms(1-13) e] amount_error_199 [OF assms(17)]
  have "dec 28 \<bar>e\<bar> \<le> COMPARISON_TOLERANCE" by linarith
  with e show ?thesis by (simp add: assert_self_financing_def)
qed

theorem self_financing_check_passes_witness: "assert_self_financing 28 ex_result = Inr ()"
proof (rule self_financing_check_passes [OF ex_rebalance ex_wf(1,2,3) _ _ ex_wf(4) ex_notionals _ ex_navs(1)])
  show "nav (result_after ex_result) = Inr (300409981 / 200000)" using ex_navs(2) by (simp add: ex_result_def)
qed (simp_all add: ex_ledger_defs ex_result_def ex_after_def positive_marks_def same_marks_def common_mark_trade_def)

text \<open>
  The constructor accepts a position of zero shares without a mark, although the value of
  the state then fails with a key error: a position sold out in full needs its mark for as
  long as the symbol stays in the mapping.
\<close>

theorem nav_needs_mark_of_empty_position:
  "\<exists>s. mk_portfolio_state (PInt 100) [(''A'', PInt 0)] [] (PInt 0) = Inr s \<and> nav s = Inl KeyError"
  by (simp add: eval_simps cong: eval_congs)

end
