(* ===== verification/Metrics.thy ===== *)
theory Metrics
  imports Ledger
begin

text \<open>
  The reporting side of the accounting kernel: the drawdown and the hit rate against
  reference definitions, the share count of a target notional, and what the fixed-trade
  capacity verdict means.
\<close>

section \<open>Drawdown\<close>

fun peaks :: "rat \<Rightarrow> rat list \<Rightarrow> rat list" where
  "peaks p [] = []"
| "peaks p (v # vs) = max p v # peaks (max p v) vs"

definition drawdown_from :: "rat \<Rightarrow> rat \<Rightarrow> rat" where
  "drawdown_from peak v = dec 38 (1 - dec 38 (v / peak))"

definition drawdown_at :: "rat list \<Rightarrow> nat \<Rightarrow> rat" where
  "drawdown_at vs j = drawdown_from (Max (set (take (Suc j) vs))) (vs ! j)"

lemma length_peaks [simp]: "length (peaks p vs) = length vs"
  by (induction vs arbitrary: p) auto

lemma peaks_nth: "j < length vs \<Longrightarrow> peaks p vs ! j = Max (insert p (set (take (Suc j) vs)))"
proof (induction vs arbitrary: p j)
  case (Cons v vs)
  show ?case
  proof (cases j)
    case (Suc k)
    have "set (take (Suc k) vs) \<noteq> {}" using Cons.prems Suc by (cases vs) auto
    with Cons Suc show ?thesis by (simp add: max.assoc)
  qed (simp add: Cons)
qed simp

lemma drawdown_loop_eq:
  "0 < peak \<Longrightarrow> list_all (\<lambda>v. 0 < v) vs \<Longrightarrow>
    drawdown_loop peak m vs = Inr (foldl max m (map2 drawdown_from (peaks peak vs) vs))"
  by (induction vs arbitrary: peak m)
    (auto simp: ddiv_def drawdown_from_def DECIMAL_PRECISION_def Let_def max_def)

lemma foldl_max_ge: "foldl max m xs \<ge> (m :: rat) \<and> (\<forall>x \<in> set xs. foldl max m xs \<ge> x)"
proof (induction xs arbitrary: m)
  case (Cons x xs)
  from Cons [of "max m x"] show ?case by auto
qed simp

lemma foldl_max_in: "foldl max m xs = (m :: rat) \<or> foldl max m xs \<in> set xs"
proof (induction xs arbitrary: m)
  case (Cons x xs)
  from Cons [of "max m x"] show ?case by (auto simp: max_def split: if_splits)
qed simp

lemma drawdown_from_range:
  assumes "0 < v" "v \<le> peak"
  shows "0 \<le> drawdown_from peak v" "drawdown_from peak v \<le> 1"
proof -
  have one: "dec 38 1 = 1" using dec_of_int [of 1 38] by simp
  have "0 \<le> dec 38 (v / peak)" "dec 38 (v / peak) \<le> 1"
    using assms by (auto intro!: dec38.rnd_nonneg dec38.rnd_le_fixed [OF one])
  then show "0 \<le> drawdown_from peak v" "drawdown_from peak v \<le> 1"
    unfolding drawdown_from_def by (auto intro!: dec38.rnd_nonneg dec38.rnd_le_fixed [OF one])
qed

lemma decimals_PDecimal: "decimals name (map PDecimal vs) = Inr vs"
  unfolding decimals_def by (induction vs) auto

lemma drawdown_values:
  assumes "vs \<noteq> []"
  shows "map2 drawdown_from (peaks (hd vs) vs) vs = map (drawdown_at vs) [0..<length vs]"
proof (rule nth_equalityI; simp)
  fix j assume j: "j < length vs"
  have "hd vs \<in> set (take (Suc j) vs)" using assms j by (cases vs) auto
  then have "insert (hd vs) (set (take (Suc j) vs)) = set (take (Suc j) vs)" by auto
  with j show "drawdown_from (peaks (hd vs) vs ! j) (vs ! j) = drawdown_at vs j"
    by (simp add: peaks_nth drawdown_at_def)
qed

lemma drawdown_at_range:
  assumes "list_all (\<lambda>v. 0 < v) vs" "j < length vs"
  shows "0 \<le> drawdown_at vs j" "drawdown_at vs j \<le> 1"
proof -
  have "vs ! j \<in> set (take (Suc j) vs)" using assms(2) by (simp add: take_Suc_conv_app_nth)
  then have "vs ! j \<le> Max (set (take (Suc j) vs))" by (intro Max_ge) auto
  with assms show "0 \<le> drawdown_at vs j" "drawdown_at vs j \<le> 1"
    unfolding drawdown_at_def by (auto intro!: drawdown_from_range simp: list_all_length)
qed

section \<open>Capacity\<close>

definition symbol_gross :: "nat \<Rightarrow> trade list \<Rightarrow> string \<Rightarrow> rat" where
  "symbol_gross p ts s =
     dsum p 0 (map (\<lambda>t. case gross_notional p t of Inr g \<Rightarrow> g | Inl _ \<Rightarrow> 0) (filter (\<lambda>t. symbol t = s) ts))"

definition traded_symbols :: "trade list \<Rightarrow> string set" where
  "traded_symbols ts = symbol ` set ts"

lemma dsum_snoc: "dsum p a (xs @ [x]) = dec p (dsum p a xs + x)"
  by (induction xs arbitrary: a) auto

lemma notionals_loop:
  assumes "fold_res (add_notional p adv) d ts = Inr d'" "distinct (map fst d)"
    "\<forall>s. dict_get d s = (if s \<in> traded_symbols pre then Some (symbol_gross p pre s) else None)"
  shows "distinct (map fst d') \<and>
    (\<forall>s. dict_get d' s = (if s \<in> traded_symbols (pre @ ts) then Some (symbol_gross p (pre @ ts) s) else None))
    \<and> (\<forall>t \<in> set ts. dict_get adv (symbol t) \<noteq> None)"
  using assms
proof (induction ts arbitrary: d pre)
  case (Cons t ts)
  from Cons.prems(1) obtain d1 where d1: "add_notional p adv d t = Inr d1"
    and rest: "fold_res (add_notional p adv) d1 ts = Inr d'" by auto
  from d1 obtain g where g: "gross_notional p t = Inr g" and adv: "dict_get adv (symbol t) \<noteq> None"
    and d1: "d1 = dict_set d (symbol t) (dec p (dict_get_or d (symbol t) 0 + g))"
    unfolding add_notional_def by (elim res_elims) auto
  have none: "symbol_gross p pre (symbol t) = 0" if "symbol t \<notin> traded_symbols pre"
  proof -
    have "filter (\<lambda>u. symbol u = symbol t) pre = []"
      using that by (auto simp: traded_symbols_def filter_empty_conv image_iff)
    then show ?thesis by (simp add: symbol_gross_def)
  qed
  have step: "\<forall>s. dict_get (dict_set d (symbol t) (dec p (dict_get_or d (symbol t) 0 + g))) s =
      (if s \<in> traded_symbols (pre @ [t]) then Some (symbol_gross p (pre @ [t]) s) else None)"
    using Cons.prems(3) none by (auto simp: update_conv' traded_symbols_def symbol_gross_def g dsum_snoc)
  have "distinct (map fst (dict_set d (symbol t) (dec p (dict_get_or d (symbol t) 0 + g))))"
    using Cons.prems(2) by (rule distinct_update)
  from Cons.IH [OF rest [unfolded d1] this step] adv show ?case by simp
qed auto

lemma map_res_snd:
  assumes "map_res (\<lambda>(s, n). rbind (f s n) (\<lambda>v. Inr (s, v))) xs = Inr ys"
  shows "map fst ys = map fst xs \<and> (\<forall>(s, v) \<in> set ys. \<exists>n. (s, n) \<in> set xs \<and> f s n = Inr v)
    \<and> (\<forall>(s, n) \<in> set xs. \<exists>v. (s, v) \<in> set ys \<and> f s n = Inr v)"
  using assms
proof (induction xs arbitrary: ys)
  case (Cons x xs)
  obtain s n where x: "x = (s, n)" by (cases x)
  with Cons.prems obtain v zs where v: "f s n = Inr v" and ys: "ys = (s, v) # zs"
    and zs: "map_res (\<lambda>(s, n). rbind (f s n) (\<lambda>v. Inr (s, v))) xs = Inr zs" by auto
  from Cons.IH [OF zs] v show ?case by (fastforce simp: x ys)
qed simp

definition participation :: "(string, raw_adv_notional) dict \<Rightarrow> string \<Rightarrow> rat \<Rightarrow> rat res" where
  "participation adv s n = (case dict_get adv s of None \<Rightarrow> Inl KeyError
     | Some obs \<Rightarrow> ddiv DECIMAL_PRECISION n (adv_value obs))"

lemma participation_bind:
  "(case dict_get adv s of None \<Rightarrow> Inl KeyError
    | Some obs \<Rightarrow> rbind (ddiv DECIMAL_PRECISION n (adv_value obs)) (\<lambda>v. Inr (s, v))) =
   rbind (participation adv s n) (\<lambda>v. Inr (s, v))"
  by (auto simp: participation_def split: option.splits)

lemma evaluate_capacity_InrE:
  assumes "evaluate_capacity p fills raw_adv limit = Inr r"
  obtains l adv notionals part util where "decimal limit ''maximum_participation'' = Inr l"
    "0 < l" "l \<le> 1" "adv_loop [] raw_adv = Inr adv"
    "fold_res (add_notional p adv) [] fills = Inr notionals"
    "map_res (\<lambda>(s, n). rbind (participation adv s n) (\<lambda>v. Inr (s, v))) notionals = Inr part"
    "map_res (\<lambda>(s, v). rbind (ddiv DECIMAL_PRECISION v l) (\<lambda>u. Inr (s, u))) part = Inr util"
    "participation_by_symbol r = part" "utilization_by_symbol r = util" "fills \<noteq> []"
    "maximum_utilization r = Max (set (map snd util))" "within_limit r = (Max (set (map snd util)) \<le> 1)"
  using assms unfolding evaluate_capacity_def Let_def participation_bind
  by (elim res_elims) (rule that, (assumption | simp add: not_le not_less)+, auto)

lemma capacity_utilization:
  assumes ev: "evaluate_capacity p fills raw_adv (PDecimal limit) = Inr r"
    and adv: "adv_loop [] raw_adv = Inr adv" and s: "s \<in> traded_symbols fills"
  obtains obs where "dict_get adv s = Some obs"
    "(s, dec 38 (dec 38 (symbol_gross p fills s / adv_value obs) / limit)) \<in> set (utilization_by_symbol r)"
proof -
  from ev adv obtain notionals where n: "fold_res (add_notional p adv) [] fills = Inr notionals"
    and part: "map_res (\<lambda>(s, n). rbind (participation adv s n) (\<lambda>v. Inr (s, v))) notionals =
      Inr (participation_by_symbol r)"
    and util: "map_res (\<lambda>(s, v). rbind (ddiv DECIMAL_PRECISION v limit) (\<lambda>u. Inr (s, u)))
      (participation_by_symbol r) = Inr (utilization_by_symbol r)"
    by (elim evaluate_capacity_InrE) auto
  have "dict_get notionals s = Some (symbol_gross p fills s)"
    using notionals_loop [OF n, of "[]"] s by (auto simp: traded_symbols_def)
  then have "(s, symbol_gross p fills s) \<in> set notionals" by (rule map_of_SomeD)
  then obtain v where v: "(s, v) \<in> set (participation_by_symbol r)"
    "participation adv s (symbol_gross p fills s) = Inr v"
    using map_res_snd [OF part] by blast
  then obtain obs where obs: "dict_get adv s = Some obs" "v = dec 38 (symbol_gross p fills s / adv_value obs)"
    by (auto simp: participation_def ddiv_def DECIMAL_PRECISION_def split: option.splits if_splits)
  from v(1) obtain u where "(s, u) \<in> set (utilization_by_symbol r)" "ddiv DECIMAL_PRECISION v limit = Inr u"
    using map_res_snd [OF util] by blast
  with obs that show ?thesis by (auto simp: ddiv_def DECIMAL_PRECISION_def split: if_splits)
qed

lemma capacity_symbols:
  assumes ev: "evaluate_capacity p fills raw_adv limit = Inr r"
  shows "fst ` set (utilization_by_symbol r) = traded_symbols fills"
    "distinct (map fst (utilization_by_symbol r))"
proof -
  from ev obtain adv l notionals where n: "fold_res (add_notional p adv) [] fills = Inr notionals"
    and part: "map_res (\<lambda>(s, n). rbind (participation adv s n) (\<lambda>v. Inr (s, v))) notionals =
      Inr (participation_by_symbol r)"
    and util: "map_res (\<lambda>(s, v). rbind (ddiv DECIMAL_PRECISION v l) (\<lambda>u. Inr (s, u)))
      (participation_by_symbol r) = Inr (utilization_by_symbol r)"
    by (elim evaluate_capacity_InrE) auto
  have eq: "map fst (utilization_by_symbol r) = map fst notionals"
    using map_res_snd [OF part] map_res_snd [OF util] by simp
  have m: "distinct (map fst notionals)"
    "dict_get notionals s = (if s \<in> traded_symbols fills then Some (symbol_gross p fills s) else None)" for s
    using notionals_loop [OF n, of "[]"] by (auto simp: traded_symbols_def)
  have "fst ` set notionals = dom (dict_get notionals)" by (rule dom_map_of_conv_image_fst [symmetric])
  also have "\<dots> = traded_symbols fills" using m(2) by (auto split: if_splits)
  finally show "fst ` set (utilization_by_symbol r) = traded_symbols fills"
    using eq by (metis set_map)
  show "distinct (map fst (utilization_by_symbol r))" using m(1) eq by simp
qed

section \<open>Properties\<close>

text \<open>
  On positive values the maximum drawdown is defined and is the largest fall from the
  running peak, attained at some observation, between 0 and 1.
\<close>

theorem max_drawdown_correct:
  assumes "vs \<noteq> []" "list_all (\<lambda>v. 0 < v) vs"
  shows "\<exists>d. max_drawdown (map PDecimal vs) =
      Inr \<lparr>status = DEFINED, metric_value = Some d, observations = int (length vs), reason = None,
           zero_return_count = None, total_observations = None\<rparr>
    \<and> (\<forall>j < length vs. drawdown_at vs j \<le> d) \<and> (\<exists>j < length vs. d = drawdown_at vs j) \<and> 0 \<le> d \<and> d \<le> 1"
proof -
  let ?ds = "map (drawdown_at vs) [0..<length vs]"
  define d where "d = foldl max 0 ?ds"
  have "0 < hd vs" using assms by (cases vs) auto
  then have "drawdown_loop (hd vs) 0 vs = Inr d"
    using drawdown_loop_eq [of "hd vs" vs 0] assms(2) unfolding drawdown_values [OF assms(1)] d_def by simp
  moreover have "\<not> list_ex (\<lambda>v. v \<le> 0) vs" using assms(2) by (auto simp: list_all_iff list_ex_iff)
  ultimately have "max_drawdown (map PDecimal vs) =
      Inr \<lparr>status = DEFINED, metric_value = Some d, observations = int (length vs), reason = None,
           zero_return_count = None, total_observations = None\<rparr>"
    using assms(1) unfolding max_drawdown_def decimals_PDecimal
    by (cases vs) (simp_all add: defined_metric_def mk_metric_result_def)
  moreover have ub: "\<forall>j < length vs. drawdown_at vs j \<le> d" using foldl_max_ge [of 0 ?ds] by (auto simp: d_def)
  moreover have at: "\<exists>j < length vs. d = drawdown_at vs j"
  proof (cases "d = 0")
    case True
    with ub drawdown_at_range(1) [OF assms(2), of 0] assms(1) have "d = drawdown_at vs 0" by force
    with assms(1) show ?thesis by blast
  next
    case False
    with foldl_max_in [of 0 ?ds] show ?thesis by (auto simp: d_def)
  qed
  moreover have "0 \<le> d \<and> d \<le> 1" using at drawdown_at_range [OF assms(2)] by auto
  ultimately show ?thesis by blast
qed

theorem max_drawdown_correct_witness:
  "\<exists>d. (\<forall>j < 3. drawdown_at [100, 120, 90] j \<le> d) \<and> (\<exists>j < 3. d = drawdown_at [100, 120, 90] j)"
  using max_drawdown_correct [of "[100, 120, 90]"] by (simp add: numeral_3_eq_3) blast

text \<open>
  The hit rate never raises on finite returns; it counts non-zero and zero returns so
  that they add up to all of them, is defined exactly when some return is non-zero, and is
  then the rounded share of positive ones, between 0 and 1.
\<close>

theorem hit_rate_correct:
  "\<exists>m. hit_rate (map PDecimal vs) = Inr m
    \<and> total_observations m = Some (int (length vs))
    \<and> zero_return_count m = Some (int (length (filter (\<lambda>v. v = 0) vs)))
    \<and> observations m = int (length (filter (\<lambda>v. v \<noteq> 0) vs))
    \<and> metric_value m = (if list_ex (\<lambda>v. v \<noteq> 0) vs
        then Some (dec 38 (of_nat (length (filter (\<lambda>v. 0 < v) vs)) / of_nat (length (filter (\<lambda>v. v \<noteq> 0) vs))))
        else None)
    \<and> (status m = DEFINED) = list_ex (\<lambda>v. v \<noteq> 0) vs
    \<and> (case metric_value m of None \<Rightarrow> True | Some x \<Rightarrow> 0 \<le> x \<and> x \<le> 1)"
proof -
  let ?nz = "filter (\<lambda>v. v \<noteq> 0) vs" and ?pos = "filter (\<lambda>v. 0 < v) vs"
  have sum: "int (length vs) = int (length ?nz) + int (length (filter (\<lambda>v. v = 0) vs))"
    using sum_length_filter_compl [of "\<lambda>v. v \<noteq> 0" vs] by simp
  have pos: "filter (\<lambda>v. 0 < v) ?nz = ?pos" by (induction vs) auto
  have pos': "filter (\<lambda>v. v \<noteq> 0 \<and> 0 < v) vs = ?pos" by (induction vs) auto
  have ex: "list_ex (\<lambda>v. v \<noteq> 0) vs \<longleftrightarrow> ?nz \<noteq> []" by (induction vs) auto
  have "length ?pos \<le> length ?nz" unfolding pos [symmetric] by (rule length_filter_le)
  then have "(of_nat (length ?pos) :: rat) \<le> of_nat (length ?nz)" by simp
  then have "0 \<le> dec 38 (of_nat (length ?pos) / of_nat (length ?nz))"
    "dec 38 (of_nat (length ?pos) / of_nat (length ?nz)) \<le> 1"
    using dec_of_int [of 1 38]
    by (auto intro!: dec38.rnd_nonneg dec38.rnd_le_fixed simp: divide_le_eq)
  then show ?thesis
    using sum unfolding hit_rate_def decimals_PDecimal ex
    by (auto simp: Let_def pos' mk_metric_result_def ddiv_def DECIMAL_PRECISION_def)
qed

text \<open>
  the capacity verdict is the conjunction over the traded symbols. When it is positive, the
  trades of every symbol, summed in the caller's context, use at most the declared share of its
  average daily volume, up to the two roundings to 38 digits; one utilisation is reported
  for each traded symbol and for no other.
\<close>

theorem capacity_verdict:
  assumes "evaluate_capacity p fills raw_adv (PDecimal limit) = Inr r" "adv_loop [] raw_adv = Inr adv"
  shows "within_limit r = (\<forall>s \<in> traded_symbols fills. \<exists>obs. dict_get adv s = Some obs
      \<and> dec 38 (dec 38 (symbol_gross p fills s / adv_value obs) / limit) \<le> 1)
    \<and> fst ` set (utilization_by_symbol r) = traded_symbols fills"
proof -
  let ?U = "set (map snd (utilization_by_symbol r))"
  obtain w: "within_limit r = (Max ?U \<le> 1)" and ne: "fills \<noteq> []"
    using evaluate_capacity_InrE [OF assms(1)] by metis
  note syms = capacity_symbols [OF assms(1)]
  have "traded_symbols fills \<noteq> {}" using ne by (simp add: traded_symbols_def)
  with syms(1) have "set (utilization_by_symbol r) \<noteq> {}" by fastforce
  then have "within_limit r = (\<forall>u \<in> ?U. u \<le> 1)" unfolding w by (intro Max_le_iff) auto
  also have "\<dots> = (\<forall>s \<in> traded_symbols fills. \<forall>u. (s, u) \<in> set (utilization_by_symbol r) \<longrightarrow> u \<le> 1)"
    unfolding syms(1) [symmetric] by force
  also have "\<dots> = (\<forall>s \<in> traded_symbols fills. \<exists>obs. dict_get adv s = Some obs
      \<and> dec 38 (dec 38 (symbol_gross p fills s / adv_value obs) / limit) \<le> 1)"
  proof (rule ball_cong [OF refl])
    fix s assume s: "s \<in> traded_symbols fills"
    obtain obs where obs: "dict_get adv s = Some obs"
      "(s, dec 38 (dec 38 (symbol_gross p fills s / adv_value obs) / limit)) \<in> set (utilization_by_symbol r)"
      by (rule capacity_utilization [OF assms s])
    then have "(s, u) \<in> set (utilization_by_symbol r) \<longleftrightarrow>
        u = dec 38 (dec 38 (symbol_gross p fills s / adv_value obs) / limit)" for u
      using syms(2) by (metis eq_key_imp_eq_value)
    then show "(\<forall>u. (s, u) \<in> set (utilization_by_symbol r) \<longrightarrow> u \<le> 1) =
        (\<exists>obs. dict_get adv s = Some obs \<and> dec 38 (dec 38 (symbol_gross p fills s / adv_value obs) / limit) \<le> 1)"
      unfolding obs(1) by simp
  qed
  finally show ?thesis using syms(1) by blast
qed

definition ex_adv :: "(string, raw_adv_notional) dict" where
  "ex_adv = [(''A'', RawAdvNotional 10000 (ex_evidence ''A'')), (''B'', RawAdvNotional 3000 (ex_evidence ''B''))]"

theorem capacity_verdict_witness:
  "\<exists>r. evaluate_capacity 28 ex_fills ex_adv (PDecimal (1/20)) = Inr r \<and> \<not> within_limit r
    \<and> fst ` set (utilization_by_symbol r) = traded_symbols ex_fills"
proof -
  have adv: "adv_loop [] ex_adv = Inr ex_adv"
    by (simp add: ex_adv_def ex_evidence_def eval_simps cong: eval_congs)
  obtain r where r: "evaluate_capacity 28 ex_fills ex_adv (PDecimal (1/20)) = Inr r" "\<not> within_limit r"
    by (simp add: ex_adv_def ex_ledger_defs evaluate_capacity_def add_notional_def eval_simps cong: eval_congs)
  from capacity_verdict [OF r(1) adv] r show ?thesis by blast
qed

text \<open>
  the share count of a long target is a whole number of order quanta (rounded to 38
  digits only), and its cost overshoots the target notional by less than one part in
  \<open>10 ^ 37\<close>, while one more quantum would cost at least the target less that part.
\<close>

theorem target_shares_bounds:
  assumes "round_long_target_shares (PDecimal notional) price (PDecimal quantum) = Inr shares"
  shows "\<exists>k. 0 \<le> k \<and> shares = dec 38 (of_int k * quantum)
    \<and> of_int k * quantum * price_value price \<le> notional * (1 + 1 / 10 ^ 37) ^ 2
    \<and> notional * (1 - 1 / 10 ^ 37) ^ 2 \<le> of_int (k + 1) * quantum * price_value price"
proof -
  define x where "x = notional / price_value price"
  define y where "y = dec 38 (dec 38 x / quantum)"
  have pos: "0 \<le> notional" "0 < price_value price" "0 < quantum" and sh: "shares = dec 38 (of_int \<lfloor>y\<rfloor> * quantum)"
    using assms by (auto simp: round_long_target_shares_def ddiv_def DECIMAL_PRECISION_def x_def y_def split: if_splits)
  have x: "0 \<le> x" using pos by (simp add: x_def)
  define e :: rat where "e = 1 / 10 ^ 37"
  have err: "dec 38 z \<le> z * (1 + e) \<and> z * (1 - e) \<le> dec 38 z" if "0 \<le> z" for z
  proof -
    have "\<bar>dec 38 z - z\<bar> \<le> z * e"
      using dec_relative_error [of 38 z] that by (simp add: e_def power_int_minus divide_simps)
    then show ?thesis by (simp add: algebra_simps abs_le_iff)
  qed
  have d: "0 \<le> dec 38 x / quantum" using x pos by (simp add: dec38.rnd_nonneg)
  have "y \<le> dec 38 x / quantum * (1 + e)" unfolding y_def using err [OF d] by simp
  also have "\<dots> \<le> x * (1 + e) / quantum * (1 + e)"
    using err [OF x] pos by (intro mult_right_mono divide_right_mono) (auto simp: e_def)
  finally have up: "y \<le> x * (1 + e) ^ 2 / quantum" by (simp add: power2_eq_square mult.assoc)
  have "x * (1 - e) / quantum * (1 - e) \<le> dec 38 x / quantum * (1 - e)"
    using err [OF x] pos by (intro mult_right_mono divide_right_mono) (auto simp: e_def)
  also have "\<dots> \<le> y" unfolding y_def using err [OF d] by simp
  finally have lo: "x * (1 - e) ^ 2 / quantum \<le> y" by (simp add: power2_eq_square mult.assoc)
  have k: "0 \<le> \<lfloor>y\<rfloor>" "of_int \<lfloor>y\<rfloor> \<le> y" "y \<le> of_int (\<lfloor>y\<rfloor> + 1)"
    using d by (auto simp: y_def dec38.rnd_nonneg) linarith
  have "of_int \<lfloor>y\<rfloor> \<le> x * (1 + e) ^ 2 / quantum" "x * (1 - e) ^ 2 / quantum \<le> of_int (\<lfloor>y\<rfloor> + 1)"
    using up lo k by linarith+
  then have "of_int \<lfloor>y\<rfloor> * quantum \<le> x * (1 + e) ^ 2" "x * (1 - e) ^ 2 \<le> of_int (\<lfloor>y\<rfloor> + 1) * quantum"
    using pos by (simp_all add: pos_le_divide_eq pos_divide_le_eq)
  then have "of_int \<lfloor>y\<rfloor> * quantum * price_value price \<le> x * (1 + e) ^ 2 * price_value price"
    "x * (1 - e) ^ 2 * price_value price \<le> of_int (\<lfloor>y\<rfloor> + 1) * quantum * price_value price"
    using pos by (simp_all add: mult_right_mono)
  moreover have "x * c * price_value price = notional * c" for c using pos by (simp add: x_def)
  ultimately show ?thesis using k(1) sh unfolding e_def by (intro exI [of _ "\<lfloor>y\<rfloor>"]) (simp only:)
qed

theorem target_shares_bounds_witness:
  "\<exists>k. 0 \<le> k \<and> dec 38 3 = dec 38 (of_int k) \<and> of_int k * 33 \<le> 100 * (1 + 1 / 10 ^ 37 :: rat) ^ 2"
proof -
  have "round_long_target_shares (PDecimal 100) (RawExecutionPrice 33 (ex_evidence ''A'')) (PDecimal 1) = Inr (dec 38 3)"
    by (simp add: round_long_target_shares_def eval_simps cong: eval_congs)
  from target_shares_bounds [OF this] show ?thesis by auto
qed

end
