(* ===== verification/Tax_Lots.thy ===== *)
theory Tax_Lots
  imports Equations
begin

text \<open>
  The tax-lot engine \<open>qme/quant/tax_lots.py\<close>: fills and splits in date order, FIFO or
  HIFO consumption of lots, the 30-day wash-sale window before and after a loss, and the
  scenario tax estimate. Python's lots are mutable objects shared between lists; the model
  keeps them in one list and updates them by their identifier. Amounts are exact fractions;
  an output string is represented by the decimal it prints. Dates are proleptic ordinals.
\<close>

section \<open>Constants and parsing\<close>

definition LOT_METHOD_FIFO :: string where "LOT_METHOD_FIFO = ''FIFO''"
definition LOT_METHOD_HIFO :: string where "LOT_METHOD_HIFO = ''HIFO''"
definition LONG_TERM_MIN_DAYS_EXCLUSIVE :: int where "LONG_TERM_MIN_DAYS_EXCLUSIVE = 365"
definition WASH_WINDOW_DAYS :: int where "WASH_WINDOW_DAYS = 30"
definition LOT_QUANTUM :: int where "LOT_QUANTUM = - 8"

lemmas tax_lot_constants = LOT_METHOD_FIFO_def LOT_METHOD_HIFO_def LONG_TERM_MIN_DAYS_EXCLUSIVE_def
  WASH_WINDOW_DAYS_def LOT_QUANTUM_def

abbreviation TaxLotError :: "string \<Rightarrow> py_exc" where "TaxLotError \<equiv> Raised ''TaxLotError''"

text \<open>The division of two fractions.\<close>

definition fdiv :: "rat \<Rightarrow> rat \<Rightarrow> rat res" where
  "fdiv a b = (if b = 0 then Inl ZeroDivision else Inr (a / b))"

text \<open>\<open>_q\<close> opens no context: it divides and quantises at the default 28 digits.\<close>

definition lot_q :: "rat \<Rightarrow> rat res" where
  "lot_q value = quantize DEFAULT_PRECISION LOT_QUANTUM (dec DEFAULT_PRECISION value)"

datatype quantity = QFraction rat | QVal pyval

definition frac :: "quantity \<Rightarrow> string \<Rightarrow> rat res" where
  "frac value name = (case value of
     QFraction x \<Rightarrow> Inr x
   | QVal (PBool _) \<Rightarrow> Inl (TaxLotError (name @ '' must be numeric''))
   | QVal v \<Rightarrow> (case dec_of_str_of v of
        Some (Finite x) \<Rightarrow> Inr x
      | _ \<Rightarrow> Inl (TaxLotError (name @ '' must be a finite decimal''))))"

section \<open>Events and state\<close>

record lot_fill =
  fill_security :: string
  trade_date :: int
  side :: string
  fill_shares :: quantity
  fill_price :: quantity
  fill_fees :: quantity
  fill_id :: "string option"

record lot_split =
  split_security :: string
  effective_date :: int
  split_ratio :: quantity

record lot =
  lot_id :: int
  lot_security :: string
  acquired :: int
  holding_start :: int
  lot_shares :: rat
  lot_basis :: rat
  lot_fill_id :: "string option"
  wash_capacity :: rat

definition basis_per_share :: "lot \<Rightarrow> rat" where
  "basis_per_share l = (if lot_shares l \<noteq> 0 then lot_basis l / lot_shares l else 0)"

record pending_loss =
  loss_security :: string
  loss_sale_date :: int
  loss_shares :: rat
  loss_amount :: rat
  loss_holding_start :: int
  loss_disallowed :: rat
  loss_used :: "int list"
  event_index :: nat

definition per_share_loss :: "pending_loss \<Rightarrow> rat" where
  "per_share_loss p = (if loss_shares p \<noteq> 0 then loss_amount p / loss_shares p else 0)"

datatype holding_term = SHORT_TERM | LONG_TERM

record realized_event =
  event_security :: string
  sale_date :: int
  sale_fill_id :: "string option"
  event_lot_id :: int
  lot_acquired :: int
  event_holding_start :: int
  event_shares :: rat
  event_proceeds :: rat
  event_basis :: rat
  raw_gain :: rat
  wash_disallowed :: rat
  recognized_gain :: rat
  event_term :: holding_term
  holding_days :: int
  wash_replacement_lot_ids :: "int list"

record lot_snapshot =
  snapshot_lot_id :: int
  snapshot_security :: string
  snapshot_acquired :: int
  snapshot_holding_start :: int
  snapshot_shares :: rat
  snapshot_basis :: rat

record tax_lot_ledger =
  lot_method :: string
  election_verified :: bool
  realized :: "realized_event list"
  open_lots :: "lot_snapshot list"
  labels :: "string list"

text \<open>The variables of \<open>build_tax_lot_ledger\<close> that live across events.\<close>

record lot_state =
  lots :: "lot list"
  next_lot_id :: int
  events_so_far :: "realized_event list"
  pending :: "pending_loss list"

definition update_lot :: "int \<Rightarrow> (lot \<Rightarrow> lot) \<Rightarrow> lot list \<Rightarrow> lot list" where
  "update_lot i f ls = map (\<lambda>l. if lot_id l = i then f l else l) ls"

definition find_lot :: "int \<Rightarrow> lot list \<Rightarrow> lot option" where
  "find_lot i ls = first_match (\<lambda>l. lot_id l = i) ls"

section \<open>The engine\<close>

definition term_of :: "int \<Rightarrow> int \<Rightarrow> holding_term \<times> int" where
  "term_of start sale =
     (let days = sale - start
      in (if days > LONG_TERM_MIN_DAYS_EXCLUSIVE then LONG_TERM else SHORT_TERM, days))"

definition replacements_before :: "lot list \<Rightarrow> string \<Rightarrow> int \<Rightarrow> int \<Rightarrow> lot list res" where
  "replacements_before ls security sale exclude =
     (let lo = sale - WASH_WINDOW_DAYS in
      if lo < 1 then Inl (ValueError ''ordinal must be >= 1'')
      else Inr (sort_key (\<lambda>l. (acquired l, lot_id l))
        (filter (\<lambda>l. lot_security l = security \<and> lot_id l \<noteq> exclude \<and> wash_capacity l > 0
                    \<and> lo \<le> acquired l \<and> acquired l \<le> sale) ls)))"

definition absorb :: "rat \<Rightarrow> rat \<Rightarrow> int \<Rightarrow> lot \<Rightarrow> lot" where
  "absorb amount taken start l =
     l\<lparr>lot_basis := lot_basis l + amount, wash_capacity := wash_capacity l - taken,
       holding_start := (if start < holding_start l then start else holding_start l)\<rparr>"

text \<open>The candidates are distinct lots, so each is read before it is changed.\<close>

fun wash_loop :: "rat \<Rightarrow> int \<Rightarrow> lot list \<Rightarrow> rat \<Rightarrow> rat \<Rightarrow> int list \<Rightarrow> lot list \<Rightarrow> lot list \<times> rat \<times> int list" where
  "wash_loop per_share start ls remaining disallowed used [] = (ls, disallowed, used)"
| "wash_loop per_share start ls remaining disallowed used (c # cs) =
     (if remaining \<le> 0 then (ls, disallowed, used)
      else let taken = min (wash_capacity c) remaining in
        if taken \<le> 0 then wash_loop per_share start ls remaining disallowed used cs
        else let amount = per_share * taken
          in wash_loop per_share start (update_lot (lot_id c) (absorb amount taken start) ls)
               (remaining - taken) (disallowed + amount) (used @ [lot_id c]) cs)"

definition apply_wash ::
    "lot list \<Rightarrow> rat \<Rightarrow> rat \<Rightarrow> int \<Rightarrow> lot list \<Rightarrow> (lot list \<times> rat \<times> int list) res" where
  "apply_wash ls shares amount start candidates =
     rbind (fdiv amount shares) (\<lambda>per_share. Inr (wash_loop per_share start ls shares 0 [] candidates))"

definition rewash :: "realized_event \<Rightarrow> pending_loss \<Rightarrow> realized_event res" where
  "rewash old p =
     rbind (lot_q (loss_disallowed p)) (\<lambda>w.
     rbind (lot_q (raw_gain old + loss_disallowed p)) (\<lambda>g.
       Inr (old\<lparr>wash_disallowed := w, recognized_gain := g, wash_replacement_lot_ids := loss_used p\<rparr>)))"

definition apply_lot_split :: "lot_state \<Rightarrow> lot_split \<Rightarrow> lot_state res" where
  "apply_lot_split st s =
     rbind (frac (split_ratio s) ''split ratio'') (\<lambda>ratio.
       if ratio \<le> 0 then Inl (TaxLotError ''split ratio must be positive'')
       else Inr (st\<lparr>lots := map (\<lambda>l. if lot_security l = split_security s
                        then l\<lparr>lot_shares := lot_shares l * ratio, wash_capacity := wash_capacity l * ratio\<rparr>
                        else l) (lots st),
                    pending := map (\<lambda>p. if loss_security p = split_security s
                        then p\<lparr>loss_shares := loss_shares p * ratio\<rparr> else p) (pending st)\<rparr>))"

text \<open>
  One pending loss against the lot just bought: the lots and events are updated when the lot
  absorbs some of the loss, and the loss stays pending while it has unmatched shares.
\<close>

definition match_pending ::
    "int \<Rightarrow> string \<Rightarrow> int \<Rightarrow> lot_state \<Rightarrow> pending_loss \<Rightarrow> lot_state res" where
  "match_pending new_id security day st p =
     (case find_lot new_id (lots st) of None \<Rightarrow> Inl KeyError
      | Some l \<Rightarrow>
        rbind (if loss_security p = security \<and> day - loss_sale_date p \<le> WASH_WINDOW_DAYS
                  \<and> wash_capacity l > 0 \<and> loss_shares p > 0
               then
                 rbind (apply_wash (lots st) (loss_shares p) (loss_amount p) (loss_holding_start p) [l])
                   (\<lambda>(ls, later, later_used).
                     if later = 0 then Inr (st\<lparr>lots := ls\<rparr>, p)
                     else rbind (fdiv later (per_share_loss p)) (\<lambda>absorbed.
                       let p' = p\<lparr>loss_disallowed := loss_disallowed p + later,
                                  loss_used := loss_used p @ later_used,
                                  loss_shares := loss_shares p - absorbed,
                                  loss_amount := loss_amount p - later\<rparr>
                       in rbind (rewash (events_so_far st ! event_index p) p') (\<lambda>e.
                            Inr (st\<lparr>lots := ls, events_so_far := (events_so_far st)[event_index p := e]\<rparr>, p'))))
               else Inr (st, p))
          (\<lambda>(st', p'). Inr (if loss_shares p' > 0 then st'\<lparr>pending := pending st' @ [p']\<rparr> else st')))"

definition apply_buy :: "lot_state \<Rightarrow> lot_fill \<Rightarrow> rat \<Rightarrow> rat \<Rightarrow> rat \<Rightarrow> lot_state res" where
  "apply_buy st f shares price fees =
     (let l = \<lparr>lot_id = next_lot_id st, lot_security = fill_security f, acquired = trade_date f,
               holding_start = trade_date f, lot_shares = shares, lot_basis = shares * price + fees,
               lot_fill_id = fill_id f, wash_capacity = shares\<rparr>
      in fold_res (match_pending (next_lot_id st) (fill_security f) (trade_date f))
           (st\<lparr>lots := lots st @ [l], next_lot_id := next_lot_id st + 1, pending := []\<rparr>) (pending st))"

definition reduce_lot :: "rat \<Rightarrow> rat \<Rightarrow> lot \<Rightarrow> lot" where
  "reduce_lot taken basis l = l\<lparr>lot_shares := lot_shares l - taken, lot_basis := lot_basis l - basis,
     wash_capacity := min (wash_capacity l) (lot_shares l - taken)\<rparr>"

text \<open>
  The loss on \<open>taken\<close> shares of one lot against replacements bought before the sale: the
  lots afterwards, the disallowed amount, the lots that absorbed it and, when shares stay
  unmatched, the loss that waits for a later replacement.
\<close>

definition wash_before ::
    "lot list \<Rightarrow> lot_fill \<Rightarrow> lot \<Rightarrow> rat \<Rightarrow> rat \<Rightarrow> nat \<Rightarrow> (lot list \<times> rat \<times> int list \<times> pending_loss list) res" where
  "wash_before ls f sold taken gain index =
     (if gain < 0 then
        rbind (replacements_before ls (fill_security f) (trade_date f) (lot_id sold)) (\<lambda>candidates.
        rbind (apply_wash ls taken (- gain) (holding_start sold) candidates) (\<lambda>(ls', disallowed, used).
        rbind (fdiv (- gain) taken) (\<lambda>per_share.
        rbind (fdiv disallowed per_share) (\<lambda>absorbed.
        let unabsorbed = taken - absorbed in
        Inr (ls', disallowed, used,
             if unabsorbed > 0
             then [\<lparr>loss_security = fill_security f, loss_sale_date = trade_date f,
                    loss_shares = unabsorbed, loss_amount = - gain - disallowed,
                    loss_holding_start = holding_start sold, loss_disallowed = disallowed,
                    loss_used = used, event_index = index\<rparr>]
             else [])))))
      else Inr (ls, 0, [], []))"

definition realize ::
    "lot_fill \<Rightarrow> lot \<Rightarrow> rat \<Rightarrow> rat \<Rightarrow> rat \<Rightarrow> rat \<Rightarrow> rat \<Rightarrow> int list \<Rightarrow> realized_event res" where
  "realize f sold taken proceeds basis gain disallowed used =
     (let (trm, days) = term_of (holding_start sold) (trade_date f) in
      rbind (lot_q taken) (\<lambda>q_shares.
      rbind (lot_q proceeds) (\<lambda>q_proceeds.
      rbind (lot_q basis) (\<lambda>q_basis.
      rbind (lot_q gain) (\<lambda>q_gain.
      rbind (lot_q disallowed) (\<lambda>q_disallowed.
      rbind (lot_q (gain + disallowed)) (\<lambda>q_recognized.
      Inr \<lparr>event_security = fill_security f, sale_date = trade_date f, sale_fill_id = fill_id f,
           event_lot_id = lot_id sold, lot_acquired = acquired sold, event_holding_start = holding_start sold,
           event_shares = q_shares, event_proceeds = q_proceeds, event_basis = q_basis,
           raw_gain = q_gain, wash_disallowed = q_disallowed, recognized_gain = q_recognized,
           event_term = trm, holding_days = days, wash_replacement_lot_ids = used\<rparr>)))))))"

fun book_sale ::
    "lot_fill \<Rightarrow> lot \<Rightarrow> rat \<Rightarrow> rat \<Rightarrow> rat \<Rightarrow> lot_state \<Rightarrow> lot list \<times> rat \<times> int list \<times> pending_loss list
     \<Rightarrow> lot_state res" where
  "book_sale f l taken proceeds basis st (ls', disallowed, used, waiting) =
     rbind (realize f l taken proceeds basis (proceeds - basis) disallowed used) (\<lambda>e.
       Inr (st\<lparr>lots := ls', pending := pending st @ waiting, events_so_far := events_so_far st @ [e]\<rparr>))"

fun sell_lot ::
    "lot_fill \<Rightarrow> rat \<Rightarrow> rat \<Rightarrow> lot_state \<times> rat \<Rightarrow> int \<Rightarrow> (lot_state \<times> rat) res" where
  "sell_lot f shares gross_proceeds (st, remaining) i =
     (if remaining \<le> 0 then Inr (st, remaining)
      else case find_lot i (lots st) of None \<Rightarrow> Inl KeyError
      | Some l \<Rightarrow>
        let taken = min (lot_shares l) remaining in
        rbind (fdiv (gross_proceeds * taken) shares) (\<lambda>proceeds.
        rbind (fdiv (lot_basis l * taken) (lot_shares l)) (\<lambda>basis.
        let ls = update_lot i (reduce_lot taken basis) (lots st) in
        rbind (wash_before ls f l taken (proceeds - basis) (length (events_so_far st))) (\<lambda>washed.
        rbind (book_sale f l taken proceeds basis st washed) (\<lambda>st'.
        Inr (st', remaining - taken))))))"

definition lot_order :: "string \<Rightarrow> lot list \<Rightarrow> lot list" where
  "lot_order m ls =
     (if m = LOT_METHOD_FIFO then sort_key (\<lambda>l. (acquired l, lot_id l)) ls
      else sort_key (\<lambda>l. (- basis_per_share l, acquired l, lot_id l)) ls)"

definition apply_sell :: "string \<Rightarrow> lot_state \<Rightarrow> lot_fill \<Rightarrow> rat \<Rightarrow> rat \<Rightarrow> rat \<Rightarrow> lot_state res" where
  "apply_sell m st f shares price fees =
     (let available = filter (\<lambda>l. lot_security l = fill_security f \<and> lot_shares l > 0) (lots st);
          held = sum_list (map lot_shares available)
      in if shares > held then Inl (TaxLotError ''oversell'')
         else rbind (fold_res (sell_lot f shares (shares * price - fees)) (st, shares)
                       (map lot_id (lot_order m available))) (\<lambda>(st', _).
           Inr (st'\<lparr>lots := filter (\<lambda>l. lot_shares l > 0) (lots st')\<rparr>)))"

datatype lot_event = SplitEvent lot_split | FillEvent lot_fill

definition apply_fill_event :: "string \<Rightarrow> lot_state \<Rightarrow> lot_fill \<Rightarrow> lot_state res" where
  "apply_fill_event m st f =
     rbind (frac (fill_shares f) ''shares'') (\<lambda>shares.
     rbind (frac (fill_price f) ''price'') (\<lambda>price.
     rbind (frac (fill_fees f) ''fees'') (\<lambda>fees.
       if shares \<le> 0 \<or> price < 0 \<or> fees < 0
       then Inl (TaxLotError ''shares must be > 0 and price/fees >= 0'')
       else if side f = ''BUY'' then apply_buy st f shares price fees
       else apply_sell m st f shares price fees)))"

fun apply_event :: "string \<Rightarrow> lot_state \<Rightarrow> lot_event \<Rightarrow> lot_state res" where
  "apply_event m st (SplitEvent s) = apply_lot_split st s"
| "apply_event m st (FillEvent f) = apply_fill_event m st f"

text \<open>Splits come before the fills of the same day; fills keep their input order.\<close>

definition ordered_events :: "lot_fill list \<Rightarrow> lot_split list \<Rightarrow> lot_event list" where
  "ordered_events fills splits =
     map (\<lambda>(_, _, _, e). e) (sort_key (\<lambda>(d, k, i, _). (d, k, i))
       (map (\<lambda>(i, s). (effective_date s, 0 :: int, i, SplitEvent s)) (enumerate 0 splits) @
        map (\<lambda>(i, f). (trade_date f, 1, i, FillEvent f)) (enumerate 0 fills)))"

definition snapshot_of :: "lot \<Rightarrow> lot_snapshot res" where
  "snapshot_of l =
     rbind (lot_q (lot_shares l)) (\<lambda>s. rbind (lot_q (lot_basis l)) (\<lambda>b.
       Inr \<lparr>snapshot_lot_id = lot_id l, snapshot_security = lot_security l, snapshot_acquired = acquired l,
            snapshot_holding_start = holding_start l, snapshot_shares = s, snapshot_basis = b\<rparr>))"

definition initial_lots :: lot_state where
  "initial_lots = \<lparr>lots = [], next_lot_id = 1, events_so_far = [], pending = []\<rparr>"

definition build_tax_lot_ledger ::
    "lot_fill list \<Rightarrow> lot_split list \<Rightarrow> string \<Rightarrow> bool \<Rightarrow> tax_lot_ledger res" where
  "build_tax_lot_ledger fills splits m verified =
     (if m \<noteq> LOT_METHOD_FIFO \<and> m \<noteq> LOT_METHOD_HIFO then Inl (TaxLotError ''unknown lot method'')
      else if m = LOT_METHOD_HIFO \<and> \<not> verified
      then Inl (TaxLotError ''HIFO requires a verified account election artifact'')
      else if list_ex (\<lambda>f. side f \<noteq> ''BUY'' \<and> side f \<noteq> ''SELL'') fills
      then Inl (TaxLotError ''unsupported side (short sales are out of scope)'')
      else
      rbind (fold_res (apply_event m) initial_lots (ordered_events fills splits)) (\<lambda>st.
      rbind (map_res snapshot_of (sort_key lot_id (lots st))) (\<lambda>snaps.
      Inr \<lparr>lot_method = m, election_verified = verified, realized = events_so_far st, open_lots = snaps,
           labels = [''LOT_METHOD_'' @ m,
             (if verified then ''ELECTION_VERIFIED'' else ''ELECTION_UNVERIFIED_FIFO_DEFAULT''),
             ''WASH_SALE_SCOPE_STRATEGY_ACCOUNT_ONLY_CROSS_ACCOUNT_UNDERSTATEMENT'',
             ''LONG_TERM_IF_HELD_MORE_THAN_365_DAYS'']\<rparr>)))"

section \<open>The scenario tax estimator\<close>

text \<open>The year of a proleptic ordinal, as \<open>date.fromordinal\<close> computes it.\<close>

definition year_of :: "int \<Rightarrow> int" where
  "year_of d =
     (let n = d - 1; n400 = n div 146097; n = n mod 146097;
          n100 = n div 36524; n = n mod 36524;
          n4 = n div 1461; n = n mod 1461; n1 = n div 365;
          y = n400 * 400 + 1 + n100 * 100 + n4 * 4 + n1
      in if n1 = 4 \<or> n100 = 4 then y - 1 else y)"

definition realized_by_year :: "tax_lot_ledger \<Rightarrow> int \<Rightarrow> realized_event list" where
  "realized_by_year l y = filter (\<lambda>e. year_of (sale_date e) = y) (realized l)"

record scenario_tax =
  tax_year :: int
  st_rate :: string
  lt_rate :: string
  net_short_term :: rat
  net_long_term :: rat
  taxable_short_term :: rat
  taxable_long_term :: rat
  estimated_tax :: rat
  loss_carryforward_short_term :: rat
  loss_carryforward_long_term :: rat
  tax_labels :: "string list"

definition REGISTERED_ST_RATE_SCENARIOS :: "string list" where
  "REGISTERED_ST_RATE_SCENARIOS = [''0.22'', ''0.24'', ''0.32'']"

text \<open>\<open>Fraction(Decimal(text))\<close>.\<close>

definition frac_of_text :: "string \<Rightarrow> rat res" where
  "frac_of_text t = (case dec_of_text t of
     None \<Rightarrow> Inl InvalidOperation
   | Some NonFinite \<Rightarrow> Inl (Raised ''ValueError or OverflowError'' ''cannot convert to integer ratio'')
   | Some (Finite x) \<Rightarrow> Inr x)"

definition net_gains :: "realized_event list \<Rightarrow> rat \<Rightarrow> rat \<Rightarrow> rat \<times> rat" where
  "net_gains es st lt =
     foldl (\<lambda>(s, l) e. if event_term e = SHORT_TERM then (s + recognized_gain e, l)
                       else (s, l + recognized_gain e)) (st, lt) es"

definition cross_offset :: "rat \<Rightarrow> rat \<Rightarrow> rat \<times> rat" where
  "cross_offset st lt =
     (if st < 0 \<and> 0 < lt then (let off = min (- st) lt in (st + off, lt - off))
      else if lt < 0 \<and> 0 < st then (let off = min (- lt) st in (st - off, lt + off))
      else (st, lt))"

definition estimate_scenario_tax ::
    "tax_lot_ledger \<Rightarrow> int \<Rightarrow> string \<Rightarrow> string \<Rightarrow> string \<Rightarrow> string \<Rightarrow> scenario_tax res" where
  "estimate_scenario_tax ledger year st_text lt_text carry_in_st carry_in_lt =
     (if st_text \<notin> set REGISTERED_ST_RATE_SCENARIOS
      then Inl (TaxLotError ''st_rate is not a registered scenario'')
      else
      rbind (frac_of_text st_text) (\<lambda>st.
      rbind (frac_of_text lt_text) (\<lambda>lt.
      rbind (frac_of_text carry_in_st) (\<lambda>st0.
      rbind (frac_of_text carry_in_lt) (\<lambda>lt0.
      let net = net_gains (realized_by_year ledger year) st0 lt0;
          net_st = fst net; net_lt = snd net;
          off = cross_offset net_st net_lt;
          taxable_st = max (fst off) 0; taxable_lt = max (snd off) 0
      in
      rbind (lot_q net_st) (\<lambda>q_net_st.
      rbind (lot_q net_lt) (\<lambda>q_net_lt.
      rbind (lot_q taxable_st) (\<lambda>q_taxable_st.
      rbind (lot_q taxable_lt) (\<lambda>q_taxable_lt.
      rbind (lot_q (taxable_st * st + taxable_lt * lt)) (\<lambda>q_tax.
      rbind (lot_q (min (fst off) 0)) (\<lambda>q_carry_st.
      rbind (lot_q (min (snd off) 0)) (\<lambda>q_carry_lt.
      Inr \<lparr>tax_year = year, st_rate = st_text, lt_rate = lt_text, net_short_term = q_net_st,
           net_long_term = q_net_lt, taxable_short_term = q_taxable_st, taxable_long_term = q_taxable_lt,
           estimated_tax = q_tax, loss_carryforward_short_term = q_carry_st,
           loss_carryforward_long_term = q_carry_lt,
           tax_labels = [''REGISTERED_RATE_SCENARIO_NOT_OWNER_BRACKET'',
             ''NETTING_SIMPLE_CROSS_OFFSET_CARRYFORWARD_BY_CHARACTER'',
             ''ORDINARY_INCOME_LOSS_DEDUCTION_STATE_NIIT_DIVIDENDS_OUT_OF_SCOPE''] @ labels ledger\<rparr>))))))))))))"

lemmas lot_engine_defs = fdiv_def lot_q_def frac_def update_lot_def find_lot_def term_of_def
  replacements_before_def absorb_def apply_wash_def rewash_def apply_lot_split_def match_pending_def
  apply_buy_def reduce_lot_def wash_before_def realize_def lot_order_def apply_sell_def apply_fill_event_def ordered_events_def
  snapshot_of_def initial_lots_def build_tax_lot_ledger_def basis_per_share_def per_share_loss_def

end
