(* ===== verification/Lot_Ledger.thy ===== *)
theory Lot_Ledger
  imports Tax_Lots "HOL-Library.Multiset"
begin

text \<open>
  The tax-lot engine against an account that only counts money and shares. Every event of
  the engine refines one step of the account; wash sales move basis between lots and never
  create or destroy gain.
\<close>

section \<open>Published amounts\<close>

definition lot_tolerance :: rat where "lot_tolerance = 1 / 10 ^ 8"

lemma lot_q_error:
  assumes "lot_q x = Inr y"
  shows "\<bar>y - x\<bar> \<le> lot_tolerance"
proof -
  have q: "quantize 28 (- 8) (dec 28 x) = Inr y"
    using assms by (simp add: lot_q_def DEFAULT_PRECISION_def LOT_QUANTUM_def)
  have e1: "\<bar>y - dec 28 x\<bar> \<le> 1 / (2 * 10 ^ 8)" using quantize_InrD(3) [OF q] by (simp add: power_int_minus)
  have fixed: "dec 28 (10 ^ 20) = 10 ^ 20" using dec_of_int [of "10 ^ 20" 28] by simp
  have "\<bar>x\<bar> < 10 ^ 20"
  proof (rule ccontr)
    assume "\<not> \<bar>x\<bar> < 10 ^ 20"
    then have "10 ^ 20 \<le> \<bar>dec 28 x\<bar>"
      unfolding dec28.rnd_abs by (intro dec28.rnd_ge_fixed [OF fixed]) simp
    with quantize_abs_below [OF q] show False by simp
  qed
  then have "\<bar>dec 28 x - x\<bar> \<le> 1 / (2 * 10 ^ 8)"
    using dec_error [of x 20 28] by (simp add: power_int_minus)
  with e1 have "\<bar>y - x\<bar> \<le> 1 / (2 * 10 ^ 8) + 1 / (2 * 10 ^ 8)" by linarith
  then show ?thesis by (simp add: lot_tolerance_def)
qed

lemma lot_q_mono: "lot_q x = Inr y \<Longrightarrow> lot_q x' = Inr y' \<Longrightarrow> x \<le> x' \<Longrightarrow> y \<le> y'"
  unfolding lot_q_def DEFAULT_PRECISION_def by (blast intro: quantize_mono dec28.rnd_mono)

lemma lot_q_minus: "lot_q x = Inr y \<Longrightarrow> lot_q (- x) = Inr (- y)"
  unfolding lot_q_def DEFAULT_PRECISION_def dec28.rnd_minus by (rule quantize_minus)

lemma lot_q_0 [simp]: "lot_q 0 = Inr 0"
  by (simp add: lot_q_def quantize_def DEFAULT_PRECISION_def dec28.rnd_zero round_half_even_def)

section \<open>Lots in a list\<close>

definition lot_ok :: "lot \<Rightarrow> bool" where
  "lot_ok l \<longleftrightarrow> 0 \<le> wash_capacity l \<and> wash_capacity l \<le> lot_shares l \<and> 0 \<le> lot_basis l
     \<and> (lot_shares l = 0 \<longrightarrow> lot_basis l = 0)"

definition lots_inv :: "lot list \<Rightarrow> bool" where
  "lots_inv ls \<longleftrightarrow> distinct (map lot_id ls) \<and> list_all lot_ok ls"

definition holding :: "lot \<Rightarrow> int \<times> string \<times> rat" where
  "holding l = (lot_id l, lot_security l, lot_shares l)"

definition held :: "string \<Rightarrow> lot list \<Rightarrow> rat" where
  "held s ls = sum_list (map (\<lambda>l. if lot_security l = s then lot_shares l else 0) ls)"

lemma held_holding: "map holding ls = map holding ls' \<Longrightarrow> held s ls = held s ls'"
proof -
  have "held s xs = sum_list (map (\<lambda>(i, t, q). if t = s then q else 0) (map holding xs))" for xs
    by (simp add: held_def holding_def comp_def)
  then show "map holding ls = map holding ls' \<Longrightarrow> ?thesis" by metis
qed

lemma find_lot_Some: "find_lot i ls = Some l \<Longrightarrow> l \<in> set ls \<and> lot_id l = i"
  unfolding find_lot_def by (induction ls) (auto split: if_splits)

lemma find_lot_in: "distinct (map lot_id ls) \<Longrightarrow> l \<in> set ls \<Longrightarrow> find_lot (lot_id l) ls = Some l"
  unfolding find_lot_def by (induction ls) (auto simp: rev_image_eqI)

lemma find_lot_ids: "i \<in> lot_id ` set ls \<Longrightarrow> \<exists>l. find_lot i ls = Some l"
  unfolding find_lot_def by (induction ls) auto

lemma update_lot_ids: "(\<And>l. lot_id (f l) = lot_id l) \<Longrightarrow> map lot_id (update_lot i f ls) = map lot_id ls"
  by (simp add: update_lot_def)

lemma update_lot_other: "l \<in> set ls \<Longrightarrow> lot_id l \<noteq> i \<Longrightarrow> l \<in> set (update_lot i f ls)"
  by (force simp: update_lot_def)

lemma update_lot_sum:
  fixes g :: "lot \<Rightarrow> rat"
  assumes "distinct (map lot_id ls)" "l \<in> set ls"
  shows "sum_list (map g (update_lot (lot_id l) f ls)) = sum_list (map g ls) - g l + g (f l)"
  using assms
proof (induction ls)
  case (Cons a ls)
  show ?case
  proof (cases "lot_id a = lot_id l")
    case True
    with Cons.prems have "a = l" "update_lot (lot_id l) f ls = ls"
      by (auto simp: update_lot_def rev_image_eqI intro!: map_idI)
    then show ?thesis by (simp add: update_lot_def)
  next
    case False
    with Cons show ?thesis by (auto simp: update_lot_def)
  qed
qed simp

lemma update_lot_inv:
  assumes "lots_inv ls" "\<And>l. lot_id (f l) = lot_id l" "\<And>l. l \<in> set ls \<Longrightarrow> lot_id l = i \<Longrightarrow> lot_ok (f l)"
  shows "lots_inv (update_lot i f ls)"
proof -
  have "list_all lot_ok (update_lot i f ls)"
    using assms(1,3) by (auto simp: lots_inv_def update_lot_def list_all_iff)
  with assms(1) show ?thesis unfolding lots_inv_def update_lot_ids [OF assms(2)] by simp
qed

section \<open>Wash sales\<close>

abbreviation total_basis :: "lot list \<Rightarrow> rat" where
  "total_basis ls \<equiv> sum_list (map lot_basis ls)"

lemma absorb_ok: "lot_ok l \<Longrightarrow> 0 < taken \<Longrightarrow> taken \<le> wash_capacity l \<Longrightarrow> 0 \<le> amount \<Longrightarrow> lot_ok (absorb amount taken start l)"
  by (auto simp: lot_ok_def absorb_def)

lemma wash_loop_spec:
  assumes "wash_loop psl start ls remaining dis used cs = (ls', dis', used')"
    and "lots_inv ls" "distinct (map lot_id cs)" "set cs \<subseteq> set ls" "0 < psl" "0 \<le> remaining"
  shows "lots_inv ls' \<and> map holding ls' = map holding ls \<and> total_basis ls' = total_basis ls + (dis' - dis)
    \<and> dis \<le> dis' \<and> dis' - dis \<le> psl * remaining"
  using assms
proof (induction cs arbitrary: ls remaining dis used)
  case (Cons c cs)
  define taken where "taken = min (wash_capacity c) remaining"
  show ?case
  proof (cases "remaining \<le> 0 \<or> taken \<le> 0")
    case True
    with Cons.prems Cons.IH [of ls remaining dis used] show ?thesis
      by (auto simp: taken_def Let_def split: if_splits)
  next
    case False
    define ls1 where "ls1 = update_lot (lot_id c) (absorb (psl * taken) taken start) ls"
    have c: "c \<in> set ls" "lot_ok c" and d: "distinct (map lot_id ls)"
      using Cons.prems by (auto simp: lots_inv_def list_all_iff)
    have id: "lot_id (absorb a t s l) = lot_id l" for a t s l by (simp add: absorb_def)
    have only: "l = c" if "l \<in> set ls" "lot_id l = lot_id c" for l
      using that c d by (metis find_lot_in option.inject)
    have inv: "lots_inv ls1" unfolding ls1_def
      using Cons.prems(2,5) False c by (intro update_lot_inv [OF _ id]) (auto dest!: only intro!: absorb_ok simp: taken_def)
    have hold: "map holding ls1 = map holding ls"
      by (auto simp: ls1_def update_lot_def holding_def absorb_def)
    have basis: "total_basis ls1 = total_basis ls + psl * taken"
      unfolding ls1_def update_lot_sum [OF d c(1)] by (simp add: absorb_def)
    have sub: "set cs \<subseteq> set ls1"
    proof
      fix x assume "x \<in> set cs"
      with Cons.prems(3,4) show "x \<in> set ls1" unfolding ls1_def by (intro update_lot_other) (auto simp: image_iff)
    qed
    have step: "wash_loop psl start ls1 (remaining - taken) (dis + psl * taken) (used @ [lot_id c]) cs = (ls', dis', used')"
      using Cons.prems(1) False by (simp add: ls1_def taken_def Let_def)
    have rem: "0 \<le> remaining - taken" by (simp add: taken_def)
    from Cons.IH [OF step inv _ sub Cons.prems(5) rem] Cons.prems(3)
    have "lots_inv ls' \<and> map holding ls' = map holding ls1
      \<and> total_basis ls' = total_basis ls1 + (dis' - (dis + psl * taken))
      \<and> dis + psl * taken \<le> dis' \<and> dis' - (dis + psl * taken) \<le> psl * (remaining - taken)" by simp
    moreover have "0 < psl * taken" using False Cons.prems(5) by simp
    ultimately show ?thesis unfolding hold basis by (simp add: algebra_simps)
  qed
qed simp

lemma apply_wash_spec:
  assumes "apply_wash ls shares amount start cs = Inr (ls', dis, used)"
    and "lots_inv ls" "distinct (map lot_id cs)" "set cs \<subseteq> set ls" "0 < shares" "0 < amount"
  shows "lots_inv ls'" "map holding ls' = map holding ls" "total_basis ls' = total_basis ls + dis"
    "0 \<le> dis" "dis \<le> amount"
proof -
  have "wash_loop (amount / shares) start ls shares 0 [] cs = (ls', dis, used)"
    using assms(1,5) by (simp add: apply_wash_def fdiv_def)
  from wash_loop_spec [OF this assms(2-4)] assms(5,6)
  show "lots_inv ls'" "map holding ls' = map holding ls" "total_basis ls' = total_basis ls + dis"
    "0 \<le> dis" "dis \<le> amount" by auto
qed

section \<open>The account\<close>

record account =
  spent :: rat
  received :: rat
  position :: "string \<Rightarrow> rat"

definition amount_of :: "quantity \<Rightarrow> rat" where
  "amount_of q = (case frac q [] of Inr x \<Rightarrow> x | Inl _ \<Rightarrow> 0)"

definition move_shares :: "string \<Rightarrow> rat \<Rightarrow> account \<Rightarrow> account" where
  "move_shares s x a = a\<lparr>position := (position a)(s := position a s + x)\<rparr>"

definition fill_cost :: "lot_fill \<Rightarrow> rat" where
  "fill_cost f = amount_of (fill_shares f) * amount_of (fill_price f) + amount_of (fill_fees f)"

definition fill_revenue :: "lot_fill \<Rightarrow> rat" where
  "fill_revenue f = amount_of (fill_shares f) * amount_of (fill_price f) - amount_of (fill_fees f)"

fun account_step :: "account \<Rightarrow> lot_event \<Rightarrow> account" where
  "account_step a (SplitEvent s) =
     a\<lparr>position := (position a)(split_security s := position a (split_security s) * amount_of (split_ratio s))\<rparr>"
| "account_step a (FillEvent f) =
     (if side f = ''BUY''
      then (move_shares (fill_security f) (amount_of (fill_shares f)) a)\<lparr>spent := spent a + fill_cost f\<rparr>
      else (move_shares (fill_security f) (- amount_of (fill_shares f)) a)\<lparr>received := received a + fill_revenue f\<rparr>)"

lemma frac_amount_of: "frac q name = Inr x \<Longrightarrow> amount_of q = x"
  by (auto simp: amount_of_def frac_def split: quantity.splits pyval.splits option.splits pydec.splits)

text \<open>
  The exact proceeds, basis and disallowed loss behind one published event, and what an
  event and a pending loss owe to them.
\<close>

definition event_exact :: "realized_event \<Rightarrow> rat \<times> rat \<times> rat \<Rightarrow> bool" where
  "event_exact e = (\<lambda>(pr, b, d). lot_q (pr - b) = Inr (raw_gain e) \<and> lot_q d = Inr (wash_disallowed e)
     \<and> \<bar>recognized_gain e - (pr - b + d)\<bar> \<le> 2 * lot_tolerance \<and> 0 \<le> d \<and> (d \<noteq> 0 \<longrightarrow> d \<le> b - pr))"

definition loss_rel :: "(rat \<times> rat \<times> rat) list \<Rightarrow> pending_loss \<Rightarrow> bool" where
  "loss_rel xs p \<longleftrightarrow> event_index p < length xs \<and> 0 < loss_shares p \<and> 0 < loss_amount p
     \<and> (case xs ! event_index p of (pr, b, d) \<Rightarrow> loss_disallowed p = d \<and> d + loss_amount p = b - pr)"

abbreviation total_of :: "(rat \<times> rat \<times> rat \<Rightarrow> rat) \<Rightarrow> (rat \<times> rat \<times> rat) list \<Rightarrow> rat" where
  "total_of f xs \<equiv> sum_list (map f xs)"

definition lots_rel ::
    "rat \<Rightarrow> rat \<Rightarrow> (string \<Rightarrow> rat) \<Rightarrow> (rat \<times> rat \<times> rat) list \<Rightarrow> pending_loss list \<Rightarrow> lot_state \<Rightarrow> bool" where
  "lots_rel out inn pos xs ps st \<longleftrightarrow>
     lots_inv (lots st) \<and> list_all (\<lambda>l. lot_id l < next_lot_id st) (lots st)
     \<and> list_all2 event_exact (events_so_far st) xs
     \<and> list_all (loss_rel xs) ps \<and> distinct (map event_index ps)
     \<and> total_basis (lots st) = out - total_of (fst \<circ> snd) xs + total_of (snd \<circ> snd) xs
     \<and> total_of fst xs = inn \<and> (\<forall>s. held s (lots st) = pos s)"

lemma lots_rel_length: "lots_rel out inn pos xs ps st \<Longrightarrow> length xs = length (events_so_far st)"
  by (auto simp: lots_rel_def dest: list_all2_lengthD)

section \<open>Splits\<close>

lemma sum_list_scale: "sum_list (map (\<lambda>x. f x * c) xs) = sum_list (map f xs) * (c :: rat)"
  by (induction xs) (simp_all add: algebra_simps)

lemma held_scale:
  "held s (map (\<lambda>l. if lot_security l = t then l\<lparr>lot_shares := lot_shares l * r, wash_capacity := wash_capacity l * r\<rparr> else l) ls)
    = (if s = t then held s ls * r else held s ls)"
  unfolding held_def by (induction ls) (auto simp: algebra_simps)

lemma split_rel:
  assumes "lots_rel out inn pos xs (pending st) st" "apply_lot_split st s = Inr st'"
  shows "lots_rel out inn (pos(split_security s := pos (split_security s) * amount_of (split_ratio s))) xs (pending st') st'"
proof -
  from assms(2) obtain r where r: "amount_of (split_ratio s) = r" "0 < r"
    and st': "st' = st\<lparr>lots := map (\<lambda>l. if lot_security l = split_security s
                        then l\<lparr>lot_shares := lot_shares l * r, wash_capacity := wash_capacity l * r\<rparr>
                        else l) (lots st),
                    pending := map (\<lambda>p. if loss_security p = split_security s
                        then p\<lparr>loss_shares := loss_shares p * r\<rparr> else p) (pending st)\<rparr>"
    by (auto simp: apply_lot_split_def not_le dest!: frac_amount_of)
  define f where "f = (\<lambda>l :: lot. if lot_security l = split_security s
      then l\<lparr>lot_shares := lot_shares l * r, wash_capacity := wash_capacity l * r\<rparr> else l)"
  define g where "g = (\<lambda>p :: pending_loss. if loss_security p = split_security s then p\<lparr>loss_shares := loss_shares p * r\<rparr> else p)"
  have f: "lot_id (f l) = lot_id l" "lot_basis (f l) = lot_basis l" "lot_ok l \<Longrightarrow> lot_ok (f l)" for l
    using r(2) by (auto simp: f_def lot_ok_def mult_right_mono)
  have g: "event_index (g p) = event_index p" "loss_rel xs p \<Longrightarrow> loss_rel xs (g p)" for p
    using r(2) by (auto simp: g_def loss_rel_def)
  have h: "held t (map f ls) = (if t = split_security s then held t ls * r else held t ls)" for t ls
    unfolding f_def by (rule held_scale)
  show ?thesis
    using assms(1) f g h unfolding lots_rel_def lots_inv_def st' r(1) f_def [symmetric] g_def [symmetric]
    by (simp add: comp_def list_all_iff)
qed

section \<open>Buys\<close>

lemma list_all2_update:
  "list_all2 P xs ys \<Longrightarrow> i < length xs \<Longrightarrow> P x y \<Longrightarrow> list_all2 P (xs[i := x]) (ys[i := y])"
  by (rule list_all2_update_cong)

lemma total_of_update:
  "i < length xs \<Longrightarrow> total_of f (xs[i := x]) = total_of f xs - f (xs ! i) + f x"
proof (induction xs arbitrary: i)
  case (Cons a xs)
  then show ?case by (cases i) auto
qed simp

lemma rewash_exact:
  assumes "rewash e p = Inr e'" "event_exact e (pr, b, d)" "loss_disallowed p = d'" "0 \<le> d'" "d' \<le> b - pr"
  shows "event_exact e' (pr, b, d')"
proof -
  from assms(1,3) have w: "lot_q d' = Inr (wash_disallowed e')" "lot_q (raw_gain e + d') = Inr (recognized_gain e')"
    "raw_gain e' = raw_gain e" by (auto simp: rewash_def)
  have raw: "lot_q (pr - b) = Inr (raw_gain e)" using assms(2) by (simp add: event_exact_def)
  from lot_q_error [OF raw] lot_q_error [OF w(2)]
  have "\<bar>recognized_gain e' - (pr - b + d')\<bar> \<le> 2 * lot_tolerance" by linarith
  with w raw assms(4,5) show ?thesis by (simp add: event_exact_def)
qed

lemma apply_wash_one:
  assumes "apply_wash ls shares amount start [l] = Inr (ls', dis, used)"
    and "0 < shares" "0 < amount" "0 < wash_capacity l"
  shows "dis = amount / shares * min (wash_capacity l) shares" "0 < dis"
proof -
  show "dis = amount / shares * min (wash_capacity l) shares"
    using assms by (auto simp: apply_wash_def fdiv_def Let_def split: if_splits)
  with assms show "0 < dis" by simp
qed

lemma match_pending_rel:
  assumes rel: "lots_rel out inn pos xs (pending st @ p # rest) st"
    and m: "match_pending i security day st p = Inr st'"
  shows "\<exists>xs'. lots_rel out inn pos xs' (pending st' @ rest) st'
    \<and> next_lot_id st' = next_lot_id st \<and> map lot_id (lots st') = map lot_id (lots st)"
proof -
  from m obtain l where l: "find_lot i (lots st) = Some l"
    by (auto simp: match_pending_def split: option.splits)
  have p: "loss_rel xs p" and inv: "lots_inv (lots st)" and lset: "set [l] \<subseteq> set (lots st)"
    using rel find_lot_Some [OF l] by (auto simp: lots_rel_def)
  show ?thesis
  proof (cases "loss_security p = security \<and> day - loss_sale_date p \<le> WASH_WINDOW_DAYS
      \<and> wash_capacity l > 0 \<and> loss_shares p > 0")
    case False
    with m l p have "st' = st\<lparr>pending := pending st @ [p]\<rparr>"
      by (auto simp: match_pending_def loss_rel_def split: if_splits)
    with rel show ?thesis by (intro exI [of _ xs]) (simp add: lots_rel_def)
  next
    case True
    with m l obtain ls later used where w: "apply_wash (lots st) (loss_shares p) (loss_amount p)
        (loss_holding_start p) [l] = Inr (ls, later, used)"
      by (auto simp: match_pending_def)
    obtain pr b d where x: "xs ! event_index p = (pr, b, d)" by (cases "xs ! event_index p")
    have pp: "event_index p < length xs" "0 < loss_shares p" "0 < loss_amount p"
      "loss_disallowed p = d" "d + loss_amount p = b - pr"
      using p by (auto simp: loss_rel_def x)
    note one = apply_wash_one [OF w pp(2,3)] and spec = apply_wash_spec [OF w inv _ lset pp(2,3)]
    define taken where "taken = min (wash_capacity l) (loss_shares p)"
    have psl: "per_share_loss p = loss_amount p / loss_shares p" using pp by (simp add: per_share_loss_def)
    have later: "later = loss_amount p / loss_shares p * taken" "0 < later" using one True by (auto simp: taken_def)
    then have absorbed: "fdiv later (per_share_loss p) = Inr taken"
      using pp by (simp add: fdiv_def psl)
    define p' where "p' = p\<lparr>loss_disallowed := loss_disallowed p + later, loss_used := loss_used p @ used,
        loss_shares := loss_shares p - taken, loss_amount := loss_amount p - later\<rparr>"
    from m l True w absorbed later(2) obtain e where e: "rewash (events_so_far st ! event_index p) p' = Inr e"
      and st': "st' = st\<lparr>lots := ls, events_so_far := (events_so_far st)[event_index p := e],
        pending := pending st @ (if 0 < loss_shares p - taken then [p'] else [])\<rparr>"
      by (auto simp: match_pending_def p'_def Let_def split: if_splits)
    define xs' where "xs' = xs[event_index p := (pr, b, d + later)]"
    have len: "length xs = length (events_so_far st)" by (rule lots_rel_length [OF rel])
    have le: "later \<le> loss_amount p" using spec(5) by simp
    have ex: "event_exact (events_so_far st ! event_index p) (pr, b, d)"
      using rel pp(1) len x unfolding lots_rel_def by (metis list_all2_nthD2)
    have d0: "0 \<le> d" using ex by (simp add: event_exact_def)
    have "event_exact e (pr, b, d + later)"
      using rewash_exact [OF e ex, of "d + later"] pp later le d0 by (simp add: p'_def)
    then have evs: "list_all2 event_exact (events_so_far st') xs'"
      using rel pp(1) len unfolding lots_rel_def st' xs'_def by (auto intro: list_all2_update)
    have others: "loss_rel xs' q" if "q \<in> set (pending st @ rest)" for q
    proof -
      have "event_index q \<noteq> event_index p" "loss_rel xs q" using rel that by (auto simp: lots_rel_def list_all_iff image_iff)
      then show ?thesis by (auto simp: loss_rel_def xs'_def)
    qed
    have mine: "loss_rel xs' p'" if pos: "0 < loss_shares p - taken"
    proof -
      have "later < loss_amount p" using pos pp unfolding later(1) by (simp add: divide_less_eq)
      with pp pos show ?thesis by (simp add: loss_rel_def xs'_def p'_def)
    qed
    have fields: "total_of (fst \<circ> snd) xs' = total_of (fst \<circ> snd) xs" "total_of fst xs' = total_of fst xs"
      "total_of (snd \<circ> snd) xs' = total_of (snd \<circ> snd) xs + later"
      unfolding xs'_def using pp(1) x by (simp_all add: total_of_update)
    have ids: "map lot_id ls = map lot_id (lots st)"
      using arg_cong [OF spec(2), of "map fst"] by (simp add: holding_def comp_def)
    then have "list_all (\<lambda>l. lot_id l < next_lot_id st) ls"
      using rel unfolding lots_rel_def list_all_iff by (metis (no_types, lifting) image_iff set_map)
    moreover have "event_index p' = event_index p" by (simp add: p'_def)
    ultimately show ?thesis
      using rel spec evs others mine held_holding [OF spec(2)] fields ids unfolding lots_rel_def
      by (intro exI [of _ xs']) (auto simp: st' list_all_iff)
  qed
qed

lemma match_all_rel:
  assumes "lots_rel out inn pos xs (pending st @ ps) st"
    and "fold_res (match_pending i security day) st ps = Inr st'"
  shows "\<exists>xs'. lots_rel out inn pos xs' (pending st') st'"
  using assms
proof (induction ps arbitrary: st xs)
  case Nil
  then show ?case by auto
next
  case (Cons p ps)
  then obtain st1 where st1: "match_pending i security day st p = Inr st1"
    and rest: "fold_res (match_pending i security day) st1 ps = Inr st'" by auto
  from match_pending_rel [OF Cons.prems(1) st1] Cons.IH [OF _ rest] show ?case by blast
qed

lemma held_append: "held s (ls @ ms) = held s ls + held s ms"
  by (simp add: held_def)

definition bought_state :: "lot_state \<Rightarrow> lot_fill \<Rightarrow> rat \<Rightarrow> rat \<Rightarrow> rat \<Rightarrow> lot_state" where
  "bought_state st f shares price fees =
     st\<lparr>lots := lots st @ [\<lparr>lot_id = next_lot_id st, lot_security = fill_security f, acquired = trade_date f,
          holding_start = trade_date f, lot_shares = shares, lot_basis = shares * price + fees,
          lot_fill_id = fill_id f, wash_capacity = shares\<rparr>],
        next_lot_id := next_lot_id st + 1, pending := []\<rparr>"

lemma apply_buy_loop:
  "apply_buy st f shares price fees = fold_res (match_pending (next_lot_id st) (fill_security f) (trade_date f))
     (bought_state st f shares price fees) (pending st)"
  by (simp add: apply_buy_def bought_state_def Let_def)

lemma bought_rel:
  assumes "lots_rel out inn pos xs (pending st) st" "0 < shares" "0 \<le> price" "0 \<le> fees"
  shows "lots_rel (out + (shares * price + fees)) inn (pos(fill_security f := pos (fill_security f) + shares)) xs
      (pending (bought_state st f shares price fees) @ pending st) (bought_state st f shares price fees)"
    and "next_lot_id st \<in> lot_id ` set (lots (bought_state st f shares price fees))"
  using assms unfolding lots_rel_def lots_inv_def
  by (auto simp: bought_state_def list_all_iff held_append held_def lot_ok_def)

lemma buy_rel:
  assumes "lots_rel out inn pos xs (pending st) st" "apply_buy st f shares price fees = Inr st'"
    and "0 < shares" "0 \<le> price" "0 \<le> fees"
  shows "\<exists>xs'. lots_rel (out + (shares * price + fees)) inn
    (pos(fill_security f := pos (fill_security f) + shares)) xs' (pending st') st'"
  using bought_rel(1) [OF assms(1,3-5)] assms(2) unfolding apply_buy_loop by (rule match_all_rel)

section \<open>Sales\<close>

lemma wash_before_spec:
  assumes "wash_before ls f sold taken gain n = Inr (ls', dis, used, ps)" "lots_inv ls" "0 < taken"
  shows "lots_inv ls'" "map holding ls' = map holding ls" "total_basis ls' = total_basis ls + dis"
    "0 \<le> dis" "dis \<noteq> 0 \<Longrightarrow> dis \<le> - gain" "length ps \<le> 1"
    "p \<in> set ps \<Longrightarrow> 0 < loss_shares p \<and> 0 < loss_amount p \<and> loss_disallowed p = dis
       \<and> dis + loss_amount p = - gain \<and> event_index p = n"
proof -
  have "lots_inv ls' \<and> map holding ls' = map holding ls \<and> total_basis ls' = total_basis ls + dis
    \<and> 0 \<le> dis \<and> (dis \<noteq> 0 \<longrightarrow> dis \<le> - gain) \<and> length ps \<le> 1
    \<and> (\<forall>p \<in> set ps. 0 < loss_shares p \<and> 0 < loss_amount p \<and> loss_disallowed p = dis
       \<and> dis + loss_amount p = - gain \<and> event_index p = n)"
  proof (cases "gain < 0")
    case False
    with assms show ?thesis by (auto simp: wash_before_def)
  next
    case True
    with assms obtain cs where cs: "replacements_before ls (fill_security f) (trade_date f) (lot_id sold) = Inr cs"
      and w: "apply_wash ls taken (- gain) (holding_start sold) cs = Inr (ls', dis, used)"
      and ps: "ps = (if taken - dis / (- gain / taken) > 0
             then [\<lparr>loss_security = fill_security f, loss_sale_date = trade_date f,
                    loss_shares = taken - dis / (- gain / taken), loss_amount = - gain - dis,
                    loss_holding_start = holding_start sold, loss_disallowed = dis,
                    loss_used = used, event_index = n\<rparr>]
             else [])"
      unfolding wash_before_def Let_def by (auto simp: fdiv_def)
    have c: "distinct (map lot_id cs)" "set cs \<subseteq> set ls"
      using cs assms(2) by (auto simp: replacements_before_def lots_inv_def Let_def distinct_map
          inj_on_def split: if_splits)
    note spec = apply_wash_spec [OF w assms(2) c assms(3)]
    have "0 < - gain - dis" if "taken - dis / (- gain / taken) > 0"
    proof -
      have "taken * (gain + dis) < 0"
        using that True assms(3) by (simp add: divide_simps algebra_simps split: if_splits)
      with assms(3) show ?thesis by (simp add: mult_less_0_iff)
    qed
    with spec True ps show ?thesis by auto
  qed
  then show "lots_inv ls'" "map holding ls' = map holding ls" "total_basis ls' = total_basis ls + dis"
    "0 \<le> dis" "dis \<noteq> 0 \<Longrightarrow> dis \<le> - gain" "length ps \<le> 1"
    "p \<in> set ps \<Longrightarrow> 0 < loss_shares p \<and> 0 < loss_amount p \<and> loss_disallowed p = dis
       \<and> dis + loss_amount p = - gain \<and> event_index p = n" by auto
qed

lemma reduce_lot_ok:
  assumes "lot_ok l" "0 < lot_shares l" "0 < taken" "taken \<le> lot_shares l"
  shows "lot_ok (reduce_lot taken (lot_basis l * taken / lot_shares l) l)"
proof -
  have "lot_basis l * taken \<le> lot_basis l * lot_shares l"
    using assms by (intro mult_left_mono) (auto simp: lot_ok_def)
  then have "lot_basis l * taken / lot_shares l \<le> lot_basis l" using assms(2) by (simp add: divide_le_eq)
  with assms show ?thesis by (auto simp: lot_ok_def reduce_lot_def)
qed

lemma realize_exact:
  assumes "realize f sold taken proceeds basis (proceeds - basis) dis used = Inr e"
    and "0 \<le> dis" "dis \<noteq> 0 \<Longrightarrow> dis \<le> basis - proceeds"
  shows "event_exact e (proceeds, basis, dis)"
proof -
  from assms(1) have q: "lot_q (proceeds - basis) = Inr (raw_gain e)" "lot_q dis = Inr (wash_disallowed e)"
    "lot_q (proceeds - basis + dis) = Inr (recognized_gain e)"
    by (auto simp: realize_def term_of_def Let_def)
  have "\<bar>recognized_gain e - (proceeds - basis + dis)\<bar> \<le> 2 * lot_tolerance"
    using lot_q_error [OF q(3)] by linarith
  with q assms(2,3) show ?thesis by (auto simp: event_exact_def)
qed

lemma loss_rel_append: "loss_rel xs p \<Longrightarrow> loss_rel (xs @ ys) p"
  by (auto simp: loss_rel_def nth_append)

lemma held_update:
  assumes "distinct (map lot_id ls)" "l \<in> set ls" "\<And>l. lot_security (f l) = lot_security l"
  shows "held s (update_lot (lot_id l) f ls) =
    (if s = lot_security l then held s ls - lot_shares l + lot_shares (f l) else held s ls)"
  unfolding held_def using update_lot_sum [OF assms(1,2), of "\<lambda>l. if lot_security l = s then lot_shares l else 0" f]
  by (auto simp: assms(3))

lemma sell_lot_rel:
  assumes rel: "lots_rel out inn pos xs (pending st) st"
    and sell: "sell_lot f shares gross (st, remaining) i = Inr (st', remaining')"
    and l: "l \<in> set (lots st)" "lot_id l = i" "lot_security l = s" "0 < lot_shares l"
    and pos: "0 < remaining" "0 < shares"
  defines "taken \<equiv> min (lot_shares l) remaining"
  shows "remaining' = remaining - taken"
    and "map holding (lots st') = map holding (update_lot i (\<lambda>l. l\<lparr>lot_shares := lot_shares l - taken\<rparr>) (lots st))"
    and "\<exists>xs'. lots_rel out (inn + gross * taken / shares) (pos(s := pos s - taken)) xs' (pending st') st'"
proof -
  have inv: "lots_inv (lots st)" and d: "distinct (map lot_id (lots st))"
    using rel by (auto simp: lots_rel_def lots_inv_def)
  have find: "find_lot i (lots st) = Some l" using find_lot_in [OF d l(1)] l(2) by simp
  define basis where "basis = lot_basis l * taken / lot_shares l"
  define proceeds where "proceeds = gross * taken / shares"
  define ls where "ls = update_lot i (reduce_lot taken basis) (lots st)"
  have t: "0 < taken" "taken \<le> lot_shares l" using l(4) pos(1) by (auto simp: taken_def)
  from sell find l(4) pos obtain ls' dis used ps e where
    w: "wash_before ls f l taken (proceeds - basis) (length (events_so_far st)) = Inr (ls', dis, used, ps)" and
    e: "realize f l taken proceeds basis (proceeds - basis) dis used = Inr e" and
    st': "st' = st\<lparr>lots := ls', pending := pending st @ ps, events_so_far := events_so_far st @ [e]\<rparr>" and
    rem: "remaining' = remaining - taken"
    by (auto simp: Let_def fdiv_def ls_def basis_def proceeds_def taken_def)
  from rem show "remaining' = remaining - taken" .
  have only: "x = l" if "x \<in> set (lots st)" "lot_id x = i" for x
    using that l d by (metis find_lot_in option.inject)
  have "lot_ok l" using inv l(1) by (auto simp: lots_inv_def list_all_iff)
  then have inv1: "lots_inv ls" unfolding ls_def
    using inv l(4) t by (intro update_lot_inv)
      (auto dest!: only simp: basis_def intro!: reduce_lot_ok, simp add: reduce_lot_def)
  note spec = wash_before_spec [OF w inv1 t(1)]
  show hold: "map holding (lots st') = map holding (update_lot i (\<lambda>l. l\<lparr>lot_shares := lot_shares l - taken\<rparr>) (lots st))"
    using spec(2) by (auto simp: st' ls_def update_lot_def holding_def reduce_lot_def)
  have len: "length xs = length (events_so_far st)" by (rule lots_rel_length [OF rel])
  define xs' where "xs' = xs @ [(proceeds, basis, dis)]"
  have ex: "event_exact e (proceeds, basis, dis)"
    using spec(4,5) by (intro realize_exact [OF e]) auto
  have waiting: "loss_rel xs' p" "event_index p = length xs" if "p \<in> set ps" for p
    using spec(7) [OF that] len by (auto simp: loss_rel_def xs'_def nth_append)
  have old: "loss_rel xs' p" "event_index p < length xs" if "p \<in> set (pending st)" for p
  proof -
    have "loss_rel xs p" using rel that by (simp add: lots_rel_def list_all_iff)
    then show "loss_rel xs' p" unfolding xs'_def by (rule loss_rel_append)
    show "event_index p < length xs" using \<open>loss_rel xs p\<close> by (simp add: loss_rel_def)
  qed
  have "length xs \<notin> event_index ` set (pending st)" using old(2) by force
  then have idx: "distinct (map event_index (pending st @ ps))"
    using rel spec(6) waiting(2) unfolding lots_rel_def by (cases ps) auto
  have "total_basis ls = total_basis (lots st) - basis"
    unfolding ls_def using update_lot_sum [OF d l(1), of lot_basis "reduce_lot taken basis"] l(2)
    by (simp add: reduce_lot_def)
  with spec(3) rel have basis': "total_basis ls' = out - total_of (fst \<circ> snd) xs' + total_of (snd \<circ> snd) xs'"
    by (simp add: lots_rel_def xs'_def)
  have "held t ls' = (pos(s := pos s - taken)) t" for t
    using held_holding [OF spec(2), of t] held_update [OF d l(1), of "reduce_lot taken basis" t] l rel
    by (simp add: ls_def reduce_lot_def lots_rel_def)
  moreover have "map lot_id ls' = map lot_id (lots st)"
    using arg_cong [OF spec(2), of "map fst"] by (simp add: holding_def comp_def ls_def update_lot_def reduce_lot_def)
  then have "set (map lot_id ls') = set (map lot_id (lots st))" by simp
  then have "list_all (\<lambda>l. lot_id l < next_lot_id st) ls'"
    using rel unfolding lots_rel_def list_all_iff by (metis (no_types, lifting) image_iff set_map)
  moreover have "list_all2 event_exact (events_so_far st') xs'"
    using rel ex by (simp add: lots_rel_def st' xs'_def list_all2_appendI)
  moreover have "list_all (loss_rel xs') (pending st @ ps)" using waiting(1) old(1) by (auto simp: list_all_iff)
  moreover have "total_of fst xs' = inn + gross * taken / shares"
    using rel by (simp add: lots_rel_def xs'_def proceeds_def)
  ultimately have "lots_rel out (inn + gross * taken / shares) (pos(s := pos s - taken)) xs' (pending st') st'"
    using spec(1) basis' idx unfolding lots_rel_def by (simp add: st')
  then show "\<exists>xs'. lots_rel out (inn + gross * taken / shares) (pos(s := pos s - taken)) xs' (pending st') st'" ..
qed

definition sale_ready :: "string \<Rightarrow> (int \<times> rat) list \<Rightarrow> rat \<Rightarrow> lot_state \<Rightarrow> bool" where
  "sale_ready s hs remaining st \<longleftrightarrow> distinct (map fst hs) \<and> 0 \<le> remaining \<and> remaining \<le> sum_list (map snd hs)
     \<and> list_all (\<lambda>(i, q). (i, s, q) \<in> holding ` set (lots st) \<and> 0 < q) hs"

lemma sale_ready_lot:
  assumes "sale_ready s ((i, q) # hs) remaining st"
  obtains l where "l \<in> set (lots st)" "lot_id l = i" "lot_security l = s" "lot_shares l = q" "0 < q"
  using assms by (auto simp: sale_ready_def holding_def)

lemma sell_step:
  assumes rel: "lots_rel out inn pos xs (pending st) st" and ready: "sale_ready s ((i, q) # hs) remaining st"
    and one: "sell_lot f shares gross (st, remaining) i = Inr (st1, rem1)" and sh: "0 < shares"
  shows "\<exists>taken xs1. remaining = rem1 + taken \<and> sale_ready s hs rem1 st1
    \<and> lots_rel out (inn + gross * taken / shares) (pos(s := pos s - taken)) xs1 (pending st1) st1"
proof (cases "remaining = 0")
  case True
  have "0 \<le> sum_list (map snd hs)"
    using ready by (intro sum_list_nonneg) (auto simp: sale_ready_def list_all_iff)
  with True one rel ready show ?thesis
    by (intro exI [of _ 0] exI [of _ xs]) (auto simp: sale_ready_def)
next
  case False
  obtain l where l: "l \<in> set (lots st)" "lot_id l = i" "lot_security l = s" "lot_shares l = q" "0 < q"
    by (rule sale_ready_lot [OF ready])
  define taken where "taken = min q remaining"
  have pos: "0 < remaining" using False ready by (simp add: sale_ready_def)
  note step = sell_lot_rel [OF rel one l(1-3) _ pos sh, unfolded l(4), folded taken_def, OF l(5)]
  have keep: "(j, s, r) \<in> holding ` set (lots st1) \<and> 0 < r" if jr: "(j, r) \<in> set hs" for j r
  proof -
    from ready jr have "j \<noteq> i" "(j, s, r) \<in> holding ` set (lots st)" "0 < r"
      by (force simp: sale_ready_def list_all_iff)+
    then show ?thesis
      using arg_cong [OF step(2), of set] by (force simp: update_lot_def holding_def image_iff)
  qed
  have "0 \<le> sum_list (map snd hs)" by (intro sum_list_nonneg) (use keep in force)
  then have "0 \<le> rem1" "rem1 \<le> sum_list (map snd hs)"
    using ready pos unfolding step(1) taken_def by (auto simp: sale_ready_def min_def)
  with keep ready have "sale_ready s hs rem1 st1" by (auto simp: sale_ready_def list_all_iff)
  with step(1,3) show ?thesis by (intro exI [of _ taken]) auto
qed

lemma sell_loop_rel:
  assumes "lots_rel out inn pos xs (pending st) st" "sale_ready s hs remaining st" "0 < shares"
    and "fold_res (sell_lot f shares gross) (st, remaining) (map fst hs) = Inr (st', remaining')"
  shows "\<exists>xs'. lots_rel out (inn + gross * remaining / shares) (pos(s := pos s - remaining)) xs' (pending st') st'"
  using assms
proof (induction hs arbitrary: st remaining inn pos xs)
  case Nil
  then have "remaining = 0" "st' = st" by (auto simp: sale_ready_def)
  moreover have "pos(s := pos s - 0) = pos" by simp
  ultimately show ?case using Nil.prems(1) by (auto simp only: mult_zero_right div_0 add_0_right)
next
  case (Cons h hs)
  obtain i q where h: "h = (i, q)" by (cases h)
  from Cons.prems(4) obtain st1 rem1 where one: "sell_lot f shares gross (st, remaining) i = Inr (st1, rem1)"
    and rest: "fold_res (sell_lot f shares gross) (st1, rem1) (map fst hs) = Inr (st', remaining')"
    by (auto simp: h)
  from sell_step [OF Cons.prems(1) Cons.prems(2) [unfolded h] one Cons.prems(3)] obtain taken xs1 where
    t: "remaining = rem1 + taken" and ready: "sale_ready s hs rem1 st1"
    and rel: "lots_rel out (inn + gross * taken / shares) (pos(s := pos s - taken)) xs1 (pending st1) st1" by blast
  have "inn + gross * taken / shares + gross * rem1 / shares = inn + gross * remaining / shares"
    "(pos(s := pos s - taken))(s := (pos(s := pos s - taken)) s - rem1) = pos(s := pos s - remaining)"
    unfolding t by (simp_all add: add_divide_distrib algebra_simps fun_eq_iff)
  with Cons.IH [OF rel ready Cons.prems(3) rest] show ?case by (simp only:)
qed

definition sale_lots :: "string \<Rightarrow> lot_state \<Rightarrow> string \<Rightarrow> (int \<times> rat) list" where
  "sale_lots m st s = map (\<lambda>l. (lot_id l, lot_shares l))
     (lot_order m (filter (\<lambda>l. lot_security l = s \<and> lot_shares l > 0) (lots st)))"

lemma apply_sell_loop:
  "apply_sell m st f shares price fees =
     (if shares > sum_list (map snd (sale_lots m st (fill_security f))) then Inl (TaxLotError ''oversell'')
      else rbind (fold_res (sell_lot f shares (shares * price - fees)) (st, shares)
             (map fst (sale_lots m st (fill_security f)))) (\<lambda>(st', _).
           Inr (st'\<lparr>lots := filter (\<lambda>l. lot_shares l > 0) (lots st')\<rparr>)))"
proof -
  have "sum_list (map lot_shares (lot_order m av)) = sum_list (map lot_shares av)" for av
    unfolding sum_mset_sum_list [symmetric] mset_map by (simp add: lot_order_def)
  then have "sum_list (map snd (sale_lots m st (fill_security f))) =
      sum_list (map lot_shares (filter (\<lambda>l. lot_security l = fill_security f \<and> lot_shares l > 0) (lots st)))"
    unfolding sale_lots_def by (simp add: comp_def)
  then show ?thesis by (simp add: apply_sell_def Let_def sale_lots_def comp_def)
qed

lemma sale_lots_ready:
  assumes "lots_rel out inn pos xs ps st" "0 < shares" "shares \<le> sum_list (map snd (sale_lots m st s))"
  shows "sale_ready s (sale_lots m st s) shares st"
proof -
  define av where "av = filter (\<lambda>l. lot_security l = s \<and> lot_shares l > 0) (lots st)"
  have perm: "mset (lot_order m av) = mset av" by (simp add: lot_order_def)
  have "distinct (map lot_id (lots st))" using assms(1) by (simp add: lots_rel_def lots_inv_def)
  then have "distinct (map lot_id av)" unfolding av_def by (rule distinct_map_filter)
  then have "distinct (map fst (sale_lots m st s))"
    using perm unfolding sale_lots_def av_def [symmetric]
    by (simp add: comp_def) (metis mset_map mset_eq_imp_distinct_iff)
  moreover have "list_all (\<lambda>(i, q). (i, s, q) \<in> holding ` set (lots st) \<and> 0 < q) (sale_lots m st s)"
    using mset_eq_setD [OF perm]
    by (auto simp: sale_lots_def av_def [symmetric] list_all_iff) (auto simp: av_def holding_def intro!: image_eqI)
  ultimately show ?thesis using assms(2,3) by (simp add: sale_ready_def)
qed

lemma drop_empty_rel:
  assumes "lots_rel out inn pos xs ps st"
  shows "lots_rel out inn pos xs ps (st\<lparr>lots := filter (\<lambda>l. 0 < lot_shares l) (lots st)\<rparr>)"
proof -
  have ok: "list_all lot_ok (lots st)" using assms by (simp add: lots_rel_def lots_inv_def)
  have "total_basis (filter (\<lambda>l. 0 < lot_shares l) ls) = total_basis ls" if "list_all lot_ok ls" for ls
    using that by (induction ls) (auto simp: lot_ok_def)
  moreover have "held s (filter (\<lambda>l. 0 < lot_shares l) ls) = held s ls" if "list_all lot_ok ls" for s ls
    using that by (induction ls) (auto simp: held_def lot_ok_def)
  ultimately show ?thesis
    using assms ok by (auto simp: lots_rel_def lots_inv_def list_all_iff distinct_map_filter)
qed

lemma sell_rel:
  assumes rel: "lots_rel out inn pos xs (pending st) st"
    and sell: "apply_sell m st f shares price fees = Inr st'" and v: "0 < shares"
  defines "s \<equiv> fill_security f"
  shows "\<exists>xs'. lots_rel out (inn + (shares * price - fees)) (pos(s := pos s - shares)) xs' (pending st') st'"
proof -
  from sell obtain st1 rem1 where held: "shares \<le> sum_list (map snd (sale_lots m st s))"
    and loop: "fold_res (sell_lot f shares (shares * price - fees)) (st, shares) (map fst (sale_lots m st s)) = Inr (st1, rem1)"
    and st': "st' = st1\<lparr>lots := filter (\<lambda>l. lot_shares l > 0) (lots st1)\<rparr>"
    by (auto simp: apply_sell_loop s_def not_less split: if_splits)
  from sell_loop_rel [OF rel sale_lots_ready [OF rel v held] v loop] v
  have "\<exists>xs'. lots_rel out (inn + (shares * price - fees)) (pos(s := pos s - shares)) xs' (pending st1) st1" by simp
  then show ?thesis using drop_empty_rel by (fastforce simp: st')
qed

section \<open>The engine refines the account\<close>

definition ledger_rel :: "account \<Rightarrow> lot_state \<Rightarrow> bool" where
  "ledger_rel a st \<longleftrightarrow> (\<exists>xs. lots_rel (spent a) (received a) (position a) xs (pending st) st)"

lemma apply_fill_event_rel:
  assumes rel: "ledger_rel a st" and run: "apply_fill_event m st f = Inr st'"
  shows "ledger_rel (account_step a (FillEvent f)) st'"
proof -
  from run obtain shares price fees where fr: "frac (fill_shares f) ''shares'' = Inr shares"
    "frac (fill_price f) ''price'' = Inr price" "frac (fill_fees f) ''fees'' = Inr fees"
    and ok: "\<not> (shares \<le> 0 \<or> price < 0 \<or> fees < 0)"
    and step: "(if side f = ''BUY'' then apply_buy st f shares price fees
       else apply_sell m st f shares price fees) = Inr st'"
    unfolding apply_fill_event_def by (elim res_elims) (rule that)
  note v = fr [THEN frac_amount_of]
  from ok have pos: "0 < shares" "0 \<le> price" "0 \<le> fees" by auto
  from rel obtain xs where xs: "lots_rel (spent a) (received a) (position a) xs (pending st) st"
    by (auto simp: ledger_rel_def)
  show ?thesis
  proof (cases "side f = ''BUY''")
    case True
    with step buy_rel [OF xs _ pos] v show ?thesis
      by (simp add: ledger_rel_def move_shares_def fill_cost_def)
  next
    case False
    with step sell_rel [OF xs _ pos(1)] v show ?thesis
      by (simp add: ledger_rel_def move_shares_def fill_revenue_def)
  qed
qed

lemma apply_event_rel:
  "ledger_rel a st \<Longrightarrow> apply_event m st e = Inr st' \<Longrightarrow> ledger_rel (account_step a e) st'"
  by (cases e) (auto simp del: account_step.simps(2) simp: ledger_rel_def
      intro: apply_fill_event_rel [unfolded ledger_rel_def] split_rel)

section \<open>Exceptions\<close>

text \<open>What the engine may raise: its own error, an unprintable amount, a date out of range.\<close>

definition lot_exception :: "py_exc \<Rightarrow> bool" where
  "lot_exception e = (case e of Raised c _ \<Rightarrow> c = ''TaxLotError'' | InvalidOperation \<Rightarrow> True
     | ValueError _ \<Rightarrow> True | _ \<Rightarrow> False)"

lemma lot_q_exception: "lot_q x = Inl e \<Longrightarrow> lot_exception e"
  by (auto simp: lot_q_def quantize_def Let_def lot_exception_def split: if_splits)

lemma frac_exception: "frac q n = Inl e \<Longrightarrow> lot_exception e"
  by (auto simp: frac_def lot_exception_def split: quantity.splits pyval.splits option.splits pydec.splits)

lemma rewash_exception: "rewash ev p = Inl e \<Longrightarrow> lot_exception e"
  by (auto simp: rewash_def dest: lot_q_exception)

lemma realize_exception: "realize f l t pr b g d u = Inl e \<Longrightarrow> lot_exception e"
  by (auto simp: realize_def term_of_def Let_def dest: lot_q_exception)

lemma wash_before_exception: "wash_before ls f l taken gain n = Inl e \<Longrightarrow> 0 < taken \<Longrightarrow> lot_exception e"
  by (auto simp: wash_before_def replacements_before_def apply_wash_def fdiv_def Let_def lot_exception_def
      split: if_splits prod.splits)

lemma match_pending_exception:
  assumes rel: "lots_rel out inn pos xs (pending st @ p # rest) st" and i: "i \<in> lot_id ` set (lots st)"
    and m: "match_pending i security day st p = Inl e"
  shows "lot_exception e"
proof -
  obtain l where l: "find_lot i (lots st) = Some l" using find_lot_ids [OF i] by blast
  have "loss_rel xs p" using rel by (simp add: lots_rel_def)
  then have p: "0 < loss_shares p" "per_share_loss p \<noteq> 0" by (auto simp: loss_rel_def per_share_loss_def)
  from m l p show ?thesis
    by (auto simp: match_pending_def apply_wash_def fdiv_def Let_def dest: rewash_exception split: if_splits)
qed

lemma match_all_exception:
  assumes "lots_rel out inn pos xs (pending st @ ps) st" "i \<in> lot_id ` set (lots st)"
    and "fold_res (match_pending i security day) st ps = Inl e"
  shows "lot_exception e"
  using assms
proof (induction ps arbitrary: st xs)
  case (Cons p ps)
  show ?case
  proof (cases "match_pending i security day st p")
    case (Inl e')
    with Cons.prems match_pending_exception [OF Cons.prems(1,2) Inl] show ?thesis by simp
  next
    case (Inr st1)
    from match_pending_rel [OF Cons.prems(1) Inr] obtain xs' where
      rel: "lots_rel out inn pos xs' (pending st1 @ ps) st1" and "map lot_id (lots st1) = map lot_id (lots st)" by blast
    then have "i \<in> lot_id ` set (lots st1)" using Cons.prems(2) by (metis list.set_map)
    from Cons.IH [OF rel this] Cons.prems(3) Inr show ?thesis by simp
  qed
qed simp

lemma sell_loop_exception:
  assumes "lots_rel out inn pos xs (pending st) st" "sale_ready s hs remaining st" "0 < shares"
    and "fold_res (sell_lot f shares gross) (st, remaining) (map fst hs) = Inl e"
  shows "lot_exception e"
  using assms
proof (induction hs arbitrary: st remaining inn pos xs)
  case (Cons h hs)
  obtain i q where h: "h = (i, q)" by (cases h)
  obtain l where l: "l \<in> set (lots st)" "lot_id l = i" "lot_shares l = q" "0 < q"
    by (rule sale_ready_lot [OF Cons.prems(2) [unfolded h]]) blast
  have "distinct (map lot_id (lots st))" using Cons.prems(1) by (simp add: lots_rel_def lots_inv_def)
  then have find: "find_lot i (lots st) = Some l" using l by (metis find_lot_in)
  show ?case
  proof (cases "sell_lot f shares gross (st, remaining) i")
    case (Inl e')
    then have "lot_exception e'"
      using find l Cons.prems(3) by (auto simp: Let_def fdiv_def not_le split: if_splits
          dest!: wash_before_exception dest: realize_exception)
    with Inl Cons.prems(4) show ?thesis by (simp add: h)
  next
    case (Inr r)
    obtain st1 rem1 where r: "r = (st1, rem1)" by (cases r)
    from sell_step [OF Cons.prems(1) Cons.prems(2) [unfolded h] Inr [unfolded r] Cons.prems(3)]
    show ?thesis using Cons.IH [OF _ _ Cons.prems(3)] Cons.prems(4) Inr by (auto simp: h r)
  qed
qed simp

lemma apply_event_exception:
  assumes "ledger_rel a st" "apply_event m st ev = Inl e"
  shows "lot_exception e"
proof (cases ev)
  case (SplitEvent s)
  with assms(2) show ?thesis
    by (auto simp: apply_lot_split_def lot_exception_def dest: frac_exception split: if_splits)
next
  case (FillEvent f)
  from assms(1) obtain xs where rel: "lots_rel (spent a) (received a) (position a) xs (pending st) st"
    by (auto simp: ledger_rel_def)
  have buy: "lot_exception e" if "apply_buy st f shares price fees = Inl e" "0 < shares" "0 \<le> price" "0 \<le> fees"
    for shares price fees
    using match_all_exception [OF bought_rel [OF rel that(2-4)]] that(1) by (simp add: apply_buy_loop)
  have sell: "lot_exception e" if "apply_sell m st f shares price fees = Inl e" "0 < shares" for shares price fees
    using that sell_loop_exception [OF rel sale_lots_ready [OF rel]]
    by (auto simp: apply_sell_loop lot_exception_def not_less split: if_splits)
  from FillEvent assms(2) buy sell show ?thesis
    by (auto simp: apply_fill_event_def lot_exception_def not_le not_less dest: frac_exception split: if_splits)
qed

interpretation lot_engine: checked_loop "apply_event m" account_step ledger_rel lot_exception for m
  by unfold_locales (fact apply_event_rel apply_event_exception)+

definition empty_account :: account where
  "empty_account = \<lparr>spent = 0, received = 0, position = (\<lambda>_. 0)\<rparr>"

lemma initial_rel: "ledger_rel empty_account initial_lots"
  by (auto simp: ledger_rel_def empty_account_def initial_lots_def lots_rel_def lots_inv_def held_def
      intro!: exI [of _ "[]"])

section \<open>The published ledger\<close>

definition buy_costs :: "lot_fill list \<Rightarrow> rat" where
  "buy_costs fs = sum_list (map fill_cost (filter (\<lambda>f. side f = ''BUY'') fs))"

definition sale_revenues :: "lot_fill list \<Rightarrow> rat" where
  "sale_revenues fs = sum_list (map fill_revenue (filter (\<lambda>f. side f \<noteq> ''BUY'') fs))"

fun event_cost :: "lot_event \<Rightarrow> rat" where
  "event_cost (FillEvent f) = (if side f = ''BUY'' then fill_cost f else 0)"
| "event_cost (SplitEvent _) = 0"

fun event_revenue :: "lot_event \<Rightarrow> rat" where
  "event_revenue (FillEvent f) = (if side f = ''BUY'' then 0 else fill_revenue f)"
| "event_revenue (SplitEvent _) = 0"

lemma account_totals:
  "spent (foldl account_step a es) = spent a + sum_list (map event_cost es)"
  "received (foldl account_step a es) = received a + sum_list (map event_revenue es)"
proof (induction es arbitrary: a)
  case (Cons e es)
  case 1
  then show ?case using Cons by (cases e) (simp_all add: move_shares_def)
next
  case (Cons e es)
  case 2
  then show ?case using Cons by (cases e) (simp_all add: move_shares_def)
qed simp_all

lemma ordered_events_mset:
  "mset (ordered_events fills splits) = mset (map SplitEvent splits @ map FillEvent fills)"
proof -
  have "map (\<lambda>(_, _, _, e). e) (map (\<lambda>(i, s). (effective_date s, 0 :: int, i, SplitEvent s)) (enumerate n splits))
      = map SplitEvent splits" for n
    by (induction splits arbitrary: n) auto
  moreover have "map (\<lambda>(_, _, _, e). e) (map (\<lambda>(i, f). (trade_date f, 1 :: int, i, FillEvent f)) (enumerate n fills))
      = map FillEvent fills" for n
    by (induction fills arbitrary: n) auto
  ultimately have "map (\<lambda>(_, _, _, e). e)
       (map (\<lambda>(i, s). (effective_date s, 0 :: int, i, SplitEvent s)) (enumerate 0 splits) @
        map (\<lambda>(i, f). (trade_date f, 1, i, FillEvent f)) (enumerate 0 fills)) = map SplitEvent splits @ map FillEvent fills"
    unfolding map_append by (simp only:)
  from arg_cong [OF this, of mset] show ?thesis unfolding ordered_events_def mset_map mset_sort .
qed

lemma ordered_total:
  "sum_list (map g (ordered_events fills splits)) =
    sum_list (map g (map SplitEvent splits)) + (sum_list (map g (map FillEvent fills)) :: rat)"
proof -
  have "sum_list (map g (ordered_events fills splits)) = sum_mset (image_mset g (mset (ordered_events fills splits)))"
    by (simp flip: sum_mset_sum_list)
  also have "\<dots> = sum_list (map g (map SplitEvent splits @ map FillEvent fills))"
    unfolding ordered_events_mset mset_map [symmetric] sum_mset_sum_list ..
  finally show ?thesis by simp
qed

lemma ordered_totals:
  "sum_list (map event_cost (ordered_events fills splits)) = buy_costs fills"
  "sum_list (map event_revenue (ordered_events fills splits)) = sale_revenues fills"
proof -
  have s: "sum_list (map event_cost (map SplitEvent splits)) = 0" "sum_list (map event_revenue (map SplitEvent splits)) = 0"
    by (induction splits) simp_all
  have f: "sum_list (map event_cost (map FillEvent fills)) = buy_costs fills"
    "sum_list (map event_revenue (map FillEvent fills)) = sale_revenues fills"
    unfolding buy_costs_def sale_revenues_def by (induction fills) auto
  show "sum_list (map event_cost (ordered_events fills splits)) = buy_costs fills"
    "sum_list (map event_revenue (ordered_events fills splits)) = sale_revenues fills"
    unfolding ordered_total s f by simp_all
qed

lemma ledger_InrE:
  assumes "build_tax_lot_ledger fills splits m v = Inr L"
  obtains st xs where "fold_res (apply_event m) initial_lots (ordered_events fills splits) = Inr st"
    "lots_rel (buy_costs fills) (sale_revenues fills)
       (position (foldl account_step empty_account (ordered_events fills splits))) xs (pending st) st"
    "realized L = events_so_far st" "map_res snapshot_of (sort_key lot_id (lots st)) = Inr (open_lots L)"
proof -
  from assms obtain st where st: "fold_res (apply_event m) initial_lots (ordered_events fills splits) = Inr st"
    and L: "realized L = events_so_far st" "map_res snapshot_of (sort_key lot_id (lots st)) = Inr (open_lots L)"
    by (auto simp: build_tax_lot_ledger_def split: if_splits)
  from lot_engine.loop_rel [OF initial_rel st] obtain xs where
    "lots_rel (buy_costs fills) (sale_revenues fills)
       (position (foldl account_step empty_account (ordered_events fills splits))) xs (pending st) st"
    by (auto simp: ledger_rel_def account_totals ordered_totals) (simp add: empty_account_def)
  with that st L show thesis by blast
qed

lemma snapshots_error:
  fixes ls :: "lot list"
  assumes "map_res snapshot_of ls = Inr ss"
  shows "\<bar>sum_list (map snapshot_basis ss) - total_basis ls\<bar> \<le> lot_tolerance * of_nat (length ss)"
    "\<bar>sum_list (map (\<lambda>x. if snapshot_security x = s then snapshot_shares x else 0) ss) - held s ls\<bar>
       \<le> lot_tolerance * of_nat (length ss)"
  using assms
proof (induction ls arbitrary: ss)
  case (Cons l ls)
  {
    fix ss assume "map_res snapshot_of (l # ls) = Inr ss"
    then obtain x rest where x: "snapshot_of l = Inr x" and rest: "map_res snapshot_of ls = Inr rest" and ss: "ss = x # rest"
      by auto
    from x have q: "lot_q (lot_shares l) = Inr (snapshot_shares x)" "lot_q (lot_basis l) = Inr (snapshot_basis x)"
      "snapshot_security x = lot_security l" by (auto simp: snapshot_of_def)
    note e = lot_q_error [OF q(1)] lot_q_error [OF q(2)]
    have "\<bar>sum_list (map snapshot_basis ss) - total_basis (l # ls)\<bar> \<le> lot_tolerance * of_nat (length ss)
      \<and> \<bar>sum_list (map (\<lambda>x. if snapshot_security x = s then snapshot_shares x else 0) ss) - held s (l # ls)\<bar>
       \<le> lot_tolerance * of_nat (length ss)"
      using e Cons.IH [OF rest] by (auto simp: ss q(3) held_def algebra_simps)
  }
  note both = this
  case 1 then show ?case using both by blast
  case 2 then show ?case using both by blast
qed (simp_all add: held_def)

lemma sort_key_totals:
  "total_basis (sort_key k ls) = total_basis ls" "held s (sort_key k ls) = held s ls"
  unfolding held_def sum_mset_sum_list [symmetric] mset_map by simp_all

lemma recognized_error:
  assumes "list_all2 event_exact es xs"
  shows "\<bar>sum_list (map recognized_gain es) - (total_of fst xs - total_of (fst \<circ> snd) xs + total_of (snd \<circ> snd) xs)\<bar>
    \<le> lot_tolerance * of_nat (2 * length es)"
  using assms
proof (induction es xs rule: list_all2_induct)
  case (Cons e es x xs)
  from Cons(1) have "\<bar>recognized_gain e - (fst x - (fst \<circ> snd) x + (snd \<circ> snd) x)\<bar> \<le> 2 * lot_tolerance"
    by (cases x) (simp add: event_exact_def)
  with Cons.IH show ?case by (simp add: algebra_simps)
qed simp

section \<open>Examples\<close>

definition ex_lot_fill :: "int \<Rightarrow> string \<Rightarrow> rat \<Rightarrow> rat \<Rightarrow> lot_fill" where
  "ex_lot_fill d sd shares price = \<lparr>fill_security = ''A'', trade_date = d, side = sd, fill_shares = QFraction shares,
     fill_price = QFraction price, fill_fees = QFraction 0, fill_id = None\<rparr>"

text \<open>A loss replaced by half ten days later, and a sale that empties two lots at once.\<close>

definition ex_wash :: "lot_fill list" where
  "ex_wash = [ex_lot_fill 1000 ''BUY'' 100 10, ex_lot_fill 1010 ''SELL'' 100 8, ex_lot_fill 1020 ''BUY'' 50 9]"

definition ex_liquidation :: "lot_fill list" where
  "ex_liquidation = [ex_lot_fill 1000 ''BUY'' 100 10, ex_lot_fill 1005 ''BUY'' 100 10, ex_lot_fill 1010 ''SELL'' 200 8]"

lemmas ex_lot_defs = ex_lot_fill_def ex_wash_def ex_liquidation_def lot_engine_defs tax_lot_constants

lemma ex_wash_ledger:
  obtains L e w where "build_tax_lot_ledger ex_wash [] ''FIFO'' False = Inr L" "realized L = [e]" "open_lots L = [w]"
    "raw_gain e = - 200" "wash_disallowed e = 100" "recognized_gain e = - 100"
    "snapshot_basis w = 550" "snapshot_shares w = 50" "snapshot_security w = ''A''"
  by (simp add: ex_lot_defs eval_simps cong: eval_congs)

section \<open>Properties\<close>

text \<open>
  C20: wash sales only defer. For every ledger the engine builds, FIFO or HIFO, with splits and
  replacements before and after each loss, the recognised gains add up to sale revenues less
  purchase costs plus the basis still in open lots, up to the rounding of the published
  amounts: two quanta of \<open>10 ^ -8\<close> for each event and one for each open lot.
\<close>

theorem wash_sales_only_defer:
  assumes "build_tax_lot_ledger fills splits m verified = Inr L"
  shows "\<bar>sum_list (map recognized_gain (realized L))
      - (sale_revenues fills - buy_costs fills + sum_list (map snapshot_basis (open_lots L)))\<bar>
    \<le> lot_tolerance * of_nat (2 * length (realized L) + length (open_lots L))"
proof -
  obtain st xs where rel: "lots_rel (buy_costs fills) (sale_revenues fills)
       (position (foldl account_step empty_account (ordered_events fills splits))) xs (pending st) st"
    and L: "realized L = events_so_far st" "map_res snapshot_of (sort_key lot_id (lots st)) = Inr (open_lots L)"
    by (rule ledger_InrE [OF assms])
  from rel have x: "list_all2 event_exact (events_so_far st) xs" "total_of fst xs = sale_revenues fills"
    "total_basis (lots st) = buy_costs fills - total_of (fst \<circ> snd) xs + total_of (snd \<circ> snd) xs"
    by (auto simp: lots_rel_def)
  from recognized_error [OF x(1)] snapshots_error(1) [OF L(2)] x(2,3) show ?thesis
    unfolding sort_key_totals L(1) by (simp add: algebra_simps)
qed

theorem wash_sales_only_defer_witness:
  "\<bar>(- 100) - (sale_revenues ex_wash - buy_costs ex_wash + 550)\<bar> \<le> lot_tolerance * 3"
proof -
  obtain L e w where L: "build_tax_lot_ledger ex_wash [] ''FIFO'' False = Inr L" "realized L = [e]" "open_lots L = [w]"
    "recognized_gain e = - 100" "snapshot_basis w = 550"
    by (rule ex_wash_ledger)
  from wash_sales_only_defer [OF L(1)] L(2-) show ?thesis by simp
qed

text \<open>
  C21: the open lots of every security add up to the shares bought less the shares sold, each
  scaled by the later splits, up to one published quantum for each open lot.
\<close>

theorem open_lots_match_position:
  assumes "build_tax_lot_ledger fills splits m verified = Inr L"
  shows "\<bar>sum_list (map (\<lambda>x. if snapshot_security x = s then snapshot_shares x else 0) (open_lots L))
      - position (foldl account_step empty_account (ordered_events fills splits)) s\<bar>
    \<le> lot_tolerance * of_nat (length (open_lots L))"
proof -
  obtain st xs where rel: "lots_rel (buy_costs fills) (sale_revenues fills)
       (position (foldl account_step empty_account (ordered_events fills splits))) xs (pending st) st"
    and L: "map_res snapshot_of (sort_key lot_id (lots st)) = Inr (open_lots L)"
    by (rule ledger_InrE [OF assms])
  from snapshots_error(2) [OF L, of s] rel show ?thesis unfolding sort_key_totals by (simp add: lots_rel_def)
qed

theorem open_lots_match_position_witness:
  "\<bar>50 - position (foldl account_step empty_account (ordered_events ex_wash [])) ''A''\<bar> \<le> lot_tolerance"
proof -
  obtain L e w where L: "build_tax_lot_ledger ex_wash [] ''FIFO'' False = Inr L" "open_lots L = [w]"
    "snapshot_shares w = 50" "snapshot_security w = ''A''"
    by (rule ex_wash_ledger)
  from open_lots_match_position [OF L(1), of "''A''"] L(2-) show ?thesis by simp
qed

text \<open>
  the disallowed part of an event is never negative and never more than its loss; an event
  without a loss has none.
\<close>

theorem wash_disallowed_within_loss:
  assumes "build_tax_lot_ledger fills splits m verified = Inr L" "e \<in> set (realized L)"
  shows "0 \<le> wash_disallowed e \<and> wash_disallowed e \<le> max 0 (- raw_gain e)"
proof -
  obtain st xs where rel: "lots_rel (buy_costs fills) (sale_revenues fills)
       (position (foldl account_step empty_account (ordered_events fills splits))) xs (pending st) st"
    and L: "realized L = events_so_far st"
    by (rule ledger_InrE [OF assms(1)])
  then obtain pr b d where ex: "event_exact e (pr, b, d)"
    using assms(2) unfolding lots_rel_def by (metis in_set_conv_nth list_all2_conv_all_nth prod_cases3)
  then have q: "lot_q (pr - b) = Inr (raw_gain e)" "lot_q d = Inr (wash_disallowed e)" "0 \<le> d"
    "d \<noteq> 0 \<Longrightarrow> d \<le> - (pr - b)"
    by (auto simp: event_exact_def)
  have "0 \<le> wash_disallowed e" using lot_q_mono [OF lot_q_0 q(2,3)] .
  moreover have "wash_disallowed e \<le> max 0 (- raw_gain e)"
    using lot_q_mono [OF q(2) lot_q_minus [OF q(1)] q(4)] q(2) by (cases "d = 0") (auto simp: le_max_iff_disj)
  ultimately show ?thesis ..
qed

theorem wash_disallowed_within_loss_witness:
  "\<exists>L e. build_tax_lot_ledger ex_wash [] ''FIFO'' False = Inr L \<and> e \<in> set (realized L)
    \<and> 0 \<le> wash_disallowed e \<and> wash_disallowed e \<le> max 0 (- raw_gain e)"
proof -
  obtain L e w where L: "build_tax_lot_ledger ex_wash [] ''FIFO'' False = Inr L" "realized L = [e]"
    by (rule ex_wash_ledger)
  with wash_disallowed_within_loss [OF L(1), of e] show ?thesis by auto
qed

text \<open>
  On any fills and splits the engine fails only in the ways it documents (its own error for
  unsupported events), when an amount needs more than 28 digits to print, or when a wash window
  starts before the first day of the calendar; it never divides by zero or misses a lot.
\<close>

theorem ledger_errors:
  assumes "build_tax_lot_ledger fills splits m verified = Inl e"
  shows "lot_exception e"
proof -
  have snap: "lot_exception e" if "map_res snapshot_of ls = Inl e" for ls
    using that by (induction ls) (auto simp: snapshot_of_def dest: lot_q_exception)
  from assms show ?thesis
    by (auto simp: build_tax_lot_ledger_def lot_exception_def [of "Raised _ _"]
        dest: snap lot_engine.loop_error [OF initial_rel] split: if_splits)
qed

theorem ledger_errors_witness: "lot_exception (TaxLotError ''oversell'')"
proof -
  have "build_tax_lot_ledger [ex_lot_fill 1000 ''SELL'' 1 1] [] ''FIFO'' False = Inl (TaxLotError ''oversell'')"
    by (simp add: ex_lot_defs eval_simps cong: eval_congs)
  from ledger_errors [OF this] show ?thesis .
qed

text \<open>
  A sale that empties two lots bought within the window washes the loss on the first lot
  against the second, although the second is sold by the same fill: shares that are sold
  serve as replacements, and the loss is moved within one sale.
\<close>

theorem sold_lot_serves_as_replacement:
  "\<exists>L e1 e2. build_tax_lot_ledger ex_liquidation [] ''FIFO'' False = Inr L \<and> realized L = [e1, e2]
    \<and> open_lots L = [] \<and> wash_replacement_lot_ids e1 = [event_lot_id e2] \<and> wash_disallowed e1 = 200
    \<and> recognized_gain e1 = 0 \<and> recognized_gain e2 = - 400"
  by (simp add: ex_lot_defs eval_simps cong: eval_congs)

section \<open>The scenario tax\<close>

lemma cross_offset_cases:
  assumes "cross_offset st lt = (a, b)"
  shows "a + b = st + lt" "a < 0 \<Longrightarrow> b \<le> 0" "b < 0 \<Longrightarrow> a \<le> 0"
  using assms by (auto simp: cross_offset_def Let_def min_def split: if_splits)

text \<open>
  The yearly netting taxes no loss and carries no gain, offsets completely across characters
  (a loss is carried forward only when nothing of the other character is taxed), and the taxable
  and carried amounts together are the net result, up to six published quanta.
\<close>

theorem scenario_netting:
  assumes "estimate_scenario_tax L y st lt c_st c_lt = Inr t"
  shows "0 \<le> taxable_short_term t \<and> 0 \<le> taxable_long_term t
    \<and> loss_carryforward_short_term t \<le> 0 \<and> loss_carryforward_long_term t \<le> 0
    \<and> (loss_carryforward_short_term t < 0 \<longrightarrow> taxable_long_term t = 0)
    \<and> (loss_carryforward_long_term t < 0 \<longrightarrow> taxable_short_term t = 0)
    \<and> \<bar>taxable_short_term t + taxable_long_term t + loss_carryforward_short_term t + loss_carryforward_long_term t
        - (net_short_term t + net_long_term t)\<bar> \<le> 6 * lot_tolerance"
proof -
  from assms obtain ns nl a b where off: "cross_offset ns nl = (a, b)"
    and q: "lot_q ns = Inr (net_short_term t)" "lot_q nl = Inr (net_long_term t)"
      "lot_q (max a 0) = Inr (taxable_short_term t)" "lot_q (max b 0) = Inr (taxable_long_term t)"
      "lot_q (min a 0) = Inr (loss_carryforward_short_term t)" "lot_q (min b 0) = Inr (loss_carryforward_long_term t)"
    unfolding estimate_scenario_tax_def Let_def
    by (elim res_elims) (rule that, rule prod.collapse [symmetric], auto)
  note c = cross_offset_cases [OF off] and e = q [THEN lot_q_error, unfolded abs_le_iff]
  have sgn: "0 \<le> taxable_short_term t" "0 \<le> taxable_long_term t"
    "loss_carryforward_short_term t \<le> 0" "loss_carryforward_long_term t \<le> 0"
    using lot_q_mono [OF lot_q_0 q(3)] lot_q_mono [OF lot_q_0 q(4)] lot_q_mono [OF q(5) lot_q_0]
      lot_q_mono [OF q(6) lot_q_0] by simp_all
  have s: "taxable_long_term t = 0" if "loss_carryforward_short_term t < 0"
  proof -
    have "a < 0" using q(5) that by (cases "a < 0") (auto simp: min_def split: if_splits)
    then have "max b 0 = 0" using c(2) by simp
    with q(4) show ?thesis by simp
  qed
  have l: "taxable_short_term t = 0" if "loss_carryforward_long_term t < 0"
  proof -
    have "b < 0" using q(6) that by (cases "b < 0") (auto simp: min_def split: if_splits)
    then have "max a 0 = 0" using c(3) by simp
    with q(3) show ?thesis by simp
  qed
  have "max a 0 + min a 0 = a" "max b 0 + min b 0 = b" by (auto simp: max_def min_def)
  with e c(1) have "\<bar>taxable_short_term t + taxable_long_term t + loss_carryforward_short_term t
      + loss_carryforward_long_term t - (net_short_term t + net_long_term t)\<bar> \<le> 6 * lot_tolerance"
    unfolding abs_le_iff by (intro conjI) linarith+
  with sgn s l show ?thesis by blast
qed

theorem scenario_netting_witness:
  "\<exists>t :: scenario_tax. taxable_short_term t = 0 \<and> loss_carryforward_short_term t = - 3 \<and> loss_carryforward_short_term t \<le> 0
    \<and> taxable_long_term t = 0"
proof -
  let ?L = "\<lparr>lot_method = ''FIFO'', election_verified = False, realized = [], open_lots = [], labels = []\<rparr>"
  obtain t where t: "estimate_scenario_tax ?L 2020 ''0.22'' ''0.15'' ''-5'' ''2'' = Inr t"
    "taxable_short_term t = 0" "loss_carryforward_short_term t = - 3"
    by (simp add: estimate_scenario_tax_def REGISTERED_ST_RATE_SCENARIOS_def frac_of_text_def dec_of_text_def
        to_lower_def split_sign_def is_digit_def exponent_part_def digits_value_def digit_value_def
        net_gains_def realized_by_year_def cross_offset_def lot_q_def tax_lot_constants eval_simps cong: eval_congs)
  from scenario_netting [OF t(1)] t(2,3) show ?thesis by (intro exI [of _ t]) simp
qed

end
