(* ===== verification/Capacity_Solver.thy ===== *)
theory Capacity_Solver
  imports Equations
begin

text \<open>
  The greatest-capital solver \<open>qme/quant/capacity_solver.py\<close>: discrete cost-aware
  targets at one capital with their feasibility verdict, the dominating upper bound, and the
  exhaustive scan of the capital grid with its certificate. The scan is a loop on decimals, so
  it is a partial function: \<open>None\<close> would be a scan that never ends. The digest of the
  bitmap is a parameter \<open>sha\<close> of the solver; a formatted decimal is the decimal itself.
\<close>

section \<open>Parameters and legs\<close>

definition CAPACITY_QUANTUM :: rat where "CAPACITY_QUANTUM = 100"
definition DEFAULT_MAX_PARTICIPATION :: rat where "DEFAULT_MAX_PARTICIPATION = 1 / 100"
definition DEFAULT_CASH_BUFFER :: rat where "DEFAULT_CASH_BUFFER = 1 / 100"
definition SOLVER_BPS :: rat where "SOLVER_BPS = 10000"
definition SOLVER_PREC :: nat where "SOLVER_PREC = 38"
definition MAX_SCAN_POINTS :: int where "MAX_SCAN_POINTS = 2000000"

lemmas solver_constants = CAPACITY_QUANTUM_def DEFAULT_MAX_PARTICIPATION_def DEFAULT_CASH_BUFFER_def
  SOLVER_BPS_def SOLVER_PREC_def MAX_SCAN_POINTS_def

abbreviation CapacitySolverError :: "string \<Rightarrow> py_exc" where
  "CapacitySolverError \<equiv> Raised ''CapacitySolverError''"

definition solver_dec :: "pyval \<Rightarrow> string \<Rightarrow> rat res" where
  "solver_dec value name = (case dec_of_str_of value of
     None \<Rightarrow> Inl (CapacitySolverError (name @ '' is not a decimal''))
   | Some NonFinite \<Rightarrow> Inl (CapacitySolverError (name @ '' must be finite''))
   | Some (Finite x) \<Rightarrow> Inr x)"

lemma solver_dec_PDecimal [simp]: "solver_dec (PDecimal x) name = Inr x"
  by (simp add: solver_dec_def dec_of_str_of_def)

definition solver_q :: "rat \<Rightarrow> rat res" where
  "solver_q value = quantize SOLVER_PREC INTERNAL_CURRENCY_QUANTUM value"

record target_leg =
  leg_symbol :: string
  leg_weight :: rat
  leg_price :: rat
  leg_adv20 :: rat

record solved_leg =
  solved_symbol :: string
  solved_shares :: rat
  solved_notional :: rat
  solved_participation :: rat

record solved_portfolio =
  capital :: rat
  solved_legs :: "solved_leg list"
  invested_notional :: rat
  solved_cost :: rat
  cash_after :: rat
  feasible :: bool
  first_violation :: "string option"

record capacity_certificate =
  cert_status :: string
  cert_quantum :: rat
  dominating_bound :: rat
  scan_lower :: rat
  scan_upper :: rat
  scan_points :: int
  feasible_points :: nat
  bitmap_sha256 :: string
  greatest_feasible :: "rat option"
  portfolio_at_capacity :: "solved_portfolio option"
  first_infeasible_above :: "rat option"
  first_infeasible_violation :: "string option"
  cert_parameters :: "rat list"

definition add_leg ::
    "nat \<Rightarrow> (string, raw_execution_price) dict \<Rightarrow> (string, raw_adv_notional) dict
     \<Rightarrow> rat \<times> target_leg list \<Rightarrow> string \<times> pyval \<Rightarrow> (rat \<times> target_leg list) res" where
  "add_leg p prices advs acc entry =
     (let sym = strip (fst entry) in
      rbind (solver_dec (snd entry) (''weight['' @ sym @ '']'')) (\<lambda>weight.
      if sym = [] \<or> weight \<le> 0
      then Inl (CapacitySolverError ''every target weight must be positive with a non-empty symbol'')
      else case dict_get prices sym of None \<Rightarrow> Inl (CapacitySolverError (''missing price or ADV20 for '' @ sym))
      | Some price \<Rightarrow> (case dict_get advs sym of None \<Rightarrow> Inl (CapacitySolverError (''missing price or ADV20 for '' @ sym))
      | Some adv \<Rightarrow>
        if security_id (price_evidence price) \<noteq> sym \<or> security_id (adv_evidence adv) \<noteq> sym
        then Inl (CapacitySolverError (''evidence security_id mismatch for '' @ sym))
        else if price_value price \<le> 0 \<or> adv_value adv \<le> 0
        then Inl (CapacitySolverError (''price and ADV20 must be positive for '' @ sym))
        else Inr (dec p (fst acc + weight), snd acc @
               [\<lparr>leg_symbol = sym, leg_weight = weight, leg_price = price_value price, leg_adv20 = adv_value adv\<rparr>]))))"

text \<open>\<open>_legs\<close> adds the weights in the caller's context, of precision \<open>p\<close>.\<close>

definition make_legs ::
    "nat \<Rightarrow> (string, pyval) dict \<Rightarrow> (string, raw_execution_price) dict \<Rightarrow> (string, raw_adv_notional) dict
     \<Rightarrow> target_leg list res" where
  "make_legs p weights prices advs =
     (if weights = [] then Inl (CapacitySolverError ''target weights are empty'')
      else rbind (fold_res (add_leg p prices advs) (0, []) weights) (\<lambda>acc.
        if fst acc > 1 then Inl (CapacitySolverError ''target weights sum above 1 (no leverage)'')
        else Inr (sort_key leg_symbol (snd acc))))"

section \<open>One capital\<close>

record solver_params =
  par_bps :: pyval
  par_buffer :: pyval
  par_p_max :: pyval
  par_quantum :: pyval

definition investable :: "rat \<Rightarrow> rat \<Rightarrow> rat res" where
  "investable buffer rate = ddiv SOLVER_PREC (dec SOLVER_PREC (1 - buffer)) (dec SOLVER_PREC (1 + rate))"

definition leg_units :: "rat \<Rightarrow> rat \<Rightarrow> rat \<Rightarrow> target_leg \<Rightarrow> int res" where
  "leg_units f c quantum leg =
     rbind (ddiv SOLVER_PREC (dec SOLVER_PREC (dec SOLVER_PREC (f * c) * leg_weight leg)) (leg_price leg)) (\<lambda>x.
     rbind (ddiv SOLVER_PREC x quantum) (\<lambda>y. Inr \<lfloor>y\<rfloor>))"

definition solve_leg :: "rat \<Rightarrow> rat \<Rightarrow> rat \<Rightarrow> target_leg \<Rightarrow> solved_leg res" where
  "solve_leg f c quantum leg =
     rbind (leg_units f c quantum leg) (\<lambda>units.
     let shares = dec SOLVER_PREC (of_int units * quantum) in
     rbind (solver_q (dec SOLVER_PREC (shares * leg_price leg))) (\<lambda>notional.
     rbind (ddiv SOLVER_PREC notional (leg_adv20 leg)) (\<lambda>participation.
     Inr \<lparr>solved_symbol = leg_symbol leg, solved_shares = shares, solved_notional = notional,
          solved_participation = participation\<rparr>)))"

definition violation_of :: "solved_leg list \<Rightarrow> rat \<Rightarrow> rat \<Rightarrow> rat \<Rightarrow> string option" where
  "violation_of solved left buffer_cash p_max =
     (case first_match (\<lambda>l. solved_shares l \<le> 0) solved of
        Some l \<Rightarrow> Some (''F1_ZERO_SHARES:'' @ solved_symbol l)
      | None \<Rightarrow> if left < buffer_cash then Some ''F2_CASH_BUFFER''
        else (case first_match (\<lambda>l. solved_participation l > p_max) solved of
           Some l \<Rightarrow> Some (''F3_PARTICIPATION:'' @ solved_symbol l)
         | None \<Rightarrow> None))"

definition params_ok :: "rat \<Rightarrow> rat \<Rightarrow> rat \<Rightarrow> rat \<Rightarrow> rat \<Rightarrow> bool" where
  "params_ok c bps buffer p_max quantum \<longleftrightarrow>
     0 < c \<and> 0 \<le> bps \<and> bps < SOLVER_BPS \<and> 0 \<le> buffer \<and> buffer < 1 \<and> 0 < p_max \<and> p_max \<le> 1 \<and> 0 < quantum"

definition solve_portfolio :: "pyval \<Rightarrow> target_leg list \<Rightarrow> solver_params \<Rightarrow> solved_portfolio res" where
  "solve_portfolio raw_capital legs par =
     rbind (solver_dec raw_capital ''capital'') (\<lambda>c.
     rbind (solver_dec (par_bps par) ''transaction_cost_rate_bps'') (\<lambda>bps.
     rbind (solver_dec (par_buffer par) ''cash_buffer_weight'') (\<lambda>buffer.
     rbind (solver_dec (par_p_max par) ''maximum_participation'') (\<lambda>p_max.
     rbind (solver_dec (par_quantum par) ''order_quantum'') (\<lambda>quantum.
     if \<not> params_ok c bps buffer p_max quantum
     then Inl (CapacitySolverError ''capital/bps/buffer/participation/quantum out of range'')
     else let rate = dec SOLVER_PREC (bps / SOLVER_BPS) in
     rbind (investable buffer rate) (\<lambda>f.
     rbind (map_res (solve_leg f c quantum) legs) (\<lambda>solved.
     let invested = dsum SOLVER_PREC 0 (map solved_notional solved) in
     rbind (solver_q (dec SOLVER_PREC (rate * invested))) (\<lambda>cost.
     rbind (solver_q (dec SOLVER_PREC (dec SOLVER_PREC (c - invested) - cost))) (\<lambda>left.
     rbind (if first_match (\<lambda>l. solved_shares l \<le> 0) solved = None
            then solver_q (dec SOLVER_PREC (buffer * c)) else Inr 0) (\<lambda>buffer_cash.
     let violation = violation_of solved left buffer_cash p_max
     in Inr \<lparr>capital = c, solved_legs = solved, invested_notional = invested, solved_cost = cost,
             cash_after = left, feasible = (violation = None), first_violation = violation\<rparr>))))))))))"

section \<open>The dominating bound\<close>

definition leg_bound :: "rat \<Rightarrow> rat \<Rightarrow> rat \<Rightarrow> target_leg \<Rightarrow> rat res" where
  "leg_bound f p_max quantum leg =
     ddiv SOLVER_PREC
       (dec SOLVER_PREC (dec SOLVER_PREC (p_max * leg_adv20 leg) + dec SOLVER_PREC (leg_price leg * quantum)))
       (dec SOLVER_PREC (f * leg_weight leg))"

definition dominating_upper_bound :: "target_leg list \<Rightarrow> solver_params \<Rightarrow> rat res" where
  "dominating_upper_bound legs par =
     rbind (solver_dec (par_bps par) ''transaction_cost_rate_bps'') (\<lambda>bps.
     let rate = dec SOLVER_PREC (bps / SOLVER_BPS) in
     rbind (solver_dec (par_buffer par) ''cash_buffer_weight'') (\<lambda>buffer.
     rbind (investable buffer rate) (\<lambda>f.
     rbind (solver_dec (par_p_max par) ''maximum_participation'') (\<lambda>p_max.
     rbind (solver_dec (par_quantum par) ''order_quantum'') (\<lambda>quantum.
     rbind (map_res (leg_bound f p_max quantum) legs) (\<lambda>bounds.
     if bounds = [] then Inl (ValueError ''min() arg is an empty sequence'')
     else Inr (Min (set bounds))))))))"

section \<open>The scan\<close>

record scan_state =
  bitmap :: "nat list"
  feasible_count :: nat
  greatest :: "rat option"
  best_portfolio :: "solved_portfolio option"
  pending_infeasible :: "(rat \<times> string) option"

definition scan_start :: scan_state where
  "scan_start = \<lparr>bitmap = [], feasible_count = 0, greatest = None, best_portfolio = None, pending_infeasible = None\<rparr>"

definition violation_text :: "solved_portfolio \<Rightarrow> string" where
  "violation_text pf = (case first_violation pf of None \<Rightarrow> ''UNKNOWN'' | Some v \<Rightarrow> if v = [] then ''UNKNOWN'' else v)"

definition scan_point :: "scan_state \<Rightarrow> rat \<Rightarrow> solved_portfolio \<Rightarrow> scan_state" where
  "scan_point s c pf =
     (if feasible pf
      then s\<lparr>bitmap := bitmap s @ [1], feasible_count := feasible_count s + 1, greatest := Some c,
             best_portfolio := Some pf, pending_infeasible := None\<rparr>
      else s\<lparr>bitmap := bitmap s @ [0],
             pending_infeasible := (case pending_infeasible s of None \<Rightarrow> Some (c, violation_text pf) | Some x \<Rightarrow> Some x)\<rparr>)"

partial_function (option) scan_capital ::
    "target_leg list \<Rightarrow> solver_params \<Rightarrow> rat \<Rightarrow> rat \<Rightarrow> rat \<Rightarrow> scan_state \<Rightarrow> scan_state res option" where
  "scan_capital legs par grid upper c s =
     (if c \<le> upper then
        (case solve_portfolio (PDecimal c) legs par of
           Inl e \<Rightarrow> Some (Inl e)
         | Inr pf \<Rightarrow> scan_capital legs par grid upper (dec SOLVER_PREC (c + grid)) (scan_point s c pf))
      else Some (Inr s))"

definition point_above ::
    "target_leg list \<Rightarrow> solver_params \<Rightarrow> rat \<Rightarrow> scan_state \<Rightarrow> (rat option \<times> string option) res" where
  "point_above legs par grid s = (case greatest s of
     None \<Rightarrow> Inr (None, None)
   | Some g \<Rightarrow> (case pending_infeasible s of
       Some x \<Rightarrow> Inr (Some (fst x), Some (snd x))
     | None \<Rightarrow> rbind (solve_portfolio (PDecimal (dec SOLVER_PREC (g + grid))) legs par) (\<lambda>above.
         Inr (Some (dec SOLVER_PREC (g + grid)), Some (violation_text above)))))"

definition certificate ::
    "(nat list \<Rightarrow> string) \<Rightarrow> target_leg list \<Rightarrow> solver_params \<Rightarrow> rat \<Rightarrow> rat \<Rightarrow> rat \<Rightarrow> int \<Rightarrow> scan_state
     \<Rightarrow> capacity_certificate res" where
  "certificate sha legs par grid bound upper points s =
     rbind (point_above legs par grid s) (\<lambda>above.
     rbind (solver_dec (par_bps par) ''bps'') (\<lambda>bps.
     rbind (solver_dec (par_buffer par) ''buffer'') (\<lambda>buffer.
     rbind (solver_dec (par_p_max par) ''p_max'') (\<lambda>p_max.
     rbind (solver_dec (par_quantum par) ''quantum'') (\<lambda>quantum.
     Inr \<lparr>cert_status = (if greatest s \<noteq> None then ''PROVEN_GLOBAL_MAXIMUM_ON_QUANTUM_GRID''
                          else ''UNAVAILABLE_NO_FEASIBLE_CAPITAL''),
          cert_quantum = grid, dominating_bound = bound, scan_lower = grid, scan_upper = upper,
          scan_points = points, feasible_points = feasible_count s, bitmap_sha256 = sha (bitmap s),
          greatest_feasible = greatest s, portfolio_at_capacity = best_portfolio s,
          first_infeasible_above = fst above, first_infeasible_violation = snd above,
          cert_parameters = [bps, buffer, p_max, quantum]\<rparr>)))))"

text \<open>\<open>int(x)\<close> of a decimal truncates toward zero.\<close>

definition truncate :: "rat \<Rightarrow> int" where
  "truncate x = (if x < 0 then \<lceil>x\<rceil> else \<lfloor>x\<rfloor>)"

definition scan_bounds :: "target_leg list \<Rightarrow> solver_params \<Rightarrow> pyval \<Rightarrow> (rat \<times> rat \<times> rat \<times> int) res" where
  "scan_bounds legs par capacity_quantum =
     rbind (solver_dec capacity_quantum ''capacity_quantum'') (\<lambda>grid.
     if grid \<le> 0 then Inl (CapacitySolverError ''capacity_quantum must be positive'')
     else
     rbind (dominating_upper_bound legs par) (\<lambda>bound.
     rbind (ddiv SOLVER_PREC bound grid) (\<lambda>steps.
     let upper = dec SOLVER_PREC (of_int \<lfloor>steps\<rfloor> * grid) in
     rbind (ddiv SOLVER_PREC upper grid) (\<lambda>n.
     if truncate n > MAX_SCAN_POINTS then Inl (CapacitySolverError ''scan exceeds the safety limit'')
     else Inr (grid, bound, upper, truncate n)))))"

definition solve_greatest_capital ::
    "nat \<Rightarrow> (nat list \<Rightarrow> string) \<Rightarrow> (string, pyval) dict \<Rightarrow> (string, raw_execution_price) dict
     \<Rightarrow> (string, raw_adv_notional) dict \<Rightarrow> solver_params \<Rightarrow> pyval \<Rightarrow> capacity_certificate res option" where
  "solve_greatest_capital p sha weights prices advs par capacity_quantum =
     (case make_legs p weights prices advs of Inl e \<Rightarrow> Some (Inl e)
      | Inr legs \<Rightarrow> (case scan_bounds legs par capacity_quantum of Inl e \<Rightarrow> Some (Inl e)
      | Inr (grid, bound, upper, points) \<Rightarrow>
          (case scan_capital legs par grid upper grid scan_start of
             None \<Rightarrow> None
           | Some (Inl e) \<Rightarrow> Some (Inl e)
           | Some (Inr s) \<Rightarrow> Some (certificate sha legs par grid bound upper points s))))"

lemmas solver_defs = solver_constants solver_q_def add_leg_def make_legs_def investable_def leg_units_def solve_leg_def
  violation_of_def params_ok_def solve_portfolio_def leg_bound_def dominating_upper_bound_def scan_start_def
  violation_text_def scan_point_def point_above_def certificate_def truncate_def scan_bounds_def

end
