(* ===== verification/Capacity_Scan.thy ===== *)
theory Capacity_Scan
  imports Capacity_Solver Ledger
begin

text \<open>
  The scan against the grid points it visits, the point the certificate names above the
  greatest capital, and how far the dominating bound really reaches once every rounding of
  the solver is counted.
\<close>

section \<open>The grid\<close>

definition fine_grid :: "rat \<Rightarrow> bool" where
  "fine_grid g \<longleftrightarrow> (\<exists>m e. g = of_int m * 10 powi e \<and> 0 < m \<and> m < 10 ^ 31)"

lemma fine_grid_pos: "fine_grid g \<Longrightarrow> 0 < g"
  by (auto simp: fine_grid_def)

lemma fine_grid_exact:
  assumes "fine_grid g" "\<bar>k\<bar> \<le> 2000002"
  shows "dec 38 (of_int k * g) = of_int k * g"
proof -
  from assms(1) obtain m e where g: "g = of_int m * 10 powi e" and m: "0 < m" "m < 10 ^ 31"
    by (auto simp: fine_grid_def)
  have "\<bar>k * m\<bar> \<le> 2000002 * m" using assms(2) m by (simp add: abs_mult mult_right_mono)
  also have "\<dots> < 10 ^ 38" using m by simp
  finally have "dec 38 (of_int (k * m) * 10 powi e) = of_int (k * m) * 10 powi e" by (rule dec_exact)
  then show ?thesis by (simp add: g mult.assoc)
qed

lemma dec38_int: "\<bar>k\<bar> \<le> 2000002 \<Longrightarrow> dec 38 (of_int k) = of_int k"
  by (rule dec_of_int) simp

text \<open>The scan ends at a whole number of grid steps, the number of points it reports.\<close>

lemma scan_bounds_grid:
  assumes "scan_bounds legs par (PDecimal g) = Inr (grid, bound, upper, points)" "fine_grid g"
  obtains n where "grid = g" "n \<le> 2000000" "0 \<le> n \<longrightarrow> upper = of_int n * g \<and> points = n" "n < 0 \<longrightarrow> upper < 0"
proof -
  define n where "n = \<lfloor>dec 38 (bound / g)\<rfloor>"
  have g: "0 < g" using fine_grid_pos [OF assms(2)] .
  from assms(1) g have grid: "grid = g" and upper: "upper = dec 38 (of_int n * g)"
    and points: "points = truncate (dec 38 (upper / g))" "points \<le> 2000000"
    by (auto simp: scan_bounds_def ddiv_def Let_def solver_constants n_def not_less split: if_splits)
  have n: "n \<le> 2000000"
  proof (rule ccontr)
    assume "\<not> n \<le> 2000000"
    then have "(2000001 :: rat) \<le> of_int n" by linarith
    then have "2000001 * g \<le> of_int n * g" using g by (intro mult_right_mono) auto
    then have "2000001 * g \<le> upper"
      unfolding upper using dec38.rnd_ge_fixed [of "2000001 * g"] fine_grid_exact [OF assms(2), of 2000001] by simp
    then have "2000001 \<le> upper / g" using g by (simp add: pos_le_divide_eq)
    then have "2000001 \<le> dec 38 (upper / g)"
      using dec38.rnd_ge_fixed [of 2000001] dec38_int [of 2000001] by simp
    then have "2000001 \<le> points" unfolding points(1) truncate_def by (simp add: le_floor_iff)
    with points(2) show False by simp
  qed
  moreover have "upper = of_int n * g \<and> points = n" if "0 \<le> n"
  proof -
    have u: "upper = of_int n * g" unfolding upper using n that by (intro fine_grid_exact [OF assms(2)]) simp
    then have "dec 38 (upper / g) = of_int n" using g n that dec38_int [of n] by simp
    with points(1) u that show ?thesis by (simp add: truncate_def)
  qed
  moreover have "upper < 0" if "n < 0"
  proof -
    have "of_int n * g \<le> - 1 * g" using g that by (intro mult_right_mono) linarith+
    then have "upper \<le> - g"
      unfolding upper using dec38.rnd_le_fixed [of "- g"] fine_grid_exact [OF assms(2), of "- 1"] by simp
    with g show ?thesis by simp
  qed
  ultimately show thesis using that grid by blast
qed

section \<open>The loop visits every point\<close>

definition visit ::
    "target_leg list \<Rightarrow> solver_params \<Rightarrow> rat \<Rightarrow> scan_state \<Rightarrow> nat \<Rightarrow> scan_state res" where
  "visit legs par g s k = rbind (solve_portfolio (PDecimal (of_nat k * g)) legs par) (\<lambda>pf.
     Inr (scan_point s (of_nat k * g) pf))"

lemma scan_capital_eq:
  assumes "fine_grid g" "n \<le> 2000000" "k \<le> n + 1"
  shows "scan_capital legs par g (of_nat n * g) (of_nat k * g) s =
    Some (fold_res (visit legs par g) s [k..<n + 1])"
  using assms(3)
proof (induction "n + 1 - k" arbitrary: k s)
  case 0
  then have "\<not> (of_nat k * g \<le> of_nat n * g)" using fine_grid_pos [OF assms(1)] by simp
  with 0 show ?case by (subst scan_capital.simps) simp
next
  case (Suc d)
  then have k: "k \<le> n" "d = n + 1 - Suc k" "Suc k \<le> n + 1" by simp_all
  then have le: "of_nat k * g \<le> of_nat n * g"
    using fine_grid_pos [OF assms(1)] by (intro mult_right_mono) auto
  have "dec 38 (of_int (int k + 1) * g) = of_int (int k + 1) * g"
    using k assms(2) by (intro fine_grid_exact [OF assms(1)]) simp
  then have next': "dec 38 (of_nat k * g + g) = of_nat (Suc k) * g" by (simp add: algebra_simps)
  have "[k..<n + 1] = k # [Suc k..<n + 1]" using k by (simp add: upt_conv_Cons)
  with le next' Suc.hyps(1) [OF k(2,3)] show ?case
    by (subst scan_capital.simps) (auto simp: visit_def SOLVER_PREC_def split: sum.splits)
qed

lemma scan_capital_below:
  "upper < c \<Longrightarrow> scan_capital legs par g upper c s = Some (Inr s)"
  by (subst scan_capital.simps) simp

definition feasible_at :: "target_leg list \<Rightarrow> solver_params \<Rightarrow> rat \<Rightarrow> bool" where
  "feasible_at legs par c = (case solve_portfolio (PDecimal c) legs par of Inl _ \<Rightarrow> False | Inr pf \<Rightarrow> feasible pf)"

text \<open>What the loop state records of the points visited so far.\<close>

definition scan_rel ::
    "target_leg list \<Rightarrow> solver_params \<Rightarrow> rat \<Rightarrow> nat list \<Rightarrow> scan_state \<Rightarrow> bool" where
  "scan_rel legs par g ks s \<longleftrightarrow>
     (let F = (\<lambda>k. feasible_at legs par (of_nat k * g));
          since = takeWhile (\<lambda>k. \<not> F k) (rev ks)
      in bitmap s = map (\<lambda>k. if F k then 1 else 0) ks
       \<and> feasible_count s = length (filter F ks)
       \<and> greatest s = (if list_ex F ks then Some (of_nat (last (filter F ks)) * g) else None)
       \<and> map_option fst (pending_infeasible s) = (if since = [] then None else Some (of_nat (last since) * g)))"

interpretation grid_scan: refined_loop "visit legs par g" "\<lambda>ks k. ks @ [k]" "scan_rel legs par g" for legs par g
proof unfold_locales
  fix ks s k s'
  assume rel: "scan_rel legs par g ks s" and step: "visit legs par g s k = Inr s'"
  from step obtain pf where pf: "solve_portfolio (PDecimal (of_nat k * g)) legs par = Inr pf"
    and s': "s' = scan_point s (of_nat k * g) pf" by (auto simp: visit_def)
  have F: "feasible_at legs par (of_nat k * g) = feasible pf" by (simp add: feasible_at_def pf)
  show "scan_rel legs par g (ks @ [k]) s'"
  proof (cases "feasible pf")
    case True
    with rel F show ?thesis by (auto simp: scan_rel_def Let_def s' scan_point_def)
  next
    case False
    have "map_option fst (case pending_infeasible s of None \<Rightarrow> Some (of_nat k * g, violation_text pf) | Some x \<Rightarrow> Some x)
        = Some (case map_option fst (pending_infeasible s) of None \<Rightarrow> of_nat k * g | Some x \<Rightarrow> x)"
      by (cases "pending_infeasible s") auto
    with False rel F show ?thesis by (auto simp: scan_rel_def Let_def s' scan_point_def)
  qed
qed

lemma foldl_snoc: "foldl (\<lambda>ks k. ks @ [k]) acc xs = acc @ xs"
  by (induction xs arbitrary: acc) auto

lemma scan_start_rel: "scan_rel legs par g [] scan_start"
  by (simp add: scan_rel_def scan_start_def)

lemma scan_points_rel:
  "fold_res (visit legs par g) scan_start ks = Inr s \<Longrightarrow> scan_rel legs par g ks s"
  using grid_scan.loop_rel [OF scan_start_rel, of legs par g ks s] by (simp add: foldl_snoc)

lemma sorted_le_last: "sorted xs \<Longrightarrow> x \<in> set xs \<Longrightarrow> x \<le> last xs"
  by (induction xs) (auto intro: order_trans)

lemma last_filter_upt:
  assumes "list_ex F [a..<b]"
  shows "a \<le> last (filter F [a..<b]) \<and> last (filter F [a..<b]) < b \<and> F (last (filter F [a..<b]))
    \<and> (\<forall>j. last (filter F [a..<b]) < j \<longrightarrow> j < b \<longrightarrow> \<not> F j)"
proof -
  let ?xs = "filter F [a..<b]"
  have "?xs \<noteq> []" using assms by (auto simp: filter_empty_conv list_ex_iff)
  then have mem: "last ?xs \<in> set ?xs" by (rule last_in_set)
  have "\<not> F j" if "last ?xs < j" "j < b" for j
  proof
    assume "F j"
    with that mem have "j \<in> set ?xs" by auto
    moreover have "sorted ?xs" by (simp add: sorted_wrt_filter)
    ultimately show False using sorted_le_last [of ?xs j] that by simp
  qed
  moreover have "a \<le> last ?xs" "last ?xs < b" "F (last ?xs)"
    using mem unfolding set_filter set_upt by auto
  ultimately show ?thesis by blast
qed

lemma since_upt:
  assumes "a \<le> k" "k < b" "F k" "\<And>j. k < j \<Longrightarrow> j < b \<Longrightarrow> \<not> F j"
  shows "takeWhile (\<lambda>k. \<not> F k) (rev [a..<b]) = rev [Suc k..<b]"
  using assms
proof (induction b)
  case (Suc b)
  show ?case
  proof (cases "k = b")
    case True
    with Suc.prems show ?thesis by simp
  next
    case False
    with Suc show ?thesis by simp
  qed
qed simp

section \<open>Certificates\<close>

lemma certificate_InrE:
  assumes "solve_greatest_capital p sha w prices advs par (PDecimal g) = Some (Inr cert)" "fine_grid g"
  obtains legs s n where "make_legs p w prices advs = Inr legs" "scan_rel legs par g [1..<n + 1] s"
    "\<And>k :: nat. 1 \<le> k \<Longrightarrow> of_nat k * g \<le> scan_upper cert \<longleftrightarrow> k \<le> n"
    "greatest_feasible cert = greatest s" "feasible_points cert = feasible_count s"
    "\<exists>v. point_above legs par g s = Inr (first_infeasible_above cert, v)"
    "n \<le> 2000000"
proof -
  from assms(1) obtain legs bound upper points s where legs: "make_legs p w prices advs = Inr legs"
    and b: "scan_bounds legs par (PDecimal g) = Inr (g, bound, upper, points)"
    and scan: "scan_capital legs par g upper g scan_start = Some (Inr s)"
    and c: "certificate sha legs par g bound upper points s = Inr cert"
    by (auto simp: solve_greatest_capital_def scan_bounds_def Let_def
        split: sum.splits option.splits prod.splits if_splits)
  note g = fine_grid_pos [OF assms(2)]
  have fields: "greatest_feasible cert = greatest s" "feasible_points cert = feasible_count s" "scan_upper cert = upper"
    "\<exists>v. point_above legs par g s = Inr (first_infeasible_above cert, v)"
    using c by (auto simp: certificate_def)
  obtain m where m: "m \<le> 2000000" "0 \<le> m \<longrightarrow> upper = of_int m * g \<and> points = m" "m < 0 \<longrightarrow> upper < 0"
    by (rule scan_bounds_grid [OF b assms(2)])
  define n where "n = nat m"
  have n: "n \<le> 2000000" using m(1) by (simp add: n_def)
  have "scan_capital legs par g upper g scan_start = Some (fold_res (visit legs par g) scan_start [1..<n + 1])"
  proof (cases "0 \<le> m")
    case True
    then have "upper = of_nat n * g" using m(2) by (simp add: n_def)
    with scan_capital_eq [OF assms(2) n, of 1] show ?thesis by simp
  next
    case False
    with m(3) g show ?thesis by (simp add: n_def scan_capital_below)
  qed
  with scan have "fold_res (visit legs par g) scan_start [1..<n + 1] = Inr s" by simp
  then have rel: "scan_rel legs par g [1..<n + 1] s" by (rule scan_points_rel)
  have "of_nat k * g \<le> scan_upper cert \<longleftrightarrow> k \<le> n" if "1 \<le> k" for k :: nat
  proof (cases "0 \<le> m")
    case True
    then have "upper = of_nat n * g" using m(2) by (simp add: n_def)
    then show ?thesis using g by (auto simp: fields(3))
  next
    case False
    then have "upper < 0" "n = 0" using m(3) by (auto simp: n_def)
    moreover have "0 < of_nat k * g" using g that by simp
    ultimately show ?thesis using that by (auto simp: fields(3))
  qed
  then show thesis using that [OF legs rel] fields n by blast
qed

lemma certificate_point_above:
  assumes rel: "scan_rel legs par g [1..<n + 1] s" and some: "greatest s = Some x" and g: "fine_grid g" "n \<le> 2000000"
    and above: "point_above legs par g s = Inr (a, v)"
  shows "a = Some (x + g)"
proof -
  let ?F = "\<lambda>k. feasible_at legs par (of_nat k * g)"
  define k where "k = last (filter ?F [1..<n + 1])"
  from rel some have ex: "list_ex ?F [1..<n + 1]" and x: "x = of_nat k * g"
    by (auto simp: scan_rel_def Let_def k_def split: if_splits)
  note k = last_filter_upt [OF ex, folded k_def]
  have since: "takeWhile (\<lambda>k. \<not> ?F k) (rev [1..<n + 1]) = rev [Suc k..<n + 1]"
    by (rule since_upt) (use k in auto)
  have pend: "map_option fst (pending_infeasible s) = (if Suc k < n + 1 then Some (of_nat (Suc k) * g) else None)"
    using rel k unfolding scan_rel_def Let_def since by (auto simp: last_rev hd_upt)
  have "dec 38 (of_int (int k + 1) * g) = of_int (int k + 1) * g"
    using k g(2) by (intro fine_grid_exact [OF g(1)]) auto
  then have "dec 38 (x + g) = x + g" by (simp add: x algebra_simps)
  moreover have "of_nat (Suc k) * g = x + g" by (simp add: x algebra_simps)
  ultimately show ?thesis
    using above some pend by (auto simp: point_above_def SOLVER_PREC_def split: option.splits if_splits)
qed

section \<open>How far the bound reaches\<close>

definition leg_ok :: "target_leg \<Rightarrow> bool" where
  "leg_ok leg \<longleftrightarrow> 0 < leg_weight leg \<and> 0 < leg_price leg \<and> 0 < leg_adv20 leg"

lemma eps38_small: "0 < eps38" "eps38 < 1" "(1 + eps38) \<le> (1 - eps38) ^ 10 * (1 + 1 / 10 ^ 36)"
  by (simp_all add: eps38_def power_divide)

text \<open>The shares of a leg fall short of its target by at most one order quantum.\<close>

lemma leg_units_lower:
  assumes "leg_units f c q leg = Inr u" "0 < f" "0 < c" "0 < q" "leg_ok leg"
  shows "0 \<le> u" "f * c * leg_weight leg * (1 - eps38) ^ 4 \<le> (of_int u + 1) * q * leg_price leg"
proof -
  define x1 where "x1 = dec 38 (f * c)"
  define x2 where "x2 = dec 38 (x1 * leg_weight leg)"
  define x3 where "x3 = dec 38 (x2 / leg_price leg)"
  define y where "y = dec 38 (x3 / q)"
  have pos: "0 < leg_weight leg" "0 < leg_price leg" using assms(5) by (auto simp: leg_ok_def)
  from assms(1,4) pos have u: "u = \<lfloor>y\<rfloor>"
    by (auto simp: leg_units_def ddiv_def SOLVER_PREC_def x1_def x2_def x3_def y_def split: if_splits)
  have "0 < x1" unfolding x1_def using assms by (intro dec_pos) auto
  then have "0 < x2" unfolding x2_def using pos by (intro dec_pos) auto
  then have "0 < x3" unfolding x3_def using pos by (intro dec_pos) auto
  then have "0 < y" unfolding y_def using assms by (intro dec_pos) auto
  note e = eps38_small(1,2)
  have "f * c * (1 - eps38) \<le> x1" unfolding x1_def using assms by (intro dec38_bounds) auto
  then have "f * c * (1 - eps38) * leg_weight leg * (1 - eps38) \<le> x1 * leg_weight leg * (1 - eps38)"
    using pos e by (intro mult_right_mono) auto
  also have "\<dots> \<le> x2" unfolding x2_def using \<open>0 < x1\<close> pos by (intro dec38_bounds) auto
  finally have "f * c * (1 - eps38) * leg_weight leg * (1 - eps38) / leg_price leg * (1 - eps38) \<le> x2 / leg_price leg * (1 - eps38)"
    using pos e by (intro mult_right_mono divide_right_mono) auto
  also have "\<dots> \<le> x3" unfolding x3_def using \<open>0 < x2\<close> pos by (intro dec38_bounds) auto
  finally have "f * c * (1 - eps38) * leg_weight leg * (1 - eps38) / leg_price leg * (1 - eps38) / q * (1 - eps38) \<le> x3 / q * (1 - eps38)"
    using assms(4) e by (intro mult_right_mono divide_right_mono) auto
  also have "\<dots> \<le> y" unfolding y_def using \<open>0 < x3\<close> assms(4) by (intro dec38_bounds) auto
  also have "y \<le> of_int u + 1" unfolding u by linarith
  finally have "f * c * leg_weight leg * (1 - eps38) ^ 4 / (q * leg_price leg) \<le> of_int u + 1"
    by (simp add: power4_eq_xxxx field_simps)
  then show "f * c * leg_weight leg * (1 - eps38) ^ 4 \<le> (of_int u + 1) * q * leg_price leg"
    using assms(4) pos by (simp add: pos_divide_le_eq mult.assoc)
  show "0 \<le> u" using \<open>0 < y\<close> by (simp add: u)
qed

lemma solve_leg_upper:
  assumes "solve_leg f c q leg = Inr s" "solved_participation s \<le> p_max" "0 < f" "0 < c" "0 < q" "leg_ok leg"
  shows "f * c * leg_weight leg * (1 - eps38) ^ 7 \<le> p_max * leg_adv20 leg + leg_price leg * q + 5 / 10 ^ 9"
proof -
  have pos: "0 < leg_price leg" "0 < leg_adv20 leg" using assms(6) by (auto simp: leg_ok_def)
  from assms(1) pos obtain u n where u: "leg_units f c q leg = Inr u"
    and n: "quantize 38 (- 8) (dec 38 (dec 38 (of_int u * q) * leg_price leg)) = Inr n"
    and part: "solved_participation s = dec 38 (n / leg_adv20 leg)"
    by (auto simp: solve_leg_def solver_q_def ddiv_def Let_def SOLVER_PREC_def INTERNAL_CURRENCY_QUANTUM_def split: if_splits)
  note lower = leg_units_lower [OF u assms(3-6)] and e = eps38_small(1,2)
  define h where "h = of_int u * q * leg_price leg"
  have uq: "0 \<le> of_int u * q" using lower(1) assms(5) by simp
  then have "of_int u * q * (1 - eps38) * leg_price leg * (1 - eps38) \<le> dec 38 (of_int u * q) * leg_price leg * (1 - eps38)"
    using pos e by (intro mult_right_mono dec38_bounds) auto
  also have "\<dots> \<le> dec 38 (dec 38 (of_int u * q) * leg_price leg)"
    using uq pos by (intro dec38_bounds) (simp add: dec38.rnd_nonneg)
  finally have d: "h * (1 - eps38) ^ 2 \<le> dec 38 (dec 38 (of_int u * q) * leg_price leg)"
    by (simp add: h_def power2_eq_square algebra_simps)
  have "0 \<le> dec 38 (of_int u * q)" using uq by (rule dec38.rnd_nonneg)
  then have "0 \<le> dec 38 (dec 38 (of_int u * q) * leg_price leg)"
    using pos by (intro dec38.rnd_nonneg) simp
  then have n0: "0 \<le> n" by (rule quantize_nonneg [OF n])
  have q8: "\<bar>n - dec 38 (dec 38 (of_int u * q) * leg_price leg)\<bar> \<le> 5 / 10 ^ 9"
    using quantize_InrD(3) [OF n] by (simp add: power_int_minus)
  have "n / leg_adv20 leg * (1 - eps38) \<le> p_max"
    using dec38_bounds(2) [of "n / leg_adv20 leg"] n0 pos assms(2) part by simp
  then have "n * (1 - eps38) \<le> p_max * leg_adv20 leg" using pos by (simp add: field_simps)
  moreover have "(h * (1 - eps38) ^ 2 - 5 / 10 ^ 9) * (1 - eps38) \<le> n * (1 - eps38)"
  proof (rule mult_right_mono)
    from q8 have "dec 38 (dec 38 (of_int u * q) * leg_price leg) - n \<le> 5 / 10 ^ 9" by (simp only: abs_le_iff) linarith
    with d show "h * (1 - eps38) ^ 2 - 5 / 10 ^ 9 \<le> n" by linarith
  qed (use e in simp)
  ultimately have "h * (1 - eps38) ^ 3 - 5 / 10 ^ 9 * (1 - eps38) \<le> p_max * leg_adv20 leg"
    by (simp add: power3_eq_cube power2_eq_square algebra_simps)
  moreover have "5 / 10 ^ 9 * (1 - eps38) \<le> 5 / 10 ^ 9" using e by simp
  ultimately have hp: "h * (1 - eps38) ^ 3 \<le> p_max * leg_adv20 leg + 5 / 10 ^ 9" by linarith
  have e3: "0 \<le> (1 - eps38) ^ 3" "(1 - eps38) ^ 3 \<le> 1" using e by (simp_all add: power_le_one)
  have "f * c * leg_weight leg * (1 - eps38) ^ 4 * (1 - eps38) ^ 3 \<le> (h + q * leg_price leg) * (1 - eps38) ^ 3"
    using lower(2) e3 by (intro mult_right_mono) (auto simp: h_def algebra_simps)
  also have "\<dots> = h * (1 - eps38) ^ 3 + q * leg_price leg * (1 - eps38) ^ 3" by (rule distrib_right)
  also have "\<dots> \<le> p_max * leg_adv20 leg + 5 / 10 ^ 9 + q * leg_price leg"
    using e3 assms(5) pos by (intro add_mono hp mult_left_le) auto
  finally show ?thesis by (simp add: power_add [symmetric] mult.assoc algebra_simps)
qed

lemma leg_bound_lower:
  assumes "leg_bound f p_max q leg = Inr b" "0 < f" "0 < p_max" "0 < q" "leg_ok leg"
  shows "(p_max * leg_adv20 leg + leg_price leg * q) * (1 - eps38) ^ 3 \<le> b * (f * leg_weight leg) * (1 + eps38)"
proof -
  have pos: "0 < leg_weight leg" "0 < leg_price leg" "0 < leg_adv20 leg" using assms(5) by (auto simp: leg_ok_def)
  define s where "s = dec 38 (p_max * leg_adv20 leg) + dec 38 (leg_price leg * q)"
  define d where "d = dec 38 (f * leg_weight leg)"
  note e = eps38_small(1,2)
  have d: "0 < d" "d \<le> f * leg_weight leg * (1 + eps38)"
    using assms pos by (auto simp: d_def intro!: dec_pos dec38_bounds)
  from assms(1) d have b: "b = dec 38 (dec 38 s / d)"
    by (auto simp: leg_bound_def ddiv_def SOLVER_PREC_def s_def d_def)
  have "p_max * leg_adv20 leg * (1 - eps38) + leg_price leg * q * (1 - eps38) \<le> s"
    unfolding s_def using assms pos by (intro add_mono dec38_bounds) auto
  then have s: "(p_max * leg_adv20 leg + leg_price leg * q) * (1 - eps38) \<le> s" by (simp add: algebra_simps)
  have "0 < p_max * leg_adv20 leg + leg_price leg * q" using assms pos by (simp add: add_pos_pos)
  then have s0: "0 < s" using s e by (metis less_le_trans mult_pos_pos diff_gt_0_iff_gt)
  have "(p_max * leg_adv20 leg + leg_price leg * q) * (1 - eps38) * (1 - eps38) \<le> s * (1 - eps38)"
    using s e by (intro mult_right_mono) auto
  also have "\<dots> \<le> dec 38 s" using s0 by (intro dec38_bounds) auto
  finally have "(p_max * leg_adv20 leg + leg_price leg * q) * (1 - eps38) * (1 - eps38) / d * (1 - eps38) \<le> dec 38 s / d * (1 - eps38)"
    using d e by (intro mult_right_mono divide_right_mono) auto
  also have "\<dots> \<le> b" unfolding b using s0 d by (intro dec38_bounds) (simp add: dec38.rnd_nonneg)
  finally have "(p_max * leg_adv20 leg + leg_price leg * q) * (1 - eps38) ^ 3 \<le> b * d"
    using d by (simp add: power3_eq_cube field_simps)
  also have "\<dots> \<le> b * (f * leg_weight leg * (1 + eps38))"
  proof (rule mult_left_mono [OF d(2)])
    show "0 \<le> b" unfolding b using s0 d by (intro dec38.rnd_nonneg divide_nonneg_pos) (auto simp: dec38.rnd_nonneg)
  qed
  finally show ?thesis by (simp add: mult.assoc)
qed

lemma leg_reach:
  assumes "solve_leg f c q leg = Inr s" "solved_participation s \<le> p_max" "leg_bound f p_max q leg = Inr b"
    and "0 < f" "0 < c" "0 < p_max" "0 < q" "leg_ok leg"
  shows "c \<le> (b + 5 / (10 ^ 9 * f * leg_weight leg)) * (1 + 1 / 10 ^ 36)"
proof -
  let ?e = "1 - eps38" and ?w = "f * leg_weight leg"
  have w: "0 < ?w" using assms(4,8) by (simp add: leg_ok_def)
  have e: "0 < ?e" "?e ^ 3 \<le> 1 + eps38" using eps38_small(1,2) power_le_one [of "1 - eps38" 3] by simp_all
  have "c * ?w * ?e ^ 7 * ?e ^ 3 \<le> (p_max * leg_adv20 leg + leg_price leg * q + 5 / 10 ^ 9) * ?e ^ 3"
    using solve_leg_upper [OF assms(1,2,4,5,7,8)] e by (intro mult_right_mono) (auto simp: algebra_simps)
  also have "\<dots> = (p_max * leg_adv20 leg + leg_price leg * q) * ?e ^ 3 + 5 / 10 ^ 9 * ?e ^ 3"
    by (rule distrib_right)
  also have "\<dots> \<le> b * ?w * (1 + eps38) + 5 / 10 ^ 9 * (1 + eps38)"
    using e(2) by (intro add_mono leg_bound_lower [OF assms(3,4,6,7,8)] mult_left_mono) auto
  also have "\<dots> = (b * ?w + 5 / 10 ^ 9) * (1 + eps38)" by (rule distrib_right [symmetric])
  also have "b * ?w + 5 / 10 ^ 9 = (b + 5 / 10 ^ 9 / ?w) * ?w"
    using assms(4,8) by (simp add: distrib_right leg_ok_def)
  finally have le: "c * ?e ^ 10 * ?w \<le> (b + 5 / 10 ^ 9 / ?w) * (1 + eps38) * ?w"
    by (simp add: power_add [symmetric] mult_ac)
  then have le: "c * ?e ^ 10 \<le> (b + 5 / 10 ^ 9 / ?w) * (1 + eps38)" using w by (simp only: mult_le_cancel_right_pos)
  have "0 < c * ?e ^ 10" using assms(5) e by simp
  with le have "0 < (b + 5 / 10 ^ 9 / ?w) * (1 + eps38)" by linarith
  then have nn: "0 \<le> b + 5 / 10 ^ 9 / ?w" using eps38_small(1) by (simp add: zero_less_mult_iff)
  note le
  also have "(b + 5 / 10 ^ 9 / ?w) * (1 + eps38) \<le> (b + 5 / 10 ^ 9 / ?w) * (?e ^ 10 * (1 + 1 / 10 ^ 36))"
    by (rule mult_left_mono [OF eps38_small(3) nn])
  finally have "c * ?e ^ 10 \<le> (b + 5 / 10 ^ 9 / ?w) * (1 + 1 / 10 ^ 36) * ?e ^ 10" by (simp only: mult_ac)
  then have "c \<le> (b + 5 / 10 ^ 9 / ?w) * (1 + 1 / 10 ^ 36)" using e by (simp only: mult_le_cancel_right_pos zero_less_power)
  then show ?thesis by (simp add: mult.assoc)
qed

lemma map_res_mem: "map_res f xs = Inr ys \<Longrightarrow> x \<in> set xs \<Longrightarrow> \<exists>y \<in> set ys. f x = Inr y"
  by (induction xs arbitrary: ys) auto

lemma feasible_InrE:
  assumes "solve_portfolio (PDecimal c) legs par = Inr pf" "feasible pf"
    and "par = \<lparr>par_bps = PDecimal bps, par_buffer = PDecimal buffer, par_p_max = PDecimal p_max, par_quantum = PDecimal q\<rparr>"
  obtains f solved where "params_ok c bps buffer p_max q" "investable buffer (dec 38 (bps / 10000)) = Inr f"
    "map_res (solve_leg f c q) legs = Inr solved" "\<And>l. l \<in> set solved \<Longrightarrow> solved_participation l \<le> p_max"
proof -
  from assms obtain f solved left bc where "params_ok c bps buffer p_max q"
    "investable buffer (dec 38 (bps / 10000)) = Inr f" "map_res (solve_leg f c q) legs = Inr solved"
    "violation_of solved left bc p_max = None"
    unfolding solve_portfolio_def Let_def by (elim res_elims) (auto simp: SOLVER_PREC_def SOLVER_BPS_def)
  moreover have "solved_participation l \<le> p_max" if "violation_of solved left bc p_max = None" "l \<in> set solved" for l
    using that by (auto simp: violation_of_def first_match_None not_less split: option.splits if_splits)
  ultimately show thesis using that by blast
qed

lemma investable_pos:
  assumes "investable buffer (dec 38 (bps / 10000)) = Inr f" "0 \<le> bps" "buffer < 1"
  shows "0 < f"
proof -
  have "0 \<le> dec 38 (bps / 10000)" using assms(2) by (simp add: dec38.rnd_nonneg)
  then have "0 < dec 38 (1 + dec 38 (bps / 10000))" by (intro dec_pos) auto
  moreover have "0 < dec 38 (1 - buffer)" using assms(3) by (intro dec_pos) auto
  ultimately show ?thesis using assms(1) by (auto simp: investable_def ddiv_def SOLVER_PREC_def intro!: dec_pos)
qed

section \<open>Examples\<close>

definition ex_solver_params :: solver_params where
  "ex_solver_params = \<lparr>par_bps = PDecimal 0, par_buffer = PDecimal 0, par_p_max = PDecimal (1/100), par_quantum = PDecimal 1\<rparr>"

definition ex_leg :: "rat \<Rightarrow> rat \<Rightarrow> rat \<Rightarrow> target_leg" where
  "ex_leg w price adv = \<lparr>leg_symbol = ''A'', leg_weight = w, leg_price = price, leg_adv20 = adv\<rparr>"

definition ex_prices :: "rat \<Rightarrow> (string, raw_execution_price) dict" where
  "ex_prices x = [(''A'', RawExecutionPrice x (ex_evidence ''A''))]"

definition ex_advs :: "rat \<Rightarrow> (string, raw_adv_notional) dict" where
  "ex_advs x = [(''A'', RawAdvNotional x (ex_evidence ''A''))]"

lemmas ex_solver_defs = ex_solver_params_def ex_leg_def ex_prices_def ex_advs_def ex_evidence_def

lemma ex_fine_grid: "fine_grid 100"
  unfolding fine_grid_def by (intro exI [of _ 1] exI [of _ 2]) simp

lemma ex_legs: "make_legs 28 [(''A'', PDecimal (1/2))] (ex_prices 10) (ex_advs 10000) = Inr [ex_leg (1/2) 10 10000]"
  by (simp add: solver_defs ex_solver_defs eval_simps cong: eval_congs)

definition ex_solved :: "rat \<Rightarrow> rat \<Rightarrow> string option \<Rightarrow> solved_portfolio" where
  "ex_solved c n v = \<lparr>capital = c, solved_legs = [\<lparr>solved_symbol = ''A'', solved_shares = n, solved_notional = 10 * n,
     solved_participation = n / 1000\<rparr>], invested_notional = 10 * n, solved_cost = 0, cash_after = c - 10 * n,
     feasible = (v = None), first_violation = v\<rparr>"

lemma ex_solve:
  "solve_portfolio (PDecimal 100) [ex_leg (1/2) 10 10000] ex_solver_params = Inr (ex_solved 100 5 None)"
  "solve_portfolio (PDecimal 200) [ex_leg (1/2) 10 10000] ex_solver_params = Inr (ex_solved 200 10 None)"
  "solve_portfolio (PDecimal 300) [ex_leg (1/2) 10 10000] ex_solver_params = Inr (ex_solved 300 15 (Some ''F3_PARTICIPATION:A''))"
  by (simp_all add: solver_defs ex_solver_defs ex_solved_def eval_simps cong: eval_congs)

lemma ex_bounds: "scan_bounds [ex_leg (1/2) 10 10000] ex_solver_params (PDecimal 100) = Inr (100, 220, 200, 2)"
  "dominating_upper_bound [ex_leg (1/2) 10 10000] ex_solver_params = Inr 220"
  by (simp_all add: solver_defs ex_solver_defs eval_simps cong: eval_congs)

lemma ex_certificate:
  obtains cert where "solve_greatest_capital 28 sha [(''A'', PDecimal (1/2))] (ex_prices 10) (ex_advs 10000)
      ex_solver_params (PDecimal 100) = Some (Inr cert)" "greatest_feasible cert = Some 200" "scan_upper cert = 200"
proof -
  define s where "s = scan_point (scan_point scan_start 100 (ex_solved 100 5 None)) 200 (ex_solved 200 10 None)"
  have "scan_capital [ex_leg (1/2) 10 10000] ex_solver_params 100 200 100 scan_start =
      Some (fold_res (visit [ex_leg (1/2) 10 10000] ex_solver_params 100) scan_start [1..<2 + 1])"
    using scan_capital_eq [OF ex_fine_grid, of 2 1] by simp
  also have "[1..<2 + 1] = [1, 2 :: nat]" by (simp add: upt_rec)
  finally have "scan_capital [ex_leg (1/2) 10 10000] ex_solver_params 100 200 100 scan_start = Some (Inr s)"
    by (simp add: visit_def ex_solve s_def)
  then have run: "solve_greatest_capital 28 sha [(''A'', PDecimal (1/2))] (ex_prices 10) (ex_advs 10000)
      ex_solver_params (PDecimal 100) = Some (certificate sha [ex_leg (1/2) 10 10000] ex_solver_params 100 220 200 2 s)"
    by (simp add: solve_greatest_capital_def ex_legs ex_bounds)
  have "greatest s = Some 200" "pending_infeasible s = None" by (simp_all add: s_def scan_point_def ex_solved_def)
  moreover have "dec 38 300 = 300" using dec_of_int [of 300 38] by simp
  ultimately have "\<exists>a. point_above [ex_leg (1/2) 10 10000] ex_solver_params 100 s = Inr a"
    by (simp add: point_above_def SOLVER_PREC_def ex_solve)
  then show thesis using that run \<open>greatest s = Some 200\<close>
    by (auto simp: certificate_def ex_solver_params_def)
qed

text \<open>A leg whose notional rounds down to just within its participation limit.\<close>

definition ex_tight_leg :: target_leg where
  "ex_tight_leg = ex_leg (100000000007 / 200000000000) (12500000001 / 250000000) (50000000001 / 10000000)"

definition ex_tight_bound :: rat where
  "ex_tight_bound = 200 - 9999999999300000000049 / 2500000000000000000000000000000"

lemma ex_tight:
  "make_legs 28 [(''A'', PDecimal (100000000007 / 200000000000))] (ex_prices (12500000001 / 250000000))
      (ex_advs (50000000001 / 10000000)) = Inr [ex_tight_leg]"
  "scan_bounds [ex_tight_leg] ex_solver_params (PDecimal 100) = Inr (100, ex_tight_bound, 100, 1)"
  "\<exists>pf. solve_portfolio (PDecimal 100) [ex_tight_leg] ex_solver_params = Inr pf \<and> \<not> feasible pf"
  "feasible_at [ex_tight_leg] ex_solver_params 200"
  by (simp_all add: ex_tight_leg_def ex_tight_bound_def feasible_at_def solver_defs ex_solver_defs eval_simps cong: eval_congs)

section \<open>Properties\<close>

text \<open>
  C22: the certificate names the greatest feasible point of the scanned grid. It is a whole
  number of quanta and feasible, every greater scanned point is infeasible, the number of
  feasible points is counted right, and the point reported above it is the next grid point.
  Without a greatest point no scanned point is feasible.
\<close>

theorem certificate_greatest:
  assumes "solve_greatest_capital p sha w prices advs par (PDecimal g) = Some (Inr cert)" "fine_grid g"
    and "make_legs p w prices advs = Inr legs"
  shows "(case greatest_feasible cert of
      None \<Rightarrow> \<forall>k :: nat. 1 \<le> k \<longrightarrow> of_nat k * g \<le> scan_upper cert \<longrightarrow> \<not> feasible_at legs par (of_nat k * g)
    | Some x \<Rightarrow> \<exists>k :: nat. 1 \<le> k \<and> x = of_nat k * g \<and> x \<le> scan_upper cert \<and> feasible_at legs par x
        \<and> (\<forall>j > k. of_nat j * g \<le> scan_upper cert \<longrightarrow> \<not> feasible_at legs par (of_nat j * g))
        \<and> first_infeasible_above cert = Some (x + g))
    \<and> feasible_points cert = card {k :: nat. 1 \<le> k \<and> of_nat k * g \<le> scan_upper cert \<and> feasible_at legs par (of_nat k * g)}"
proof -
  obtain legs' s n where legs': "make_legs p w prices advs = Inr legs'" and rel': "scan_rel legs' par g [1..<n + 1] s"
    and upper: "\<And>k :: nat. 1 \<le> k \<Longrightarrow> of_nat k * g \<le> scan_upper cert \<longleftrightarrow> k \<le> n"
    and cert: "greatest_feasible cert = greatest s" "feasible_points cert = feasible_count s"
    and above': "\<exists>v. point_above legs' par g s = Inr (first_infeasible_above cert, v)" and n: "n \<le> 2000000"
    by (rule certificate_InrE [OF assms(1,2)]) blast
  have "legs' = legs" using legs' assms(3) by simp
  note rel = rel' [unfolded this] and above = above' [unfolded this]
  let ?F = "\<lambda>k. feasible_at legs par (of_nat k * g)"
  have "{k. 1 \<le> k \<and> of_nat k * g \<le> scan_upper cert \<and> ?F k} = set (filter ?F [1..<n + 1])" using upper by auto
  then have count: "feasible_points cert = card {k. 1 \<le> k \<and> of_nat k * g \<le> scan_upper cert \<and> ?F k}"
  proof -
    assume set: "{k. 1 \<le> k \<and> of_nat k * g \<le> scan_upper cert \<and> ?F k} = set (filter ?F [1..<n + 1])"
    have "feasible_count s = length (filter ?F [1..<n + 1])" using rel unfolding scan_rel_def Let_def by blast
    also have "\<dots> = card (set (filter ?F [1..<n + 1]))" by (rule distinct_card [symmetric]) simp
    finally show ?thesis unfolding cert(2) set .
  qed
  show ?thesis
  proof (cases "greatest s")
    case None
    then have "\<not> list_ex ?F [1..<n + 1]" using rel by (auto simp: scan_rel_def Let_def split: if_splits)
    with None cert(1) count upper show ?thesis by (auto simp: list_ex_iff)
  next
    case (Some x)
    define k where "k = last (filter ?F [1..<n + 1])"
    from rel Some have ex: "list_ex ?F [1..<n + 1]" and x: "x = of_nat k * g"
      by (auto simp: scan_rel_def Let_def k_def split: if_splits)
    note k = last_filter_upt [OF ex, folded k_def]
    have "first_infeasible_above cert = Some (x + g)"
      using above certificate_point_above [OF rel Some assms(2) n] by blast
    with k upper count Some cert(1) show ?thesis by (auto simp: x)
  qed
qed

theorem certificate_greatest_witness:
  "feasible_at [ex_leg (1/2) 10 10000] ex_solver_params 200"
proof -
  obtain cert where c: "solve_greatest_capital 28 (\<lambda>_. []) [(''A'', PDecimal (1/2))] (ex_prices 10) (ex_advs 10000)
      ex_solver_params (PDecimal 100) = Some (Inr cert)" "greatest_feasible cert = Some 200" "scan_upper cert = 200"
    by (rule ex_certificate)
  from certificate_greatest [OF c(1) ex_fine_grid ex_legs] c(2) show ?thesis by auto
qed

text \<open>
  C23: the scan ends. On every capital quantum of at most 31 digits the solver returns, with a
  certificate or an exception, whatever the weights, prices and parameters.
\<close>

theorem solver_terminates:
  assumes "fine_grid g"
  shows "\<exists>r. solve_greatest_capital p sha w prices advs par (PDecimal g) = Some r"
proof (cases "make_legs p w prices advs")
  case (Inr legs)
  show ?thesis
  proof (cases "scan_bounds legs par (PDecimal g)")
    case b: (Inr r)
    obtain grid bound upper points where r: "r = (grid, bound, upper, points)" by (cases r)
    obtain m where m: "grid = g" "m \<le> 2000000" "0 \<le> m \<longrightarrow> upper = of_int m * g \<and> points = m" "m < 0 \<longrightarrow> upper < 0"
      by (rule scan_bounds_grid [OF b [unfolded r] assms])
    have "\<exists>x. scan_capital legs par g upper g scan_start = Some x"
    proof (cases "0 \<le> m")
      case True
      then have "upper = of_nat (nat m) * g" using m(3) by simp
      with scan_capital_eq [OF assms, of "nat m" 1] m(2) True show ?thesis by simp
    next
      case False
      with m(4) fine_grid_pos [OF assms] show ?thesis by (simp add: scan_capital_below)
    qed
    with Inr b r m(1) show ?thesis by (auto simp: solve_greatest_capital_def split: sum.splits)
  qed (simp add: solve_greatest_capital_def Inr)
qed (simp add: solve_greatest_capital_def)

theorem solver_terminates_witness:
  "\<exists>r. solve_greatest_capital 28 (\<lambda>_. []) [] [] [] ex_solver_params (PDecimal 100) = Some r"
  by (rule solver_terminates [OF ex_fine_grid])

text \<open>
  C24: how far the dominating bound reaches. A feasible capital exceeds the computed bound by at
  most half a currency quantum of notional, scaled by the investable weight of the binding leg,
  and a relative \<open>10 ^ -36\<close> for the roundings to 38 digits.
\<close>

theorem dominating_bound_reach:
  assumes "solve_portfolio (PDecimal c) legs par = Inr pf" "feasible pf" "dominating_upper_bound legs par = Inr b"
    and "par = \<lparr>par_bps = PDecimal bps, par_buffer = PDecimal buffer, par_p_max = PDecimal p_max, par_quantum = PDecimal q\<rparr>"
    and "list_all leg_ok legs" "investable buffer (dec 38 (bps / 10000)) = Inr f"
  shows "\<exists>leg \<in> set legs. c \<le> (b + 5 / (10 ^ 9 * f * leg_weight leg)) * (1 + 1 / 10 ^ 36)"
proof -
  obtain f' solved where ok: "params_ok c bps buffer p_max q" and f': "investable buffer (dec 38 (bps / 10000)) = Inr f'"
    and solved': "map_res (solve_leg f' c q) legs = Inr solved"
    and part: "\<And>l. l \<in> set solved \<Longrightarrow> solved_participation l \<le> p_max"
    by (rule feasible_InrE [OF assms(1,2,4)]) blast
  have solved: "map_res (solve_leg f c q) legs = Inr solved" using solved' f' assms(6) by simp
  from assms(3,4,6) obtain bs where bs: "map_res (leg_bound f p_max q) legs = Inr bs" "bs \<noteq> []" "b = Min (set bs)"
    by (auto simp: dominating_upper_bound_def Let_def SOLVER_PREC_def SOLVER_BPS_def split: if_splits)
  then have "b \<in> set bs" by simp
  then obtain leg where leg: "leg \<in> set legs" "leg_bound f p_max q leg = Inr b" using map_res_Inr_set [OF bs(1)] by blast
  obtain s where s: "s \<in> set solved" "solve_leg f c q leg = Inr s" using map_res_mem [OF solved leg(1)] by blast
  have pos: "0 < c" "0 \<le> bps" "buffer < 1" "0 < p_max" "0 < q" using ok by (auto simp: params_ok_def)
  have "leg_ok leg" using assms(5) leg(1) by (simp add: list_all_iff)
  from leg_reach [OF s(2) part [OF s(1)] leg(2) investable_pos [OF assms(6) pos(2,3)] pos(1,4,5) this] leg(1)
  show ?thesis by blast
qed

theorem dominating_bound_reach_witness:
  "\<exists>leg \<in> set [ex_leg (1/2) 10 10000]. 200 \<le> (220 + 5 / (10 ^ 9 * 1 * leg_weight leg)) * (1 + 1 / 10 ^ 36)"
proof (rule dominating_bound_reach [OF ex_solve(2) _ ex_bounds(2) ex_solver_params_def])
  show "feasible (ex_solved 200 10 None)" by (simp add: ex_solved_def)
  show "list_all leg_ok [ex_leg (1/2) 10 10000]" by (simp add: ex_leg_def leg_ok_def)
  show "investable 0 (dec 38 (0 / 10000)) = Inr 1"
    by (simp add: investable_def SOLVER_PREC_def eval_simps cong: eval_congs)
qed

text \<open>
  C25: the bound does not dominate as documented. Here it is below 200, so the scan stops at 100 and
  the solver reports that no capital is feasible, although a capital of 200 is: the notional is
  rounded to the currency quantum before the participation is tested.
\<close>

theorem feasible_above_bound:
  "\<exists>cert. solve_greatest_capital 28 sha [(''A'', PDecimal (100000000007 / 200000000000))] (ex_prices (12500000001 / 250000000))
      (ex_advs (50000000001 / 10000000)) ex_solver_params (PDecimal 100) = Some (Inr cert)
    \<and> cert_status cert = ''UNAVAILABLE_NO_FEASIBLE_CAPITAL'' \<and> dominating_bound cert < 200
    \<and> feasible_at [ex_tight_leg] ex_solver_params 200"
proof -
  obtain pf where pf: "solve_portfolio (PDecimal 100) [ex_tight_leg] ex_solver_params = Inr pf" "\<not> feasible pf"
    using ex_tight(3) by blast
  have "scan_capital [ex_tight_leg] ex_solver_params 100 100 100 scan_start =
      Some (fold_res (visit [ex_tight_leg] ex_solver_params 100) scan_start [1..<1 + 1])"
    using scan_capital_eq [OF ex_fine_grid, of 1 1] by simp
  also have "\<dots> = Some (Inr (scan_point scan_start 100 pf))" using pf by (simp add: visit_def upt_rec)
  finally have "solve_greatest_capital 28 sha [(''A'', PDecimal (100000000007 / 200000000000))] (ex_prices (12500000001 / 250000000))
      (ex_advs (50000000001 / 10000000)) ex_solver_params (PDecimal 100) =
    Some (certificate sha [ex_tight_leg] ex_solver_params 100 ex_tight_bound 100 1 (scan_point scan_start 100 pf))"
    by (simp add: solve_greatest_capital_def ex_tight)
  with ex_tight(4) pf(2) show ?thesis
    by (simp add: certificate_def point_above_def scan_point_def scan_start_def ex_solver_params_def ex_tight_bound_def)
qed

end
