(* ===== verification/Live_Abort.thy ===== *)
theory Live_Abort
  imports Equations
begin

text \<open>
  The live-abort monitor \<open>qme/promotion/live_abort_v1.py\<close>: one session of ledger
  coordinates moves an immutable state from armed to armed or to aborted. The fields of an
  observation are untyped in the code and are \<^typ>\<open>pyval\<close> here; drawdowns are
  exact fractions, their displayed decimals have 50 digits. The hash of the evidence chain is
  a parameter \<open>sha\<close> from bytes to the hexadecimal digest.
\<close>

section \<open>Constants, observations and states\<close>

definition ABORT_PRECISION :: nat where "ABORT_PRECISION = 50"
definition EXCESS_DRAWDOWN_PERSISTENCE_SESSIONS :: int where "EXCESS_DRAWDOWN_PERSISTENCE_SESSIONS = 5"
definition EXCESS_THRESHOLD :: rat where "EXCESS_THRESHOLD = 1 / 10"
definition ABSOLUTE_THRESHOLD :: rat where "ABSOLUTE_THRESHOLD = 2 / 5"

definition EVIDENCE_CHAIN_DOMAIN :: "nat list" where
  "EVIDENCE_CHAIN_DOMAIN = map of_char ''qme.live_abort.evidence_chain.v1'' @ [0]"

datatype abort_reason =
    RECONCILIATION_FAILURE
  | SCHEMA_INVALID_RUN
  | MISSING_MANDATORY_INPUT
  | ABSOLUTE_DRAWDOWN
  | EXCESS_DRAWDOWN

datatype live_abort_status = ARMED | ABORTED

record live_abort_observation =
  session_ordinal :: pyval
  strategy_nav :: pyval
  strategy_running_peak_nav :: pyval
  benchmark_nav :: pyval
  benchmark_running_peak_nav :: pyval
  reconciliation_ok :: pyval
  schema_valid :: pyval
  mandatory_inputs_present :: pyval
  evidence_sha256 :: pyval

record live_abort_state =
  abort_status :: live_abort_status
  consecutive_excess_sessions :: int
  last_session_ordinal :: "int option"
  strategy_current_drawdown :: "rat option"
  benchmark_current_drawdown :: "rat option"
  excess_current_drawdown :: "rat option"
  strategy_peak :: "rat option"
  benchmark_peak :: "rat option"
  reason_codes :: "abort_reason list"
  evidence :: "string option"
  evidence_count :: int
  evidence_chain_sha256 :: "string option"

definition initial_state :: live_abort_state where
  "initial_state = \<lparr>abort_status = ARMED, consecutive_excess_sessions = 0, last_session_ordinal = None,
     strategy_current_drawdown = None, benchmark_current_drawdown = None, excess_current_drawdown = None,
     strategy_peak = None, benchmark_peak = None, reason_codes = [], evidence = None,
     evidence_count = 0, evidence_chain_sha256 = None\<rparr>"

definition drawdown_ok :: "rat option \<Rightarrow> bool" where
  "drawdown_ok d = (case d of None \<Rightarrow> True | Some x \<Rightarrow> 0 \<le> x \<and> x \<le> 1)"

definition peak_ok :: "rat option \<Rightarrow> bool" where
  "peak_ok d = (case d of None \<Rightarrow> True | Some x \<Rightarrow> 0 < x)"

text \<open>
  \<open>__post_init__\<close>: \<open>token\<close> says that the state carries the transition token,
  which only the monitor itself can set.
\<close>

definition post_init :: "bool \<Rightarrow> live_abort_state \<Rightarrow> live_abort_state res" where
  "post_init token s =
     (if \<not> token \<and> s \<noteq> initial_state
        then Inl (ValueError ''non-initial state must be produced by evaluate_live_abort'')
      else if \<not> (0 \<le> consecutive_excess_sessions s \<and> consecutive_excess_sessions s \<le> 5)
        then Inl (ValueError ''consecutive_excess_sessions is outside the registered range'')
      else if abort_status s = ARMED \<and> consecutive_excess_sessions s \<ge> 5
        then Inl (ValueError ''ARMED state cannot contain a completed persistence breach'')
      else if (case last_session_ordinal s of None \<Rightarrow> False | Some n \<Rightarrow> n < 0)
        then Inl (ValueError ''last_session_ordinal must be a non-negative exact integer'')
      else if abort_status s = ARMED \<and> reason_codes s \<noteq> []
        then Inl (ValueError ''ARMED state cannot contain abort reasons'')
      else if abort_status s = ABORTED \<and> reason_codes s = []
        then Inl (ValueError ''ABORTED state requires at least one reason code'')
      else if \<not> (drawdown_ok (strategy_current_drawdown s) \<and> drawdown_ok (benchmark_current_drawdown s)
                \<and> drawdown_ok (excess_current_drawdown s))
        then Inl (ValueError ''drawdown state must be within [0, 1]'')
      else if (strategy_peak s = None) \<noteq> (benchmark_peak s = None)
        then Inl (ValueError ''running-peak state must be present for both ledgers'')
      else if \<not> (peak_ok (strategy_peak s) \<and> peak_ok (benchmark_peak s))
        then Inl (ValueError ''stored running peaks must be finite and positive'')
      else if evidence_count s < 0
        then Inl (ValueError ''evidence_count cannot be negative'')
      else if (case evidence s of None \<Rightarrow> False | Some e \<Rightarrow> \<not> is_sha256 e)
        then Inl (ValueError ''evidence_sha256 must be lowercase SHA-256'')
      else if evidence_count s = 0 \<and> evidence_chain_sha256 s \<noteq> None
        then Inl (ValueError ''empty evidence chain cannot have a head'')
      else if evidence_count s \<noteq> 0 \<and> (case evidence_chain_sha256 s of None \<Rightarrow> True | Some h \<Rightarrow> \<not> is_sha256 h)
        then Inl (ValueError ''non-empty evidence chain requires a valid head'')
      else if abort_status s = ARMED \<and> consecutive_excess_sessions s > 0
              \<and> (last_session_ordinal s = None \<or> evidence_count s = 0)
        then Inl (ValueError ''positive persistence count requires session evidence'')
      else Inr s)"

section \<open>One session\<close>

text \<open>The canonical numerals: digits without a leading zero, and an optional fraction.\<close>

definition canonical_decimal :: "string \<Rightarrow> bool" where
  "canonical_decimal t =
     (let ip = takeWhile is_digit t; r = dropWhile is_digit t
      in (ip = ''0'' \<or> (ip \<noteq> [] \<and> hd ip \<noteq> CHR ''0''))
         \<and> (r = [] \<or> (hd r = CHR ''.'' \<and> tl r \<noteq> [] \<and> list_all is_digit (tl r))))"

definition abort_decimal :: "pyval \<Rightarrow> string \<Rightarrow> rat res" where
  "abort_decimal value name =
     rbind (case value of
         PBool _ \<Rightarrow> Inl (ValueError (name @ '' must be an exact base-10 value''))
       | PFloat _ \<Rightarrow> Inl (ValueError (name @ '' must be an exact base-10 value''))
       | PStr t \<Rightarrow> if \<not> canonical_decimal t then Inl (ValueError (name @ '' must be a canonical ASCII decimal''))
            else (case dec_of_text t of
               None \<Rightarrow> Inl (ValueError (name @ '' must be an exact base-10 value''))
             | Some d \<Rightarrow> Inr d)
       | PInt n \<Rightarrow> Inr (Finite (of_int n))
       | PDec d \<Rightarrow> Inr d
       | _ \<Rightarrow> Inl (ValueError (name @ '' must be an exact base-10 value'')))
     (\<lambda>result. case result of
         Finite x \<Rightarrow> if x < 0 then Inl (ValueError (name @ '' must be finite and non-negative'')) else Inr x
       | NonFinite \<Rightarrow> Inl (ValueError (name @ '' must be finite and non-negative'')))"

definition drawdown :: "rat \<Rightarrow> rat \<Rightarrow> rat res" where
  "drawdown value peak =
     (if peak \<le> 0 \<or> value > peak then Inl (ValueError ''running peak must be positive and not below current NAV'')
      else Inr ((peak - value) / peak))"

definition display :: "rat \<Rightarrow> rat" where
  "display value = dec ABORT_PRECISION value"

text \<open>
  \<open>bytes.fromhex\<close> on the digits it accepts: pairs of hexadecimal digits. The code
  calls it only on strings that matched the pattern of a digest.
\<close>

definition nibble :: "char \<Rightarrow> nat" where
  "nibble c = (if is_digit c then of_char c - 48 else of_char c - 87)"

fun fromhex :: "string \<Rightarrow> nat list" where
  "fromhex (a # b # cs) = (16 * nibble a + nibble b) # fromhex cs"
| "fromhex _ = []"

definition chain_prior :: "string option \<Rightarrow> nat list" where
  "chain_prior head = (case head of None \<Rightarrow> replicate 32 0 | Some h \<Rightarrow> fromhex h)"

definition next_evidence ::
  "(nat list \<Rightarrow> string) \<Rightarrow> live_abort_state \<Rightarrow> pyval \<Rightarrow> string option \<times> int \<times> string option" where
  "next_evidence sha previous ev = (case ev of
     PStr e \<Rightarrow> if is_sha256 e
       then (Some e, evidence_count previous + 1,
             Some (sha (EVIDENCE_CHAIN_DOMAIN @ chain_prior (evidence_chain_sha256 previous) @ fromhex e)))
       else (None, evidence_count previous, evidence_chain_sha256 previous)
   | _ \<Rightarrow> (None, evidence_count previous, evidence_chain_sha256 previous))"

text \<open>\<open>tuple(dict.fromkeys(xs))\<close> keeps the first occurrence of each element.\<close>

fun fromkeys :: "'a list \<Rightarrow> 'a list" where
  "fromkeys [] = []"
| "fromkeys (x # xs) = x # filter (\<lambda>y. y \<noteq> x) (fromkeys xs)"

definition flag_reason :: "abort_reason \<times> pyval \<Rightarrow> abort_reason list" where
  "flag_reason rv = (case snd rv of
     PBool b \<Rightarrow> if b then [] else [fst rv]
   | _ \<Rightarrow> [SCHEMA_INVALID_RUN])"

definition valid_ordinal :: "pyval \<Rightarrow> int option" where
  "valid_ordinal v = (case v of PInt n \<Rightarrow> if 0 \<le> n then Some n else None | _ \<Rightarrow> None)"

definition ordinal_reason :: "live_abort_state \<Rightarrow> pyval \<Rightarrow> abort_reason list" where
  "ordinal_reason previous v = (case valid_ordinal v of
     None \<Rightarrow> [SCHEMA_INVALID_RUN]
   | Some n \<Rightarrow> (case last_session_ordinal previous of
        None \<Rightarrow> []
      | Some l \<Rightarrow> if n \<noteq> l + 1 then [MISSING_MANDATORY_INPUT] else []))"

definition evidence_reason :: "pyval \<Rightarrow> abort_reason list" where
  "evidence_reason v = (case v of
     PNone \<Rightarrow> [MISSING_MANDATORY_INPUT]
   | PStr e \<Rightarrow> if is_sha256 e then [] else [SCHEMA_INVALID_RUN]
   | _ \<Rightarrow> [SCHEMA_INVALID_RUN])"

definition fail_safe_reasons :: "live_abort_state \<Rightarrow> live_abort_observation \<Rightarrow> abort_reason list" where
  "fail_safe_reasons previous obs = fromkeys
     (concat (map flag_reason
        [(RECONCILIATION_FAILURE, reconciliation_ok obs),
         (SCHEMA_INVALID_RUN, schema_valid obs),
         (MISSING_MANDATORY_INPUT, mandatory_inputs_present obs)])
      @ ordinal_reason previous (session_ordinal obs)
      @ evidence_reason (evidence_sha256 obs)
      @ (if PNone \<in> set [strategy_nav obs, strategy_running_peak_nav obs, benchmark_nav obs,
              benchmark_running_peak_nav obs]
         then [MISSING_MANDATORY_INPUT] else []))"

definition peak_falls :: "rat option \<Rightarrow> rat \<Rightarrow> bool" where
  "peak_falls stored current = (case stored of None \<Rightarrow> False | Some x \<Rightarrow> current < x)"

record ledger_coordinates =
  strategy_fraction :: rat
  benchmark_fraction :: rat
  excess_fraction :: rat
  new_strategy_peak :: rat
  new_benchmark_peak :: rat

text \<open>The guarded block: parsing, monotone peaks and exact drawdowns, or the first exception.\<close>

definition read_coordinates :: "live_abort_state \<Rightarrow> live_abort_observation \<Rightarrow> ledger_coordinates res" where
  "read_coordinates previous obs =
     rbind (abort_decimal (strategy_nav obs) ''strategy_nav'') (\<lambda>s_nav.
     rbind (abort_decimal (strategy_running_peak_nav obs) ''strategy_running_peak_nav'') (\<lambda>s_peak.
     rbind (abort_decimal (benchmark_nav obs) ''benchmark_nav'') (\<lambda>b_nav.
     rbind (abort_decimal (benchmark_running_peak_nav obs) ''benchmark_running_peak_nav'') (\<lambda>b_peak.
       if peak_falls (strategy_peak previous) s_peak then Inl (ValueError ''strategy running peak cannot decrease'')
       else if peak_falls (benchmark_peak previous) b_peak then Inl (ValueError ''benchmark running peak cannot decrease'')
       else rbind (drawdown s_nav s_peak) (\<lambda>s_frac.
            rbind (drawdown b_nav b_peak) (\<lambda>b_frac.
              Inr \<lparr>strategy_fraction = s_frac, benchmark_fraction = b_frac,
                   excess_fraction = max 0 (s_frac - b_frac),
                   new_strategy_peak = s_peak, new_benchmark_peak = b_peak\<rparr>))))))"

text \<open>
  \<open>_state(previous, **changes)\<close> copies the previous fields, applies the changes, sets the
  token and runs the checks of the constructor.
\<close>

definition state_of :: "live_abort_state \<Rightarrow> live_abort_state res" where
  "state_of changed = post_init True changed"

definition displayed ::
  "live_abort_state \<Rightarrow> ledger_coordinates \<Rightarrow> int option \<Rightarrow> string option \<times> int \<times> string option \<Rightarrow> live_abort_state" where
  "displayed previous c n ev = previous
     \<lparr>strategy_current_drawdown := Some (display (strategy_fraction c)),
      benchmark_current_drawdown := Some (display (benchmark_fraction c)),
      excess_current_drawdown := Some (display (excess_fraction c)),
      strategy_peak := Some (new_strategy_peak c),
      benchmark_peak := Some (new_benchmark_peak c),
      last_session_ordinal := n,
      evidence := fst ev,
      evidence_count := fst (snd ev),
      evidence_chain_sha256 := snd (snd ev)\<rparr>"

definition fail_safe_abort ::
  "live_abort_state \<Rightarrow> abort_reason list \<Rightarrow> int option \<Rightarrow> string option \<times> int \<times> string option \<Rightarrow> live_abort_state res" where
  "fail_safe_abort previous reasons n ev = state_of (previous
     \<lparr>abort_status := ABORTED, last_session_ordinal := n, reason_codes := fromkeys reasons,
      evidence := fst ev, evidence_count := fst (snd ev), evidence_chain_sha256 := snd (snd ev)\<rparr>)"

definition judge_session ::
  "live_abort_state \<Rightarrow> ledger_coordinates \<Rightarrow> int option \<Rightarrow> string option \<times> int \<times> string option \<Rightarrow> live_abort_state res" where
  "judge_session previous c n ev =
     (let next = displayed previous c n ev;
          consecutive = (if excess_fraction c > EXCESS_THRESHOLD then consecutive_excess_sessions previous + 1 else 0)
      in if strategy_fraction c > ABSOLUTE_THRESHOLD
         then state_of (next\<lparr>abort_status := ABORTED, reason_codes := [ABSOLUTE_DRAWDOWN]\<rparr>)
         else if consecutive = EXCESS_DRAWDOWN_PERSISTENCE_SESSIONS
         then state_of (next\<lparr>abort_status := ABORTED, consecutive_excess_sessions := consecutive,
                reason_codes := [EXCESS_DRAWDOWN]\<rparr>)
         else state_of (next\<lparr>abort_status := ARMED, consecutive_excess_sessions := consecutive, reason_codes := []\<rparr>))"

definition evaluate_live_abort ::
  "(nat list \<Rightarrow> string) \<Rightarrow> live_abort_state \<Rightarrow> live_abort_observation \<Rightarrow> live_abort_state res" where
  "evaluate_live_abort sha previous obs =
     (if abort_status previous = ABORTED then Inr previous
      else let fail_safe = fail_safe_reasons previous obs;
               n = (case valid_ordinal (session_ordinal obs) of
                      None \<Rightarrow> last_session_ordinal previous | Some k \<Rightarrow> Some k);
               ev = next_evidence sha previous (evidence_sha256 obs)
           in if fail_safe \<noteq> [] then fail_safe_abort previous fail_safe n ev
              else (case read_coordinates previous obs of
                      Inl _ \<Rightarrow> fail_safe_abort previous [SCHEMA_INVALID_RUN] n ev
                    | Inr c \<Rightarrow> judge_session previous c n ev))"

end
