(* ===== verification/Abort_Monitor.thy ===== *)
theory Abort_Monitor
  imports Live_Abort
begin

text \<open>
  Correctness of the live-abort monitor. Every session returns a well-formed state; the
  histories of sessions are an inductive relation, and over them an abort is equivalent to an
  alarm that is defined on the observations alone; the evidence chain binds the evidence it
  was computed from.
\<close>

section \<open>Well-formed states\<close>

definition wf_state :: "live_abort_state \<Rightarrow> bool" where
  "wf_state s \<longleftrightarrow> 0 \<le> consecutive_excess_sessions s \<and> consecutive_excess_sessions s \<le> 5
     \<and> (abort_status s = ARMED \<longrightarrow> consecutive_excess_sessions s < 5 \<and> reason_codes s = []
          \<and> (0 < consecutive_excess_sessions s \<longrightarrow> last_session_ordinal s \<noteq> None \<and> evidence_count s \<noteq> 0))
     \<and> (abort_status s = ABORTED \<longrightarrow> reason_codes s \<noteq> [])
     \<and> (\<forall>n. last_session_ordinal s = Some n \<longrightarrow> 0 \<le> n)
     \<and> drawdown_ok (strategy_current_drawdown s) \<and> drawdown_ok (benchmark_current_drawdown s)
     \<and> drawdown_ok (excess_current_drawdown s)
     \<and> (strategy_peak s = None \<longleftrightarrow> benchmark_peak s = None) \<and> peak_ok (strategy_peak s) \<and> peak_ok (benchmark_peak s)
     \<and> 0 \<le> evidence_count s \<and> (\<forall>e. evidence s = Some e \<longrightarrow> is_sha256 e)
     \<and> (case evidence_chain_sha256 s of None \<Rightarrow> evidence_count s = 0 | Some h \<Rightarrow> evidence_count s \<noteq> 0 \<and> is_sha256 h)"

lemma state_of_eq: "wf_state s \<Longrightarrow> state_of s = Inr s"
  by (auto simp: state_of_def post_init_def wf_state_def split: option.splits)

lemma state_of_InrD: "state_of s = Inr s' \<Longrightarrow> s' = s \<and> wf_state s"
  unfolding state_of_def post_init_def
  by (elim guard_InrE) (auto simp: wf_state_def split: option.splits; cases "abort_status s"; auto)

lemma state_of_Inr_iff: "state_of s = Inr s' \<longleftrightarrow> s' = s \<and> wf_state s"
  using state_of_eq state_of_InrD by blast

lemma wf_initial: "wf_state initial_state"
  by (simp add: wf_state_def initial_state_def drawdown_ok_def peak_ok_def)

lemma set_fromkeys [simp]: "set (fromkeys xs) = set xs"
  by (induction xs) auto

lemma fromkeys_Nil [simp]: "fromkeys xs = [] \<longleftrightarrow> xs = []"
  by (cases xs) auto

lemma drawdown_InrE:
  assumes "drawdown x y = Inr d"
  obtains "0 < y" "x \<le> y" "d = (y - x) / y"
  using assms by (auto simp: drawdown_def split: if_splits)

lemma abort_decimal_nonneg: "abort_decimal v n = Inr x \<Longrightarrow> 0 \<le> x"
  by (auto simp: abort_decimal_def split: pydec.splits if_splits)

lemma drawdown_range: "0 \<le> x \<Longrightarrow> drawdown x y = Inr d \<Longrightarrow> 0 \<le> d \<and> d \<le> 1"
  by (auto simp: field_simps elim!: drawdown_InrE)

definition coordinates_ok :: "ledger_coordinates \<Rightarrow> bool" where
  "coordinates_ok c \<longleftrightarrow> 0 \<le> strategy_fraction c \<and> strategy_fraction c \<le> 1
     \<and> 0 \<le> benchmark_fraction c \<and> benchmark_fraction c \<le> 1
     \<and> excess_fraction c = max 0 (strategy_fraction c - benchmark_fraction c)
     \<and> 0 < new_strategy_peak c \<and> 0 < new_benchmark_peak c"

lemma read_coordinates_InrE:
  assumes "read_coordinates s obs = Inr c"
  obtains x y u v d e where "abort_decimal (strategy_nav obs) ''strategy_nav'' = Inr x"
    "abort_decimal (strategy_running_peak_nav obs) ''strategy_running_peak_nav'' = Inr y"
    "abort_decimal (benchmark_nav obs) ''benchmark_nav'' = Inr u"
    "abort_decimal (benchmark_running_peak_nav obs) ''benchmark_running_peak_nav'' = Inr v"
    "\<not> peak_falls (strategy_peak s) y" "\<not> peak_falls (benchmark_peak s) v"
    "drawdown x y = Inr d" "drawdown u v = Inr e"
    "c = \<lparr>strategy_fraction = d, benchmark_fraction = e, excess_fraction = max 0 (d - e),
       new_strategy_peak = y, new_benchmark_peak = v\<rparr>"
  using assms unfolding read_coordinates_def
  by (elim rbind_InrE guard_InrE) (rule that, assumption+, simp)

lemma read_coordinates_ok:
  assumes "read_coordinates s obs = Inr c"
  shows "coordinates_ok c"
proof -
  from assms obtain x y u v d e where r: "0 \<le> x" "0 \<le> u" "drawdown x y = Inr d" "drawdown u v = Inr e"
    and c: "c = \<lparr>strategy_fraction = d, benchmark_fraction = e, excess_fraction = max 0 (d - e),
       new_strategy_peak = y, new_benchmark_peak = v\<rparr>"
    by (rule read_coordinates_InrE) (blast dest: abort_decimal_nonneg)
  have "0 < y" "0 < v" using r(3,4) by (auto elim!: drawdown_InrE)
  then show ?thesis
    using drawdown_range [OF r(1,3)] drawdown_range [OF r(2,4)] by (simp add: coordinates_ok_def c)
qed

lemma display_range: "0 \<le> x \<Longrightarrow> x \<le> 1 \<Longrightarrow> 0 \<le> display x \<and> display x \<le> 1"
  using rounding.rnd_nonneg [OF rounding_dec, of 50 x] rounding.rnd_le_fixed [OF rounding_dec, of 50 1 x] dec_of_int [of 1 50]
  by (simp add: display_def ABORT_PRECISION_def)
section \<open>Every session returns a well-formed state\<close>

definition hex_digest :: "(nat list \<Rightarrow> string) \<Rightarrow> bool" where
  "hex_digest sha \<longleftrightarrow> (\<forall>b. is_sha256 (sha b))"

text \<open>The evidence triple of a session fits a well-formed state.\<close>

definition evidence_ok :: "string option \<times> int \<times> string option \<Rightarrow> bool" where
  "evidence_ok ev \<longleftrightarrow> 0 \<le> fst (snd ev) \<and> (\<forall>e. fst ev = Some e \<longrightarrow> is_sha256 e \<and> fst (snd ev) \<noteq> 0)
     \<and> (case snd (snd ev) of None \<Rightarrow> fst (snd ev) = 0 | Some h \<Rightarrow> fst (snd ev) \<noteq> 0 \<and> is_sha256 h)"

lemma next_evidence_ok: "hex_digest sha \<Longrightarrow> wf_state s \<Longrightarrow> evidence_ok (next_evidence sha s v)"
  by (auto simp: next_evidence_def evidence_ok_def hex_digest_def wf_state_def split: pyval.splits option.splits)

lemma fail_safe_wf:
  assumes "wf_state s" "abort_status s = ARMED" "reasons \<noteq> []" "\<And>k. n = Some k \<Longrightarrow> 0 \<le> k" "evidence_ok ev"
  shows "\<exists>s'. fail_safe_abort s reasons n ev = Inr s' \<and> abort_status s' = ABORTED \<and> wf_state s'"
proof -
  let ?s = "s\<lparr>abort_status := ABORTED, last_session_ordinal := n, reason_codes := fromkeys reasons,
      evidence := fst ev, evidence_count := fst (snd ev), evidence_chain_sha256 := snd (snd ev)\<rparr>"
  have "wf_state ?s"
    using assms by (auto simp: wf_state_def evidence_ok_def split: option.splits)
  then show ?thesis by (auto simp: fail_safe_abort_def state_of_eq)
qed

lemma displayed_simps [simp]:
  "abort_status (displayed s c n ev) = abort_status s"
  "consecutive_excess_sessions (displayed s c n ev) = consecutive_excess_sessions s"
  "reason_codes (displayed s c n ev) = reason_codes s"
  "last_session_ordinal (displayed s c n ev) = n"
  "strategy_peak (displayed s c n ev) = Some (new_strategy_peak c)"
  "benchmark_peak (displayed s c n ev) = Some (new_benchmark_peak c)"
  "evidence (displayed s c n ev) = fst ev" "evidence_count (displayed s c n ev) = fst (snd ev)"
  "evidence_chain_sha256 (displayed s c n ev) = snd (snd ev)"
  "strategy_current_drawdown (displayed s c n ev) = Some (display (strategy_fraction c))"
  "benchmark_current_drawdown (displayed s c n ev) = Some (display (benchmark_fraction c))"
  "excess_current_drawdown (displayed s c n ev) = Some (display (excess_fraction c))"
  by (simp_all add: displayed_def)

text \<open>What \<open>judge_session\<close> returns once its constructor checks are known to pass.\<close>

lemma judged_wf:
  assumes "coordinates_ok c" "0 \<le> k" "evidence_ok ev" "fst ev \<noteq> None"
    and "0 \<le> m" "m \<le> 5" "st = ARMED \<longrightarrow> m < 5 \<and> rs = []" "st = ABORTED \<longrightarrow> rs \<noteq> []"
  shows "wf_state ((displayed s c (Some k) ev)\<lparr>abort_status := st, consecutive_excess_sessions := m, reason_codes := rs\<rparr>)"
proof -
  have "drawdown_ok (Some (display (strategy_fraction c)))" "drawdown_ok (Some (display (benchmark_fraction c)))"
    "drawdown_ok (Some (display (excess_fraction c)))"
    using assms(1) by (auto simp: drawdown_ok_def coordinates_ok_def intro!: display_range)
  moreover have "peak_ok (Some (new_strategy_peak c))" "peak_ok (Some (new_benchmark_peak c))"
    using assms(1) by (simp_all add: coordinates_ok_def peak_ok_def)
  ultimately show ?thesis
    using assms(2-8) by (auto simp: wf_state_def evidence_ok_def split: option.splits)
qed

definition accepted :: "live_abort_state \<Rightarrow> live_abort_observation \<Rightarrow> ledger_coordinates \<Rightarrow> bool" where
  "accepted s obs c \<longleftrightarrow> fail_safe_reasons s obs = [] \<and> read_coordinates s obs = Inr c"

lemma fail_safe_reasons_Nil:
  "fail_safe_reasons s obs = [] \<longleftrightarrow> reconciliation_ok obs = PBool True \<and> schema_valid obs = PBool True
     \<and> mandatory_inputs_present obs = PBool True \<and> ordinal_reason s (session_ordinal obs) = []
     \<and> (\<exists>e. evidence_sha256 obs = PStr e \<and> is_sha256 e)
     \<and> PNone \<notin> {strategy_nav obs, strategy_running_peak_nav obs, benchmark_nav obs, benchmark_running_peak_nav obs}"
  by (auto simp: fail_safe_reasons_def flag_reason_def evidence_reason_def split: pyval.splits bool.splits if_splits)

lemma accepted_evidence:
  assumes "accepted s obs c"
  obtains k e where "valid_ordinal (session_ordinal obs) = Some k" "0 \<le> k"
    "next_evidence sha s (evidence_sha256 obs) = (Some e, evidence_count s + 1,
       Some (sha (EVIDENCE_CHAIN_DOMAIN @ chain_prior (evidence_chain_sha256 s) @ fromhex e)))"
    "evidence_sha256 obs = PStr e" "is_sha256 e"
proof -
  from assms have f: "fail_safe_reasons s obs = []" by (simp add: accepted_def)
  then obtain e where e: "evidence_sha256 obs = PStr e" "is_sha256 e" by (auto simp: fail_safe_reasons_Nil)
  from f obtain k where k: "valid_ordinal (session_ordinal obs) = Some k"
    by (auto simp: fail_safe_reasons_Nil ordinal_reason_def split: option.splits)
  then have "0 \<le> k" by (auto simp: valid_ordinal_def split: pyval.splits if_splits)
  with k e that show thesis by (simp add: next_evidence_def)
qed

lemma judge_session_wf:
  assumes "wf_state s" "abort_status s = ARMED" "coordinates_ok c" "0 \<le> k" "evidence_ok ev" "fst ev \<noteq> None"
  shows "\<exists>s'. judge_session s c (Some k) ev = Inr s' \<and> wf_state s'"
proof -
  from assms(1,2) have m: "0 \<le> consecutive_excess_sessions s" "consecutive_excess_sessions s < 5"
    by (auto simp: wf_state_def)
  note wf = judged_wf [OF assms(3-6)]
  have absolute: "wf_state ((displayed s c (Some k) ev)\<lparr>abort_status := ABORTED, reason_codes := [ABSOLUTE_DRAWDOWN]\<rparr>)"
    using wf [where m = "consecutive_excess_sessions s" and st = ABORTED and rs = "[ABSOLUTE_DRAWDOWN]" and s = s] m
    by (simp add: displayed_def)
  then show ?thesis
    using m by (auto simp: judge_session_def Let_def EXCESS_DRAWDOWN_PERSISTENCE_SESSIONS_def state_of_eq wf)
qed

lemma evaluate_total:
  assumes "hex_digest sha" "wf_state s"
  shows "\<exists>s'. evaluate_live_abort sha s obs = Inr s' \<and> wf_state s'"
proof (cases "abort_status s")
  case ABORTED
  then show ?thesis using assms by (simp add: evaluate_live_abort_def)
next
  case ARMED
  let ?ev = "next_evidence sha s (evidence_sha256 obs)"
  let ?n = "case valid_ordinal (session_ordinal obs) of None \<Rightarrow> last_session_ordinal s | Some k \<Rightarrow> Some k"
  have n: "\<And>k. ?n = Some k \<Longrightarrow> 0 \<le> k"
    using assms(2) by (auto simp: wf_state_def valid_ordinal_def split: option.splits pyval.splits if_splits)
  note ev = next_evidence_ok [OF assms, of "evidence_sha256 obs"]
  have failed: "rs \<noteq> [] \<Longrightarrow> \<exists>s'. fail_safe_abort s rs ?n ?ev = Inr s' \<and> wf_state s'" for rs
    using fail_safe_wf [OF assms(2) ARMED _ n ev] by blast
  show ?thesis
  proof (cases "\<exists>c. accepted s obs c")
    case True
    then obtain c where c: "accepted s obs c" ..
    obtain k e where k: "valid_ordinal (session_ordinal obs) = Some k" "0 \<le> k" and e: "fst ?ev = Some e"
      by (rule accepted_evidence [OF c, of sha]) simp
    from c have "coordinates_ok c" by (auto simp: accepted_def intro: read_coordinates_ok)
    from judge_session_wf [OF assms(2) ARMED this k(2) ev] e c k(1) ARMED show ?thesis
      by (simp add: evaluate_live_abort_def Let_def accepted_def)
  next
    case False
    with failed ARMED show ?thesis
      by (auto simp: evaluate_live_abort_def Let_def accepted_def split: sum.splits)
  qed
qed


section \<open>Histories\<close>

inductive history :: "(nat list \<Rightarrow> string) \<Rightarrow> live_abort_observation list \<Rightarrow> live_abort_state \<Rightarrow> bool" for sha where
  start: "history sha [] initial_state"
| session: "history sha os s \<Longrightarrow> evaluate_live_abort sha s obs = Inr s' \<Longrightarrow> history sha (os @ [obs]) s'"

inductive_cases history_NilE: "history sha [] s"
inductive_cases history_snocE: "history sha (os @ [obs]) s"

lemma history_iff: "history sha os s \<longleftrightarrow> fold_res (evaluate_live_abort sha) initial_state os = Inr s"
proof
  show "history sha os s \<Longrightarrow> fold_res (evaluate_live_abort sha) initial_state os = Inr s"
    by (induction rule: history.induct) (simp_all add: fold_res_append)
  show "fold_res (evaluate_live_abort sha) initial_state os = Inr s \<Longrightarrow> history sha os s"
    by (induction os arbitrary: s rule: rev_induct) (auto simp: fold_res_append intro: history.intros)
qed

lemma history_wf:
  assumes "hex_digest sha" "history sha os s"
  shows "wf_state s"
  using assms(2)
proof induction
  case (session os s obs s')
  then show ?case using evaluate_total [OF assms(1), of s obs] by auto
qed (rule wf_initial)

lemma history_exists: "hex_digest sha \<Longrightarrow> \<exists>s. history sha os s"
proof (induction os rule: rev_induct)
  case (snoc obs os)
  then obtain s where "history sha os s" by blast
  with snoc.prems show ?case
    using evaluate_total [OF snoc.prems history_wf [OF snoc.prems], of os s obs] by (blast intro: history.intros)
qed (blast intro: history.intros)

lemma history_sticky: "history sha os s \<Longrightarrow> abort_status s = ABORTED \<Longrightarrow> history sha (os @ rest) s"
proof (induction rest rule: rev_induct)
  case (snoc obs rest)
  then show ?case
    using history.session [of sha "os @ rest" s obs s] by (simp add: evaluate_live_abort_def)
qed simp

section \<open>Alarms in the observations\<close>

definition amount :: "pyval \<Rightarrow> rat option" where
  "amount v = (case abort_decimal v [] of Inl _ \<Rightarrow> None | Inr x \<Rightarrow> Some x)"

definition fall :: "pyval \<Rightarrow> pyval \<Rightarrow> rat option" where
  "fall n p = (case (amount n, amount p) of
     (Some x, Some y) \<Rightarrow> if 0 < y \<and> x \<le> y then Some ((y - x) / y) else None | _ \<Rightarrow> None)"

definition strategy_fall :: "live_abort_observation \<Rightarrow> rat option" where
  "strategy_fall obs = fall (strategy_nav obs) (strategy_running_peak_nav obs)"

definition benchmark_fall :: "live_abort_observation \<Rightarrow> rat option" where
  "benchmark_fall obs = fall (benchmark_nav obs) (benchmark_running_peak_nav obs)"

definition excessive :: "live_abort_observation \<Rightarrow> bool" where
  "excessive obs = (case (strategy_fall obs, benchmark_fall obs) of
     (Some d, Some e) \<Rightarrow> d - e > 1 / 10 | _ \<Rightarrow> False)"

definition clean :: "live_abort_observation \<Rightarrow> bool" where
  "clean obs \<longleftrightarrow> reconciliation_ok obs = PBool True \<and> schema_valid obs = PBool True
     \<and> mandatory_inputs_present obs = PBool True \<and> valid_ordinal (session_ordinal obs) \<noteq> None
     \<and> (\<exists>e. evidence_sha256 obs = PStr e \<and> is_sha256 e)
     \<and> strategy_fall obs \<noteq> None \<and> benchmark_fall obs \<noteq> None"

definition rises :: "pyval \<Rightarrow> pyval \<Rightarrow> bool" where
  "rises u v \<longleftrightarrow> (case (amount u, amount v) of (Some x, Some y) \<Rightarrow> x \<le> y | _ \<Rightarrow> False)"

definition follows :: "live_abort_observation \<Rightarrow> live_abort_observation \<Rightarrow> bool" where
  "follows a b \<longleftrightarrow> valid_ordinal (session_ordinal b) = map_option (\<lambda>n. n + 1) (valid_ordinal (session_ordinal a))
     \<and> rises (strategy_running_peak_nav a) (strategy_running_peak_nav b)
     \<and> rises (benchmark_running_peak_nav a) (benchmark_running_peak_nav b)"

definition alarm :: "live_abort_observation list \<Rightarrow> nat \<Rightarrow> bool" where
  "alarm os i \<longleftrightarrow> \<not> clean (os ! i) \<or> (0 < i \<and> \<not> follows (os ! (i - 1)) (os ! i))
     \<or> (\<exists>d. strategy_fall (os ! i) = Some d \<and> d > 2 / 5)
     \<or> (4 \<le> i \<and> (\<forall>j \<in> {i - 4..i}. excessive (os ! j)))"

definition streak :: "live_abort_observation list \<Rightarrow> nat" where
  "streak os = length (takeWhile excessive (rev os))"

lemma streak_snoc: "streak (os @ [obs]) = (if excessive obs then Suc (streak os) else 0)"
  by (simp add: streak_def)

lemma streak_ge: "k \<le> streak os \<longleftrightarrow> k \<le> length os \<and> (\<forall>j \<in> {length os - k..<length os}. excessive (os ! j))"
proof (induction os arbitrary: k rule: rev_induct)
  case Nil
  then show ?case by (simp add: streak_def)
next
  case (snoc obs os)
  show ?case
  proof (cases k)
    case (Suc m)
    have "(\<forall>j \<in> {length os - m..<Suc (length os)}. excessive ((os @ [obs]) ! j)) \<longleftrightarrow>
        (\<forall>j \<in> {length os - m..<length os}. excessive (os ! j)) \<and> excessive obs"
      by (auto simp: nth_append atLeastLessThanSuc)
    with Suc snoc show ?thesis by (auto simp: streak_snoc)
  qed simp
qed

lemma alarm_append: "i < length os \<Longrightarrow> alarm (os @ rest) i = alarm os i"
  by (auto simp: alarm_def nth_append)

lemma alarm_snoc:
  "alarm (os @ [obs]) (length os) \<longleftrightarrow> \<not> clean obs \<or> (os \<noteq> [] \<and> \<not> follows (last os) obs)
     \<or> (\<exists>d. strategy_fall obs = Some d \<and> d > 2 / 5) \<or> 5 \<le> streak (os @ [obs])"
  (is "?l \<longleftrightarrow> ?r")
proof -
  have "{Suc (length os) - 5..<Suc (length os)} = {length os - 4..length os}" by auto
  then have "5 \<le> streak (os @ [obs]) \<longleftrightarrow> 4 \<le> length os \<and> (\<forall>j \<in> {length os - 4..length os}. excessive ((os @ [obs]) ! j))"
    unfolding streak_ge by auto
  moreover have "0 < length os \<Longrightarrow> (os @ [obs]) ! (length os - 1) = last os"
    by (simp add: nth_append last_conv_nth)
  ultimately show ?thesis by (auto simp: alarm_def)
qed

lemma abort_decimal_amount: "abort_decimal v n = Inr x \<longleftrightarrow> amount v = Some x"
  by (cases v) (auto simp: amount_def abort_decimal_def split: pydec.splits option.splits if_splits)

lemma drawdown_fall: "amount v = Some x \<Longrightarrow> amount w = Some y \<Longrightarrow> drawdown x y = Inr d \<longleftrightarrow> fall v w = Some d"
  by (auto simp: fall_def drawdown_def)

lemma fall_amount: "fall v w = Some d \<Longrightarrow> \<exists>x y. amount v = Some x \<and> amount w = Some y"
  by (auto simp: fall_def split: option.splits)

text \<open>What an armed state knows of the sessions before it.\<close>

definition armed_after :: "live_abort_observation list \<Rightarrow> live_abort_state \<Rightarrow> bool" where
  "armed_after os s \<longleftrightarrow> abort_status s = ARMED \<and> (\<forall>i < length os. \<not> alarm os i)
     \<and> consecutive_excess_sessions s = int (streak os)
     \<and> (if os = [] then last_session_ordinal s = None \<and> strategy_peak s = None \<and> benchmark_peak s = None
        else last_session_ordinal s = valid_ordinal (session_ordinal (last os))
          \<and> strategy_peak s = amount (strategy_running_peak_nav (last os))
          \<and> benchmark_peak s = amount (benchmark_running_peak_nav (last os)))"

lemma armed_last_clean: "armed_after os s \<Longrightarrow> os \<noteq> [] \<Longrightarrow> clean (last os)"
  by (auto simp: armed_after_def alarm_def last_conv_nth)

lemma amount_PNone [simp]: "amount PNone = None"
  by (simp add: amount_def abort_decimal_def)

lemma clean_amounts:
  assumes "clean obs"
  obtains x y u v d e where "amount (strategy_nav obs) = Some x" "amount (strategy_running_peak_nav obs) = Some y"
    "amount (benchmark_nav obs) = Some u" "amount (benchmark_running_peak_nav obs) = Some v"
    "strategy_fall obs = Some d" "benchmark_fall obs = Some e"
  using assms fall_amount unfolding clean_def strategy_fall_def benchmark_fall_def by (metis not_None_eq)

lemma accepted_values:
  assumes "accepted s obs c"
  shows "strategy_fall obs = Some (strategy_fraction c)" "benchmark_fall obs = Some (benchmark_fraction c)"
    "excessive obs \<longleftrightarrow> excess_fraction c > EXCESS_THRESHOLD"
    "amount (strategy_running_peak_nav obs) = Some (new_strategy_peak c)"
    "amount (benchmark_running_peak_nav obs) = Some (new_benchmark_peak c)"
proof -
  from assms have "read_coordinates s obs = Inr c" by (simp add: accepted_def)
  then obtain x y u v d e where a: "amount (strategy_nav obs) = Some x" "amount (strategy_running_peak_nav obs) = Some y"
    "amount (benchmark_nav obs) = Some u" "amount (benchmark_running_peak_nav obs) = Some v"
    and d: "drawdown x y = Inr d" "drawdown u v = Inr e"
    and c: "c = \<lparr>strategy_fraction = d, benchmark_fraction = e, excess_fraction = max 0 (d - e),
       new_strategy_peak = y, new_benchmark_peak = v\<rparr>"
    by (rule read_coordinates_InrE) (simp add: abort_decimal_amount)
  have f: "strategy_fall obs = Some d" "benchmark_fall obs = Some e"
    using d drawdown_fall [OF a(1,2)] drawdown_fall [OF a(3,4)] by (simp_all add: strategy_fall_def benchmark_fall_def)
  then show "strategy_fall obs = Some (strategy_fraction c)" "benchmark_fall obs = Some (benchmark_fraction c)"
    "excessive obs \<longleftrightarrow> excess_fraction c > EXCESS_THRESHOLD"
    by (simp_all add: c excessive_def EXCESS_THRESHOLD_def less_max_iff_disj)
  from a show "amount (strategy_running_peak_nav obs) = Some (new_strategy_peak c)"
    "amount (benchmark_running_peak_nav obs) = Some (new_benchmark_peak c)" by (simp_all add: c)
qed

lemma accepted_after:
  assumes "armed_after os s"
  shows "(\<exists>c. accepted s obs c) \<longleftrightarrow> clean obs \<and> (os \<noteq> [] \<longrightarrow> follows (last os) obs)"
proof (cases "clean obs")
  case True
  obtain x y u v d e where a: "amount (strategy_nav obs) = Some x" "amount (strategy_running_peak_nav obs) = Some y"
    "amount (benchmark_nav obs) = Some u" "amount (benchmark_running_peak_nav obs) = Some v"
    and f: "strategy_fall obs = Some d" "benchmark_fall obs = Some e"
    by (rule clean_amounts [OF True])
  have none: "PNone \<notin> {strategy_nav obs, strategy_running_peak_nav obs, benchmark_nav obs, benchmark_running_peak_nav obs}"
    using a by auto
  have dr: "drawdown x y = Inr d" "drawdown u v = Inr e"
    using drawdown_fall [OF a(1,2)] drawdown_fall [OF a(3,4)] f by (simp_all add: strategy_fall_def benchmark_fall_def)
  have read: "(\<exists>c. read_coordinates s obs = Inr c) \<longleftrightarrow> \<not> peak_falls (strategy_peak s) y \<and> \<not> peak_falls (benchmark_peak s) v"
    using a dr by (auto simp: read_coordinates_def abort_decimal_amount [THEN iffD2, OF a(1)]
      abort_decimal_amount [THEN iffD2, OF a(2)] abort_decimal_amount [THEN iffD2, OF a(3)] abort_decimal_amount [THEN iffD2, OF a(4)])
  show ?thesis
  proof (cases "os = []")
    case True
    with assms \<open>clean obs\<close> none read show ?thesis
      by (auto simp: accepted_def fail_safe_reasons_Nil clean_def armed_after_def ordinal_reason_def peak_falls_def)
  next
    case False
    have l: "clean (last os)" by (rule armed_last_clean [OF assms False])
    then obtain n where n: "valid_ordinal (session_ordinal (last os)) = Some n" by (auto simp: clean_def)
    obtain y' v' where "amount (strategy_running_peak_nav (last os)) = Some y'" "amount (benchmark_running_peak_nav (last os)) = Some v'"
      by (rule clean_amounts [OF l])
    then have p: "\<not> peak_falls (strategy_peak s) y \<longleftrightarrow> rises (strategy_running_peak_nav (last os)) (strategy_running_peak_nav obs)"
      "\<not> peak_falls (benchmark_peak s) v \<longleftrightarrow> rises (benchmark_running_peak_nav (last os)) (benchmark_running_peak_nav obs)"
      using assms False a by (simp_all add: armed_after_def peak_falls_def rises_def not_less)
    have o: "ordinal_reason s (session_ordinal obs) = [] \<longleftrightarrow> valid_ordinal (session_ordinal obs) = Some (n + 1)"
      using assms False n \<open>clean obs\<close> by (auto simp: armed_after_def ordinal_reason_def split: option.splits)
    show ?thesis
      using False \<open>clean obs\<close> none read p o n by (auto simp: accepted_def fail_safe_reasons_Nil clean_def follows_def)
  qed
next
  case False
  have "\<not> accepted s obs c" for c
  proof
    assume c: "accepted s obs c"
    then have "strategy_fall obs \<noteq> None" "benchmark_fall obs \<noteq> None"
      by (simp_all add: accepted_values)
    moreover obtain k where "valid_ordinal (session_ordinal obs) = Some k"
      by (rule accepted_evidence [OF c, of undefined])
    ultimately show False using c False by (auto simp: accepted_def fail_safe_reasons_Nil clean_def)
  qed
  with False show ?thesis by simp
qed


lemma judged_after:
  assumes "armed_after os s" "streak os < 5" "accepted s obs c" "judge_session s c (valid_ordinal (session_ordinal obs)) ev = Inr s'"
  shows "if alarm (os @ [obs]) (length os) then abort_status s' = ABORTED else armed_after (os @ [obs]) s'"
proof -
  note v = accepted_values [OF assms(3)]
  have ok: "clean obs" "os \<noteq> [] \<longrightarrow> follows (last os) obs" using accepted_after [OF assms(1), of obs] assms(3) by auto
  have alarm: "alarm (os @ [obs]) (length os) \<longleftrightarrow> strategy_fraction c > 2 / 5 \<or> streak (os @ [obs]) = 5"
    using ok v(1) assms(2) by (auto simp: alarm_snoc streak_snoc)
  have before: "i < length os \<Longrightarrow> \<not> alarm (os @ [obs]) i" for i
    using assms(1) by (simp add: armed_after_def alarm_append)
  have m: "(if excess_fraction c > EXCESS_THRESHOLD then consecutive_excess_sessions s + 1 else 0) = int (streak (os @ [obs]))"
    using assms(1) v(3) by (simp add: armed_after_def streak_snoc)
  show ?thesis
  proof (cases "alarm (os @ [obs]) (length os)")
    case True
    with assms(4) alarm show ?thesis
      unfolding judge_session_def Let_def m
      by (auto simp: ABSOLUTE_THRESHOLD_def EXCESS_DRAWDOWN_PERSISTENCE_SESSIONS_def state_of_Inr_iff split: if_splits)
  next
    case False
    with assms(4) alarm have "s' = (displayed s c (valid_ordinal (session_ordinal obs)) ev)
        \<lparr>abort_status := ARMED, consecutive_excess_sessions := int (streak (os @ [obs])), reason_codes := []\<rparr>"
      unfolding judge_session_def Let_def m
      by (auto simp: ABSOLUTE_THRESHOLD_def EXCESS_DRAWDOWN_PERSISTENCE_SESSIONS_def state_of_Inr_iff split: if_splits)
    moreover have "\<forall>i < length (os @ [obs]). \<not> alarm (os @ [obs]) i"
      using before False by (auto simp: less_Suc_eq)
    ultimately show ?thesis using False v by (simp add: armed_after_def)
  qed
qed

lemma armed_step:
  assumes "armed_after os s" "wf_state s" "evaluate_live_abort sha s obs = Inr s'"
  shows "if alarm (os @ [obs]) (length os) then abort_status s' = ABORTED else armed_after (os @ [obs]) s'"
proof (cases "\<exists>c. accepted s obs c")
  case True
  then obtain c where c: "accepted s obs c" ..
  obtain k where k: "valid_ordinal (session_ordinal obs) = Some k" by (rule accepted_evidence [OF c, of sha])
  have s: "abort_status s = ARMED" "streak os < 5" using assms(1,2) by (auto simp: armed_after_def wf_state_def)
  have "judge_session s c (valid_ordinal (session_ordinal obs)) (next_evidence sha s (evidence_sha256 obs)) = Inr s'"
    using c k s(1) assms(3) by (simp add: evaluate_live_abort_def Let_def accepted_def)
  from judged_after [OF assms(1) s(2) c this] show ?thesis .
next
  case False
  have s: "abort_status s = ARMED" using assms(1) by (simp add: armed_after_def)
  from False have "alarm (os @ [obs]) (length os)" by (auto simp: alarm_snoc accepted_after [OF assms(1)])
  moreover from False s assms(3) have "abort_status s' = ABORTED"
    by (auto simp: evaluate_live_abort_def Let_def accepted_def fail_safe_abort_def state_of_Inr_iff split: sum.splits if_splits)
  ultimately show ?thesis by simp
qed

lemma armed_after_initial: "armed_after [] initial_state"
  by (simp add: armed_after_def initial_state_def streak_def)

lemma history_alarm:
  assumes "hex_digest sha" "history sha os s"
  shows "if \<exists>i < length os. alarm os i then abort_status s = ABORTED else armed_after os s"
  using assms(2)
proof induction
  case start
  show ?case by (simp add: armed_after_initial)
next
  case (session os s obs s')
  have eq: "(\<exists>i < length (os @ [obs]). alarm (os @ [obs]) i) \<longleftrightarrow>
      (\<exists>i < length os. alarm os i) \<or> alarm (os @ [obs]) (length os)"
    by (auto simp: less_Suc_eq alarm_append)
  show ?case
  proof (cases "\<exists>i < length os. alarm os i")
    case True
    with session show ?thesis unfolding eq by (simp add: evaluate_live_abort_def)
  next
    case False
    with session.IH have "armed_after os s" by simp
    from armed_step [OF this history_wf [OF assms(1) session.hyps(1)] session.hyps(2)] False show ?thesis
      unfolding eq by auto
  qed
qed

section \<open>The evidence chain\<close>

definition valid_evidence :: "live_abort_observation \<Rightarrow> string list" where
  "valid_evidence obs = (case evidence_sha256 obs of PStr e \<Rightarrow> if is_sha256 e then [e] else [] | _ \<Rightarrow> [])"

definition first_alarm :: "live_abort_observation list \<Rightarrow> nat" where
  "first_alarm os = length (takeWhile (\<lambda>i. \<not> alarm os i) [0..<length os])"

text \<open>The evidence of the sessions the monitor evaluated: up to the alarm, the alarm included.\<close>

definition logged :: "live_abort_observation list \<Rightarrow> string list" where
  "logged os = concat (map valid_evidence (take (Suc (first_alarm os)) os))"

definition chain_input :: "string option \<Rightarrow> string \<Rightarrow> nat list" where
  "chain_input h e = EVIDENCE_CHAIN_DOMAIN @ chain_prior h @ fromhex e"

fun chain :: "(nat list \<Rightarrow> string) \<Rightarrow> string option \<Rightarrow> string list \<Rightarrow> string option" where
  "chain sha h [] = h"
| "chain sha h (e # es) = chain sha (Some (sha (chain_input h e))) es"

fun hashed :: "(nat list \<Rightarrow> string) \<Rightarrow> string option \<Rightarrow> string list \<Rightarrow> nat list list" where
  "hashed sha h [] = []"
| "hashed sha h (e # es) = chain_input h e # hashed sha (Some (sha (chain_input h e))) es"

lemma chain_snoc: "chain sha h (es @ [e]) = Some (sha (chain_input (chain sha h es) e))"
  by (induction es arbitrary: h) auto

lemma hashed_snoc: "hashed sha h (es @ [e]) = hashed sha h es @ [chain_input (chain sha h es) e]"
  by (induction es arbitrary: h) auto

lemma length_takeWhile_less: "\<exists>x \<in> set xs. \<not> P x \<Longrightarrow> length (takeWhile P xs) < length xs"
  by (induction xs) auto

lemma logged_snoc:
  "logged (os @ [obs]) = (if \<exists>i < length os. alarm os i then logged os else logged os @ valid_evidence obs)"
proof -
  have eq: "takeWhile (\<lambda>i. \<not> alarm (os @ [obs]) i) [0..<length os] = takeWhile (\<lambda>i. \<not> alarm os i) [0..<length os]"
    by (rule takeWhile_cong) (auto simp: alarm_append)
  show ?thesis
  proof (cases "\<exists>i < length os. alarm os i")
    case True
    then have ex: "\<exists>x \<in> set [0..<length os]. \<not> \<not> alarm (os @ [obs]) x" by (auto simp: alarm_append)
    from True have "\<exists>x \<in> set [0..<length os]. \<not> \<not> alarm os x" by auto
    from length_takeWhile_less [OF this] have "first_alarm os < length os" by (simp add: first_alarm_def)
    moreover have "first_alarm (os @ [obs]) = first_alarm os"
      using ex by (auto simp: first_alarm_def eq takeWhile_append)
    ultimately show ?thesis using True by (simp add: logged_def)
  next
    case False
    then have all: "takeWhile (\<lambda>i. \<not> alarm os i) [0..<length os] = [0..<length os]"
      by (simp add: takeWhile_eq_all_conv)
    have "first_alarm os = length os" unfolding first_alarm_def all by simp
    moreover have "length os \<le> first_alarm (os @ [obs])"
      using False by (auto simp: first_alarm_def takeWhile_append alarm_append)
    ultimately show ?thesis using False by (auto simp: logged_def)
  qed
qed

lemma next_evidence_valid:
  "next_evidence sha s (evidence_sha256 obs) = (case valid_evidence obs of
     [] \<Rightarrow> (None, evidence_count s, evidence_chain_sha256 s)
   | e # _ \<Rightarrow> (Some e, evidence_count s + 1, Some (sha (chain_input (evidence_chain_sha256 s) e))))"
  by (simp add: next_evidence_def valid_evidence_def chain_input_def split: pyval.splits)

lemma evaluate_evidence:
  assumes "abort_status s = ARMED" "evaluate_live_abort sha s obs = Inr s'"
  shows "(evidence s', evidence_count s', evidence_chain_sha256 s') = next_evidence sha s (evidence_sha256 obs)"
  using assms
  by (auto simp: evaluate_live_abort_def Let_def fail_safe_abort_def judge_session_def state_of_Inr_iff
    split: if_splits sum.splits)

lemma history_chain:
  assumes "hex_digest sha" "history sha os s"
  shows "evidence_count s = int (length (logged os)) \<and> evidence_chain_sha256 s = chain sha None (logged os)"
  using assms(2)
proof induction
  case start
  show ?case by (simp add: logged_def initial_state_def)
next
  case (session os s obs s')
  note al = history_alarm [OF assms(1) session.hyps(1)]
  show ?case
  proof (cases "\<exists>i < length os. alarm os i")
    case True
    with al session show ?thesis by (simp add: evaluate_live_abort_def logged_snoc)
  next
    case False
    then have "abort_status s = ARMED" using al by (metis armed_after_def)
    from evaluate_evidence [OF this session.hyps(2)] session.IH False show ?thesis
      by (cases "valid_evidence obs") (auto simp: next_evidence_valid logged_snoc chain_snoc
        valid_evidence_def split: pyval.splits if_splits)
  qed
qed

lemma is_hex_nibble: "is_hex c \<Longrightarrow> nibble c < 16"
  by (auto simp: is_hex_def is_digit_def nibble_def less_eq_char_def)

lemma nibble_inj:
  assumes "is_hex c" "is_hex d" "nibble c = nibble d"
  shows "c = d"
proof -
  have "(of_char c :: nat) = of_char d"
    using assms by (auto simp: is_hex_def is_digit_def nibble_def less_eq_char_def simp del: of_char_eq_iff split: if_splits)
  then show ?thesis by simp
qed

lemma fromhex_inj:
  "list_all is_hex xs \<Longrightarrow> list_all is_hex ys \<Longrightarrow> length xs = length ys \<Longrightarrow> even (length xs) \<Longrightarrow>
    fromhex xs = fromhex ys \<Longrightarrow> xs = ys"
proof (induction xs arbitrary: ys rule: fromhex.induct)
  case (1 a b cs)
  then obtain a' b' cs' where ys: "ys = a' # b' # cs'" by (cases ys; cases "tl ys") auto
  with "1.prems" have eq: "16 * nibble a + nibble b = 16 * nibble a' + nibble b'" and n: "nibble b < 16" "nibble b' < 16"
    by (auto intro: is_hex_nibble)
  have split: "(16 * x + y) div 16 = x" "(16 * x + y) mod 16 = y" if "y < 16" for x y :: nat using that by simp_all
  have "nibble a = nibble a'" "nibble b = nibble b'" using eq split [OF n(1)] split [OF n(2)] by metis+
  with "1.prems" ys have "a = a'" "b = b'" by (auto intro: nibble_inj)
  with "1.prems" "1.IH" [of cs'] ys show ?case by simp
next
  case "2_2"
  from "2_2.prems"(4) show ?case by simp
qed auto

lemma length_fromhex: "length (fromhex xs) = length xs div 2"
  by (induction xs rule: fromhex.induct) auto

lemma chain_prior_inj:
  assumes "chain_prior g = chain_prior h" "g = None \<longleftrightarrow> h = None" "\<And>x. g = Some x \<Longrightarrow> is_sha256 x" "\<And>x. h = Some x \<Longrightarrow> is_sha256 x"
  shows "g = h"
  using assms by (cases g; cases h) (auto simp: chain_prior_def is_sha256_def intro: fromhex_inj)

lemma chain_None: "chain sha None es = None \<longleftrightarrow> es = []"
  by (induction es rule: rev_induct) (auto simp: chain_snoc)

lemma chain_hex: "hex_digest sha \<Longrightarrow> chain sha None es = Some h \<Longrightarrow> is_sha256 h"
  by (induction es rule: rev_induct) (auto simp: chain_snoc hex_digest_def)

lemma length_chain_prior: "(\<And>x. h = Some x \<Longrightarrow> is_sha256 x) \<Longrightarrow> length (chain_prior h) = 32"
  by (cases h) (auto simp: chain_prior_def length_fromhex is_sha256_def)

lemma chain_binds:
  assumes "hex_digest sha" "length xs = length ys" "list_all is_sha256 xs" "list_all is_sha256 ys"
    "chain sha None xs = chain sha None ys" "inj_on sha (set (hashed sha None xs) \<union> set (hashed sha None ys))"
  shows "xs = ys"
  using assms(2-)
proof (induction xs arbitrary: ys rule: rev_induct)
  case (snoc x xs)
  then obtain y zs where ys: "ys = zs @ [y]" by (metis length_0_conv rev_exhaust snoc_eq_iff_butlast)
  have "chain_input (chain sha None xs) x = chain_input (chain sha None zs) y"
    using snoc.prems(4) by (intro inj_onD [OF snoc.prems(5)]) (auto simp: ys chain_snoc hashed_snoc)
  then have eq: "chain_prior (chain sha None xs) = chain_prior (chain sha None zs)" "fromhex x = fromhex y"
    using length_chain_prior [of "chain sha None xs"] length_chain_prior [of "chain sha None zs"] chain_hex [OF assms(1)]
    by (auto simp: chain_input_def append_eq_append_conv)
  have "x = y" using snoc.prems(2,3) eq(2) by (intro fromhex_inj) (auto simp: ys is_sha256_def)
  moreover have "chain sha None xs = chain sha None zs"
    using eq(1) snoc.prems(1) chain_hex [OF assms(1)] by (intro chain_prior_inj) (auto simp: ys chain_None)
  then have "xs = zs"
    using snoc.prems by (intro snoc.IH) (auto simp: ys hashed_snoc inj_on_Un)
  ultimately show ?case by (simp add: ys)
qed simp

lemma logged_valid: "list_all is_sha256 (logged os)"
  by (auto simp: logged_def list_all_iff valid_evidence_def split: pyval.splits if_splits)


section \<open>Properties of the monitor\<close>

definition ex_digest :: string where "ex_digest = replicate 64 (CHR ''a'')"

definition ex_observation :: "int \<Rightarrow> int \<Rightarrow> live_abort_observation" where
  "ex_observation n value = \<lparr>session_ordinal = PInt n, strategy_nav = PInt value, strategy_running_peak_nav = PInt 100,
     benchmark_nav = PInt 100, benchmark_running_peak_nav = PInt 100, reconciliation_ok = PBool True,
     schema_valid = PBool True, mandatory_inputs_present = PBool True, evidence_sha256 = PStr ex_digest\<rparr>"

lemma ex_digest_hex: "is_sha256 ex_digest"
  by (simp add: ex_digest_def is_sha256_def is_hex_def is_digit_def list_all_iff less_eq_char_def)

lemma ex_hash: "hex_digest (\<lambda>_. ex_digest)"
  by (simp add: hex_digest_def ex_digest_hex)

lemmas ex_observation_simps = ex_observation_def clean_def strategy_fall_def benchmark_fall_def fall_def amount_def
  abort_decimal_def valid_ordinal_def ex_digest_hex excessive_def

text \<open>
  C26: the monitor never raises. Whatever the sessions report, in any types, the run from the
  initial state returns a state, and that state passes every check of its constructor.
\<close>

theorem monitor_total:
  assumes "hex_digest sha"
  shows "\<exists>s. fold_res (evaluate_live_abort sha) initial_state os = Inr s \<and> post_init True s = Inr s"
  using history_exists [OF assms] history_wf [OF assms] state_of_eq unfolding history_iff state_of_def by blast

theorem monitor_total_witness:
  "\<exists>s. fold_res (evaluate_live_abort (\<lambda>_. ex_digest)) initial_state [ex_observation 0 80, ex_observation 2 70] = Inr s
     \<and> post_init True s = Inr s"
  by (rule monitor_total [OF ex_hash])

text \<open>
  C27: every alarm is answered in its session and for good. A session that is not clean, does not
  continue the one before it, shows a drawdown of more than 2/5, or completes five sessions in a
  row with an excess of more than 1/10, leaves the monitor aborted, and no later session changes the state.
\<close>

theorem alarm_aborts:
  assumes "hex_digest sha" "i < length os" "alarm os i"
  shows "\<exists>s. abort_status s = ABORTED \<and>
    (\<forall>rest. fold_res (evaluate_live_abort sha) initial_state (take (Suc i) os @ rest) = Inr s)"
proof -
  obtain s where s: "history sha (take (Suc i) os) s" using history_exists [OF assms(1)] by blast
  have "alarm (take (Suc i) os) i"
    using assms(2,3) alarm_append [of i "take (Suc i) os" "drop (Suc i) os"] by simp
  then have "\<exists>j < length (take (Suc i) os). alarm (take (Suc i) os) j" using assms(2) by auto
  with history_alarm [OF assms(1) s] have "abort_status s = ABORTED" by simp
  with history_sticky [OF s] show ?thesis unfolding history_iff by blast
qed

theorem alarm_aborts_witness:
  "\<exists>s. abort_status s = ABORTED \<and>
    (\<forall>rest. fold_res (evaluate_live_abort (\<lambda>_. ex_digest)) initial_state (take (Suc 0) [ex_observation 0 50] @ rest) = Inr s)"
  by (rule alarm_aborts [OF ex_hash]) (auto simp: alarm_def ex_observation_simps intro!: exI [of _ "1/2"])

text \<open>
  C28: there is no false abort. Without an alarm the monitor is armed after the last session and
  its counter is the length of the current run of excessive sessions.
\<close>

theorem no_false_abort:
  assumes "hex_digest sha" "\<forall>i < length os. \<not> alarm os i"
  shows "\<exists>s. fold_res (evaluate_live_abort sha) initial_state os = Inr s \<and> abort_status s = ARMED
    \<and> consecutive_excess_sessions s = int (length (takeWhile excessive (rev os)))"
proof -
  obtain s where s: "history sha os s" using history_exists [OF assms(1)] by blast
  with history_alarm [OF assms(1) s] assms(2) have "armed_after os s" by (simp split: if_splits)
  with s show ?thesis by (auto simp: armed_after_def streak_def history_iff)
qed

theorem no_false_abort_witness:
  "\<exists>s. fold_res (evaluate_live_abort (\<lambda>_. ex_digest)) initial_state [ex_observation 0 80] = Inr s \<and> abort_status s = ARMED
    \<and> consecutive_excess_sessions s = int (length (takeWhile excessive (rev [ex_observation 0 80])))"
  by (rule no_false_abort [OF ex_hash]) (simp add: alarm_def ex_observation_simps)

text \<open>
  The head of the evidence chain binds the evidence. Two runs that end with the same count and
  the same head were given the same evidence up to their aborts, unless the hash maps
  two of the byte strings it was applied to in these runs to one digest.
\<close>

theorem evidence_chain_binds:
  assumes "hex_digest sha" "fold_res (evaluate_live_abort sha) initial_state os = Inr s"
    "fold_res (evaluate_live_abort sha) initial_state os' = Inr s'"
    "evidence_count s = evidence_count s'" "evidence_chain_sha256 s = evidence_chain_sha256 s'"
    "inj_on sha (set (hashed sha None (logged os)) \<union> set (hashed sha None (logged os')))"
  shows "logged os = logged os'"
  using history_chain [OF assms(1), of os s] history_chain [OF assms(1), of os' s'] assms(2-)
  by (intro chain_binds [OF assms(1) _ logged_valid logged_valid _ assms(6)]) (simp_all add: history_iff)

theorem evidence_chain_binds_witness:
  "logged [ex_observation 0 80] = logged [ex_observation 7 90]"
proof -
  have l: "logged [ex_observation n x] = [ex_digest]" for n x
    by (simp add: logged_def valid_evidence_def ex_observation_def ex_digest_hex)
  obtain s s' where s: "history (\<lambda>_. ex_digest) [ex_observation 0 80] s" "history (\<lambda>_. ex_digest) [ex_observation 7 90] s'"
    using history_exists [OF ex_hash] by blast
  from evidence_chain_binds [OF ex_hash s [unfolded history_iff]] history_chain [OF ex_hash s(1)] history_chain [OF ex_hash s(2)]
  show ?thesis by (simp add: l)
qed

end
