(* ===== verification/Intervals.thy ===== *)
theory Intervals
  imports Py_Values
begin

text \<open>
  The half-open date intervals of the identity layer, \<open>qme/data/identity/intervals_v1.py\<close>.
  Dates are the zero-padded texts the code compares as strings; an interval without an end is
  open-ended. A constructor that may raise is a \<open>mk_\<close> function, also where the code calls it
  on bounds that are already checked.
\<close>

definition IntervalError :: "string \<Rightarrow> py_exc" where "IntervalError m = Raised ''IntervalError'' m"
definition OverlapError :: "string \<Rightarrow> py_exc" where "OverlapError m = Raised ''OverlapError'' m"

section \<open>Dates\<close>

text \<open>The pattern \<open>\d{4}-\d{2}-\d{2}\<close> and \<open>date.fromisoformat\<close> on what matches it.\<close>

definition date_format :: "string \<Rightarrow> bool" where
  "date_format s = (length s = 10 \<and> list_all is_digit (take 4 s) \<and> s ! 4 = CHR ''-''
     \<and> list_all is_digit (take 2 (drop 5 s)) \<and> s ! 7 = CHR ''-'' \<and> list_all is_digit (drop 8 s))"

definition leap_year :: "int \<Rightarrow> bool" where
  "leap_year y = (y mod 4 = 0 \<and> (y mod 100 \<noteq> 0 \<or> y mod 400 = 0))"

definition days_in_month :: "int \<Rightarrow> int \<Rightarrow> int" where
  "days_in_month y m = (if m = 2 then (if leap_year y then 29 else 28)
     else if m \<in> {4, 6, 9, 11} then 30 else 31)"

definition calendar_date :: "string \<Rightarrow> bool" where
  "calendar_date s =
     (let y = digits_value (take 4 s); m = digits_value (take 2 (drop 5 s)); d = digits_value (drop 8 s)
      in 1 \<le> y \<and> 1 \<le> m \<and> m \<le> 12 \<and> 1 \<le> d \<and> d \<le> days_in_month y m)"

definition parse_iso_date :: "pyval \<Rightarrow> string \<Rightarrow> string res" where
  "parse_iso_date value what = (case value of
     PStr s \<Rightarrow> if \<not> date_format s then Inl (IntervalError (''INVALID_DATE_FORMAT:'' @ what))
       else if \<not> calendar_date s then Inl (IntervalError (''INVALID_DATE_VALUE:'' @ what))
       else Inr s
   | _ \<Rightarrow> Inl (IntervalError (''INVALID_DATE_TYPE:'' @ what)))"

definition end_after :: "string \<Rightarrow> string option \<Rightarrow> bool" where
  "end_after start end = (case end of None \<Rightarrow> True | Some e \<Rightarrow> start < e)"

section \<open>Intervals\<close>

record date_interval =
  valid_from :: string
  valid_to :: "string option"

definition mk_interval :: "pyval \<Rightarrow> pyval \<Rightarrow> date_interval res" where
  "mk_interval v_from v_to =
     rbind (parse_iso_date v_from ''valid_from'') (\<lambda>start.
       if v_to = PNone then Inr \<lparr>valid_from = start, valid_to = None\<rparr>
       else rbind (parse_iso_date v_to ''valid_to'') (\<lambda>end.
         if end \<le> start then Inl (IntervalError ''INVALID_INTERVAL_BOUNDS'')
         else Inr \<lparr>valid_from = start, valid_to = Some end\<rparr>))"

definition bound_value :: "string option \<Rightarrow> pyval" where
  "bound_value b = (case b of None \<Rightarrow> PNone | Some e \<Rightarrow> PStr e)"

abbreviation interval :: "string \<Rightarrow> string option \<Rightarrow> date_interval res" where
  "interval start end \<equiv> mk_interval (PStr start) (bound_value end)"

definition is_open_ended :: "date_interval \<Rightarrow> bool" where
  "is_open_ended i = (valid_to i = None)"

definition contains :: "date_interval \<Rightarrow> pyval \<Rightarrow> bool res" where
  "contains i as_of = rbind (parse_iso_date as_of ''as_of'') (\<lambda>moment.
     Inr (valid_from i \<le> moment \<and> end_after moment (valid_to i)))"

definition overlaps :: "date_interval \<Rightarrow> date_interval \<Rightarrow> bool" where
  "overlaps i j = (end_after (valid_from i) (valid_to j) \<and> end_after (valid_from j) (valid_to i))"

definition earlier_end :: "string option \<Rightarrow> string option \<Rightarrow> string option" where
  "earlier_end a b = (case a of None \<Rightarrow> b | Some x \<Rightarrow> (case b of None \<Rightarrow> a | Some y \<Rightarrow> Some (min x y)))"

definition intersection :: "date_interval \<Rightarrow> date_interval \<Rightarrow> date_interval option res" where
  "intersection i j =
     (if \<not> overlaps i j then Inr None
      else rbind (interval (max (valid_from i) (valid_from j)) (earlier_end (valid_to i) (valid_to j)))
        (\<lambda>k. Inr (Some k)))"

definition meets :: "date_interval \<Rightarrow> date_interval \<Rightarrow> bool" where
  "meets i j = (valid_to i = Some (valid_from j))"

definition precedes :: "date_interval \<Rightarrow> date_interval \<Rightarrow> bool" where
  "precedes i j = (case valid_to i of None \<Rightarrow> False | Some e \<Rightarrow> e \<le> valid_from j)"

definition gap_before :: "date_interval \<Rightarrow> date_interval \<Rightarrow> date_interval option res" where
  "gap_before i j = (case valid_to i of
     None \<Rightarrow> Inr None
   | Some e \<Rightarrow> if e \<ge> valid_from j then Inr None
       else rbind (interval e (Some (valid_from j))) (\<lambda>k. Inr (Some k)))"

definition to_json_dict :: "date_interval \<Rightarrow> (string, pyval) dict" where
  "to_json_dict i = [(''valid_from'', PStr (valid_from i)), (''valid_to'', bound_value (valid_to i))]"

section \<open>Sequences of intervals\<close>

definition interval_key :: "date_interval \<Rightarrow> string \<times> int \<times> string" where
  "interval_key i = (valid_from i, if valid_to i = None then 1 else 0,
     case valid_to i of None \<Rightarrow> [] | Some e \<Rightarrow> e)"

definition sorted_intervals :: "date_interval list \<Rightarrow> date_interval list" where
  "sorted_intervals is = sort_key interval_key is"

definition later_end :: "string \<Rightarrow> string option \<Rightarrow> string option" where
  "later_end a b = (case b of None \<Rightarrow> None | Some y \<Rightarrow> Some (max a y))"

definition merge_step :: "date_interval list \<Rightarrow> date_interval \<Rightarrow> date_interval list res" where
  "merge_step merged item =
     (if merged = [] then Inr [item]
      else (case valid_to (last merged) of
          None \<Rightarrow> Inr merged
        | Some e \<Rightarrow>
            if valid_from item > e then Inr (merged @ [item])
            else rbind (interval (valid_from (last merged)) (later_end e (valid_to item))) (\<lambda>k.
              Inr (butlast merged @ [k]))))"

definition merge_intervals :: "date_interval list \<Rightarrow> date_interval list res" where
  "merge_intervals is = fold_res merge_step [] (sorted_intervals is)"

text \<open>The loop of \<open>uncovered_spans\<close>; a cursor of \<open>None\<close> ends it.\<close>

fun gap_loop :: "date_interval list \<Rightarrow> string option \<Rightarrow> date_interval list \<Rightarrow> (string option \<times> date_interval list) res" where
  "gap_loop [] cursor gaps = Inr (cursor, gaps)"
| "gap_loop (block # blocks) None gaps = Inr (None, gaps)"
| "gap_loop (block # blocks) (Some c) gaps =
     (if valid_from block > c
      then rbind (interval c (Some (valid_from block))) (\<lambda>g. gap_loop blocks (later_end c (valid_to block)) (gaps @ [g]))
      else gap_loop blocks (later_end c (valid_to block)) gaps)"

fun keep_some :: "'a option list \<Rightarrow> 'a list" where
  "keep_some [] = []"
| "keep_some (None # xs) = keep_some xs"
| "keep_some (Some x # xs) = x # keep_some xs"

definition uncovered_spans :: "date_interval \<Rightarrow> date_interval list \<Rightarrow> date_interval list res" where
  "uncovered_spans target covers =
     rbind (map_res (intersection target) covers) (\<lambda>spans.
     rbind (merge_intervals (keep_some spans)) (\<lambda>blocks.
     rbind (gap_loop blocks (Some (valid_from target)) []) (\<lambda>cg.
       case fst cg of
         None \<Rightarrow> Inr (snd cg)
       | Some c \<Rightarrow> if end_after c (valid_to target)
           then rbind (interval c (valid_to target)) (\<lambda>g. Inr (snd cg @ [g]))
           else Inr (snd cg))))"

fun pairs_of :: "date_interval list \<Rightarrow> (date_interval \<times> date_interval) list" where
  "pairs_of [] = []"
| "pairs_of (i # is) = map (Pair i) (filter (overlaps i) is) @ pairs_of is"

definition overlapping_pairs :: "date_interval list \<Rightarrow> (date_interval \<times> date_interval) list" where
  "overlapping_pairs is = pairs_of (sorted_intervals is)"

definition assert_no_overlap :: "string \<Rightarrow> date_interval list \<Rightarrow> unit res" where
  "assert_no_overlap key is = (case overlapping_pairs is of
     [] \<Rightarrow> Inr ()
   | _ # _ \<Rightarrow> Inl (OverlapError (''OVERLAPPING_VALIDITY_FOR_KEY:'' @ key)))"

end
