(* ===== verification/Interval_Algebra.thy ===== *)
theory Interval_Algebra
  imports Intervals "HOL-Library.Multiset"
begin

text \<open>
  Intervals denote sets of calendar dates. Intersection, merging and the uncovered spans
  are exact set operations on them and never raise on well-formed intervals; the overlap check
  is exactly the uniqueness of the interval of a date.
\<close>

section \<open>Intervals as sets of dates\<close>

definition valid_iso :: "string \<Rightarrow> bool" where
  "valid_iso s \<longleftrightarrow> date_format s \<and> calendar_date s"

definition interval_ok :: "date_interval \<Rightarrow> bool" where
  "interval_ok i \<longleftrightarrow> valid_iso (valid_from i) \<and> (\<forall>e. valid_to i = Some e \<longrightarrow> valid_iso e \<and> valid_from i < e)"

definition dates_of :: "date_interval \<Rightarrow> string set" where
  "dates_of i = {d. valid_iso d \<and> valid_from i \<le> d \<and> end_after d (valid_to i)}"

definition all_dates :: "date_interval list \<Rightarrow> string set" where
  "all_dates is = (\<Union>i \<in> set is. dates_of i)"

lemma parse_iso_date_PStr: "parse_iso_date (PStr s) w = Inr t \<longleftrightarrow> valid_iso s \<and> t = s"
  by (auto simp: parse_iso_date_def valid_iso_def)

lemma parse_iso_dateD: "parse_iso_date v w = Inr t \<Longrightarrow> v = PStr t \<and> valid_iso t"
  by (cases v) (auto simp: parse_iso_date_def valid_iso_def split: if_splits)

lemma mk_interval_ok: "mk_interval a b = Inr i \<Longrightarrow> interval_ok i"
  by (auto simp: mk_interval_def interval_ok_def dest!: parse_iso_dateD split: if_splits)

lemma interval_eq:
  assumes "valid_iso s" "\<And>e. b = Some e \<Longrightarrow> valid_iso e \<and> s < e"
  shows "interval s b = Inr \<lparr>valid_from = s, valid_to = b\<rparr>"
proof (cases b)
  case (Some e)
  then have "parse_iso_date (PStr e) ''valid_to'' = Inr e" "s < e" using assms by (auto simp: parse_iso_date_PStr)
  with Some assms(1) show ?thesis
    using parse_iso_date_PStr [of s "''valid_from''" s] by (simp add: mk_interval_def bound_value_def)
qed (use parse_iso_date_PStr [of s "''valid_from''" s] assms in \<open>simp add: mk_interval_def bound_value_def\<close>)

lemma interval_okD:
  assumes "interval_ok i"
  shows "valid_iso (valid_from i)" "valid_to i = Some e \<Longrightarrow> valid_iso e" "valid_to i = Some e \<Longrightarrow> valid_from i < e"
  using assms by (auto simp: interval_ok_def)

lemma valid_from_in: "interval_ok i \<Longrightarrow> valid_from i \<in> dates_of i"
  by (auto simp: dates_of_def interval_ok_def end_after_def split: option.splits)

text \<open>Two windows overlap exactly when they share a date, and then share their intersection.\<close>

lemma intersection_spec:
  assumes "interval_ok i" "interval_ok j"
  shows "\<exists>k. intersection i j = Inr k \<and> (case k of None \<Rightarrow> dates_of i \<inter> dates_of j = {}
    | Some k \<Rightarrow> interval_ok k \<and> dates_of k = dates_of i \<inter> dates_of j)"
proof (cases "overlaps i j")
  case False
  then have "dates_of i \<inter> dates_of j = {}"
    by (auto simp: overlaps_def dates_of_def end_after_def split: option.splits)
  with False show ?thesis by (auto simp: intersection_def)
next
  case True
  let ?s = "max (valid_from i) (valid_from j)" and ?e = "earlier_end (valid_to i) (valid_to j)"
  have s: "valid_iso ?s" using assms by (auto simp: interval_ok_def max_def)
  have e: "valid_iso e \<and> ?s < e" if "?e = Some e" for e
    using that True assms
    by (auto simp: earlier_end_def overlaps_def end_after_def interval_ok_def min_def max_def split: option.splits if_splits)
  have "interval_ok \<lparr>valid_from = ?s, valid_to = ?e\<rparr>" using s e by (auto simp: interval_ok_def)
  moreover have "dates_of \<lparr>valid_from = ?s, valid_to = ?e\<rparr> = dates_of i \<inter> dates_of j"
    by (auto simp: dates_of_def end_after_def earlier_end_def split: option.splits)
  ultimately show ?thesis using True interval_eq [OF s e] by (auto simp: intersection_def)
qed

lemma overlaps_iff:
  assumes "interval_ok i" "interval_ok j"
  shows "overlaps i j \<longleftrightarrow> dates_of i \<inter> dates_of j \<noteq> {}"
proof -
  obtain k where "intersection i j = Inr k" "case k of None \<Rightarrow> dates_of i \<inter> dates_of j = {}
    | Some k \<Rightarrow> interval_ok k \<and> dates_of k = dates_of i \<inter> dates_of j"
    using intersection_spec [OF assms] by blast
  then show ?thesis
    using valid_from_in [of "the k"] by (auto simp: intersection_def split: option.splits if_splits)
qed

section \<open>Merging\<close>

definition separated :: "date_interval \<Rightarrow> date_interval \<Rightarrow> bool" where
  "separated i j \<longleftrightarrow> (\<exists>e. valid_to i = Some e \<and> e < valid_from j)"

definition cover :: "date_interval list \<Rightarrow> bool" where
  "cover is \<longleftrightarrow> list_all interval_ok is \<and> sorted_wrt separated is"

lemma cover_simps [simp]:
  "cover []" "cover (i # is) \<longleftrightarrow> interval_ok i \<and> cover is \<and> (\<forall>j \<in> set is. separated i j)"
  "cover (is @ js) \<longleftrightarrow> cover is \<and> cover js \<and> (\<forall>i \<in> set is. \<forall>j \<in> set js. separated i j)"
  by (auto simp: cover_def sorted_wrt_append)

lemma all_dates_simps [simp]:
  "all_dates [] = {}" "all_dates (i # is) = dates_of i \<union> all_dates is"
  "all_dates (is @ js) = all_dates is \<union> all_dates js"
  by (auto simp: all_dates_def)

lemma joined_dates:
  assumes "interval_ok i" "valid_to i = Some e" "valid_from i \<le> valid_from j" "valid_from j \<le> e"
  shows "dates_of \<lparr>valid_from = valid_from i, valid_to = later_end e (valid_to j)\<rparr> = dates_of i \<union> dates_of j"
  using assms by (auto simp: dates_of_def end_after_def later_end_def interval_ok_def less_max_iff_disj split: option.splits)

lemma merge_step_spec:
  assumes "cover merged" "interval_ok item" "merged \<noteq> [] \<Longrightarrow> valid_from (last merged) \<le> valid_from item"
  shows "\<exists>r. merge_step merged item = Inr r \<and> r \<noteq> [] \<and> cover r \<and> all_dates r = all_dates merged \<union> dates_of item
    \<and> valid_from (last r) \<le> valid_from item"
proof (cases merged rule: rev_cases)
  case Nil
  with assms show ?thesis by (simp add: merge_step_def)
next
  case (snoc ms l)
  with assms have l: "interval_ok l" "valid_from l \<le> valid_from item" and ms: "cover ms" "\<forall>i \<in> set ms. separated i l"
    by auto
  show ?thesis
  proof (cases "valid_to l")
    case None
    then have "dates_of item \<subseteq> dates_of l" using l by (auto simp: dates_of_def end_after_def)
    with None snoc assms(1) l show ?thesis by (auto simp: merge_step_def)
  next
    case (Some e)
    show ?thesis
    proof (cases "e < valid_from item")
      case True
      then have "separated l item" using Some by (simp add: separated_def)
      moreover have "\<forall>i \<in> set ms. separated i item" using ms(2) l(2) by (fastforce simp: separated_def)
      ultimately show ?thesis using True Some snoc assms(1,2) by (auto simp: merge_step_def)
    next
      case False
      let ?k = "\<lparr>valid_from = valid_from l, valid_to = later_end e (valid_to item)\<rparr>"
      have e: "valid_iso x \<and> valid_from l < x" if "later_end e (valid_to item) = Some x" for x
        using that l(1) Some assms(2) by (auto simp: later_end_def interval_ok_def max_def split: option.splits if_splits)
      have "interval_ok ?k" using e interval_okD(1) [OF l(1)] by (auto simp: interval_ok_def)
      moreover have "dates_of ?k = dates_of l \<union> dates_of item" using joined_dates [OF l(1) Some l(2)] False by simp
      moreover have "\<forall>i \<in> set ms. separated i ?k" using ms(2) by (simp add: separated_def)
      ultimately show ?thesis
        using Some False snoc ms(1) l(2) interval_eq [OF interval_okD(1) [OF l(1)] e] by (auto simp: merge_step_def)
    qed
  qed
qed

lemma merge_loop:
  assumes "sorted (map valid_from items)" "list_all interval_ok items" "cover merged"
    "\<And>x. merged \<noteq> [] \<Longrightarrow> x \<in> set items \<Longrightarrow> valid_from (last merged) \<le> valid_from x"
  shows "\<exists>r. fold_res merge_step merged items = Inr r \<and> cover r \<and> all_dates r = all_dates merged \<union> all_dates items"
  using assms
proof (induction items arbitrary: merged)
  case (Cons x xs)
  then obtain r where r: "merge_step merged x = Inr r" "r \<noteq> []" "cover r" "all_dates r = all_dates merged \<union> dates_of x"
      "valid_from (last r) \<le> valid_from x"
    using merge_step_spec [of merged x] by auto
  from Cons.IH [of r] r Cons.prems show ?case by fastforce
qed simp

lemma sorted_key_from: "sorted (map interval_key is) \<Longrightarrow> sorted (map valid_from is)"
  unfolding sorted_map by (rule sorted_wrt_mono_rel) (auto simp: interval_key_def less_eq_prod_def)

lemma sorted_intervals_props:
  "set (sorted_intervals is) = set is" "sorted (map valid_from (sorted_intervals is))"
  unfolding sorted_intervals_def by (auto intro: sorted_key_from)

lemma merge_intervals_spec:
  assumes "list_all interval_ok is"
  shows "\<exists>r. merge_intervals is = Inr r \<and> cover r \<and> all_dates r = all_dates is"
  using merge_loop [of "sorted_intervals is" "[]"] assms
  by (simp add: merge_intervals_def sorted_intervals_props list_all_iff all_dates_def)


section \<open>Gaps\<close>

definition gaps_between :: "string \<Rightarrow> date_interval list \<Rightarrow> string option \<Rightarrow> date_interval list \<Rightarrow> bool" where
  "gaps_between c blocks c' gs \<longleftrightarrow> cover gs \<and> (\<forall>g \<in> set gs. c \<le> valid_from g)
     \<and> all_dates gs = {d. valid_iso d \<and> c \<le> d \<and> end_after d c'} - all_dates blocks
     \<and> (\<forall>d \<in> all_dates blocks. end_after d c') \<and> c' \<in> insert (Some c) (valid_to ` set blocks)
     \<and> (\<forall>k. c' = Some k \<longrightarrow> valid_iso k \<and> c \<le> k \<and> (\<forall>g \<in> set gs. \<exists>e. valid_to g = Some e \<and> e < k))"

lemma block_after: "cover (b # blocks) \<Longrightarrow> valid_to b = Some e \<Longrightarrow> d \<in> all_dates blocks \<Longrightarrow> e < d"
  by (auto simp: all_dates_def separated_def dates_of_def)

lemma gaps_behind:
  assumes "cover (b # blocks)" "valid_iso c" "valid_from b \<le> c" "valid_to b = Some e"
    "gaps_between (max c e) blocks c' gs"
  shows "gaps_between c (b # blocks) c' gs"
proof -
  have b: "dates_of b = {d. valid_iso d \<and> valid_from b \<le> d \<and> d < e}"
    using assms(4) by (simp add: dates_of_def end_after_def)
  have g: "cover gs" "\<forall>x \<in> set gs. max c e \<le> valid_from x" "\<forall>d \<in> all_dates blocks. end_after d c'"
    "all_dates gs = {d. valid_iso d \<and> max c e \<le> d \<and> end_after d c'} - all_dates blocks"
    "c' \<in> insert (Some (max c e)) (valid_to ` set blocks)"
    and k: "\<And>k. c' = Some k \<Longrightarrow> valid_iso k \<and> max c e \<le> k \<and> (\<forall>g \<in> set gs. \<exists>x. valid_to g = Some x \<and> x < k)"
    using assms(5) by (simp_all add: gaps_between_def)
  have "{d. valid_iso d \<and> c \<le> d \<and> end_after d c'} - all_dates (b # blocks) = all_dates gs"
    using assms(3) by (auto simp: b g(4))
  moreover have "\<forall>d \<in> dates_of b. end_after d c'"
    using k by (fastforce simp: b end_after_def split: option.splits)
  moreover have "c' \<in> insert (Some c) (valid_to ` set (b # blocks))"
    using g(5) assms(4) by (auto simp: max_def split: if_splits)
  ultimately show ?thesis
    unfolding gaps_between_def using g(1-3) k by auto
qed

lemma gaps_ahead:
  assumes "cover (b # blocks)" "valid_iso c" "c < valid_from b" "valid_to b = Some e"
    "gaps_between e blocks c' gs"
  shows "gaps_between c (b # blocks) c' (\<lparr>valid_from = c, valid_to = Some (valid_from b)\<rparr> # gs)" (is "gaps_between _ _ _ (?g # gs)")
proof -
  have b: "dates_of b = {d. valid_iso d \<and> valid_from b \<le> d \<and> d < e}" "valid_from b < e" "valid_iso (valid_from b)"
    using assms(1,4) by (auto simp: dates_of_def end_after_def interval_ok_def)
  have g: "dates_of ?g = {d. valid_iso d \<and> c \<le> d \<and> d < valid_from b}" by (simp add: dates_of_def end_after_def)
  have d: "d < valid_from b \<Longrightarrow> d \<notin> all_dates blocks" for d using block_after [OF assms(1,4), of d] b(2) by auto
  have gs: "cover gs" "\<forall>x \<in> set gs. e \<le> valid_from x" "\<forall>d \<in> all_dates blocks. end_after d c'"
    "all_dates gs = {d. valid_iso d \<and> e \<le> d \<and> end_after d c'} - all_dates blocks"
    "c' \<in> insert (Some e) (valid_to ` set blocks)"
    and k: "\<And>k. c' = Some k \<Longrightarrow> valid_iso k \<and> e \<le> k \<and> (\<forall>g \<in> set gs. \<exists>x. valid_to g = Some x \<and> x < k)"
    using assms(5) by (simp_all add: gaps_between_def)
  have after: "d < e \<Longrightarrow> end_after d c'" for d using k by (fastforce simp: end_after_def split: option.splits)
  have "all_dates (?g # gs) = {d. valid_iso d \<and> c \<le> d \<and> end_after d c'} - all_dates (b # blocks)"
    using assms(3) b(2) d after by (auto simp: b(1) g gs(4))
  moreover have "cover (?g # gs)"
    using assms(2,3) b(2,3) gs(1,2) by (auto simp: interval_ok_def separated_def)
  moreover have "\<forall>x \<in> set (?g # gs). c \<le> valid_from x" using assms(3) b(2) gs(2) by auto
  moreover have "\<forall>d \<in> all_dates (b # blocks). end_after d c'" using gs(3) after by (auto simp: b(1))
  moreover have "c' \<in> insert (Some c) (valid_to ` set (b # blocks))" using gs(5) assms(4) by auto
  moreover have "\<forall>k. c' = Some k \<longrightarrow> valid_iso k \<and> c \<le> k \<and> (\<forall>g \<in> set (?g # gs). \<exists>x. valid_to g = Some x \<and> x < k)"
    using k assms(3) b(2) by fastforce
  ultimately show ?thesis unfolding gaps_between_def by blast
qed

lemma gap_loop_spec:
  assumes "cover blocks" "valid_iso c"
  shows "\<exists>c' gs. gap_loop blocks (Some c) gaps = Inr (c', gaps @ gs) \<and> gaps_between c blocks c' gs"
  using assms
proof (induction blocks arbitrary: c gaps)
  case Nil
  then show ?case by (auto simp: gaps_between_def end_after_def)
next
  case (Cons b blocks)
  have b: "interval_ok b" "cover blocks" using Cons.prems by auto
  let ?g = "\<lparr>valid_from = c, valid_to = Some (valid_from b)\<rparr>"
  have g: "interval c (Some (valid_from b)) = Inr ?g" if "c < valid_from b"
    using that Cons.prems interval_okD(1) [OF b(1)] by (intro interval_eq) auto
  show ?case
  proof (cases "valid_to b")
    case None
    then have "blocks = []" using Cons.prems by (cases blocks) (auto simp: separated_def)
    with None b g Cons.prems show ?thesis
      by (cases "c < valid_from b") (auto simp: later_end_def gaps_between_def end_after_def dates_of_def interval_ok_def)
  next
    case (Some e)
    have e: "valid_iso e" "valid_from b < e" using interval_okD [OF b(1)] Some by auto
    show ?thesis
    proof (cases "c < valid_from b")
      case True
      then have "max c e = e" using e(2) by auto
      with Cons.IH [OF b(2) e(1), of "gaps @ [?g]"] True g Some show ?thesis
        using gaps_ahead [OF Cons.prems True Some] by (auto simp: later_end_def)
    next
      case False
      have "valid_iso (max c e)" using e(1) Cons.prems(2) by (simp add: max_def)
      from Cons.IH [OF b(2) this, of gaps] False Some show ?thesis
        using gaps_behind [OF Cons.prems _ Some] by (auto simp: later_end_def)
    qed
  qed
qed

lemma clip_spec:
  assumes "interval_ok t" "list_all interval_ok covers"
  shows "\<exists>spans. map_res (intersection t) covers = Inr spans \<and> list_all interval_ok (keep_some spans)
    \<and> all_dates (keep_some spans) = dates_of t \<inter> all_dates covers"
  using assms(2)
proof (induction covers)
  case (Cons i covers)
  from Cons.prems have i: "interval_ok i" by simp
  from Cons obtain spans where IH: "map_res (intersection t) covers = Inr spans" "list_all interval_ok (keep_some spans)"
      "all_dates (keep_some spans) = dates_of t \<inter> all_dates covers" by auto
  from intersection_spec [OF assms(1) i] obtain k where k: "intersection t i = Inr k"
    "case k of None \<Rightarrow> dates_of t \<inter> dates_of i = {} | Some k \<Rightarrow> interval_ok k \<and> dates_of k = dates_of t \<inter> dates_of i"
    by blast
  with IH show ?case by (cases k) auto
qed simp

text \<open>A window inside another ends no later.\<close>

lemma subset_end:
  assumes "interval_ok b" "interval_ok t" "dates_of b \<subseteq> dates_of t" "valid_to t = Some e"
  shows "\<exists>x. valid_to b = Some x \<and> x \<le> e"
proof -
  have "valid_from b < e" using assms(3,4) valid_from_in [OF assms(1)] by (auto simp: dates_of_def end_after_def)
  moreover have "e \<notin> dates_of b" using assms(3,4) by (auto simp: dates_of_def end_after_def)
  ultimately show ?thesis
    using interval_okD(2) [OF assms(2,4)] by (auto simp: dates_of_def end_after_def split: option.splits)
qed


lemma cursor_end:
  assumes "interval_ok t" "valid_to t = Some e" "cover blocks" "all_dates blocks \<subseteq> dates_of t"
    "gaps_between (valid_from t) blocks c gs"
  shows "\<exists>x. c = Some x \<and> x \<le> e"
proof (cases "c = Some (valid_from t)")
  case True
  then show ?thesis using interval_okD(3) [OF assms(1,2)] by auto
next
  case False
  then obtain b where b: "b \<in> set blocks" "c = valid_to b" using assms(5) by (auto simp: gaps_between_def)
  then have "dates_of b \<subseteq> dates_of t" using assms(4) by (auto simp: all_dates_def)
  moreover have "interval_ok b" using assms(3) b(1) by (auto simp: cover_def list_all_iff)
  ultimately show ?thesis using subset_end [OF _ assms(1) _ assms(2)] b(2) by auto
qed

lemma uncovered_spec:
  assumes "interval_ok t" "list_all interval_ok covers"
  shows "\<exists>gs. uncovered_spans t covers = Inr gs \<and> cover gs \<and> all_dates gs = dates_of t - all_dates covers"
proof -
  obtain spans where spans: "map_res (intersection t) covers = Inr spans" "list_all interval_ok (keep_some spans)"
      "all_dates (keep_some spans) = dates_of t \<inter> all_dates covers"
    using clip_spec [OF assms] by blast
  obtain blocks where blocks: "merge_intervals (keep_some spans) = Inr blocks" "cover blocks"
      "all_dates blocks = dates_of t \<inter> all_dates covers"
    using merge_intervals_spec [OF spans(2)] spans(3) by auto
  obtain c gs where loop: "gap_loop blocks (Some (valid_from t)) [] = Inr (c, gs)" and
      gs: "gaps_between (valid_from t) blocks c gs"
    using gap_loop_spec [OF blocks(2) interval_okD(1) [OF assms(1)], of "[]"] by auto
  have eq: "uncovered_spans t covers = (case c of None \<Rightarrow> Inr gs | Some c \<Rightarrow>
      if end_after c (valid_to t) then rbind (interval c (valid_to t)) (\<lambda>g. Inr (gs @ [g])) else Inr gs)"
    by (cases c) (simp_all add: uncovered_spans_def spans(1) blocks(1) loop)
  have dates: "all_dates gs = {d. valid_iso d \<and> valid_from t \<le> d \<and> end_after d c} - all_dates covers \<inter> dates_of t"
    and cov: "cover gs" and before: "\<forall>d \<in> all_dates blocks. end_after d c"
    using gs blocks(3) by (auto simp: gaps_between_def)
  have within: "end_after d (valid_to t)" if "end_after d c" for d
    using cursor_end [OF assms(1) _ blocks(2) _ gs] blocks(3) that by (cases "valid_to t") (fastforce simp: end_after_def)+
  have t: "dates_of t = {d. valid_iso d \<and> valid_from t \<le> d \<and> end_after d (valid_to t)}" by (simp add: dates_of_def)
  show ?thesis
  proof (cases "\<exists>k. c = Some k \<and> end_after k (valid_to t)")
    case False
    have "end_after d c" if "d \<in> dates_of t" for d
      using that False by (auto simp: dates_of_def end_after_def split: option.splits)
    then have "all_dates gs = dates_of t - all_dates covers"
      using within by (auto simp: dates t)
    with False cov eq show ?thesis by (auto split: option.splits)
  next
    case True
    then obtain k where k: "c = Some k" "end_after k (valid_to t)" by blast
    let ?g = "\<lparr>valid_from = k, valid_to = valid_to t\<rparr>"
    have kk: "valid_iso k" "valid_from t \<le> k" "\<forall>g \<in> set gs. \<exists>e. valid_to g = Some e \<and> e < k"
      using gs k(1) by (auto simp: gaps_between_def)
    have e: "valid_iso e \<and> k < e" if "valid_to t = Some e" for e
      using that k(2) interval_okD(2) [OF assms(1)] by (auto simp: end_after_def)
    have g: "dates_of ?g = {d. valid_iso d \<and> k \<le> d \<and> end_after d (valid_to t)}" by (simp add: dates_of_def)
    have "cover (gs @ [?g])" using cov kk e by (auto simp: interval_ok_def separated_def)
    moreover have "all_dates (gs @ [?g]) = dates_of t - all_dates covers"
    proof (rule set_eqI)
      fix d
      have c: "end_after d c \<longleftrightarrow> d < k" using k(1) by (simp add: end_after_def)
      have cov: "d \<in> all_dates covers \<inter> dates_of t \<Longrightarrow> d < k" using before blocks(3) c by auto
      show "d \<in> all_dates (gs @ [?g]) \<longleftrightarrow> d \<in> dates_of t - all_dates covers"
        using within [of d] order_trans [OF kk(2), of d] cov c unfolding all_dates_simps dates g t by (cases "d < k") auto
    qed
    ultimately show ?thesis using k interval_eq [OF kk(1) e] by (auto simp: eq)
  qed
qed

section \<open>Overlaps\<close>

lemma pairs_of_Nil: "pairs_of is = [] \<longleftrightarrow> sorted_wrt (\<lambda>i j. \<not> overlaps i j) is"
  by (induction "is") (auto simp: filter_empty_conv)

lemma disjoint_once:
  "list_all interval_ok is \<Longrightarrow>
    sorted_wrt (\<lambda>i j. \<not> overlaps i j) is \<longleftrightarrow> (\<forall>d. length (filter (\<lambda>i. d \<in> dates_of i) is) \<le> 1)"
proof (induction "is")
  case (Cons i "is")
  have "(\<forall>j \<in> set is. \<not> overlaps i j) \<longleftrightarrow> (\<forall>d \<in> dates_of i. filter (\<lambda>j. d \<in> dates_of j) is = [])"
    using Cons.prems by (fastforce simp: list_all_iff overlaps_iff filter_empty_conv)
  with Cons show ?case by (auto simp: split: if_splits)
qed simp

lemma sort_key_inj_mset:
  assumes "inj f" "mset xs = mset ys"
  shows "sort_key f xs = sort_key f ys"
proof (rule properties_for_sort_key)
  show "mset (sort_key f ys) = mset xs" using assms(2) by simp
  fix k
  have "filter (\<lambda>x. f k = f x) zs = replicate (count (mset zs) k) k" for zs
    using assms(1) by (induction zs) (auto dest: injD)
  then show "filter (\<lambda>x. f k = f x) (sort_key f ys) = filter (\<lambda>x. f k = f x) xs"
    using assms(2) by simp
qed simp

lemma inj_interval_key: "inj interval_key"
  by (rule injI) (auto simp: interval_key_def split: option.splits if_splits intro!: date_interval.equality)


section \<open>Properties\<close>

definition ex_span :: "string \<Rightarrow> string option \<Rightarrow> date_interval" where
  "ex_span a b = \<lparr>valid_from = a, valid_to = b\<rparr>"

lemma ex_iso: "valid_iso ''2024-01-01''" "valid_iso ''2024-02-29''" "valid_iso ''2024-03-15''"
  by (simp_all add: valid_iso_def date_format_def calendar_date_def is_digit_def less_eq_char_def
      digits_value_def digit_value_def days_in_month_def leap_year_def Let_def)

lemma ex_spans: "list_all interval_ok [ex_span ''2024-02-29'' None, ex_span ''2024-01-01'' (Some ''2024-02-29'')]"
  "interval_ok (ex_span ''2024-01-01'' (Some ''2024-03-15''))"
  by (simp_all add: ex_span_def interval_ok_def ex_iso less_char_def)

text \<open>
  C29: merging returns the minimal disjoint cover. The result has the same dates as the input,
  its windows are in order with a date missing between any two, and it does not depend on
  the order in which the intervals are given.
\<close>

theorem merge_minimal_cover:
  assumes "list_all interval_ok is"
  shows "\<exists>r. (\<forall>js. mset js = mset is \<longrightarrow> merge_intervals js = Inr r) \<and> list_all interval_ok r
    \<and> sorted_wrt separated r \<and> all_dates r = all_dates is"
proof -
  obtain r where r: "merge_intervals is = Inr r" "cover r" "all_dates r = all_dates is"
    using merge_intervals_spec [OF assms] by blast
  have "merge_intervals js = Inr r" if "mset js = mset is" for js
    using sort_key_inj_mset [OF inj_interval_key that] r(1) by (simp add: merge_intervals_def sorted_intervals_def)
  with r(2,3) show ?thesis unfolding cover_def by blast
qed

theorem merge_minimal_cover_witness:
  "\<exists>r. merge_intervals [ex_span ''2024-02-29'' None, ex_span ''2024-01-01'' (Some ''2024-02-29'')] = Inr r
    \<and> sorted_wrt separated r"
  using merge_minimal_cover [OF ex_spans(1)] by blast

text \<open>
  The uncovered spans are exactly the dates of the target that no cover accounts for, as
  ordered windows that do not touch.
\<close>

theorem uncovered_spans_exact:
  assumes "interval_ok target" "list_all interval_ok covers"
  shows "\<exists>gaps. uncovered_spans target covers = Inr gaps \<and> list_all interval_ok gaps \<and> sorted_wrt separated gaps
    \<and> all_dates gaps = dates_of target - all_dates covers"
  using uncovered_spec [OF assms] by (simp add: cover_def)

theorem uncovered_spans_exact_witness:
  "\<exists>gaps. uncovered_spans (ex_span ''2024-01-01'' (Some ''2024-03-15''))
      [ex_span ''2024-02-29'' None, ex_span ''2024-01-01'' (Some ''2024-02-29'')] = Inr gaps \<and> sorted_wrt separated gaps"
  using uncovered_spans_exact [OF ex_spans(2,1)] by blast

text \<open>
  the overlap check accepts a key's intervals exactly when every date lies in at most one of them.
\<close>

theorem no_overlap_unique_date:
  assumes "list_all interval_ok is"
  shows "assert_no_overlap key is = Inr () \<longleftrightarrow> (\<forall>d. length (filter (\<lambda>i. d \<in> dates_of i) is) \<le> 1)"
proof -
  have "assert_no_overlap key is = Inr () \<longleftrightarrow> sorted_wrt (\<lambda>i j. \<not> overlaps i j) (sorted_intervals is)"
    by (auto simp: assert_no_overlap_def overlapping_pairs_def pairs_of_Nil [symmetric] split: list.splits)
  moreover have "length (filter P (sorted_intervals is)) = length (filter P is)" for P
    by (metis mset_filter mset_sort size_mset sorted_intervals_def)
  moreover have "list_all interval_ok (sorted_intervals is)"
    using assms by (simp add: list_all_iff sorted_intervals_props)
  ultimately show ?thesis by (simp add: disjoint_once)
qed

theorem no_overlap_unique_date_witness:
  "assert_no_overlap ''T'' [ex_span ''2024-02-29'' None, ex_span ''2024-01-01'' (Some ''2024-02-29'')] = Inr () \<longleftrightarrow>
    (\<forall>d. length (filter (\<lambda>i. d \<in> dates_of i) [ex_span ''2024-02-29'' None, ex_span ''2024-01-01'' (Some ''2024-02-29'')]) \<le> 1)"
  by (rule no_overlap_unique_date [OF ex_spans(1)])

end
