(* ===== verification/Rng.thy ===== *)
theory Rng
  imports Py_Values "HOL-Library.Word"
begin

unbundle bit_operations_syntax

text \<open>
  The generator \<open>qme/stats/rng.py\<close> and the stationary bootstrap
  \<open>qme/stats/bootstrap.py\<close>. The code masks every state update to 64 bits and every
  output to 32 bits, so states and outputs are words. The rejection loop has no bound in the code:
  it is a partial function, and not returning is \<open>None\<close>. A computation that may
  raise or not return has type \<open>'a res option\<close>.
\<close>

section \<open>Constants and checks\<close>

definition UINT32_MODULUS :: int where "UINT32_MODULUS = 2 ^ 32"
definition UINT64_MASK :: int where "UINT64_MASK = 2 ^ 64 - 1"
definition SPLITMIX64_GAMMA :: "64 word" where "SPLITMIX64_GAMMA = 0x9E3779B97F4A7C15"
definition SPLITMIX64_MULTIPLIER_1 :: "64 word" where "SPLITMIX64_MULTIPLIER_1 = 0xBF58476D1CE4E5B9"
definition SPLITMIX64_MULTIPLIER_2 :: "64 word" where "SPLITMIX64_MULTIPLIER_2 = 0x94D049BB133111EB"
definition PCG32_MULTIPLIER :: "64 word" where "PCG32_MULTIPLIER = 6364136223846793005"
definition MAX_GEOMETRIC_MEAN :: int where "MAX_GEOMETRIC_MEAN = 100000"
definition MAX_GEOMETRIC_DRAWS :: int where "MAX_GEOMETRIC_DRAWS = 10000000"
definition MAX_BOOTSTRAP_CELLS :: int where "MAX_BOOTSTRAP_CELLS = 10000000"

definition StatsInputError :: "string \<Rightarrow> py_exc" where
  "StatsInputError m = Raised ''StatsInputError'' m"

definition checked_uint :: "pyval \<Rightarrow> string \<Rightarrow> int \<Rightarrow> int res" where
  "checked_uint value name maximum = (case value of
     PInt n \<Rightarrow> if n < 0 \<or> n > maximum then Inl (StatsInputError (name @ '' must be in range'')) else Inr n
   | _ \<Rightarrow> Inl (StatsInputError (name @ '' must be an integer'')))"

definition positive_uint32 :: "pyval \<Rightarrow> string \<Rightarrow> int res" where
  "positive_uint32 value name =
     rbind (checked_uint value name UINT32_MODULUS) (\<lambda>parsed.
       if parsed = 0 then Inl (StatsInputError (name @ '' must be positive'')) else Inr parsed)"

section \<open>SplitMix64 and PCG32\<close>

definition splitmix64_next :: "64 word \<Rightarrow> 64 word \<times> 64 word" where
  "splitmix64_next s =
     (let state = s + SPLITMIX64_GAMMA;
          m1 = (state XOR drop_bit 30 state) * SPLITMIX64_MULTIPLIER_1;
          m2 = (m1 XOR drop_bit 27 m1) * SPLITMIX64_MULTIPLIER_2
      in (state, m2 XOR drop_bit 31 m2))"

definition splitmix64_seed_material :: "pyval \<Rightarrow> (64 word \<times> 64 word) res" where
  "splitmix64_seed_material seed =
     rbind (checked_uint seed ''seed'' UINT64_MASK) (\<lambda>n.
       let first = splitmix64_next (word_of_int n)
       in Inr (snd first, snd (splitmix64_next (fst first))))"

record pcg32 =
  pcg_state :: "64 word"
  pcg_increment :: "64 word"

definition advance :: "pcg32 \<Rightarrow> pcg32" where
  "advance g = g\<lparr>pcg_state := pcg_state g * PCG32_MULTIPLIER + pcg_increment g\<rparr>"

definition permuted :: "64 word \<Rightarrow> 32 word" where
  "permuted old_state =
     (let xorshifted = ucast (drop_bit 27 (drop_bit 18 old_state XOR old_state)) :: 32 word;
          rotation = unat (drop_bit 59 old_state)
      in drop_bit rotation xorshifted OR push_bit ((32 - rotation) mod 32) xorshifted)"

definition next_uint32 :: "pcg32 \<Rightarrow> 32 word \<times> pcg32" where
  "next_uint32 g = (permuted (pcg_state g), advance g)"

definition mk_pcg32 :: "pyval \<Rightarrow> pyval \<Rightarrow> pcg32 res" where
  "mk_pcg32 initstate initseq =
     rbind (checked_uint initstate ''initstate'' UINT64_MASK) (\<lambda>initial_state.
     rbind (checked_uint initseq ''initseq'' UINT64_MASK) (\<lambda>initial_sequence.
       let g = advance \<lparr>pcg_state = 0, pcg_increment = push_bit 1 (word_of_int initial_sequence) OR 1\<rparr>
       in Inr (advance (g\<lparr>pcg_state := pcg_state g + word_of_int initial_state\<rparr>))))"

definition from_seed :: "pyval \<Rightarrow> pcg32 res" where
  "from_seed seed = rbind (splitmix64_seed_material seed) (\<lambda>m.
     mk_pcg32 (PInt (uint (fst m))) (PInt (uint (snd m))))"

text \<open>Division of a 32-bit integer by \<open>2 ^ 32\<close> is exact in binary64.\<close>

definition uniform_unit_interval :: "pcg32 \<Rightarrow> rat \<times> pcg32" where
  "uniform_unit_interval g = (of_int (uint (fst (next_uint32 g))) / of_int UINT32_MODULUS, snd (next_uint32 g))"

section \<open>Bounded and geometric draws\<close>

partial_function (option) reject_loop :: "int \<Rightarrow> int \<Rightarrow> pcg32 \<Rightarrow> (int \<times> pcg32) option" where
  "reject_loop threshold bound g =
     (if uint (fst (next_uint32 g)) \<ge> threshold
      then Some (uint (fst (next_uint32 g)) mod bound, snd (next_uint32 g))
      else reject_loop threshold bound (snd (next_uint32 g)))"

definition bounded_index :: "pcg32 \<Rightarrow> pyval \<Rightarrow> (int \<times> pcg32) res option" where
  "bounded_index g upper_bound = (case positive_uint32 upper_bound ''upper_bound'' of
     Inl e \<Rightarrow> Some (Inl e)
   | Inr bound \<Rightarrow>
       if bound = UINT32_MODULUS then Some (Inr (uint (fst (next_uint32 g)), snd (next_uint32 g)))
       else map_option Inr (reject_loop ((UINT32_MODULUS - bound) mod bound) bound g))"

function geometric_loop :: "int \<Rightarrow> int \<Rightarrow> pcg32 \<Rightarrow> (int \<times> pcg32) res option" where
  "geometric_loop mean len g =
     (if len < MAX_GEOMETRIC_DRAWS
      then (case bounded_index g (PInt mean) of
          None \<Rightarrow> None
        | Some (Inl e) \<Rightarrow> Some (Inl e)
        | Some (Inr ig) \<Rightarrow> if fst ig \<noteq> 0 then geometric_loop mean (len + 1) (snd ig) else Some (Inr (len, snd ig)))
      else Some (Inr (len, g)))"
  by pat_completeness auto
termination
  by (relation "measure (\<lambda>(_, len, _). nat (MAX_GEOMETRIC_DRAWS - len))") auto

declare geometric_loop.simps [simp del]

definition geometric :: "pcg32 \<Rightarrow> pyval \<Rightarrow> (int \<times> pcg32) res option" where
  "geometric g mean_block_length = (case positive_uint32 mean_block_length ''mean_block_length'' of
     Inl e \<Rightarrow> Some (Inl e)
   | Inr mean \<Rightarrow>
       if mean > MAX_GEOMETRIC_MEAN
       then Some (Inl (StatsInputError ''mean_block_length exceeds the safety limit''))
       else (case geometric_loop mean 1 g of
          None \<Rightarrow> None
        | Some (Inl e) \<Rightarrow> Some (Inl e)
        | Some (Inr lg) \<Rightarrow>
            if fst lg = MAX_GEOMETRIC_DRAWS
            then Some (Inl (StatsInputError ''geometric draw exceeds the draw safety limit''))
            else Some (Inr lg)))"

section \<open>The stationary bootstrap\<close>

definition positive_count :: "pyval \<Rightarrow> string \<Rightarrow> int res" where
  "positive_count value name = (case value of
     PInt n \<Rightarrow> if n \<le> 0 \<or> n > UINT32_MODULUS then Inl (StatsInputError (name @ '' must be in range'')) else Inr n
   | _ \<Rightarrow> Inl (StatsInputError (name @ '' must be an integer'')))"

definition block :: "int \<Rightarrow> int \<Rightarrow> int \<Rightarrow> int list" where
  "block n start k = map (\<lambda>offset. (start + offset) mod n) [0..k - 1]"

partial_function (option) fill_replicate :: "int \<Rightarrow> pyval \<Rightarrow> int list \<Rightarrow> pcg32 \<Rightarrow> (int list \<times> pcg32) res option" where
  "fill_replicate n mean xs g =
     (if int (length xs) < n
      then (case bounded_index g (PInt n) of
          None \<Rightarrow> None
        | Some r \<Rightarrow> (case r of Inl e \<Rightarrow> Some (Inl e)
          | Inr sg \<Rightarrow> (case geometric (snd sg) mean of
              None \<Rightarrow> None
            | Some q \<Rightarrow> (case q of Inl e \<Rightarrow> Some (Inl e)
              | Inr bg \<Rightarrow> fill_replicate n mean (xs @ block n (fst sg) (min (fst bg) (n - int (length xs)))) (snd bg)))))
      else Some (Inr (xs, g)))"

primrec replicates_loop :: "nat \<Rightarrow> int \<Rightarrow> pyval \<Rightarrow> int list list \<Rightarrow> pcg32 \<Rightarrow> int list list res option" where
  "replicates_loop 0 n mean out g = Some (Inr out)"
| "replicates_loop (Suc k) n mean out g = (case fill_replicate n mean [] g of
     None \<Rightarrow> None
   | Some (Inl e) \<Rightarrow> Some (Inl e)
   | Some (Inr xg) \<Rightarrow> replicates_loop k n mean (out @ [fst xg]) (snd xg))"

definition bootstrap_checks :: "pyval \<Rightarrow> pyval \<Rightarrow> pyval \<Rightarrow> (int \<times> int) res" where
  "bootstrap_checks series_length replicate_count mean_block_length =
     rbind (positive_count series_length ''series_length'') (\<lambda>n.
     rbind (positive_count replicate_count ''replicate_count'') (\<lambda>replicates.
     rbind (positive_count mean_block_length ''mean_block_length'') (\<lambda>mean.
       if mean > n then Inl (StatsInputError ''mean_block_length cannot exceed series_length'')
       else if mean > MAX_GEOMETRIC_MEAN then Inl (StatsInputError ''mean_block_length exceeds the safety limit'')
       else if n * replicates > MAX_BOOTSTRAP_CELLS then Inl (StatsInputError ''bootstrap output exceeds the cell safety limit'')
       else Inr (n, replicates))))"

definition stationary_bootstrap_indices :: "pyval \<Rightarrow> pyval \<Rightarrow> pyval \<Rightarrow> pyval \<Rightarrow> int list list res option" where
  "stationary_bootstrap_indices series_length replicate_count mean_block_length seed =
     (case rbind (bootstrap_checks series_length replicate_count mean_block_length) (\<lambda>nr.
           rbind (from_seed seed) (\<lambda>g. Inr (nr, g))) of
        Inl e \<Rightarrow> Some (Inl e)
      | Inr p \<Rightarrow> replicates_loop (nat (snd (fst p))) (fst (fst p)) mean_block_length [] (snd p))"

end
