(* ===== verification/Bootstrap.thy ===== *)
theory Bootstrap
  imports Rng
begin

text \<open>
  The generator has full period: its state visits every 64-bit word. Hence the unbounded
  rejection loop of a bounded draw returns, the draw is unbiased, and the stationary bootstrap
  always returns replicates of the shape it promises.
\<close>


section \<open>The period of the generator\<close>

text \<open>
  Iterating \<open>2 ^ k\<close> times is an affine map whose factor is 1 modulo
  \<open>2 ^ (k + 2)\<close> and whose shift is \<open>2 ^ k\<close> times an odd number.
\<close>

lemma affine_double:
  fixes a c :: int
  assumes "4 dvd a - 1" "odd c"
  shows "\<exists>A m t. (\<forall>x. ((\<lambda>x. a * x + c) ^^ (2 ^ k)) x = A * x + 2 ^ k * (2 * m + 1)) \<and> A = 1 + 2 ^ (k + 2) * t"
proof (induction k)
  case 0
  from assms obtain m where "c = 2 * m + 1" by (elim oddE)
  moreover from assms obtain t where "a = 1 + 4 * t" by (metis add.commute diff_add_cancel dvdE)
  ultimately show ?case by auto
next
  case (Suc k)
  then obtain A m t where f: "\<And>x. ((\<lambda>x. a * x + c) ^^ (2 ^ k)) x = A * x + 2 ^ k * (2 * m + 1)" and A: "A = 1 + 2 ^ (k + 2) * t"
    by blast
  define M where "M = m + 2 ^ (k + 1) * t * m + 2 ^ k * t"
  define T where "T = t + 2 ^ (k + 1) * t * t"
  have "((\<lambda>x. a * x + c) ^^ (2 ^ Suc k)) x = (A * A) * x + 2 ^ Suc k * (2 * M + 1)" for x
  proof -
    have "((\<lambda>x. a * x + c) ^^ (2 ^ Suc k)) x = ((\<lambda>x. a * x + c) ^^ (2 ^ k)) (((\<lambda>x. a * x + c) ^^ (2 ^ k)) x)"
      unfolding power_Suc mult_2 funpow_add by simp
    also have "\<dots> = A * (A * x + 2 ^ k * (2 * m + 1)) + 2 ^ k * (2 * m + 1)" by (simp only: f)
    also have "\<dots> = (A * A) * x + 2 ^ Suc k * (2 * M + 1)"
      by (simp add: A M_def algebra_simps)
    finally show ?thesis .
  qed
  moreover have "A * A = 1 + 2 ^ (Suc k + 2) * T"
    by (simp add: A T_def algebra_simps)
  ultimately show ?case by blast
qed

lemma affine_reaches:
  fixes a c x y :: int
  assumes "4 dvd a - 1" "odd c"
  shows "\<exists>n. 2 ^ k dvd ((\<lambda>x. a * x + c) ^^ n) x - y"
proof (induction k)
  case (Suc k)
  then obtain n where "2 ^ k dvd ((\<lambda>x. a * x + c) ^^ n) x - y" by blast
  then obtain d where d: "((\<lambda>x. a * x + c) ^^ n) x = y + 2 ^ k * d" by (metis add.commute diff_add_cancel dvdE)
  show ?case
  proof (cases "even d")
    case True
    then have "2 ^ Suc k dvd ((\<lambda>x. a * x + c) ^^ n) x - y" by (auto simp: d elim: evenE)
    then show ?thesis by blast
  next
    case False
    then obtain j where j: "d = 2 * j + 1" by (elim oddE)
    from affine_double [OF assms, of k] obtain A m t where
      f: "\<And>x. ((\<lambda>x. a * x + c) ^^ (2 ^ k)) x = A * x + 2 ^ k * (2 * m + 1)" and A: "A = 1 + 2 ^ (k + 2) * t"
      by blast
    have "((\<lambda>x. a * x + c) ^^ (2 ^ k + n)) x = A * (y + 2 ^ k * d) + 2 ^ k * (2 * m + 1)"
      unfolding funpow_add comp_def f d by simp
    also have "\<dots> - y = 2 ^ Suc k * (j + m + 1 + 2 * t * (y + 2 ^ k * d))"
      by (simp add: A j algebra_simps)
    finally show ?thesis by (metis dvd_triv_left)
  qed
qed simp

lemma advance_simps [simp]:
  "pcg_state (advance g) = PCG32_MULTIPLIER * pcg_state g + pcg_increment g"
  "pcg_increment (advance g) = pcg_increment g"
  by (simp_all add: advance_def mult.commute)

lemma advance_increment [simp]: "pcg_increment ((advance ^^ n) g) = pcg_increment g"
  by (induction n) simp_all

lemma advance_iterate:
  "pcg_state ((advance ^^ n) g) =
    word_of_int (((\<lambda>x. uint PCG32_MULTIPLIER * x + uint (pcg_increment g)) ^^ n) (uint (pcg_state g)))"
  by (induction n) simp_all

text \<open>The state visits every 64-bit word, from every state and with every odd increment.\<close>

lemma every_state_reached:
  assumes "odd (uint (pcg_increment g))"
  shows "\<exists>n. pcg_state ((advance ^^ n) g) = s"
proof -
  have "4 dvd uint PCG32_MULTIPLIER - 1" by (simp add: PCG32_MULTIPLIER_def)
  then obtain n where "2 ^ 64 dvd ((\<lambda>x. uint PCG32_MULTIPLIER * x + uint (pcg_increment g)) ^^ n) (uint (pcg_state g)) - uint s"
    (is "_ dvd ?x - _") using affine_reaches [OF _ assms] by blast
  then obtain d where "?x - uint s = 2 ^ 64 * d" by (elim dvdE)
  then have "?x = uint s + 2 ^ 64 * d" by linarith
  then have "pcg_state ((advance ^^ n) g) = word_of_int (uint s + 2 ^ 64 * d)"
    by (simp only: advance_iterate)
  also have "\<dots> = s" using uint_lt2p [of s] by (intro word_uint_eqI) (simp add: uint_word_of_int del: of_int_add of_int_mult)
  finally show ?thesis ..
qed



section \<open>The rejection loop returns\<close>

lemma next_uint32_simps [simp]: "snd (next_uint32 g) = advance g" "fst (next_uint32 g) = permuted (pcg_state g)"
  by (simp_all add: next_uint32_def)

definition drawn :: "pcg32 \<Rightarrow> nat \<Rightarrow> int" where
  "drawn g m = uint (permuted (pcg_state ((advance ^^ m) g)))"

lemma drawn_0: "drawn g 0 = uint (permuted (pcg_state g))"
  by (simp add: drawn_def)

lemma drawn_Suc: "drawn g (Suc m) = drawn (advance g) m"
  by (simp add: drawn_def funpow_swap1)

lemma reject_loop_returns:
  assumes "threshold \<le> drawn g n"
  shows "\<exists>m. threshold \<le> drawn g m \<and> (\<forall>j < m. drawn g j < threshold) \<and>
    reject_loop threshold bound g = Some (drawn g m mod bound, (advance ^^ Suc m) g)"
  using assms
proof (induction n arbitrary: g)
  case 0
  then show ?case by (intro exI [of _ 0]) (simp add: reject_loop.simps drawn_0)
next
  case (Suc n)
  show ?case
  proof (cases "threshold \<le> drawn g 0")
    case True
    then show ?thesis by (intro exI [of _ 0]) (simp add: reject_loop.simps drawn_0)
  next
    case False
    from Suc.IH [of "advance g"] Suc.prems obtain m where m: "threshold \<le> drawn (advance g) m"
      "\<forall>j < m. drawn (advance g) j < threshold"
      "reject_loop threshold bound (advance g) = Some (drawn (advance g) m mod bound, (advance ^^ Suc m) (advance g))"
      by (auto simp: drawn_Suc)
    have "\<forall>j < Suc m. drawn g j < threshold" using m(2) False by (auto simp: less_Suc_eq_0_disj drawn_Suc)
    with m False show ?thesis
      by (intro exI [of _ "Suc m"]) (simp add: reject_loop.simps [of _ _ g] drawn_0 drawn_Suc funpow_swap1)
  qed
qed

lemma top_draw: "permuted 0x7FFFE0000000000 = 0xFFFFFFFF"
  by (simp add: permuted_def)

lemma largest_draw:
  assumes "odd (uint (pcg_increment g))"
  shows "\<exists>n. drawn g n = 2 ^ 32 - 1"
proof -
  obtain n where "pcg_state ((advance ^^ n) g) = 0x7FFFE0000000000" using every_state_reached [OF assms] by blast
  then show ?thesis by (intro exI [of _ n]) (simp add: drawn_def top_draw)
qed

lemma drawn_range: "0 \<le> drawn g n" "drawn g n < 2 ^ 32"
  using uint_lt2p [of "permuted (pcg_state ((advance ^^ n) g))"] by (simp_all add: drawn_def)

definition threshold_of :: "int \<Rightarrow> int" where
  "threshold_of bound = (if bound = 2 ^ 32 then 0 else (2 ^ 32 - bound) mod bound)"

lemma bounded_index_returns:
  assumes "odd (uint (pcg_increment g))" "0 < bound" "bound \<le> 2 ^ 32"
  shows "\<exists>m. threshold_of bound \<le> drawn g m \<and> (\<forall>j < m. drawn g j < threshold_of bound) \<and>
    bounded_index g (PInt bound) = Some (Inr (drawn g m mod bound, (advance ^^ Suc m) g))"
proof -
  have p: "positive_uint32 (PInt bound) ''upper_bound'' = Inr bound"
    using assms by (simp add: positive_uint32_def checked_uint_def UINT32_MODULUS_def)
  show ?thesis
  proof (cases "bound = 2 ^ 32")
    case True
    then show ?thesis
      using p drawn_range [of g 0]
      by (intro exI [of _ 0]) (simp add: bounded_index_def UINT32_MODULUS_def threshold_of_def drawn_0)
  next
    case False
    obtain n where n: "drawn g n = 2 ^ 32 - 1" using largest_draw [OF assms(1)] by blast
    have "threshold_of bound < bound" using assms False by (simp add: threshold_of_def)
    with n assms False have "threshold_of bound \<le> drawn g n" by linarith
    from reject_loop_returns [OF this, of bound] False p show ?thesis
      by (auto simp: bounded_index_def UINT32_MODULUS_def threshold_of_def)
  qed
qed


section \<open>Blocks and replicates\<close>

text \<open>
  Sequences made of blocks. A block may have one index, so this says no more of a sequence than that
  its indices are those of a series of \<open>n\<close> observations; it is the form in which the blocks are
  appended.
\<close>

definition spread :: "int \<Rightarrow> int list \<Rightarrow> bool" where
  "spread n xs \<longleftrightarrow> (\<exists>bs. xs = concat (map (\<lambda>b. block n (fst b) (snd b)) bs) \<and>
     (\<forall>b \<in> set bs. 0 \<le> fst b \<and> fst b < n \<and> 1 \<le> snd b))"

lemma spread_append_block:
  assumes "spread n xs" "0 \<le> s" "s < n" "1 \<le> k"
  shows "spread n (xs @ block n s k)"
proof -
  from assms(1) obtain bs where "xs = concat (map (\<lambda>b. block n (fst b) (snd b)) bs)"
    "\<forall>b \<in> set bs. 0 \<le> fst b \<and> fst b < n \<and> 1 \<le> snd b" by (auto simp: spread_def)
  with assms show ?thesis unfolding spread_def by (intro exI [of _ "bs @ [(s, k)]"]) auto
qed

lemma length_block: "0 \<le> k \<Longrightarrow> int (length (block n s k)) = k"
  by (simp add: block_def)

lemma geometric_loop_returns:
  assumes "odd (uint (pcg_increment g))" "0 < mean" "mean \<le> 2 ^ 32" "1 \<le> len" "len \<le> MAX_GEOMETRIC_DRAWS"
  shows "\<exists>k g'. geometric_loop mean len g = Some (Inr (k, g')) \<and> 1 \<le> k \<and> k \<le> MAX_GEOMETRIC_DRAWS \<and>
    pcg_increment g' = pcg_increment g"
  using assms
proof (induction mean len g rule: geometric_loop.induct)
  case (1 mean len g)
  show ?case
  proof (cases "len < MAX_GEOMETRIC_DRAWS")
    case False
    with 1 show ?thesis by (simp add: geometric_loop.simps)
  next
    case True
    from bounded_index_returns [OF "1.prems"(1-3)] obtain m where
      b: "bounded_index g (PInt mean) = Some (Inr (drawn g m mod mean, (advance ^^ Suc m) g))" by blast
    show ?thesis
    proof (cases "drawn g m mod mean = 0")
      case True
      with b \<open>len < _\<close> "1.prems" show ?thesis by (simp add: geometric_loop.simps [of mean len])
    next
      case False
      with "1.IH" [OF True b refl] "1.prems" True b show ?thesis by (simp add: geometric_loop.simps [of mean len])
    qed
  qed
qed

definition draw_limit :: py_exc where
  "draw_limit = StatsInputError ''geometric draw exceeds the draw safety limit''"

lemma geometric_returns:
  assumes "odd (uint (pcg_increment g))" "0 < mean" "mean \<le> MAX_GEOMETRIC_MEAN"
  shows "geometric g (PInt mean) = Some (Inl draw_limit) \<or>
    (\<exists>k g'. geometric g (PInt mean) = Some (Inr (k, g')) \<and> 1 \<le> k \<and> pcg_increment g' = pcg_increment g)"
proof -
  have p: "positive_uint32 (PInt mean) ''mean_block_length'' = Inr mean" and mean: "mean \<le> 2 ^ 32"
    using assms by (simp_all add: positive_uint32_def checked_uint_def UINT32_MODULUS_def MAX_GEOMETRIC_MEAN_def)
  obtain k g' where "geometric_loop mean 1 g = Some (Inr (k, g'))" "1 \<le> k" "pcg_increment g' = pcg_increment g"
    using geometric_loop_returns [OF assms(1,2) mean, of 1] by (auto simp: MAX_GEOMETRIC_DRAWS_def)
  with p assms(3) show ?thesis by (auto simp: geometric_def draw_limit_def)
qed

lemma fill_replicate_returns:
  assumes "odd (uint (pcg_increment g))" "0 < mean" "mean \<le> MAX_GEOMETRIC_MEAN" "n \<le> 2 ^ 32"
    "spread n xs" "int (length xs) \<le> n"
  shows "fill_replicate n (PInt mean) xs g = Some (Inl draw_limit) \<or>
    (\<exists>ys g'. fill_replicate n (PInt mean) xs g = Some (Inr (ys, g')) \<and> spread n ys \<and> int (length ys) = n
      \<and> pcg_increment g' = pcg_increment g)"
  using assms
proof (induction "nat (n - int (length xs))" arbitrary: xs g rule: less_induct)
  case less
  show ?case
  proof (cases "int (length xs) < n")
    case False
    with less.prems show ?thesis by (simp add: fill_replicate.simps)
  next
    case True
    then have n: "0 < n" by linarith
    from bounded_index_returns [OF less.prems(1) n less.prems(4)] obtain m where
      b: "bounded_index g (PInt n) = Some (Inr (drawn g m mod n, (advance ^^ Suc m) g))" by blast
    let ?g = "(advance ^^ Suc m) g" and ?s = "drawn g m mod n"
    have inc: "odd (uint (pcg_increment ?g))" using less.prems(1) by (simp del: funpow.simps)
    from geometric_returns [OF inc less.prems(2,3)] show ?thesis
    proof (elim disjE exE conjE)
      assume "geometric ?g (PInt mean) = Some (Inl draw_limit)"
      with True b show ?thesis by (simp add: fill_replicate.simps [of n _ xs] del: funpow.simps)
    next
      fix k g' assume k: "geometric ?g (PInt mean) = Some (Inr (k, g'))" "1 \<le> k" "pcg_increment g' = pcg_increment ?g"
      let ?k = "min k (n - int (length xs))"
      let ?ys = "xs @ block n ?s ?k"
      have eq: "fill_replicate n (PInt mean) xs g = fill_replicate n (PInt mean) ?ys g'"
        using True b k(1) by (simp add: fill_replicate.simps [of n _ xs] del: funpow.simps)
      have "1 \<le> ?k" using k(2) True by simp
      then have len: "int (length ?ys) = int (length xs) + ?k" using length_block [of ?k n ?s] by simp
      have "spread n ?ys" using less.prems(5) n \<open>1 \<le> ?k\<close> by (intro spread_append_block) auto
      moreover have "nat (n - int (length ?ys)) < nat (n - int (length xs))" "int (length ?ys) \<le> n"
        using len \<open>1 \<le> ?k\<close> True by linarith+
      moreover have "pcg_increment g' = pcg_increment g" using k(3) by (simp del: funpow.simps)
      ultimately show ?thesis using less.hyps [of ?ys g'] less.prems(1-4) unfolding eq by simp
    qed
  qed
qed


lemma replicates_loop_returns:
  assumes "odd (uint (pcg_increment g))" "0 < mean" "mean \<le> MAX_GEOMETRIC_MEAN" "0 < n" "n \<le> 2 ^ 32"
  shows "replicates_loop k n (PInt mean) out g = Some (Inl draw_limit) \<or>
    (\<exists>xs. replicates_loop k n (PInt mean) out g = Some (Inr (out @ xs)) \<and> length xs = k \<and>
      (\<forall>x \<in> set xs. spread n x \<and> int (length x) = n))"
  using assms(1)
proof (induction k arbitrary: out g)
  case (Suc k)
  have "spread n []" "int (length []) \<le> n" using assms(4) by (auto simp: spread_def intro: exI [of _ "[]"])
  note fill = fill_replicate_returns [OF Suc.prems assms(2,3,5) this]
  from fill show ?case
  proof (elim disjE exE conjE)
    fix ys g' assume y: "fill_replicate n (PInt mean) [] g = Some (Inr (ys, g'))" "spread n ys" "int (length ys) = n"
      "pcg_increment g' = pcg_increment g"
    from Suc.IH [of g' "out @ [ys]"] y Suc.prems show ?thesis
      by simp (metis (no_types, lifting) length_Cons set_ConsD)
  qed simp_all
qed simp

lemma from_seed_odd: "from_seed seed = Inr g \<Longrightarrow> odd (uint (pcg_increment g))"
proof -
  have "odd (uint (push_bit 1 w OR (1 :: 64 word)))" for w by (simp add: unsigned_or_eq even_or_iff unsigned_push_bit_eq)
  moreover assume "from_seed seed = Inr g"
  ultimately show ?thesis by (auto simp: from_seed_def mk_pcg32_def Let_def)
qed

lemma bootstrap_checks_InrD:
  assumes "bootstrap_checks a b c = Inr (n, r)"
  shows "a = PInt n" "b = PInt r" "0 < n" "n \<le> 2 ^ 32" "0 < r" "\<exists>mean. c = PInt mean \<and> 0 < mean \<and> mean \<le> MAX_GEOMETRIC_MEAN"
proof -
  have "positive_count v w = Inr k \<Longrightarrow> v = PInt k \<and> 0 < k \<and> k \<le> 2 ^ 32" for v w k
    by (cases v) (auto simp: positive_count_def UINT32_MODULUS_def split: if_splits)
  with assms show "a = PInt n" "b = PInt r" "0 < n" "n \<le> 2 ^ 32" "0 < r"
    "\<exists>mean. c = PInt mean \<and> 0 < mean \<and> mean \<le> MAX_GEOMETRIC_MEAN"
    unfolding bootstrap_checks_def by fastforce+
qed

section \<open>Unbiased draws\<close>

lemma residues_in_window:
  fixes t b r q :: int
  assumes "0 < b" "0 \<le> r" "r < b" "0 \<le> q"
  shows "{d. t \<le> d \<and> d < t + q * b \<and> d mod b = r} = (\<lambda>i. t + (r - t) mod b + i * b) ` {0..<q}"
proof (intro set_eqI iffI)
  fix d assume "d \<in> {d. t \<le> d \<and> d < t + q * b \<and> d mod b = r}"
  then have d: "t \<le> d" "d < t + q * b" "d mod b = r" by auto
  have "(r - t) mod b = (d - t) mod b" using d(3) by (metis mod_diff_left_eq)
  then have "d = t + (r - t) mod b + (d - t) div b * b" by (simp add: algebra_simps)
  moreover have "(d - t) div b * b < q * b"
    using d(2) div_mult_mod_eq [of "d - t" b] pos_mod_sign [OF assms(1), of "d - t"] by linarith
  then have "(d - t) div b \<in> {0..<q}"
    using d(1) assms(1) by (simp add: pos_imp_zdiv_nonneg_iff)
  ultimately show "d \<in> (\<lambda>i. t + (r - t) mod b + i * b) ` {0..<q}" by blast
next
  fix d assume "d \<in> (\<lambda>i. t + (r - t) mod b + i * b) ` {0..<q}"
  then obtain i where d: "d = t + (r - t) mod b + i * b" and i: "0 \<le> i" "i < q" by force
  have "0 \<le> (r - t) mod b" "(r - t) mod b < b" using assms(1) by auto
  moreover have "0 \<le> i * b" "i * b + b \<le> q * b" using i assms(1)
    by (simp, metis add1_zle_eq distrib_right mult.left_neutral mult_right_mono order_less_imp_le)
  moreover have "d mod b = r"
    using assms unfolding d by (simp add: mod_simps)
  ultimately show "d \<in> {d. t \<le> d \<and> d < t + q * b \<and> d mod b = r}" unfolding d by auto
qed


lemma residue_count:
  fixes t b r q :: int
  assumes "0 < b" "0 \<le> r" "r < b" "0 \<le> t" "0 \<le> q" "t + q * b = 2 ^ 32"
  shows "card {w :: 32 word. t \<le> uint w \<and> uint w mod b = r} = nat q"
proof -
  have "uint ` {w :: 32 word. t \<le> uint w \<and> uint w mod b = r} = {d. t \<le> d \<and> d < t + q * b \<and> d mod b = r}"
  proof (intro set_eqI iffI)
    fix d assume "d \<in> {d. t \<le> d \<and> d < t + q * b \<and> d mod b = r}"
    moreover from this assms(4,6) have "uint (word_of_int d :: 32 word) = d"
      by (intro word_of_int_inverse) auto
    ultimately show "d \<in> uint ` {w :: 32 word. t \<le> uint w \<and> uint w mod b = r}" by (force intro!: image_eqI [of _ _ "word_of_int d"])
  next
    fix d assume "d \<in> uint ` {w :: 32 word. t \<le> uint w \<and> uint w mod b = r}"
    then obtain w :: "32 word" where "d = uint w" "t \<le> d" "d mod b = r" by auto
    then show "d \<in> {d. t \<le> d \<and> d < t + q * b \<and> d mod b = r}" using uint_lt2p [of w] assms(6) by simp
  qed
  moreover have "inj_on (\<lambda>i. t + (r - t) mod b + i * b) {0..<q}" using assms(1) by (auto simp: inj_on_def)
  ultimately have "card (uint ` {w :: 32 word. t \<le> uint w \<and> uint w mod b = r}) = nat q"
    by (simp add: residues_in_window [OF assms(1-3,5)] card_image)
  moreover have "inj_on uint {w :: 32 word. t \<le> uint w \<and> uint w mod b = r}" by (rule inj_onI) (auto intro: word_uint_eqI)
  ultimately show ?thesis by (simp add: card_image)
qed

lemma threshold_window:
  assumes "0 < bound" "bound \<le> 2 ^ 32"
  shows "0 \<le> threshold_of bound" "threshold_of bound + (2 ^ 32 - threshold_of bound) div bound * bound = 2 ^ 32"
    "0 \<le> (2 ^ 32 - threshold_of bound) div bound"
proof -
  have range: "0 \<le> threshold_of bound" "threshold_of bound \<le> 2 ^ 32 - bound"
    using assms zmod_le_nonneg_dividend [of "2 ^ 32 - bound" bound] by (simp_all add: threshold_of_def)
  have "bound dvd 2 ^ 32 - bound - (2 ^ 32 - bound) mod bound" by (rule dvd_minus_mod)
  then have "bound dvd 2 ^ 32 - threshold_of bound"
    using dvd_add [of bound _ bound] by (auto simp: threshold_of_def algebra_simps)
  then show "threshold_of bound + (2 ^ 32 - threshold_of bound) div bound * bound = 2 ^ 32" by simp
  from range show "0 \<le> threshold_of bound" "0 \<le> (2 ^ 32 - threshold_of bound) div bound"
    using assms(1) by (auto simp: pos_imp_zdiv_nonneg_iff)
qed

section \<open>Properties\<close>

definition ex_generator :: pcg32 where "ex_generator = \<lparr>pcg_state = 0, pcg_increment = 1\<rparr>"

text \<open>
  C30: a bounded draw always returns and is unbiased. From every state with an odd increment the
  rejection loop reaches an accepted output, the index is that output modulo the bound, and
  among the accepted 32-bit outputs every index below the bound has equally many.
\<close>

theorem bounded_index_unbiased:
  assumes "odd (uint (pcg_increment g))" "0 < bound" "bound \<le> 2 ^ 32"
  shows "\<exists>t m. t \<le> drawn g m \<and> (\<forall>j < m. drawn g j < t)
    \<and> bounded_index g (PInt bound) = Some (Inr (drawn g m mod bound, (advance ^^ Suc m) g))
    \<and> (\<forall>r \<in> {0..<bound}. int (card {w :: 32 word. t \<le> uint w \<and> uint w mod bound = r}) * bound = 2 ^ 32 - t)"
proof -
  note w = threshold_window [OF assms(2,3)]
  have "int (card {w :: 32 word. threshold_of bound \<le> uint w \<and> uint w mod bound = r}) * bound = 2 ^ 32 - threshold_of bound"
    if "r \<in> {0..<bound}" for r
    using residue_count [OF assms(2) _ _ w(1,3,2), of r] that w(2,3) by simp
  with bounded_index_returns [OF assms] show ?thesis by blast
qed

theorem bounded_index_unbiased_witness:
  "\<exists>i g. bounded_index ex_generator (PInt 3) = Some (Inr (i, g))"
  using bounded_index_unbiased [of ex_generator 3] by (auto simp: ex_generator_def)

text \<open>
  C31: the bootstrap always returns. Whatever its arguments it either raises its own input error or
  returns the requested number of replicates, each of the length of the series and
  made of indices of the series only.
\<close>

theorem bootstrap_returns:
  "\<exists>r. stationary_bootstrap_indices a b c seed = Some r \<and> (case r of
     Inl e \<Rightarrow> \<exists>m. e = StatsInputError m
   | Inr out \<Rightarrow> \<exists>n k. a = PInt n \<and> b = PInt k \<and> length out = nat k
       \<and> (\<forall>xs \<in> set out. int (length xs) = n \<and> spread n xs))"
proof (cases "bootstrap_checks a b c")
  case (Inl e)
  then have "\<exists>m. e = StatsInputError m"
    by (auto simp: bootstrap_checks_def positive_count_def split: pyval.splits if_splits)
  with Inl show ?thesis by (simp add: stationary_bootstrap_indices_def)
next
  case (Inr nr)
  obtain n k where nr: "nr = (n, k)" by (cases nr)
  note ok = bootstrap_checks_InrD [OF Inr [unfolded nr]]
  obtain mean where c: "c = PInt mean" "0 < mean" "mean \<le> MAX_GEOMETRIC_MEAN" using ok(6) by blast
  show ?thesis
  proof (cases "from_seed seed")
    case e: (Inl e)
    then have "\<exists>m. e = StatsInputError m"
      by (auto simp: from_seed_def splitmix64_seed_material_def mk_pcg32_def checked_uint_def Let_def split: pyval.splits if_splits)
    with Inr e show ?thesis by (simp add: stationary_bootstrap_indices_def)
  next
    case g: (Inr g)
    have "stationary_bootstrap_indices a b c seed = replicates_loop (nat k) n (PInt mean) [] g"
      using Inr g by (simp add: stationary_bootstrap_indices_def nr c(1))
    with replicates_loop_returns [OF from_seed_odd [OF g] c(2,3) ok(3,4), of "nat k" "[]"] ok(1,2) show ?thesis
      by (auto simp: draw_limit_def)
  qed
qed

theorem bootstrap_returns_witness:
  "\<exists>r. stationary_bootstrap_indices (PInt 5) (PInt 2) (PInt 2) (PInt 42) = Some r"
  using bootstrap_returns [of "PInt 5" "PInt 2" "PInt 2" "PInt 42"] by blast

end
