(* ===== verification/Promotion.thy ===== *)
theory Promotion
  imports Equations
begin

text \<open>
  The promotion decision \<open>qme/promotion/decision.py\<close>: versioned policies, non-inferiority
  criteria, promotion gates, unresolved fields of a mandate document, and the abort state with
  its explicit resume. Enumerations are given to the constructors as texts and parsed there;
  \<open>required_text\<close>, \<open>required_sha256\<close> and \<open>aware_datetime\<close> are the ones of the
  accounting kernel, whose code this module repeats.
\<close>

section \<open>Enumerations\<close>

definition DECISION_PRECISION :: nat where "DECISION_PRECISION = 50"

datatype direction = HIGHER_IS_BETTER | LOWER_IS_BETTER
datatype economic_effect_rule = ORIENTED_POINT_ESTIMATE_GTE | ORIENTED_CONFIDENCE_BOUND_STRICT_GT
datatype criterion_status = CriterionPass | CriterionNoGo | CriterionBlocked
datatype gate_status = GatePass | GateFail | GateMissing
datatype promotion_status = GO | NO_GO
datatype abort_observation_status = Clear | Triggered | Missing | Failed
datatype policy_abort_status = Armed | Aborted

definition direction_of :: "string \<Rightarrow> direction res" where
  "direction_of s = (if s = ''HIGHER_IS_BETTER'' then Inr HIGHER_IS_BETTER
     else if s = ''LOWER_IS_BETTER'' then Inr LOWER_IS_BETTER
     else Inl (ValueError ''unsupported non-inferiority direction''))"

definition effect_rule_of :: "string \<Rightarrow> economic_effect_rule res" where
  "effect_rule_of s = (if s = ''ORIENTED_POINT_ESTIMATE_GTE'' then Inr ORIENTED_POINT_ESTIMATE_GTE
     else if s = ''ORIENTED_CONFIDENCE_BOUND_STRICT_GT'' then Inr ORIENTED_CONFIDENCE_BOUND_STRICT_GT
     else Inl (ValueError ''unsupported economic effect rule''))"

definition gate_status_of :: "string \<Rightarrow> gate_status res" where
  "gate_status_of s = (if s = ''PASS'' then Inr GatePass else if s = ''FAIL'' then Inr GateFail
     else if s = ''MISSING'' then Inr GateMissing else Inl (ValueError ''unsupported gate status''))"

definition abort_observation_status_of :: "string \<Rightarrow> abort_observation_status res" where
  "abort_observation_status_of s = (if s = ''CLEAR'' then Inr Clear else if s = ''TRIGGERED'' then Inr Triggered
     else if s = ''MISSING'' then Inr Missing else if s = ''FAILED'' then Inr Failed
     else Inl (ValueError ''unsupported abort observation status''))"

fun criterion_status_text :: "criterion_status \<Rightarrow> string" where
  "criterion_status_text CriterionPass = ''PASS''"
| "criterion_status_text CriterionNoGo = ''NO_GO''"
| "criterion_status_text CriterionBlocked = ''UNRESOLVED_BLOCKER''"

fun gate_status_text :: "gate_status \<Rightarrow> string" where
  "gate_status_text GatePass = ''PASS''"
| "gate_status_text GateFail = ''FAIL''"
| "gate_status_text GateMissing = ''MISSING''"

fun abort_observation_status_text :: "abort_observation_status \<Rightarrow> string" where
  "abort_observation_status_text Clear = ''CLEAR''"
| "abort_observation_status_text Triggered = ''TRIGGERED''"
| "abort_observation_status_text Missing = ''MISSING''"
| "abort_observation_status_text Failed = ''FAILED''"

definition decimal_or_none :: "pyval \<Rightarrow> string \<Rightarrow> rat option res" where
  "decimal_or_none value name =
     rbind (case value of
         PNone \<Rightarrow> Inr None
       | PBool _ \<Rightarrow> Inl (TypeError (name @ '' must be a base-10 value, not binary float''))
       | PFloat _ \<Rightarrow> Inl (TypeError (name @ '' must be a base-10 value, not binary float''))
       | PDec d \<Rightarrow> Inr (Some d)
       | PInt n \<Rightarrow> Inr (Some (Finite (of_int n)))
       | PStr t \<Rightarrow> (case dec_of_text t of
            None \<Rightarrow> Inl (ValueError (name @ '' is not a valid base-10 value''))
          | Some d \<Rightarrow> Inr (Some d))
       | _ \<Rightarrow> Inl (TypeError (name @ '' must be Decimal, str, int, or None'')))
     (\<lambda>result. case result of
         None \<Rightarrow> Inr None
       | Some (Finite x) \<Rightarrow> Inr (Some x)
       | Some NonFinite \<Rightarrow> Inl (ValueError (name @ '' must be finite'')))"

definition optional :: "('a \<Rightarrow> 'b res) \<Rightarrow> 'a option \<Rightarrow> 'b option res" where
  "optional f v = (case v of None \<Rightarrow> Inr None | Some x \<Rightarrow> rbind (f x) (\<lambda>y. Inr (Some y)))"

section \<open>Policies, criteria and gates\<close>

record policy_version =
  trial_id :: string
  version :: int
  artifact_sha256 :: string
  registered_at :: int
  validation_outputs_opened_at :: "int option"

definition mk_policy_version ::
  "string \<Rightarrow> int \<Rightarrow> string \<Rightarrow> pydatetime \<Rightarrow> pydatetime option \<Rightarrow> policy_version res" where
  "mk_policy_version trial ver artifact registered opened =
     rbind (required_text trial ''trial_id'') (\<lambda>t.
       if ver < 1 then Inl (ValueError ''version must be a positive integer'')
       else rbind (required_sha256 artifact ''artifact_sha256'') (\<lambda>a.
            rbind (aware_datetime registered ''registered_at'') (\<lambda>r.
            rbind (optional (\<lambda>d. aware_datetime d ''validation_outputs_opened_at'') opened) (\<lambda>op.
              if (case op of None \<Rightarrow> False | Some x \<Rightarrow> r \<ge> x)
              then Inl (ValueError ''policy must be registered before validation outputs are opened'')
              else Inr \<lparr>trial_id = t, version = ver, artifact_sha256 = a, registered_at = r,
                        validation_outputs_opened_at = op\<rparr>))))"

record non_inferiority_criterion =
  criterion_id :: string
  crit_direction :: direction
  strategy_metric :: "rat option"
  benchmark_metric :: "rat option"
  raw_delta_lower_bound :: "rat option"
  raw_delta_upper_bound :: "rat option"
  noninferiority_margin :: "rat option"
  crit_evidence_sha256 :: "string option"
  metric_units :: "string option"
  noninferiority_margin_units :: "string option"
  economic_effect_threshold :: "rat option"
  economic_effect_units :: "string option"
  effect_rule :: "economic_effect_rule option"

record criterion_input =
  in_id :: string
  in_direction :: string
  in_strategy :: pyval
  in_benchmark :: pyval
  in_lower :: pyval
  in_upper :: pyval
  in_margin :: pyval
  in_evidence :: "string option"
  in_units :: "string option"
  in_margin_units :: "string option"
  in_effect_threshold :: pyval
  in_effect_units :: "string option"
  in_effect_rule :: "string option"

definition mk_criterion :: "criterion_input \<Rightarrow> non_inferiority_criterion res" where
  "mk_criterion i =
     rbind (required_text (in_id i) ''criterion_id'') (\<lambda>cid.
     rbind (direction_of (in_direction i)) (\<lambda>dir.
     rbind (decimal_or_none (in_strategy i) ''strategy_metric'') (\<lambda>strategy.
     rbind (decimal_or_none (in_benchmark i) ''benchmark_metric'') (\<lambda>benchmark.
     rbind (decimal_or_none (in_lower i) ''raw_delta_lower_bound'') (\<lambda>lower.
     rbind (decimal_or_none (in_upper i) ''raw_delta_upper_bound'') (\<lambda>upper.
     rbind (decimal_or_none (in_margin i) ''noninferiority_margin'') (\<lambda>margin.
     rbind (decimal_or_none (in_effect_threshold i) ''economic_effect_threshold'') (\<lambda>threshold.
       if (case margin of None \<Rightarrow> False | Some m \<Rightarrow> m < 0)
       then Inl (ValueError ''noninferiority_margin must be non-negative'')
       else
     rbind (optional (\<lambda>t. required_text t ''metric_units'') (in_units i)) (\<lambda>units.
     rbind (optional (\<lambda>t. required_text t ''noninferiority_margin_units'') (in_margin_units i)) (\<lambda>margin_units.
     rbind (optional (\<lambda>t. required_text t ''economic_effect_units'') (in_effect_units i)) (\<lambda>effect_units.
       if (threshold = None \<or> effect_units = None \<or> in_effect_rule i = None)
          \<and> \<not> (threshold = None \<and> effect_units = None \<and> in_effect_rule i = None)
       then Inl (ValueError ''economic effect threshold, units, and rule must be supplied together'')
       else
     rbind (optional effect_rule_of (in_effect_rule i)) (\<lambda>rule.
     rbind (optional (\<lambda>t. required_sha256 t ''evidence_sha256'') (in_evidence i)) (\<lambda>ev.
       Inr \<lparr>criterion_id = cid, crit_direction = dir, strategy_metric = strategy, benchmark_metric = benchmark,
            raw_delta_lower_bound = lower, raw_delta_upper_bound = upper, noninferiority_margin = margin,
            crit_evidence_sha256 = ev, metric_units = units, noninferiority_margin_units = margin_units,
            economic_effect_threshold = threshold, economic_effect_units = effect_units, effect_rule = rule\<rparr>)))))))))))))"

record criterion_decision =
  decided_id :: string
  decided_status :: criterion_status
  oriented_delta :: "rat option"
  oriented_confidence_bound :: "rat option"
  noninferiority_threshold :: "rat option"
  decided_reason :: string

record gate_observation =
  gate_id :: string
  observed_gate :: gate_status
  gate_evidence_sha256 :: "string option"

definition mk_gate_observation :: "string \<Rightarrow> string \<Rightarrow> string option \<Rightarrow> gate_observation res" where
  "mk_gate_observation gid st ev =
     rbind (required_text gid ''gate_id'') (\<lambda>g.
     rbind (gate_status_of st) (\<lambda>s.
     rbind (optional (\<lambda>t. required_sha256 t ''evidence_sha256'') ev) (\<lambda>e.
       Inr \<lparr>gate_id = g, observed_gate = s, gate_evidence_sha256 = e\<rparr>)))"

record promotion_decision =
  decision_policy :: policy_version
  promoted :: promotion_status
  criterion_decisions :: "criterion_decision list"
  gate_statuses :: "(string, gate_status) dict"
  decision_reasons :: "string list"

section \<open>Non-inferiority\<close>

definition decide :: "string \<Rightarrow> criterion_status \<Rightarrow> rat option \<Rightarrow> rat option \<Rightarrow> rat option \<Rightarrow> string \<Rightarrow> criterion_decision" where
  "decide cid st delta bound threshold why = \<lparr>decided_id = cid, decided_status = st, oriented_delta = delta,
     oriented_confidence_bound = bound, noninferiority_threshold = threshold, decided_reason = why\<rparr>"

text \<open>
  The optional economic rule, once the bound is above the threshold, and the reason it fails for.
  The constructor demands a threshold with every rule; the code asserts it again.
\<close>

definition effect_failure :: "non_inferiority_criterion \<Rightarrow> rat \<Rightarrow> rat \<Rightarrow> string option" where
  "effect_failure c delta bound = (case effect_rule c of
     None \<Rightarrow> None
   | Some rule \<Rightarrow>
       if economic_effect_units c \<noteq> metric_units c then Some ''METRIC_AND_ECONOMIC_EFFECT_UNIT_MISMATCH''
       else (case economic_effect_threshold c of
          None \<Rightarrow> None
        | Some t \<Rightarrow> (case rule of
            ORIENTED_POINT_ESTIMATE_GTE \<Rightarrow>
              if delta < t then Some ''MINIMUM_ECONOMIC_POINT_EFFECT_NOT_MET'' else None
          | ORIENTED_CONFIDENCE_BOUND_STRICT_GT \<Rightarrow>
              if \<not> bound > t then Some ''MINIMUM_ECONOMIC_BOUND_EFFECT_NOT_MET'' else None)))"

text \<open>
  The comparisons run in a context of 50 digits: differences and negations round, a value
  that is only read keeps its digits.
\<close>

definition judge_criterion :: "non_inferiority_criterion \<Rightarrow> rat \<Rightarrow> rat \<Rightarrow> rat \<Rightarrow> rat \<Rightarrow> rat \<Rightarrow> criterion_decision" where
  "judge_criterion c strategy benchmark lower upper margin =
     (let raw_delta = dec DECISION_PRECISION (strategy - benchmark);
          ni = dec DECISION_PRECISION (- margin);
          delta = (case crit_direction c of HIGHER_IS_BETTER \<Rightarrow> raw_delta | LOWER_IS_BETTER \<Rightarrow> dec DECISION_PRECISION (- raw_delta));
          bound = (case crit_direction c of HIGHER_IS_BETTER \<Rightarrow> lower | LOWER_IS_BETTER \<Rightarrow> dec DECISION_PRECISION (- upper))
      in if metric_units c \<noteq> noninferiority_margin_units c
         then decide (criterion_id c) CriterionNoGo None None (Some ni) ''METRIC_AND_NONINFERIORITY_MARGIN_UNIT_MISMATCH''
         else if lower > upper \<or> raw_delta < lower \<or> raw_delta > upper
         then decide (criterion_id c) CriterionNoGo None None (Some ni) ''INVALID_CONFIDENCE_BOUND_ORDER_OR_COVERAGE''
         else if \<not> bound > ni
         then decide (criterion_id c) CriterionNoGo (Some delta) (Some bound) (Some ni)
                ''NON_INFERIORITY_BOUND_NOT_STRICTLY_ABOVE_THRESHOLD''
         else (case effect_failure c delta bound of
            Some why \<Rightarrow> decide (criterion_id c) CriterionNoGo (Some delta) (Some bound) (Some ni) why
          | None \<Rightarrow> decide (criterion_id c) CriterionPass (Some delta) (Some bound) (Some ni) ''PASS''))"

definition evaluate_non_inferiority :: "non_inferiority_criterion \<Rightarrow> criterion_decision" where
  "evaluate_non_inferiority c =
     (case (strategy_metric c, benchmark_metric c, raw_delta_lower_bound c, raw_delta_upper_bound c,
            noninferiority_margin c, crit_evidence_sha256 c, metric_units c, noninferiority_margin_units c) of
        (Some strategy, Some benchmark, Some lower, Some upper, Some margin, Some _, Some _, Some _) \<Rightarrow>
          judge_criterion c strategy benchmark lower upper margin
      | _ \<Rightarrow> decide (criterion_id c) CriterionBlocked None None None ''MISSING_REQUIRED_CRITERION_INPUT'')"

section \<open>Promotion\<close>

definition criterion_reasons :: "criterion_decision list \<Rightarrow> string list" where
  "criterion_reasons ds = concat (map (\<lambda>d. if decided_status d \<noteq> CriterionPass
     then [''CRITERION:'' @ decided_id d @ '':'' @ criterion_status_text (decided_status d)] else []) ds)"

definition add_gate ::
  "(string, gate_status) dict \<times> string list \<Rightarrow> gate_observation \<Rightarrow> (string, gate_status) dict \<times> string list" where
  "add_gate mr gate =
     (if dict_get (fst mr) (gate_id gate) \<noteq> None then (fst mr, snd mr @ [''DUPLICATE_GATE:'' @ gate_id gate])
      else (dict_set (fst mr) (gate_id gate) (observed_gate gate),
            if observed_gate gate = GatePass \<and> gate_evidence_sha256 gate = None
            then snd mr @ [''GATE_MISSING_EVIDENCE:'' @ gate_id gate] else snd mr))"

definition required_gate_reasons :: "(string, gate_status) dict \<Rightarrow> string list \<Rightarrow> string list" where
  "required_gate_reasons m ids = concat (map (\<lambda>i. case dict_get m i of
       None \<Rightarrow> [''MISSING_REQUIRED_GATE:'' @ i]
     | Some s \<Rightarrow> if s \<noteq> GatePass then [''GATE_NOT_PASS:'' @ i @ '':'' @ gate_status_text s] else []) ids)"

definition evaluate_promotion ::
  "policy_version \<Rightarrow> non_inferiority_criterion list \<Rightarrow> gate_observation list \<Rightarrow> string list \<Rightarrow> string list \<Rightarrow> promotion_decision" where
  "evaluate_promotion policy criteria gates required_gate_ids unresolved_blockers =
     (let decisions = map evaluate_non_inferiority criteria;
          start = (if validation_outputs_opened_at policy = None then [''VALIDATION_OUTPUTS_NOT_OPENED''] else [])
            @ (if decisions = [] then [''MISSING_REQUIRED_NON_INFERIORITY_CRITERIA''] else [])
            @ criterion_reasons decisions;
          gated = foldl add_gate ([], start) gates;
          reasons = snd gated
            @ (if length required_gate_ids \<noteq> card (set required_gate_ids) then [''DUPLICATE_REQUIRED_GATE_ID''] else [])
            @ (if required_gate_ids = [] then [''MISSING_REQUIRED_GATE_REGISTRY''] else [])
            @ required_gate_reasons (fst gated) required_gate_ids
            @ map (\<lambda>path. ''UNRESOLVED:'' @ path) (sorted_list_of_set (set unresolved_blockers))
      in \<lparr>decision_policy = policy, promoted = (if reasons = [] then GO else NO_GO),
          criterion_decisions = decisions, gate_statuses = fst gated, decision_reasons = reasons\<rparr>)"

definition is_blocked :: "json \<Rightarrow> bool" where
  "is_blocked d = (case d of
     JObject kvs \<Rightarrow> map_of kvs ''status'' = Some (JString ''UNRESOLVED_BLOCKER'') | _ \<Rightarrow> False)"

lemma size_member [simp]:
  "kv \<in> set kvs \<Longrightarrow> size (snd kv) < Suc (size_list (size_prod (\<lambda>_. 0) size) kvs)"
  "iv \<in> set (enumerate n xs) \<Longrightarrow> size (snd iv) < Suc (size_list size xs)"
  by (induction kvs) (auto, (induction xs arbitrary: n; fastforce))

function find_unresolved_blockers :: "json \<Rightarrow> string \<Rightarrow> string list" where
  "find_unresolved_blockers d path = (case d of
     JObject kvs \<Rightarrow> (if is_blocked d then [path] else [])
       @ concat (map (\<lambda>kv. find_unresolved_blockers (snd kv) (path @ ''.'' @ fst kv)) (sort_key fst kvs))
   | JList xs \<Rightarrow>
       concat (map (\<lambda>iv. find_unresolved_blockers (snd iv) (path @ ''['' @ nat_text (fst iv) @ '']'')) (enumerate 0 xs))
   | _ \<Rightarrow> [])"
  by pat_completeness auto
termination
  by (relation "measure (\<lambda>(d, _). size d)") auto

declare find_unresolved_blockers.simps [simp del]

definition validate_post_unblinding_revision :: "policy_version \<Rightarrow> policy_version \<Rightarrow> unit res" where
  "validate_post_unblinding_revision previous candidate = (case validation_outputs_opened_at previous of
     None \<Rightarrow> Inl (ValueError ''previous policy has not been unblinded'')
   | Some opened \<Rightarrow>
       if version candidate \<le> version previous
       then Inl (ValueError ''post-unblinding revision requires a strictly newer version'')
       else if trial_id candidate = trial_id previous
       then Inl (ValueError ''post-unblinding revision requires a new trial_id'')
       else if artifact_sha256 candidate = artifact_sha256 previous
       then Inl (ValueError ''post-unblinding revision requires a new artifact hash'')
       else if registered_at candidate \<le> opened
       then Inl (ValueError ''new trial must be registered after the prior trial was unblinded'')
       else Inr ())"

section \<open>Abort and resume\<close>

record abort_observation =
  rule_id :: string
  observed_rule :: abort_observation_status
  rule_evidence_sha256 :: "string option"

definition mk_abort_observation :: "string \<Rightarrow> string \<Rightarrow> string option \<Rightarrow> abort_observation res" where
  "mk_abort_observation rid st ev =
     rbind (required_text rid ''rule_id'') (\<lambda>r.
     rbind (abort_observation_status_of st) (\<lambda>s.
     rbind (optional (\<lambda>t. required_sha256 t ''evidence_sha256'') ev) (\<lambda>e.
       Inr \<lparr>rule_id = r, observed_rule = s, rule_evidence_sha256 = e\<rparr>)))"

record abort_state =
  policy_number :: int
  policy_status :: policy_abort_status
  restart_authority_id :: "string option"
  abort_reasons :: "string list"
  resume_approval_sha256 :: "string option"

definition mk_abort_state ::
  "int \<Rightarrow> policy_abort_status \<Rightarrow> string option \<Rightarrow> string list \<Rightarrow> string option \<Rightarrow> abort_state res" where
  "mk_abort_state number st authority reasons approval =
     (if number < 1 then Inl (ValueError ''abort policy_version must be positive'')
      else rbind (optional (\<lambda>t. required_text t ''restart_authority_id'') authority) (\<lambda>a.
           rbind (optional (\<lambda>t. required_sha256 t ''resume_approval_sha256'') approval) (\<lambda>h.
             Inr \<lparr>policy_number = number, policy_status = st, restart_authority_id = a,
                  abort_reasons = reasons, resume_approval_sha256 = h\<rparr>)))"

definition add_abort_observation ::
  "string list \<Rightarrow> (string, abort_observation) dict \<times> string list \<Rightarrow> abort_observation \<Rightarrow>
    (string, abort_observation) dict \<times> string list" where
  "add_abort_observation registered mr ob =
     (dict_set (fst mr) (rule_id ob) ob,
      snd mr @ (if dict_get (fst mr) (rule_id ob) \<noteq> None then [''DUPLICATE_ABORT_RULE:'' @ rule_id ob] else [])
        @ (if rule_id ob \<notin> set registered then [''UNKNOWN_ABORT_RULE:'' @ rule_id ob] else []))"

definition rule_reasons :: "(string, abort_observation) dict \<Rightarrow> string list \<Rightarrow> string list" where
  "rule_reasons m ids = concat (map (\<lambda>i. case dict_get m i of
       None \<Rightarrow> [''MISSING_ABORT_OBSERVATION:'' @ i]
     | Some ob \<Rightarrow>
         if observed_rule ob \<noteq> Clear
         then [''ABORT_RULE_NOT_CLEAR:'' @ i @ '':'' @ abort_observation_status_text (observed_rule ob)]
         else if rule_evidence_sha256 ob = None then [''MISSING_ABORT_EVIDENCE:'' @ i] else []) ids)"

definition abort_reasons_of :: "abort_state \<Rightarrow> abort_observation list \<Rightarrow> string list option \<Rightarrow> string list" where
  "abort_reasons_of current obs required =
     (let ids = (case required of None \<Rightarrow> [] | Some xs \<Rightarrow> xs);
          start = (if restart_authority_id current = None then [''UNRESOLVED_RESTART_AUTHORITY''] else [])
            @ (if ids = [] then [''UNRESOLVED_ABORT_RULES''] else [])
            @ (if required \<noteq> None \<and> length ids \<noteq> card (set ids) then [''DUPLICATE_REQUIRED_ABORT_RULE''] else []);
          seen = foldl (add_abort_observation ids) ([], start) obs
      in snd seen @ rule_reasons (fst seen) ids)"

definition evaluate_abort :: "abort_state \<Rightarrow> abort_observation list \<Rightarrow> string list option \<Rightarrow> abort_state res" where
  "evaluate_abort current obs required =
     (if policy_status current = Aborted then Inr current
      else let reasons = abort_reasons_of current obs required
           in if reasons \<noteq> []
              then mk_abort_state (policy_number current) Aborted (restart_authority_id current) reasons None
              else mk_abort_state (policy_number current) Armed (restart_authority_id current) [] None)"

record resume_approval =
  authority_id :: string
  approved_version :: int
  approved_at :: int
  approval_sha256 :: string

definition mk_resume_approval :: "string \<Rightarrow> int \<Rightarrow> pydatetime \<Rightarrow> string \<Rightarrow> resume_approval res" where
  "mk_resume_approval authority number approved approval =
     rbind (required_text authority ''authority_id'') (\<lambda>a.
       if number < 1 then Inl (ValueError ''resume policy_version must be positive'')
       else rbind (aware_datetime approved ''approved_at'') (\<lambda>t.
            rbind (required_sha256 approval ''approval_sha256'') (\<lambda>h.
              Inr \<lparr>authority_id = a, approved_version = number, approved_at = t, approval_sha256 = h\<rparr>)))"

definition resume_after_abort :: "abort_state \<Rightarrow> resume_approval \<Rightarrow> abort_state res" where
  "resume_after_abort state approval =
     (if policy_status state \<noteq> Aborted then Inl (ValueError ''only an ABORTED state can be resumed'')
      else case restart_authority_id state of
        None \<Rightarrow> Inl (ValueError ''restart authority is unresolved'')
      | Some a \<Rightarrow>
          if authority_id approval \<noteq> a
          then Inl (Raised ''PermissionError'' ''resume approval is not from the registered restart authority'')
          else if approved_version approval \<noteq> policy_number state
          then Inl (ValueError ''resume approval policy version does not match abort state'')
          else mk_abort_state (policy_number state) Armed (restart_authority_id state) []
                 (Some (approval_sha256 approval)))"

end
