(* ===== verification/Promotion_Rules.thy ===== *)
theory Promotion_Rules
  imports Promotion
begin

text \<open>
  When a criterion passes, when a promotion is granted and when an abort state stays armed, each as an
  equivalence over the inputs; who can rearm an aborted policy; and which fields of a
  mandate document count as unresolved.
\<close>


section \<open>Criteria\<close>

definition effect_met :: "non_inferiority_criterion \<Rightarrow> rat \<Rightarrow> rat \<Rightarrow> bool" where
  "effect_met c delta bound \<longleftrightarrow> (case effect_rule c of
     None \<Rightarrow> True
   | Some rule \<Rightarrow> economic_effect_units c = metric_units c \<and> (case economic_effect_threshold c of
        None \<Rightarrow> True
      | Some t \<Rightarrow> (case rule of ORIENTED_POINT_ESTIMATE_GTE \<Rightarrow> t \<le> delta | ORIENTED_CONFIDENCE_BOUND_STRICT_GT \<Rightarrow> t < bound)))"

lemma effect_failure_None: "effect_failure c delta bound = None \<longleftrightarrow> effect_met c delta bound"
  by (auto simp: effect_failure_def effect_met_def split: option.splits economic_effect_rule.splits)

lemma decide_simps [simp]: "decided_status (decide i s d b t r) = s" "decided_id (decide i s d b t r) = i"
  by (simp_all add: decide_def)

lemma judge_criterion_pass:
  "decided_status (judge_criterion c s b l u m) = CriterionPass \<longleftrightarrow>
    metric_units c = noninferiority_margin_units c \<and> l \<le> dec 50 (s - b) \<and> dec 50 (s - b) \<le> u \<and>
    (case crit_direction c of
       HIGHER_IS_BETTER \<Rightarrow> dec 50 (- m) < l \<and> effect_met c (dec 50 (s - b)) l
     | LOWER_IS_BETTER \<Rightarrow> dec 50 (- m) < dec 50 (- u) \<and> effect_met c (dec 50 (- dec 50 (s - b))) (dec 50 (- u)))"
  by (auto simp: judge_criterion_def DECISION_PRECISION_def Let_def effect_failure_None [symmetric]
    split: direction.splits option.splits if_splits)

lemma dec_fixed_minus: "dec p x = x \<Longrightarrow> dec p (- x) = - x"
  by (simp add: dec_def sig_round_minus)

lemma dec_idem: "dec 50 (dec 50 x) = dec 50 x"
  by (rule rounding.rnd_rnd [OF rounding_dec]) simp

section \<open>Gates\<close>

lemma add_gate_reasons:
  "\<exists>rs. snd (foldl add_gate (m, r) gates) = r @ rs \<and>
     (rs = [] \<longleftrightarrow> distinct (map gate_id gates) \<and> (\<forall>g \<in> set gates. map_of m (gate_id g) = None \<and>
        (observed_gate g = GatePass \<longrightarrow> gate_evidence_sha256 g \<noteq> None)))"
proof (induction gates arbitrary: m r)
  case (Cons g gates)
  show ?case
  proof (cases "map_of m (gate_id g)")
    case (Some s)
    from Cons [of m "r @ [''DUPLICATE_GATE:'' @ gate_id g]"] Some show ?thesis by (fastforce simp: add_gate_def)
  next
    case None
    let ?m = "AList.update (gate_id g) (observed_gate g) m"
    let ?e = "if observed_gate g = GatePass \<and> gate_evidence_sha256 g = None then [''GATE_MISSING_EVIDENCE:'' @ gate_id g] else []"
    have step: "add_gate (m, r) g = (?m, r @ ?e)" using None by (simp add: add_gate_def)
    obtain rs where rs: "snd (foldl add_gate (?m, r @ ?e) gates) = (r @ ?e) @ rs"
      "rs = [] \<longleftrightarrow> distinct (map gate_id gates) \<and> (\<forall>h \<in> set gates. map_of ?m (gate_id h) = None \<and>
        (observed_gate h = GatePass \<longrightarrow> gate_evidence_sha256 h \<noteq> None))"
      using Cons [of ?m "r @ ?e"] by blast
    have "?e @ rs = [] \<longleftrightarrow> distinct (map gate_id (g # gates)) \<and> (\<forall>h \<in> set (g # gates). map_of m (gate_id h) = None \<and>
        (observed_gate h = GatePass \<longrightarrow> gate_evidence_sha256 h \<noteq> None))"
      using rs(2) None by (auto simp: update_conv' image_iff split: if_splits)
    with rs(1) show ?thesis by (intro exI [of _ "?e @ rs"]) (simp add: step)
  qed
qed simp

lemma update_fresh: "map_of m k = None \<Longrightarrow> AList.update k v m = m @ [(k, v)]"
  by (induction m) (auto split: if_splits)

lemma add_gate_map:
  "distinct (map gate_id gates) \<Longrightarrow> \<forall>g \<in> set gates. map_of m (gate_id g) = None \<Longrightarrow>
    fst (foldl add_gate (m, r) gates) = m @ map (\<lambda>g. (gate_id g, observed_gate g)) gates"
proof (induction gates arbitrary: m r)
  case (Cons g gates)
  then have "\<forall>h \<in> set gates. map_of (m @ [(gate_id g, observed_gate g)]) (gate_id h) = None"
    by (auto simp: map_add_def image_iff)
  moreover obtain r' where "add_gate (m, r) g = (m @ [(gate_id g, observed_gate g)], r')"
    using Cons.prems by (simp add: add_gate_def update_fresh)
  ultimately show ?case using Cons.IH [of "m @ [(gate_id g, observed_gate g)]" r'] Cons.prems by simp
qed simp

lemma concat_map_Nil: "concat (map f xs) = [] \<longleftrightarrow> (\<forall>x \<in> set xs. f x = [])"
  by auto

lemma criterion_reasons_Nil:
  "criterion_reasons (map evaluate_non_inferiority cs) = [] \<longleftrightarrow>
    (\<forall>c \<in> set cs. decided_status (evaluate_non_inferiority c) = CriterionPass)"
  unfolding criterion_reasons_def concat_map_Nil by auto

lemma required_gate_reasons_Nil:
  "required_gate_reasons m ids = [] \<longleftrightarrow> (\<forall>i \<in> set ids. map_of m i = Some GatePass)"
  unfolding required_gate_reasons_def concat_map_Nil by (force split: option.splits)

lemma sorted_set_Nil: "sorted_list_of_set (set xs) = [] \<longleftrightarrow> xs = []"
  by simp

lemma gate_lookup:
  assumes "distinct (map gate_id gates)"
  shows "map_of (map (\<lambda>g. (gate_id g, observed_gate g)) gates) i = Some s \<longleftrightarrow>
    (\<exists>g \<in> set gates. gate_id g = i \<and> observed_gate g = s)"
proof -
  have "distinct (map fst (map (\<lambda>g. (gate_id g, observed_gate g)) gates))" using assms by (simp add: comp_def)
  from map_of_eq_Some_iff [OF this, of i s] show ?thesis by auto
qed

section \<open>Unresolved fields of a document\<close>

datatype segment = Key string | Index nat

fun path_text :: "string \<Rightarrow> segment list \<Rightarrow> string" where
  "path_text p [] = p"
| "path_text p (Key k # ss) = path_text (p @ ''.'' @ k) ss"
| "path_text p (Index i # ss) = path_text (p @ ''['' @ nat_text i @ '']'') ss"

inductive located :: "json \<Rightarrow> segment list \<Rightarrow> json \<Rightarrow> bool" where
  here: "located d [] d"
| member: "(k, v) \<in> set kvs \<Longrightarrow> located v ss x \<Longrightarrow> located (JObject kvs) (Key k # ss) x"
| element: "i < length xs \<Longrightarrow> located (xs ! i) ss x \<Longrightarrow> located (JList xs) (Index i # ss) x"

inductive_cases located_NilE: "located d [] x"
inductive_cases located_KeyE: "located d (Key k # ss) x"
inductive_cases located_IndexE: "located d (Index i # ss) x"
inductive_simps located_object: "located (JObject kvs) ss x"
inductive_simps located_list: "located (JList xs) ss x"

lemma found_located: "located d ss x \<Longrightarrow> is_blocked x \<Longrightarrow> path_text p ss \<in> set (find_unresolved_blockers d p)"
proof (induction d ss x arbitrary: p rule: located.induct)
  case (here d)
  then show ?case by (cases d) (auto simp: is_blocked_def find_unresolved_blockers.simps)
next
  case (member k v kvs ss x)
  from member.IH [OF member.prems, of "p @ ''.'' @ k"] member.hyps(1) show ?case
    by (force simp: find_unresolved_blockers.simps [of "JObject kvs"])
next
  case (element i xs ss x)
  have "(i, xs ! i) \<in> set (enumerate 0 xs)" using element.hyps(1) by (simp add: in_set_enumerate_eq)
  with element.IH [OF element.prems, of "p @ ''['' @ nat_text i @ '']''"] show ?case
    by (force simp: find_unresolved_blockers.simps [of "JList xs"])
qed

lemma located_found:
  "q \<in> set (find_unresolved_blockers d p) \<Longrightarrow> \<exists>ss x. located d ss x \<and> is_blocked x \<and> q = path_text p ss"
proof (induction d p arbitrary: q rule: find_unresolved_blockers.induct)
  case (1 d p)
  show ?case
  proof (cases d)
    case (JObject kvs)
    show ?thesis
    proof (cases "is_blocked d \<and> q = p")
      case True
      then show ?thesis by (intro exI [of _ "[]"] exI [of _ d]) (simp add: located.here)
    next
      case False
      with "1.prems" JObject obtain kv where kv: "kv \<in> set kvs" "q \<in> set (find_unresolved_blockers (snd kv) (p @ ''.'' @ fst kv))"
        by (auto simp: find_unresolved_blockers.simps [of "JObject kvs"] split: if_splits)
      then obtain ss x where "located (snd kv) ss x" "is_blocked x" "q = path_text (p @ ''.'' @ fst kv) ss"
        using "1.IH"(2) [OF JObject, of kv q] by auto
      with kv(1) JObject show ?thesis
        by (intro exI [of _ "Key (fst kv) # ss"] exI [of _ x]) (simp add: located.member [of "fst kv" "snd kv"])
    qed
  next
    case (JList xs)
    with "1.prems" obtain iv where iv: "iv \<in> set (enumerate 0 xs)"
      "q \<in> set (find_unresolved_blockers (snd iv) (p @ ''['' @ nat_text (fst iv) @ '']''))"
      by (auto simp: find_unresolved_blockers.simps [of "JList xs"])
    then obtain ss x where "located (snd iv) ss x" "is_blocked x" "q = path_text (p @ ''['' @ nat_text (fst iv) @ '']'') ss"
      using "1.IH"(1) [OF JList, of iv q] by auto
    moreover have "fst iv < length xs" "snd iv = xs ! fst iv" using iv(1) by (auto simp: in_set_enumerate_eq)
    ultimately show ?thesis using JList
      by (intro exI [of _ "Index (fst iv) # ss"] exI [of _ x]) (auto intro: located.element)
  qed (use "1.prems" in \<open>simp_all add: find_unresolved_blockers.simps\<close>)
qed


section \<open>Abort states\<close>

definition abort_state_ok :: "abort_state \<Rightarrow> bool" where
  "abort_state_ok s \<longleftrightarrow> 1 \<le> policy_number s \<and> (\<forall>a. restart_authority_id s = Some a \<longrightarrow> strip a = a \<and> a \<noteq> [])"

lemma mk_abort_state_ok:
  assumes "abort_state_ok s"
  shows "mk_abort_state (policy_number s) st (restart_authority_id s) rs None =
    Inr \<lparr>policy_number = policy_number s, policy_status = st, restart_authority_id = restart_authority_id s,
      abort_reasons = rs, resume_approval_sha256 = None\<rparr>"
  using assms
  by (cases "restart_authority_id s") (auto simp: mk_abort_state_def abort_state_ok_def optional_def required_text_def)

lemma abort_observation_reasons:
  "\<exists>rs. snd (foldl (add_abort_observation ids) (m, r) obs) = r @ rs \<and>
     (rs = [] \<longleftrightarrow> distinct (map rule_id obs) \<and> (\<forall>ob \<in> set obs. map_of m (rule_id ob) = None \<and> rule_id ob \<in> set ids))"
proof (induction obs arbitrary: m r)
  case (Cons ob obs)
  let ?m = "AList.update (rule_id ob) ob m"
  let ?e = "(if map_of m (rule_id ob) \<noteq> None then [''DUPLICATE_ABORT_RULE:'' @ rule_id ob] else [])
        @ (if rule_id ob \<notin> set ids then [''UNKNOWN_ABORT_RULE:'' @ rule_id ob] else [])"
  have step: "add_abort_observation ids (m, r) ob = (?m, r @ ?e)" by (simp add: add_abort_observation_def)
  obtain rs where rs: "snd (foldl (add_abort_observation ids) (?m, r @ ?e) obs) = (r @ ?e) @ rs"
    "rs = [] \<longleftrightarrow> distinct (map rule_id obs) \<and> (\<forall>x \<in> set obs. map_of ?m (rule_id x) = None \<and> rule_id x \<in> set ids)"
    using Cons [of ?m "r @ ?e"] by blast
  have "?e @ rs = [] \<longleftrightarrow> distinct (map rule_id (ob # obs)) \<and>
      (\<forall>x \<in> set (ob # obs). map_of m (rule_id x) = None \<and> rule_id x \<in> set ids)"
    using rs(2) by (auto simp: update_conv' image_iff split: if_splits)
  with rs(1) show ?case by (intro exI [of _ "?e @ rs"]) (simp add: step)
qed simp

lemma abort_observation_map:
  "distinct (map rule_id obs) \<Longrightarrow> \<forall>ob \<in> set obs. map_of m (rule_id ob) = None \<Longrightarrow>
    fst (foldl (add_abort_observation ids) (m, r) obs) = m @ map (\<lambda>ob. (rule_id ob, ob)) obs"
proof (induction obs arbitrary: m r)
  case (Cons ob obs)
  then have "\<forall>x \<in> set obs. map_of (m @ [(rule_id ob, ob)]) (rule_id x) = None"
    by (auto simp: map_add_def image_iff)
  moreover obtain r' where "add_abort_observation ids (m, r) ob = (m @ [(rule_id ob, ob)], r')"
    using Cons.prems by (simp add: add_abort_observation_def update_fresh)
  ultimately show ?case using Cons.IH [of "m @ [(rule_id ob, ob)]" r'] Cons.prems by simp
qed simp

lemma rule_reasons_Nil:
  "rule_reasons m ids = [] \<longleftrightarrow> (\<forall>i \<in> set ids. \<exists>ob. map_of m i = Some ob \<and> observed_rule ob = Clear \<and> rule_evidence_sha256 ob \<noteq> None)"
  unfolding rule_reasons_def concat_map_Nil by (rule ball_cong) (auto split: option.splits if_splits)

lemma observation_lookup:
  assumes "distinct (map rule_id obs)"
  shows "map_of (map (\<lambda>ob. (rule_id ob, ob)) obs) i = Some ob \<longleftrightarrow> ob \<in> set obs \<and> rule_id ob = i"
proof -
  have "distinct (map fst (map (\<lambda>ob. (rule_id ob, ob)) obs))" using assms by (simp add: comp_def)
  from map_of_eq_Some_iff [OF this, of i ob] show ?thesis by auto
qed

lemma cleared_rules:
  assumes "distinct (map rule_id obs)"
  shows "rule_reasons (map (\<lambda>ob. (rule_id ob, ob)) obs) ids = [] \<longleftrightarrow>
    (\<forall>i \<in> set ids. \<exists>ob \<in> set obs. rule_id ob = i \<and> observed_rule ob = Clear \<and> rule_evidence_sha256 ob \<noteq> None)"
  unfolding rule_reasons_Nil observation_lookup [OF assms] by blast

datatype abort_op = Observe "abort_observation list" "string list option" | Resume resume_approval

fun abort_op_step :: "abort_state \<Rightarrow> abort_op \<Rightarrow> abort_state res" where
  "abort_op_step s (Observe obs required) = evaluate_abort s obs required"
| "abort_op_step s (Resume approval) = resume_after_abort s approval"

lemma resume_InrD:
  "resume_after_abort s ap = Inr s' \<Longrightarrow> restart_authority_id s = Some (authority_id ap) \<and> approved_version ap = policy_number s"
  by (auto simp: resume_after_abort_def split: if_splits option.splits)

lemma rearmed_by_resume:
  "fold_res abort_op_step s ops = Inr s' \<Longrightarrow> policy_status s = Aborted \<Longrightarrow> policy_status s' = Armed \<Longrightarrow>
    \<exists>ap. Resume ap \<in> set ops \<and> restart_authority_id s = Some (authority_id ap) \<and> approved_version ap = policy_number s"
proof (induction ops)
  case (Cons op ops)
  show ?case
  proof (cases op)
    case (Observe obs required)
    with Cons show ?thesis by (auto simp: evaluate_abort_def)
  next
    case (Resume ap)
    with Cons.prems show ?thesis using resume_InrD [of s ap] by auto
  qed
qed simp


section \<open>Properties\<close>

definition ex_hash_text :: string where "ex_hash_text = replicate 64 (CHR ''a'')"

definition ex_criterion :: non_inferiority_criterion where
  "ex_criterion = \<lparr>criterion_id = ''sharpe'', crit_direction = LOWER_IS_BETTER, strategy_metric = Some 1,
     benchmark_metric = Some 2, raw_delta_lower_bound = Some (- 2), raw_delta_upper_bound = Some 0,
     noninferiority_margin = Some 1, crit_evidence_sha256 = Some ex_hash_text, metric_units = Some ''bps'',
     noninferiority_margin_units = Some ''bps'', economic_effect_threshold = None, economic_effect_units = None, effect_rule = None\<rparr>"

lemma ex_dec50: "dec 50 0 = 0" "dec 50 1 = 1" "dec 50 2 = 2" "dec 50 (- 1) = - 1" "dec 50 (- 2) = - 2"
  using dec_of_int [of 0 50] dec_of_int [of 1 50] dec_of_int [of 2 50] dec_of_int [of "-1" 50] dec_of_int [of "-2" 50] by simp_all

lemma ex_criterion_pass: "decided_status (evaluate_non_inferiority ex_criterion) = CriterionPass"
  by (simp add: evaluate_non_inferiority_def ex_criterion_def judge_criterion_pass ex_dec50 effect_met_def)

definition ex_promotion_policy :: policy_version where
  "ex_promotion_policy = \<lparr>trial_id = ''T1'', version = 1, artifact_sha256 = ex_hash_text, registered_at = 0,
     validation_outputs_opened_at = Some 1\<rparr>"

text \<open>
  a criterion passes exactly when its evidence is complete, the units agree, the rounded
  difference lies between its bounds, the bound on the unfavourable side is strictly within the
  margin, and the economic rule is met. The bounds and the margin have at most 50 digits.
\<close>

theorem criterion_pass_iff:
  assumes "strategy_metric c = Some s" "benchmark_metric c = Some b" "raw_delta_lower_bound c = Some l"
    "raw_delta_upper_bound c = Some u" "noninferiority_margin c = Some m"
    and "dec 50 l = l" "dec 50 u = u" "dec 50 m = m"
  shows "decided_status (evaluate_non_inferiority c) = CriterionPass \<longleftrightarrow>
    crit_evidence_sha256 c \<noteq> None \<and> metric_units c \<noteq> None \<and> metric_units c = noninferiority_margin_units c
    \<and> l \<le> dec 50 (s - b) \<and> dec 50 (s - b) \<le> u
    \<and> (case crit_direction c of
         HIGHER_IS_BETTER \<Rightarrow> - m < l \<and> effect_met c (dec 50 (s - b)) l
       | LOWER_IS_BETTER \<Rightarrow> u < m \<and> effect_met c (- dec 50 (s - b)) (- u))"
  using assms
  by (auto simp: evaluate_non_inferiority_def judge_criterion_pass dec_fixed_minus dec_idem
    split: option.splits direction.splits)

theorem criterion_pass_iff_witness:
  "decided_status (evaluate_non_inferiority ex_criterion) = CriterionPass"
  by (subst criterion_pass_iff [of ex_criterion 1 2 "- 2" 0 1])
    (simp_all add: ex_criterion_def ex_dec50 effect_met_def)

text \<open>
  C32: promotion is granted exactly when nothing is missing: the outputs were opened, there is a
  criterion and all pass, no gate is observed twice or passes without evidence, the required
  gates are registered once each and all observed as passed, and no field is unresolved.
\<close>

theorem promotion_go_iff:
  "promoted (evaluate_promotion policy criteria gates required blockers) = GO \<longleftrightarrow>
    validation_outputs_opened_at policy \<noteq> None \<and> criteria \<noteq> []
    \<and> (\<forall>c \<in> set criteria. decided_status (evaluate_non_inferiority c) = CriterionPass)
    \<and> distinct (map gate_id gates) \<and> (\<forall>g \<in> set gates. observed_gate g = GatePass \<longrightarrow> gate_evidence_sha256 g \<noteq> None)
    \<and> required \<noteq> [] \<and> distinct required
    \<and> (\<forall>i \<in> set required. \<exists>g \<in> set gates. gate_id g = i \<and> observed_gate g = GatePass)
    \<and> blockers = []"
proof -
  define st where "st = (if validation_outputs_opened_at policy = None then [''VALIDATION_OUTPUTS_NOT_OPENED''] else [])
     @ (if map evaluate_non_inferiority criteria = [] then [''MISSING_REQUIRED_NON_INFERIORITY_CRITERIA''] else [])
     @ criterion_reasons (map evaluate_non_inferiority criteria)"
  obtain rs where rs: "snd (foldl add_gate ([], st) gates) = st @ rs"
    "rs = [] \<longleftrightarrow> distinct (map gate_id gates) \<and> (\<forall>g \<in> set gates. observed_gate g = GatePass \<longrightarrow> gate_evidence_sha256 g \<noteq> None)"
    using add_gate_reasons [of "[]" st gates] by auto
  have gates: "required_gate_reasons (fst (foldl add_gate ([], st) gates)) required = [] \<longleftrightarrow>
      (\<forall>i \<in> set required. \<exists>g \<in> set gates. gate_id g = i \<and> observed_gate g = GatePass)" if "rs = []"
    using that rs(2) add_gate_map [of gates "[]" st] by (simp add: required_gate_reasons_Nil gate_lookup)
  have start: "st = [] \<longleftrightarrow> validation_outputs_opened_at policy \<noteq> None \<and> criteria \<noteq> []
      \<and> (\<forall>c \<in> set criteria. decided_status (evaluate_non_inferiority c) = CriterionPass)"
    by (simp add: st_def criterion_reasons_Nil)
  have once: "length required = card (set required) \<longleftrightarrow> distinct required" by (metis card_distinct distinct_card)
  have "promoted (evaluate_promotion policy criteria gates required blockers) = GO \<longleftrightarrow>
      st = [] \<and> rs = [] \<and> length required = card (set required) \<and> required \<noteq> []
      \<and> required_gate_reasons (fst (foldl add_gate ([], st) gates)) required = [] \<and> blockers = []"
    unfolding evaluate_promotion_def Let_def st_def [symmetric] rs(1) by auto
  also have "\<dots> \<longleftrightarrow> st = [] \<and> rs = [] \<and> distinct required \<and> required \<noteq> []
      \<and> (\<forall>i \<in> set required. \<exists>g \<in> set gates. gate_id g = i \<and> observed_gate g = GatePass) \<and> blockers = []"
    unfolding once using gates by blast
  finally show ?thesis unfolding start rs(2) by blast
qed

theorem promotion_go_iff_witness:
  "promoted (evaluate_promotion ex_promotion_policy [ex_criterion]
     [\<lparr>gate_id = ''data'', observed_gate = GatePass, gate_evidence_sha256 = Some ex_hash_text\<rparr>] [''data''] []) = GO"
  unfolding promotion_go_iff by (simp add: ex_promotion_policy_def ex_criterion_pass)

text \<open>
  an armed state stays armed exactly when a restart authority is named, the rules are registered
  once each, every observation is of a registered rule and none is repeated, and each
  rule is observed clear with evidence; otherwise the state returned is aborted.
\<close>

theorem abort_cleared_iff:
  assumes "abort_state_ok s" "policy_status s = Armed"
  shows "\<exists>s'. evaluate_abort s obs required = Inr s' \<and> abort_state_ok s' \<and> (policy_status s' = Armed \<longleftrightarrow>
    restart_authority_id s \<noteq> None \<and> (\<exists>ids. required = Some ids \<and> ids \<noteq> [] \<and> distinct ids
      \<and> distinct (map rule_id obs) \<and> (\<forall>ob \<in> set obs. rule_id ob \<in> set ids)
      \<and> (\<forall>i \<in> set ids. \<exists>ob \<in> set obs. rule_id ob = i \<and> observed_rule ob = Clear \<and> rule_evidence_sha256 ob \<noteq> None)))"
proof -
  let ?ids = "case required of None \<Rightarrow> [] | Some xs \<Rightarrow> xs"
  define st where "st = (if restart_authority_id s = None then [''UNRESOLVED_RESTART_AUTHORITY''] else [])
     @ (if ?ids = [] then [''UNRESOLVED_ABORT_RULES''] else [])
     @ (if required \<noteq> None \<and> length ?ids \<noteq> card (set ?ids) then [''DUPLICATE_REQUIRED_ABORT_RULE''] else [])"
  obtain rs where rs: "snd (foldl (add_abort_observation ?ids) ([], st) obs) = st @ rs"
    "rs = [] \<longleftrightarrow> distinct (map rule_id obs) \<and> (\<forall>ob \<in> set obs. rule_id ob \<in> set ?ids)"
    using abort_observation_reasons [of ?ids "[]" st obs] by auto
  have rules: "rule_reasons (fst (foldl (add_abort_observation ?ids) ([], st) obs)) ?ids = [] \<longleftrightarrow>
      (\<forall>i \<in> set ?ids. \<exists>ob \<in> set obs. rule_id ob = i \<and> observed_rule ob = Clear \<and> rule_evidence_sha256 ob \<noteq> None)" if "rs = []"
  proof -
    have "fst (foldl (add_abort_observation ?ids) ([], st) obs) = map (\<lambda>ob. (rule_id ob, ob)) obs" "distinct (map rule_id obs)"
      using that rs(2) abort_observation_map [of obs "[]" ?ids st] by simp_all
    then show ?thesis by (simp only: cleared_rules)
  qed
  have start: "st = [] \<longleftrightarrow> restart_authority_id s \<noteq> None \<and> (\<exists>ids. required = Some ids \<and> ids \<noteq> [] \<and> distinct ids)"
    unfolding st_def by (cases required) (auto dest: card_distinct [OF sym] distinct_card)
  have "abort_reasons_of s obs required = [] \<longleftrightarrow>
      st = [] \<and> rs = [] \<and> rule_reasons (fst (foldl (add_abort_observation ?ids) ([], st) obs)) ?ids = []"
    unfolding abort_reasons_of_def Let_def st_def [symmetric] rs(1) by auto
  also have "\<dots> \<longleftrightarrow> st = [] \<and> rs = [] \<and>
      (\<forall>i \<in> set ?ids. \<exists>ob \<in> set obs. rule_id ob = i \<and> observed_rule ob = Clear \<and> rule_evidence_sha256 ob \<noteq> None)"
    using rules by blast
  also have "\<dots> \<longleftrightarrow> restart_authority_id s \<noteq> None \<and> (\<exists>ids. required = Some ids \<and> ids \<noteq> [] \<and> distinct ids
      \<and> distinct (map rule_id obs) \<and> (\<forall>ob \<in> set obs. rule_id ob \<in> set ids)
      \<and> (\<forall>i \<in> set ids. \<exists>ob \<in> set obs. rule_id ob = i \<and> observed_rule ob = Clear \<and> rule_evidence_sha256 ob \<noteq> None))"
    unfolding start rs(2) by (cases required) simp_all
  finally have cleared: "abort_reasons_of s obs required = [] \<longleftrightarrow> \<dots>" .
  show ?thesis
    unfolding cleared [symmetric] using assms mk_abort_state_ok [OF assms(1)]
    by (simp add: evaluate_abort_def Let_def abort_state_ok_def)
qed

definition ex_armed :: abort_state where
  "ex_armed = \<lparr>policy_number = 1, policy_status = Armed, restart_authority_id = Some ''owner'', abort_reasons = [],
     resume_approval_sha256 = None\<rparr>"

lemma ex_armed_ok: "abort_state_ok ex_armed"
  by (simp add: ex_armed_def abort_state_ok_def eval_simps)

theorem abort_cleared_iff_witness:
  "\<exists>s'. evaluate_abort ex_armed [] (Some [''drawdown'']) = Inr s' \<and> policy_status s' = Aborted"
  using abort_cleared_iff [OF ex_armed_ok, of "[]" "Some [''drawdown'']"]
  by (auto simp: ex_armed_def) (metis policy_abort_status.exhaust)

text \<open>
  C33: an aborted policy is rearmed only by its authority. Over every sequence of evaluations and
  resumes, leaving the aborted state needs an approval of the registered restart authority for the version of the state.
\<close>

theorem resume_needs_authority:
  assumes "fold_res abort_op_step s ops = Inr s'" "policy_status s = Aborted" "policy_status s' = Armed"
  shows "\<exists>ap. Resume ap \<in> set ops \<and> restart_authority_id s = Some (authority_id ap) \<and> approved_version ap = policy_number s"
  by (rule rearmed_by_resume [OF assms])

definition ex_approval :: resume_approval where
  "ex_approval = \<lparr>authority_id = ''owner'', approved_version = 1, approved_at = 5, approval_sha256 = ex_hash_text\<rparr>"

theorem resume_needs_authority_witness:
  "\<exists>ap. Resume ap \<in> set [Observe [] None, Resume ex_approval] \<and>
    restart_authority_id (ex_armed\<lparr>policy_status := Aborted\<rparr>) = Some (authority_id ap)"
proof -
  have h: "required_sha256 ex_hash_text ''resume_approval_sha256'' = Inr ex_hash_text"
    by (simp add: ex_hash_text_def required_sha256_def required_text_def strip_def py_space_def Let_def dropWhile_replicate
      is_sha256_def is_hex_def is_digit_def to_lower_def less_eq_char_def list_all_iff)
  obtain s' where "fold_res abort_op_step (ex_armed\<lparr>policy_status := Aborted\<rparr>) [Observe [] None, Resume ex_approval] = Inr s'"
    "policy_status s' = Armed"
    by (simp add: evaluate_abort_def resume_after_abort_def ex_armed_def ex_approval_def mk_abort_state_def optional_def h
      required_text_def eval_simps)
  from resume_needs_authority [OF this(1) _ this(2)] show ?thesis by (auto simp: ex_armed_def)
qed

text \<open>
  the unresolved fields reported are exactly the places of the document whose object is marked
  as an unresolved blocker, each by the path that leads to it.
\<close>

theorem blockers_found_iff:
  "q \<in> set (find_unresolved_blockers d p) \<longleftrightarrow> (\<exists>ss x. located d ss x \<and> is_blocked x \<and> q = path_text p ss)"
  using found_located located_found by blast

end
