(* ===== verification/Fee_Schedule.thy ===== *)
theory Fee_Schedule
  imports Intervals
begin

text \<open>
  The dated regulatory-fee schedule \<open>qme/quant/regulatory_fee_schedule.py\<close>: the validation
  of a complete half-open schedule and the lookup of a trade date. Reading, hashing and parsing
  the packet files is not modelled: the lookup takes the configuration document as it was
  loaded. Dates are compared as dates, a triple of year, month and day.
\<close>

section \<open>Dates\<close>

type_synonym date = "int \<times> int \<times> int"

definition date_of :: "string \<Rightarrow> date" where
  "date_of s = (digits_value (take 4 s), digits_value (take 2 (drop 5 s)), digits_value (drop 8 s))"

fun padded :: "nat \<Rightarrow> int \<Rightarrow> string" where
  "padded 0 v = []"
| "padded (Suc n) v = padded n (v div 10) @ [char_of (48 + nat (v mod 10))]"

fun isoformat :: "date \<Rightarrow> string" where
  "isoformat (y, m, d) = padded 4 y @ ''-'' @ padded 2 m @ ''-'' @ padded 2 d"

definition EvidenceError :: "string \<Rightarrow> py_exc" where
  "EvidenceError m = Raised ''HistoricalScheduleEvidenceError'' m"

definition LookupError :: "string \<Rightarrow> py_exc" where
  "LookupError m = Raised ''HistoricalScheduleLookupError'' m"

definition parse_date :: "json \<Rightarrow> date res" where
  "parse_date value = (case value of
     JString s \<Rightarrow>
       if \<not> date_format s then Inl (EvidenceError ''INVALID_INTERVAL_DATE'')
       else if \<not> calendar_date s then Inl (EvidenceError ''INVALID_INTERVAL_DATE'')
       else if isoformat (date_of s) \<noteq> s then Inl (EvidenceError ''NONCANONICAL_INTERVAL_DATE'')
       else Inr (date_of s)
   | _ \<Rightarrow> Inl (EvidenceError ''INVALID_INTERVAL_DATE''))"

definition parse_effective_date :: "json \<Rightarrow> date res" where
  "parse_effective_date value = (case value of
     JString s \<Rightarrow>
       if \<not> date_format s then Inl (LookupError ''INVALID_EFFECTIVE_DATE'')
       else if \<not> calendar_date s then Inl (LookupError ''INVALID_EFFECTIVE_DATE'')
       else if isoformat (date_of s) \<noteq> s then Inl (LookupError ''INVALID_EFFECTIVE_DATE'')
       else Inr (date_of s)
   | _ \<Rightarrow> Inl (LookupError ''INVALID_EFFECTIVE_DATE''))"

definition SCHEDULE_START :: date where "SCHEDULE_START = (2010, 1, 4)"
definition SCHEDULE_END :: date where "SCHEDULE_END = (2026, 8, 14)"
definition SCHEDULE_TERMINAL :: date where "SCHEDULE_TERMINAL = (2026, 8, 15)"

section \<open>Validation of the rows\<close>

definition schedule_decimal :: "string \<Rightarrow> bool" where
  "schedule_decimal t =
     (let ip = takeWhile is_digit t; r = dropWhile is_digit t;
          fraction = (r \<noteq> [] \<and> hd r = CHR ''.'' \<and> tl r \<noteq> [] \<and> list_all is_digit (tl r))
      in if ip = [] then fraction
         else (ip = ''0'' \<or> hd ip \<noteq> CHR ''0'') \<and> (r = [] \<or> fraction))"

definition is_text :: "json \<Rightarrow> bool" where
  "is_text v = (case v of JString s \<Rightarrow> s \<noteq> [] | _ \<Rightarrow> False)"

definition is_decimal_text :: "json \<Rightarrow> bool" where
  "is_decimal_text v = (case v of JString s \<Rightarrow> schedule_decimal s | _ \<Rightarrow> False)"

definition source_ids_checked :: "json \<Rightarrow> string set option \<Rightarrow> unit res" where
  "source_ids_checked value valid = (case value of
     JList ids \<Rightarrow>
       if ids = [] \<or> \<not> list_all is_text ids then Inl (EvidenceError ''INVALID_SOURCE_IDS'')
       else if \<not> distinct ids then Inl (EvidenceError ''DUPLICATE_SOURCE_ID'')
       else (case valid of
          None \<Rightarrow> Inr ()
        | Some vs \<Rightarrow> if list_all (\<lambda>i. case i of JString s \<Rightarrow> s \<in> vs | _ \<Rightarrow> False) ids then Inr ()
            else Inl (EvidenceError ''UNREGISTERED_SOURCE_ID''))
   | _ \<Rightarrow> Inl (EvidenceError ''INVALID_SOURCE_IDS''))"

definition values_checked :: "json \<Rightarrow> string list \<Rightarrow> string list \<Rightarrow> unit res" where
  "values_checked row value_keys text_keys =
     (case first_match (\<lambda>k. \<not> is_decimal_text (json_get row k)) value_keys of
        Some k \<Rightarrow> Inl (EvidenceError (''INVALID_CANONICAL_DECIMAL:'' @ k))
      | None \<Rightarrow> (case first_match (\<lambda>k. \<not> is_text (json_get row k)) text_keys of
          Some k \<Rightarrow> Inl (EvidenceError (''INVALID_CANONICAL_TEXT:'' @ k))
        | None \<Rightarrow> Inr ()))"

record row_state =
  expected_start :: date
  seen_ids :: "string list"
  validated_rows :: "json list"

definition row_keys :: "string list \<Rightarrow> string list \<Rightarrow> string set" where
  "row_keys value_keys text_keys =
     set ([''interval_id'', ''start_inclusive'', ''end_exclusive'', ''source_ids''] @ value_keys @ text_keys)"

definition fresh_interval_id :: "json \<Rightarrow> string list \<Rightarrow> string option" where
  "fresh_interval_id value seen = (case value of
     JString s \<Rightarrow> if s = [] \<or> s \<in> set seen then None else Some s
   | _ \<Rightarrow> None)"

definition validate_row ::
  "date \<Rightarrow> string list \<Rightarrow> string list \<Rightarrow> string set option \<Rightarrow> row_state \<Rightarrow> json \<Rightarrow> row_state res" where
  "validate_row terminal value_keys text_keys valid st row = (case row of
     JObject kvs \<Rightarrow>
       if set (map fst kvs) \<noteq> row_keys value_keys text_keys then Inl (EvidenceError ''INTERVAL_ROW_KEYS_MISMATCH'')
       else (case fresh_interval_id (json_get row ''interval_id'') (seen_ids st) of
          None \<Rightarrow> Inl (EvidenceError ''INVALID_OR_DUPLICATE_INTERVAL_ID'')
        | Some i \<Rightarrow>
            rbind (parse_date (json_get row ''start_inclusive'')) (\<lambda>row_start.
            rbind (parse_date (json_get row ''end_exclusive'')) (\<lambda>row_end.
              if row_start \<noteq> expected_start st then Inl (EvidenceError ''SCHEDULE_GAP_OR_OVERLAP'')
              else if row_end \<le> row_start \<or> row_end > terminal then Inl (EvidenceError ''INVALID_INTERVAL_END'')
              else rbind (source_ids_checked (json_get row ''source_ids'') valid) (\<lambda>_.
                   rbind (values_checked row value_keys text_keys) (\<lambda>_.
                     Inr \<lparr>expected_start = row_end, seen_ids = i # seen_ids st,
                          validated_rows = validated_rows st @ [row]\<rparr>)))))
   | _ \<Rightarrow> Inl (EvidenceError ''INTERVAL_ROW_NOT_OBJECT''))"

definition validate_interval_rows ::
  "json \<Rightarrow> date \<Rightarrow> date \<Rightarrow> string list \<Rightarrow> string list \<Rightarrow> string set option \<Rightarrow> json list res" where
  "validate_interval_rows rows start terminal value_keys text_keys valid = (case rows of
     JList rs \<Rightarrow>
       if rs = [] then Inl (EvidenceError ''SCHEDULE_ROWS_MISSING'')
       else if value_keys = [] then Inl (EvidenceError ''INVALID_REQUIRED_VALUE_KEYS'')
       else rbind (fold_res (validate_row terminal value_keys text_keys valid)
                    \<lparr>expected_start = start, seen_ids = [], validated_rows = []\<rparr> rs) (\<lambda>st.
              if expected_start st \<noteq> terminal then Inl (EvidenceError ''SCHEDULE_TERMINAL_GAP'')
              else Inr (validated_rows st))
   | _ \<Rightarrow> Inl (EvidenceError ''SCHEDULE_ROWS_MISSING''))"

text \<open>The keys that the packet verification demands of the rows of each authority.\<close>

definition value_keys_of :: "string \<Rightarrow> string list" where
  "value_keys_of auth = (if auth = ''SEC_SECTION_31'' then [''rate_per_million'']
     else [''rate_per_share'', ''cap_per_regulatory_trade'', ''low_price_threshold''])"

definition text_keys_of :: "string \<Rightarrow> string list" where
  "text_keys_of auth = (if auth = ''SEC_SECTION_31'' then [] else [''applicability_regime''])"

section \<open>Lookup\<close>

text \<open>The identifier of the result is the value whose \<open>str\<close> the code stores.\<close>

record schedule_lookup_result =
  authority :: string
  effective_date :: string
  interval_id :: json
  start_inclusive :: json
  end_exclusive :: json
  rate :: string
  cap :: "string option"
  low_price_threshold :: "string option"
  applicability_regime :: "string option"
  source_ids :: "string list"

definition optional_text :: "json \<Rightarrow> string option res" where
  "optional_text v = (case v of
     JNull \<Rightarrow> Inr None
   | JString s \<Rightarrow> Inr (Some s)
   | _ \<Rightarrow> Inl (LookupError ''REPOSITORY_SCHEDULE_INVALID''))"

definition strings_of :: "json \<Rightarrow> string list res" where
  "strings_of v = (case v of
     JList xs \<Rightarrow> map_res (\<lambda>x. case x of JString s \<Rightarrow> Inr s | _ \<Rightarrow> Inl (LookupError ''REPOSITORY_SCHEDULE_INVALID'')) xs
   | _ \<Rightarrow> Inl (LookupError ''REPOSITORY_SCHEDULE_INVALID''))"

definition row_result :: "string \<Rightarrow> string \<Rightarrow> json \<Rightarrow> schedule_lookup_result res" where
  "row_result auth day row =
     (let sec = (auth = ''SEC_SECTION_31'') in
      rbind (strings_of (json_get row ''source_ids'')) (\<lambda>ids.
      rbind (case json_get row (if sec then ''rate_per_million'' else ''rate_per_share'') of
               JString s \<Rightarrow> Inr s | _ \<Rightarrow> Inl (LookupError ''REPOSITORY_SCHEDULE_INVALID'')) (\<lambda>r.
      rbind (optional_text (if sec then JNull else json_get row ''cap_per_regulatory_trade'')) (\<lambda>c.
      rbind (optional_text (if sec then JNull else json_get row ''low_price_threshold'')) (\<lambda>low.
      rbind (optional_text (if sec then JNull else json_get row ''applicability_regime'')) (\<lambda>regime.
        Inr \<lparr>authority = auth, effective_date = day, interval_id = json_get row ''interval_id'',
             start_inclusive = json_get row ''start_inclusive'', end_exclusive = json_get row ''end_exclusive'',
             rate = r, cap = c, low_price_threshold = low, applicability_regime = regime, source_ids = ids\<rparr>))))))"

fun search_rows :: "string \<Rightarrow> string \<Rightarrow> date \<Rightarrow> json list \<Rightarrow> schedule_lookup_result res" where
  "search_rows auth day parsed [] = Inl (LookupError ''VERIFIED_SCHEDULE_LOOKUP_GAP'')"
| "search_rows auth day parsed (row # rows) = (case row of
     JObject _ \<Rightarrow>
       rbind (parse_effective_date (json_get row ''start_inclusive'')) (\<lambda>row_start.
       rbind (parse_effective_date (json_get row ''end_exclusive'')) (\<lambda>row_end.
         if row_start \<le> parsed \<and> parsed < row_end then row_result auth day row
         else search_rows auth day parsed rows))
   | _ \<Rightarrow> Inl (LookupError ''REPOSITORY_SCHEDULE_INVALID''))"

definition resolve_from_config :: "json \<Rightarrow> string \<Rightarrow> string \<Rightarrow> date \<Rightarrow> schedule_lookup_result res" where
  "resolve_from_config config auth day parsed =
     (let selected = json_get (json_get config ''schedules'')
            (if auth = ''SEC_SECTION_31'' then ''sec_section_31'' else ''finra_taf'')
      in if json_get selected ''status'' \<noteq> JString ''COMPLETE_OFFICIAL_SOURCE_LINKED''
         then Inl (LookupError ''REPOSITORY_SCHEDULE_INVALID'')
         else (case json_get selected ''intervals'' of
            JList rows \<Rightarrow>
              if length rows \<noteq> (if auth = ''SEC_SECTION_31'' then 20 else 9)
              then Inl (LookupError ''REPOSITORY_SCHEDULE_INVALID'')
              else search_rows auth day parsed rows
          | _ \<Rightarrow> Inl (LookupError ''REPOSITORY_SCHEDULE_INVALID'')))"

definition validate_request :: "json \<Rightarrow> json \<Rightarrow> (string \<times> string \<times> date) res" where
  "validate_request auth day =
     rbind (case auth of
         JString a \<Rightarrow> if a = ''SEC_SECTION_31'' \<or> a = ''FINRA_TAF'' then Inr a
           else Inl (LookupError ''INVALID_SCHEDULE_AUTHORITY'')
       | _ \<Rightarrow> Inl (LookupError ''INVALID_SCHEDULE_AUTHORITY'')) (\<lambda>a.
     rbind (parse_effective_date day) (\<lambda>parsed.
       if parsed < SCHEDULE_START then Inl (LookupError ''PRE_COVERAGE_DATE'')
       else if parsed > SCHEDULE_END then Inl (LookupError ''POST_REVIEW_CUTOFF_DATE'')
       else (case day of
          JString d \<Rightarrow> Inr (a, d, parsed)
        | _ \<Rightarrow> Inl (AssertionError []))))"

definition lookup_regulatory_fee_schedule :: "json res \<Rightarrow> json \<Rightarrow> json \<Rightarrow> schedule_lookup_result res" where
  "lookup_regulatory_fee_schedule load_verified_config auth day =
     rbind (validate_request auth day) (\<lambda>req.
     rbind load_verified_config (\<lambda>config.
       resolve_from_config config (fst req) (fst (snd req)) (snd (snd req))))"

definition lookup_regulatory_fee_schedule_batch ::
  "json res \<Rightarrow> (json \<times> json) list \<Rightarrow> schedule_lookup_result list res" where
  "lookup_regulatory_fee_schedule_batch load_verified_config requests =
     (if requests = [] \<or> length requests > 12134 then Inl (LookupError ''INVALID_BATCH_REQUESTS'')
      else rbind (map_res (\<lambda>r. validate_request (fst r) (snd r)) requests) (\<lambda>checked.
           rbind load_verified_config (\<lambda>config.
             map_res (\<lambda>req. resolve_from_config config (fst req) (fst (snd req)) (snd (snd req))) checked)))"

end
