(* ===== verification/Asymmetric_Costs.thy ===== *)
theory Asymmetric_Costs
  imports Equations Fee_Schedule
begin

text \<open>
  Sell-side regulatory fees, \<open>qme/quant/asymmetric_costs.py\<close>: the canonical rebalance, then
  the dated fees of every sell as a separate cash line. An amount published as a string is the
  decimal it prints; the labels and the method identifier are constants and are left out. The
  schedule is looked up in the configuration that the schedule's loader returns.
\<close>

definition SEC_AUTHORITY :: string where "SEC_AUTHORITY = ''SEC_SECTION_31''"
definition FINRA_AUTHORITY :: string where "FINRA_AUTHORITY = ''FINRA_TAF''"
definition COVERAGE_SUPPORTED :: string where "COVERAGE_SUPPORTED = ''COVERED_EQUITY_ELIGIBLE_NO_EXEMPTION''"
definition MILLION :: rat where "MILLION = 1000000"
definition FEE_PREC :: nat where "FEE_PREC = 60"

definition AsymmetricCostError :: "string \<Rightarrow> py_exc" where
  "AsymmetricCostError m = Raised ''AsymmetricCostError'' m"

definition fee_dec :: "pyval \<Rightarrow> string \<Rightarrow> rat res" where
  "fee_dec value name = (case dec_of_str_of value of
     None \<Rightarrow> Inl (AsymmetricCostError (name @ '' is not a decimal''))
   | Some NonFinite \<Rightarrow> Inl (AsymmetricCostError (name @ '' must be finite''))
   | Some (Finite x) \<Rightarrow> Inr x)"

definition fee_q :: "nat \<Rightarrow> rat \<Rightarrow> rat res" where
  "fee_q p value = quantize p INTERNAL_CURRENCY_QUANTUM value"

record regulatory_fee_line =
  line_trade_date :: string
  line_security_id :: string
  sold_shares :: rat
  line_execution_price :: rat
  sold_notional :: rat
  sec31_interval_id :: json
  sec31_rate_per_million :: string
  sec31_raw :: rat
  finra_interval_id :: json
  finra_taf_rate_per_share :: string
  finra_taf_cap :: "string option"
  finra_low_price_threshold :: "string option"
  finra_taf_raw :: rat
  finra_cap_applied :: bool
  finra_low_price_excluded :: bool
  total_raw :: rat
  ledger_amount :: rat

text \<open>A missing or empty text is no limit.\<close>

definition fee_limit :: "string option \<Rightarrow> string \<Rightarrow> rat option res" where
  "fee_limit t name = (case t of
     None \<Rightarrow> Inr None
   | Some s \<Rightarrow> if s = [] then Inr None else rbind (fee_dec (PStr s) name) (\<lambda>x. Inr (Some x)))"

definition below_limit :: "rat \<Rightarrow> rat option \<Rightarrow> bool" where
  "below_limit x t = (case t of None \<Rightarrow> False | Some y \<Rightarrow> x < y)"

definition above_limit :: "rat \<Rightarrow> rat option \<Rightarrow> bool" where
  "above_limit x t = (case t of None \<Rightarrow> False | Some y \<Rightarrow> x > y)"

definition sec31_fee :: "rat \<Rightarrow> rat \<Rightarrow> rat" where
  "sec31_fee notional rate_value = dec FEE_PREC (dec FEE_PREC (notional * rate_value) / MILLION)"

definition taf_fee :: "rat \<Rightarrow> rat \<Rightarrow> rat \<Rightarrow> rat option \<Rightarrow> rat option \<Rightarrow> rat" where
  "taf_fee shares price rate_value threshold limit =
     (if below_limit price threshold then 0
      else let taf = dec FEE_PREC (shares * rate_value)
           in case limit of None \<Rightarrow> taf | Some c \<Rightarrow> if taf > c then c else taf)"

definition sell_side_regulatory_fee ::
  "json res \<Rightarrow> string \<Rightarrow> string \<Rightarrow> pyval \<Rightarrow> pyval \<Rightarrow> string \<Rightarrow> regulatory_fee_line res" where
  "sell_side_regulatory_fee load day security shares_arg price_arg coverage =
     (if coverage \<noteq> COVERAGE_SUPPORTED then Inl (AsymmetricCostError ''coverage classification is not supported'')
      else
      rbind (fee_dec shares_arg ''sold_shares'') (\<lambda>shares.
      rbind (fee_dec price_arg ''execution_price'') (\<lambda>price.
      if shares \<le> 0 \<or> price \<le> 0
      then Inl (AsymmetricCostError ''sold_shares and execution_price must be positive'')
      else
      rbind (lookup_regulatory_fee_schedule load (JString SEC_AUTHORITY) (JString day)) (\<lambda>sec.
      rbind (lookup_regulatory_fee_schedule load (JString FINRA_AUTHORITY) (JString day)) (\<lambda>fin.
      let notional = dec FEE_PREC (shares * price) in
      rbind (fee_dec (PStr (rate sec)) ''sec31 rate'') (\<lambda>sec_rate.
      rbind (fee_dec (PStr (rate fin)) ''finra taf rate'') (\<lambda>taf_rate.
      rbind (fee_limit (low_price_threshold fin) ''finra low-price threshold'') (\<lambda>threshold.
      rbind (fee_limit (cap fin) ''finra taf cap'') (\<lambda>limit.
      let sec31 = sec31_fee notional sec_rate;
          excluded = below_limit price threshold;
          taf = taf_fee shares price taf_rate threshold limit;
          amount = dec FEE_PREC (sec31 + taf) in
      rbind (fee_q FEE_PREC amount) (\<lambda>posted.
        Inr \<lparr>line_trade_date = day, line_security_id = security, sold_shares = shares, line_execution_price = price,
             sold_notional = notional, sec31_interval_id = interval_id sec, sec31_rate_per_million = rate sec,
             sec31_raw = sec31, finra_interval_id = interval_id fin, finra_taf_rate_per_share = rate fin,
             finra_taf_cap = cap fin, finra_low_price_threshold = low_price_threshold fin, finra_taf_raw = taf,
             finra_cap_applied = (\<not> excluded \<and> above_limit (dec FEE_PREC (shares * taf_rate)) limit),
             finra_low_price_excluded = excluded, total_raw = amount, ledger_amount = posted\<rparr>))))))))))"

record asymmetric_rebalance_result =
  base :: rebalance_result
  result_trade_date :: string
  regulatory_fee_lines :: "regulatory_fee_line list"
  regulatory_fees_total :: rat
  after_fees :: portfolio_state

definition total_costs_and_fees :: "nat \<Rightarrow> asymmetric_rebalance_result \<Rightarrow> rat res" where
  "total_costs_and_fees p r = fee_q p (dec p (dec p (transaction_cost (base r) + transaction_taxes (base r))
     + regulatory_fees_total r))"

text \<open>The loop over the fills: a sell adds its line and its posted amount.\<close>

definition fee_step ::
  "json res \<Rightarrow> string \<Rightarrow> regulatory_fee_line list \<times> rat \<Rightarrow> trade \<Rightarrow> (regulatory_fee_line list \<times> rat) res" where
  "fee_step load day s t =
     (if delta_shares t < 0
      then rbind (sell_side_regulatory_fee load day (symbol t) (PDecimal (dec FEE_PREC (- delta_shares t)))
                    (PDecimal (price_value (execution_price t))) COVERAGE_SUPPORTED) (\<lambda>line.
             Inr (fst s @ [line], dec FEE_PREC (snd s + ledger_amount line)))
      else Inr s)"

definition rebalance_with_regulatory_fees ::
  "json res \<Rightarrow> portfolio_state \<Rightarrow> trade list \<Rightarrow> string \<Rightarrow> pyval \<Rightarrow> transaction_tax_policy
   \<Rightarrow> (string, raw_mark) dict option \<Rightarrow> pyval option \<Rightarrow> asymmetric_rebalance_result res" where
  "rebalance_with_regulatory_fees load pre fills day cost_rate_bps tax_policy raw_marks_after receivables_after =
     rbind (rebalance pre fills cost_rate_bps tax_policy (PInt 0) raw_marks_after receivables_after) (\<lambda>b.
     rbind (fold_res (fee_step load day) ([], 0) (result_trades b)) (\<lambda>ls.
     rbind (fee_q FEE_PREC (snd ls)) (\<lambda>fees.
     rbind (fee_q FEE_PREC (dec FEE_PREC (cash (result_after b) - fees))) (\<lambda>cash_after.
       if cash_after < 0
       then Inl (AsymmetricCostError ''regulatory fees produce negative cash; trades are not rescaled'')
       else rbind (mk_portfolio_state (PDecimal cash_after)
                    (map (\<lambda>(s, q). (s, PDecimal q)) (positions (result_after b)))
                    (raw_marks (result_after b)) (PDecimal (receivables (result_after b)))) (\<lambda>after.
              Inr \<lparr>base = b, result_trade_date = day, regulatory_fee_lines = fst ls,
                   regulatory_fees_total = fees, after_fees = after\<rparr>)))))"

definition asymmetric_self_financing_error :: "nat \<Rightarrow> asymmetric_rebalance_result \<Rightarrow> rat res" where
  "asymmetric_self_financing_error p r =
     rbind (self_financing_error p (base r)) (\<lambda>base_residual.
     rbind (nav (result_after (base r))) (\<lambda>base_nav.
     rbind (nav (after_fees r)) (\<lambda>after_nav.
       fee_q p (dec p (base_residual + dec p (after_nav - dec p (base_nav - regulatory_fees_total r)))))))"

definition assert_asymmetric_self_financing :: "nat \<Rightarrow> asymmetric_rebalance_result \<Rightarrow> unit res" where
  "assert_asymmetric_self_financing p r =
     rbind (asymmetric_self_financing_error p r) (\<lambda>residual.
       if dec p \<bar>residual\<bar> > COMPARISON_TOLERANCE
       then Inl (AssertionError ''asymmetric self-financing residual exceeds tolerance'') else Inr ())"

end
