(* ===== verification/Fee_Lookup.thy ===== *)
theory Fee_Lookup
  imports Fee_Schedule
begin

text \<open>
  Dates and their texts are in bijection, and a schedule that passes the validation covers every
  date of its domain exactly once, so that a lookup inside the domain always succeeds.
\<close>


section \<open>Dates print and parse back\<close>

lemma digits_value_snoc: "digits_value (s @ [c]) = 10 * digits_value s + digit_value c"
  by (simp add: digits_value_def)

lemma digit_value_range: "is_digit c \<Longrightarrow> 0 \<le> digit_value c \<and> digit_value c < 10"
  by (auto simp: is_digit_def digit_value_def less_eq_char_def)

lemma char_of_digit: "is_digit c \<Longrightarrow> char_of (48 + nat (digit_value c)) = c"
  by (auto simp: is_digit_def digit_value_def less_eq_char_def nat_diff_distrib)

lemma padded_digits: "list_all is_digit s \<Longrightarrow> padded (length s) (digits_value s) = s"
proof (induction s rule: rev_induct)
  case (snoc c s)
  then have "is_digit c" "padded (length s) (digits_value s) = s" by auto
  with digit_value_range [of c] char_of_digit [of c] show ?case by (simp add: digits_value_snoc)
qed (simp add: digits_value_def)

lemma digit_char: "0 \<le> v \<Longrightarrow> v < 10 \<Longrightarrow> digit_value (char_of (48 + nat v)) = v"
  by (simp add: digit_value_def)

lemma is_digit_char: "0 \<le> v \<Longrightarrow> v < 10 \<Longrightarrow> is_digit (char_of (48 + nat v))"
  by (simp add: is_digit_def less_eq_char_def)

lemma padded_value: "0 \<le> v \<Longrightarrow> v < 10 ^ n \<Longrightarrow> digits_value (padded n v) = v"
proof (induction n arbitrary: v)
  case (Suc n)
  then have "v div 10 < 10 ^ n" by simp
  with Suc show ?case by (simp add: digits_value_snoc digit_char)
qed (simp add: digits_value_def)

lemma padded_format: "length (padded n v) = n \<and> list_all is_digit (padded n v)"
  by (induction n arbitrary: v) (auto simp: is_digit_char)

lemma split_iso:
  assumes "date_format s"
  shows "s = take 4 s @ ''-'' @ take 2 (drop 5 s) @ ''-'' @ drop 8 s"
proof -
  from assms have l: "length s = 10" and d: "s ! 4 = CHR ''-''" "s ! 7 = CHR ''-''" by (auto simp: date_format_def)
  have "s = take 4 s @ s ! 4 # take 2 (drop 5 s) @ s ! 7 # drop 8 s"
    using l by (intro nth_equalityI) (auto simp: nth_append nth_Cons' less_Suc_eq numeral_eq_Suc)
  with d show ?thesis by simp
qed


lemma isoformat_date_of: "date_format s \<Longrightarrow> isoformat (date_of s) = s"
proof -
  assume f: "date_format s"
  then have d: "list_all is_digit (take 4 s)" "list_all is_digit (take 2 (drop 5 s))" "list_all is_digit (drop 8 s)"
    and l: "length (take 4 s) = 4" "length (take 2 (drop 5 s)) = 2" "length (drop 8 s) = 2"
    by (auto simp: date_format_def)
  show ?thesis
    using padded_digits [OF d(1)] padded_digits [OF d(2)] padded_digits [OF d(3)] split_iso [OF f] unfolding l date_of_def
    by simp
qed

fun valid_date :: "date \<Rightarrow> bool" where
  "valid_date (y, m, d) \<longleftrightarrow> 1 \<le> y \<and> y < 10000 \<and> 1 \<le> m \<and> m \<le> 12 \<and> 1 \<le> d \<and> d \<le> days_in_month y m"

lemma days_in_month_le: "days_in_month y m \<le> 31"
  by (simp add: days_in_month_def)

lemma isoformat_parts:
  assumes "valid_date (y, m, d)"
  shows "date_format (isoformat (y, m, d))" "date_of (isoformat (y, m, d)) = (y, m, d)" "calendar_date (isoformat (y, m, d))"
proof -
  have r: "0 \<le> y" "y < 10 ^ 4" "0 \<le> m" "m < 10 ^ 2" "0 \<le> d" "d < 10 ^ 2"
    using assms days_in_month_le [of y m] by auto
  have p: "length (padded 4 y) = 4" "length (padded 2 m) = 2" "length (padded 2 d) = 2"
    "list_all is_digit (padded 4 y)" "list_all is_digit (padded 2 m)" "list_all is_digit (padded 2 d)"
    using padded_format by blast+
  show "date_format (isoformat (y, m, d))"
    using p by (simp add: date_format_def nth_append del: padded.simps)
  show date: "date_of (isoformat (y, m, d)) = (y, m, d)"
    using p r by (simp add: date_of_def padded_value del: padded.simps)
  show "calendar_date (isoformat (y, m, d))"
    using date assms unfolding date_of_def calendar_date_def by (simp add: Let_def del: isoformat.simps)
qed

lemma parse_date_iff: "parse_date v = Inr d \<longleftrightarrow> (\<exists>s. v = JString s \<and> date_format s \<and> calendar_date s \<and> d = date_of s)"
  by (cases v) (auto simp: parse_date_def isoformat_date_of)

lemma parse_effective_date_eq: "parse_effective_date v = Inr d \<longleftrightarrow> parse_date v = Inr d"
  by (cases v) (auto simp: parse_effective_date_def parse_date_def)

section \<open>A validated schedule covers every date once\<close>

definition covers_date :: "json \<Rightarrow> date \<Rightarrow> bool" where
  "covers_date row d \<longleftrightarrow> (case (parse_date (json_get row ''start_inclusive''), parse_date (json_get row ''end_exclusive'')) of
     (Inr a, Inr b) \<Rightarrow> a \<le> d \<and> d < b | _ \<Rightarrow> False)"

definition row_valid :: "string list \<Rightarrow> string list \<Rightarrow> json \<Rightarrow> bool" where
  "row_valid value_keys text_keys row \<longleftrightarrow> (\<exists>kvs. row = JObject kvs) \<and>
     (\<exists>ids. strings_of (json_get row ''source_ids'') = Inr ids) \<and>
     (\<forall>k \<in> set (value_keys @ text_keys). \<exists>s. json_get row k = JString s)"

fun chained :: "string list \<Rightarrow> string list \<Rightarrow> date \<Rightarrow> json list \<Rightarrow> date \<Rightarrow> bool" where
  "chained vk tk a [] b \<longleftrightarrow> a = b"
| "chained vk tk a (row # rows) b \<longleftrightarrow> row_valid vk tk row \<and> parse_date (json_get row ''start_inclusive'') = Inr a \<and>
     (\<exists>e. parse_date (json_get row ''end_exclusive'') = Inr e \<and> a < e \<and> chained vk tk e rows b)"

lemma source_ids_strings: "source_ids_checked v valid = Inr u \<Longrightarrow> \<exists>ids. strings_of v = Inr ids"
proof -
  assume a: "source_ids_checked v valid = Inr u"
  then obtain xs where v: "v = JList xs" and t: "list_all is_text xs"
    by (auto simp: source_ids_checked_def split: json.splits if_splits)
  from t have "\<exists>ids. map_res (\<lambda>x. case x of JString s \<Rightarrow> Inr s | _ \<Rightarrow> Inl (LookupError ''REPOSITORY_SCHEDULE_INVALID'')) xs = Inr ids"
    by (induction xs) (auto simp: is_text_def split: json.splits)
  then show ?thesis by (simp add: v strings_of_def)
qed

lemma text_string: "is_decimal_text v \<or> is_text v \<Longrightarrow> \<exists>s. v = JString s"
  by (cases v) (auto simp: is_decimal_text_def is_text_def)

lemma values_checked_strings:
  assumes "values_checked row vk tk = Inr u"
  shows "\<forall>k \<in> set (vk @ tk). \<exists>s. json_get row k = JString s"
proof -
  from assms have "\<forall>k \<in> set vk. is_decimal_text (json_get row k)" "\<forall>k \<in> set tk. is_text (json_get row k)"
    by (auto simp: values_checked_def first_match_None split: option.splits)
  then show ?thesis using text_string by auto
qed

lemma validate_row_InrE:
  assumes "validate_row terminal vk tk valid st row = Inr st'"
  obtains e where "row_valid vk tk row" "parse_date (json_get row ''start_inclusive'') = Inr (expected_start st)"
    "parse_date (json_get row ''end_exclusive'') = Inr e" "expected_start st < e" "expected_start st' = e"
    "validated_rows st' = validated_rows st @ [row]"
proof (cases row)
  case (JObject kvs)
  with assms obtain a e u w where "parse_date (json_get row ''start_inclusive'') = Inr a"
      "parse_date (json_get row ''end_exclusive'') = Inr e" "a = expected_start st" "a < e"
      "source_ids_checked (json_get row ''source_ids'') valid = Inr u" "values_checked row vk tk = Inr w"
      "expected_start st' = e" "validated_rows st' = validated_rows st @ [row]"
    unfolding validate_row_def
    by (simp split: option.splits if_splits) (elim rbind_InrE guard_InrE, force simp: not_le)
  with that [of e] JObject source_ids_strings values_checked_strings show ?thesis
    by (auto simp: row_valid_def)
qed (use assms in \<open>auto simp: validate_row_def\<close>)

lemma validated_chain:
  "fold_res (validate_row terminal vk tk valid) st rows = Inr st' \<Longrightarrow>
    chained vk tk (expected_start st) rows (expected_start st') \<and> validated_rows st' = validated_rows st @ rows"
proof (induction rows arbitrary: st)
  case (Cons row rows)
  then obtain s1 where s1: "validate_row terminal vk tk valid st row = Inr s1"
    "fold_res (validate_row terminal vk tk valid) s1 rows = Inr st'" by auto
  from s1(1) show ?case
    by (rule validate_row_InrE) (use Cons.IH [OF s1(2)] in auto)
qed simp

lemma chained_start: "chained vk tk a rows b \<Longrightarrow> row \<in> set rows \<Longrightarrow> covers_date row d \<Longrightarrow> a \<le> d"
proof (induction rows arbitrary: a)
  case (Cons r rows)
  then obtain e where e: "parse_date (json_get r ''start_inclusive'') = Inr a" "a < e" "chained vk tk e rows b" by auto
  show ?case
  proof (cases "row = r")
    case True
    with e Cons.prems(3) show ?thesis by (auto simp: covers_date_def split: sum.splits)
  next
    case False
    with Cons.IH [OF e(3)] Cons.prems e(2) show ?thesis by auto
  qed
qed simp

lemma chained_covers_once:
  "chained vk tk a rows b \<Longrightarrow> a \<le> d \<Longrightarrow> d < b \<Longrightarrow>
    \<exists>row \<in> set rows. covers_date row d \<and> row_valid vk tk row \<and> search_rows auth day d rows = row_result auth day row
      \<and> length (filter (\<lambda>r. covers_date r d) rows) = 1"
proof (induction rows arbitrary: a)
  case (Cons r rows)
  then obtain e where e: "row_valid vk tk r" "parse_date (json_get r ''start_inclusive'') = Inr a"
    "parse_date (json_get r ''end_exclusive'') = Inr e" "a < e" "chained vk tk e rows b" by auto
  obtain kvs where kvs: "r = JObject kvs" using e(1) by (auto simp: row_valid_def)
  have cov: "covers_date r d \<longleftrightarrow> d < e" using Cons.prems(2) e(2,3) by (simp add: covers_date_def)
  have step: "search_rows auth day d (r # rows) = (if d < e then row_result auth day r else search_rows auth day d rows)"
    using Cons.prems(2) e(2,3) kvs by (simp add: parse_effective_date_eq [THEN iffD2])
  show ?case
  proof (cases "d < e")
    case True
    then have "filter (\<lambda>r. covers_date r d) rows = []"
      using chained_start [OF e(5)] by (meson filter_False leD)
    with True cov step e(1) show ?thesis by auto
  next
    case False
    with Cons.IH [OF e(5)] Cons.prems(3) cov step show ?thesis by auto
  qed
qed simp


lemma row_result_total:
  assumes "row_valid (value_keys_of auth) (text_keys_of auth) row"
  shows "\<exists>res. row_result auth day row = Inr res \<and> authority res = auth \<and> effective_date res = day
    \<and> interval_id res = json_get row ''interval_id''"
proof -
  from assms obtain ids where ids: "strings_of (json_get row ''source_ids'') = Inr ids" by (auto simp: row_valid_def)
  have str: "\<exists>s. json_get row k = JString s" if "k \<in> set (value_keys_of auth @ text_keys_of auth)" for k
    using assms that by (auto simp: row_valid_def)
  show ?thesis
  proof (cases "auth = ''SEC_SECTION_31''")
    case True
    then show ?thesis using str [of "''rate_per_million''"] ids
      by (auto simp: row_result_def value_keys_of_def optional_text_def Let_def)
  next
    case False
    then show ?thesis
      using str [of "''rate_per_share''"] str [of "''cap_per_regulatory_trade''"] str [of "''low_price_threshold''"]
        str [of "''applicability_regime''"] ids
      by (auto simp: row_result_def value_keys_of_def text_keys_of_def optional_text_def Let_def)
  qed
qed

lemma digits_value_bound: "list_all is_digit s \<Longrightarrow> 0 \<le> digits_value s \<and> digits_value s < 10 ^ length s"
proof (induction s rule: rev_induct)
  case (snoc c s)
  then have "is_digit c" "0 \<le> digits_value s" "digits_value s < 10 ^ length s" by auto
  with digit_value_range [of c] show ?case by (simp add: digits_value_snoc)
qed (simp add: digits_value_def)

lemma valid_date_of: "date_format s \<Longrightarrow> calendar_date s \<Longrightarrow> valid_date (date_of s)"
  using digits_value_bound [of "take 4 s"] by (auto simp: date_of_def calendar_date_def date_format_def Let_def)

section \<open>Properties\<close>

text \<open>
  dates print and parse back. A text parses to a date exactly when the date is valid and
  the text is its ISO form, so a date has one text and the canonical-form check of the parser never fails.
\<close>

theorem date_round_trip: "parse_date (JString s) = Inr d \<longleftrightarrow> valid_date d \<and> s = isoformat d"
proof
  assume "parse_date (JString s) = Inr d"
  then show "valid_date d \<and> s = isoformat d"
    by (auto simp: parse_date_iff isoformat_date_of valid_date_of)
next
  obtain y m k where d: "d = (y, m, k)" by (cases d)
  assume "valid_date d \<and> s = isoformat d"
  with isoformat_parts [of y m k] show "parse_date (JString s) = Inr d" by (simp add: parse_date_iff d)
qed

definition ex_row :: json where
  "ex_row = JObject [(''interval_id'', JString ''S1''), (''start_inclusive'', JString ''2010-01-04''),
     (''end_exclusive'', JString ''2026-08-15''), (''source_ids'', JList [JString ''SEC'']), (''rate_per_million'', JString ''27.80'')]"

lemma ex_dates:
  "parse_date (JString ''2010-01-04'') = Inr (2010, 1, 4)" "parse_date (JString ''2026-08-15'') = Inr (2026, 8, 15)"
  "parse_effective_date (JString ''2020-02-29'') = Inr (2020, 2, 29)"
  unfolding parse_effective_date_eq
  by (simp_all add: parse_date_iff date_of_def date_format_def calendar_date_def is_digit_def less_eq_char_def
      digits_value_def digit_value_def days_in_month_def leap_year_def Let_def)

lemma ex_row_valid:
  "validate_interval_rows (JList [ex_row]) SCHEDULE_START SCHEDULE_TERMINAL (value_keys_of ''SEC_SECTION_31'')
     (text_keys_of ''SEC_SECTION_31'') None = Inr [ex_row]"
proof -
  have "values_checked ex_row [''rate_per_million''] [] = Inr ()"
    by (simp add: values_checked_def ex_row_def json_get_def is_decimal_text_def schedule_decimal_def is_digit_def less_eq_char_def Let_def)
  then show ?thesis
    by (simp add: validate_interval_rows_def validate_row_def ex_row_def json_get_def row_keys_def value_keys_of_def text_keys_of_def
        fresh_interval_id_def ex_dates SCHEDULE_START_def SCHEDULE_TERMINAL_def source_ids_checked_def is_text_def)
qed

text \<open>
  C34: a validated schedule answers every admitted request. If the rows of an authority pass the
  validation, then a request that passes its checks finds a row that covers the date, exactly one row
  of the schedule does, and the result is read from it: the lookup never reports a gap.
\<close>

theorem schedule_lookup_total:
  assumes "validate_interval_rows (JList rows) SCHEDULE_START SCHEDULE_TERMINAL (value_keys_of auth) (text_keys_of auth) valid = Inr vs"
    and "validate_request (JString auth) (JString day) = Inr (auth, day, d)"
  shows "\<exists>row res. row \<in> set rows \<and> covers_date row d \<and> length (filter (\<lambda>r. covers_date r d) rows) = 1
    \<and> search_rows auth day d rows = Inr res \<and> authority res = auth \<and> effective_date res = day
    \<and> interval_id res = json_get row ''interval_id''"
proof -
  from assms(1) have chain: "chained (value_keys_of auth) (text_keys_of auth) SCHEDULE_START rows SCHEDULE_TERMINAL"
    by (auto simp: validate_interval_rows_def dest!: validated_chain split: if_splits)
  have "\<not> d < SCHEDULE_START" "\<not> SCHEDULE_END < d"
    using assms(2) by (auto simp: validate_request_def split: if_splits)
  moreover have "SCHEDULE_END < SCHEDULE_TERMINAL" by (simp add: SCHEDULE_END_def SCHEDULE_TERMINAL_def)
  ultimately have "SCHEDULE_START \<le> d" "d < SCHEDULE_TERMINAL" by (auto simp: not_less)
  from chained_covers_once [OF chain this, of auth day] row_result_total [of auth _ day] show ?thesis by metis
qed

theorem schedule_lookup_total_witness:
  "\<exists>res. search_rows ''SEC_SECTION_31'' ''2020-02-29'' (2020, 2, 29) [ex_row] = Inr res"
  using schedule_lookup_total [OF ex_row_valid, of "''2020-02-29''" "(2020, 2, 29)"]
  by (simp add: validate_request_def ex_dates SCHEDULE_START_def SCHEDULE_END_def) blast

end
