(* ===== verification/Fee_Ledger.thy ===== *)
theory Fee_Ledger
  imports Asymmetric_Costs Ledger Fee_Lookup
begin

text \<open>
  Properties of the rebalance with regulatory fees: the fees are one exact cash line beside the
  canonical rebalance, and the extended self-financing identity adds no residual.
\<close>

section \<open>Marks\<close>

text \<open>Marks that passed the constructor once pass it again unchanged.\<close>

definition normal_marks :: "(string, raw_mark) dict \<Rightarrow> bool" where
  "normal_marks ms \<longleftrightarrow> distinct (map fst ms)
     \<and> list_all (\<lambda>(k, m). strip k = k \<and> k \<noteq> [] \<and> security_id (mark_evidence m) = k) ms"

lemma raw_marks_loop_normal: "raw_marks_loop acc ms = Inr d \<Longrightarrow> normal_marks acc \<Longrightarrow> normal_marks d"
proof (induction acc ms rule: raw_marks_loop.induct)
  case (2 acc k m ms)
  from "2.prems"(1) have k: "strip k \<noteq> []" "dict_get acc (strip k) = None" "security_id (mark_evidence m) = strip k"
    and rest: "raw_marks_loop (dict_set acc (strip k) m) ms = Inr d"
    by (auto simp: Let_def split: if_splits)
  from k "2.prems"(2) have "normal_marks (dict_set acc (strip k) m)"
    by (auto simp: normal_marks_def distinct_update intro!: list_all_dict_set)
  with "2.IH" rest k show ?case by (auto simp: Let_def)
qed simp

lemma raw_marks_loop_same: "normal_marks (acc @ ms) \<Longrightarrow> raw_marks_loop acc ms = Inr (acc @ ms)"
proof (induction ms arbitrary: acc)
  case (Cons x ms)
  obtain k m where x: "x = (k, m)" by (cases x)
  from Cons.prems have k: "k \<notin> fst ` set acc" "strip k = k" "k \<noteq> []" "security_id (mark_evidence m) = k"
    by (auto simp: normal_marks_def x)
  then have "dict_get acc k = None" by (simp add: map_of_eq_None_iff)
  with k Cons.IH [of "acc @ [(k, m)]"] Cons.prems show ?case by (simp add: x Let_def dict_set_fresh)
qed simp

lemma mk_portfolio_state_marks:
  "mk_portfolio_state c ps ms r = Inr s \<Longrightarrow> normal_marks (raw_marks s)"
  by (auto simp: mk_portfolio_state_def normal_marks_def dest: raw_marks_loop_normal split: if_splits)

lemma rebuilt_state:
  assumes "mk_portfolio_state (PDecimal c) (map (\<lambda>(s, q). (s, PDecimal q)) (positions s)) (raw_marks s) (PDecimal (receivables s)) = Inr s'"
    and s: "wf_portfolio s" "normal_marks (raw_marks s)"
  shows "positions s' = positions s" "raw_marks s' = raw_marks s" "receivables s' = receivables s"
proof -
  show "positions s' = positions s"
    using s(1) by (intro mk_portfolio_state_positions [OF assms(1)])
      (auto simp: wf_portfolio_def wf_position_def list_all_iff)
  from assms(1) have "raw_marks_loop [] (raw_marks s) = Inr (raw_marks s')"
    "quantize_at (- 8) (receivables s) = Inr (receivables s')"
    by (auto simp: mk_portfolio_state_def equations_constants split: if_splits)
  with raw_marks_loop_same [of "[]" "raw_marks s"] s show "raw_marks s' = raw_marks s" "receivables s' = receivables s"
    by (auto simp: wf_portfolio_def quantize_at_def dest: quantize_on_grid)
qed

lemma rebalance_marks: "rebalance pre fills c pol x ma ra = Inr r \<Longrightarrow> normal_marks (raw_marks (result_after r))"
  by (erule rebalance_InrE) (blast dest: mk_portfolio_state_marks)

section \<open>The fee lines\<close>

definition line_for :: "string \<Rightarrow> trade \<Rightarrow> regulatory_fee_line \<Rightarrow> bool" where
  "line_for day t fl \<longleftrightarrow> line_trade_date fl = day \<and> line_security_id fl = symbol t
     \<and> on_grid (- 8) (ledger_amount fl) \<and> \<bar>ledger_amount fl - total_raw fl\<bar> \<le> 5 / 10 ^ 9
     \<and> total_raw fl = dec 60 (sec31_raw fl + finra_taf_raw fl)
     \<and> (finra_low_price_excluded fl \<longrightarrow> finra_taf_raw fl = 0)"

lemma sell_side_line:
  "sell_side_regulatory_fee load day (symbol t) sh pr cov = Inr fl \<Longrightarrow> line_for day t fl"
  unfolding sell_side_regulatory_fee_def Let_def fee_q_def INTERNAL_CURRENCY_QUANTUM_def FEE_PREC_def
  by (elim res_elims) (auto simp: line_for_def taf_fee_def power_int_minus dest: quantize_InrD(1,3))

lemma fee_loop:
  "fold_res (fee_step load day) (ls, tot) ts = Inr r \<Longrightarrow>
   \<exists>new. fst r = ls @ new \<and> list_all2 (line_for day) (filter (\<lambda>t. delta_shares t < 0) ts) new
     \<and> snd r = dsum 60 tot (map ledger_amount new)"
proof (induction ts arbitrary: ls tot)
  case (Cons t ts)
  show ?case
  proof (cases "delta_shares t < 0")
    case True
    from Cons.prems obtain s' where s': "fee_step load day (ls, tot) t = Inr s'" "fold_res (fee_step load day) s' ts = Inr r"
      by auto
    from s'(1) True obtain fl where fl: "line_for day t fl" and "s' = (ls @ [fl], dec 60 (tot + ledger_amount fl))"
      by (auto simp: fee_step_def FEE_PREC_def dest: sell_side_line)
    with s'(2) have rest: "fold_res (fee_step load day) (ls @ [fl], dec 60 (tot + ledger_amount fl)) ts = Inr r" by simp
    from Cons.IH [OF rest] obtain new where new: "fst r = (ls @ [fl]) @ new"
      "list_all2 (line_for day) (filter (\<lambda>t. delta_shares t < 0) ts) new"
      "snd r = dsum 60 (dec 60 (tot + ledger_amount fl)) (map ledger_amount new)" by blast
    with True fl show ?thesis by (intro exI [of _ "fl # new"]) simp
  qed (use Cons in \<open>simp add: fee_step_def\<close>)
qed auto

lemma dec60_amount: "on_grid (- 8) x \<Longrightarrow> \<bar>x\<bar> < 10 ^ 52 \<Longrightarrow> dec 60 x = x"
  by (rule dec_grid [where k = "- 8"]) simp_all

lemma dsum60_exact:
  "on_grid (- 8) acc \<Longrightarrow> list_all (on_grid (- 8)) xs \<Longrightarrow> \<bar>acc\<bar> + sum_list (map abs xs) < 10 ^ 52 \<Longrightarrow>
   dsum 60 acc xs = acc + sum_list xs"
proof (induction xs arbitrary: acc)
  case (Cons x xs)
  have n: "0 \<le> sum_list (map abs xs)" by (rule sum_list_nonneg) auto
  then have "dec 60 (acc + x) = acc + x" using Cons.prems by (intro dec60_amount) auto
  moreover have "\<bar>acc + x\<bar> + sum_list (map abs xs) < 10 ^ 52" using Cons.prems(3) abs_triangle_ineq [of acc x] by simp
  ultimately show ?case using Cons.IH [of "acc + x"] Cons.prems(1,2) by (simp add: on_grid_add)
qed simp

definition fees_of :: "regulatory_fee_line list \<Rightarrow> rat" where
  "fees_of ls = sum_list (map ledger_amount ls)"

lemma fees_rebalance:
  assumes reb: "rebalance_with_regulatory_fees load pre fills day c pol ma ra = Inr r"
    and small: "sum_list (map (\<lambda>fl. \<bar>ledger_amount fl\<bar>) (regulatory_fee_lines r)) < 10 ^ 51"
  shows "rebalance pre fills c pol (PInt 0) ma ra = Inr (base r)"
    "list_all2 (line_for day) (filter (\<lambda>t. delta_shares t < 0) fills) (regulatory_fee_lines r)"
    "regulatory_fees_total r = fees_of (regulatory_fee_lines r)" "on_grid (- 8) (regulatory_fees_total r)"
    "cash (after_fees r) = cash (result_after (base r)) - regulatory_fees_total r" "wf_portfolio (after_fees r)"
    "positions (after_fees r) = positions (result_after (base r))"
    "raw_marks (after_fees r) = raw_marks (result_after (base r))"
    "receivables (after_fees r) = receivables (result_after (base r))"
proof -
  let ?b = "result_after (base r)"
  from reb obtain ls fees ca where b: "rebalance pre fills c pol (PInt 0) ma ra = Inr (base r)"
    and ls: "fold_res (fee_step load day) ([], 0) (result_trades (base r)) = Inr ls" "regulatory_fee_lines r = fst ls"
    and fees: "quantize 60 (- 8) (snd ls) = Inr (regulatory_fees_total r)"
    and ca: "quantize 60 (- 8) (dec 60 (cash ?b - regulatory_fees_total r)) = Inr ca"
    and mk: "mk_portfolio_state (PDecimal ca) (map (\<lambda>(s, q). (s, PDecimal q)) (positions ?b)) (raw_marks ?b)
      (PDecimal (receivables ?b)) = Inr (after_fees r)"
    unfolding rebalance_with_regulatory_fees_def fee_q_def INTERNAL_CURRENCY_QUANTUM_def FEE_PREC_def
    by (elim res_elims) auto
  show "rebalance pre fills c pol (PInt 0) ma ra = Inr (base r)" by (rule b)
  have fills: "result_trades (base r) = fills" by (rule rebalance_InrE [OF b])
  from fee_loop [OF ls(1)] have new: "list_all2 (line_for day) (filter (\<lambda>t. delta_shares t < 0) fills) (fst ls)"
    "snd ls = dsum 60 0 (map ledger_amount (fst ls))" by (auto simp: fills)
  with ls(2) show "list_all2 (line_for day) (filter (\<lambda>t. delta_shares t < 0) fills) (regulatory_fee_lines r)" by simp
  have grid: "list_all (on_grid (- 8)) (map ledger_amount (fst ls))"
    using new(1) by (auto simp: list_all_iff line_for_def list_all2_conv_all_nth in_set_conv_nth)
  have bound: "sum_list (map abs (map ledger_amount (fst ls))) < 10 ^ 51" using small ls(2) by (simp add: o_def)
  have sum: "snd ls = fees_of (fst ls)"
    using dsum60_exact [OF _ grid, of 0] bound new(2) by (simp add: fees_of_def)
  have g: "on_grid (- 8) (fees_of (fst ls))"
    using grid unfolding fees_of_def by (intro on_grid_sum_list) (auto simp: list_all_iff)
  with fees sum have total: "regulatory_fees_total r = fees_of (fst ls)" by (auto dest: quantize_on_grid)
  with ls(2) show "regulatory_fees_total r = fees_of (regulatory_fee_lines r)" by simp
  show gt: "on_grid (- 8) (regulatory_fees_total r)" using total g by simp
  have "\<bar>fees_of (fst ls)\<bar> < 10 ^ 51"
    using sum_list_abs [of "map ledger_amount (fst ls)"] bound by (simp add: fees_of_def)
  moreover have cash: "0 \<le> cash ?b" "cash ?b < 10 ^ 30" "on_grid (- 8) (cash ?b)"
    using rebalance_wf [OF b] by (auto simp: wf_portfolio_def)
  ultimately have "dec 60 (cash ?b - regulatory_fees_total r) = cash ?b - regulatory_fees_total r"
    using gt total by (intro dec60_amount) auto
  with ca cash gt have "ca = cash ?b - regulatory_fees_total r" by (auto dest: quantize_on_grid)
  with mk_portfolio_state_cash [OF mk] cash gt show "cash (after_fees r) = cash ?b - regulatory_fees_total r"
    by (simp add: on_grid_diff)
  show "wf_portfolio (after_fees r)" by (rule mk_portfolio_state_wf [OF mk])
  from rebuilt_state [OF mk rebalance_wf [OF b] rebalance_marks [OF b]]
  show "positions (after_fees r) = positions ?b" "raw_marks (after_fees r) = raw_marks ?b"
    "receivables (after_fees r) = receivables ?b" by auto
qed

lemma fees_nav:
  assumes reb: "rebalance_with_regulatory_fees load pre fills day c pol ma ra = Inr r"
    and small: "sum_list (map (\<lambda>fl. \<bar>ledger_amount fl\<bar>) (regulatory_fee_lines r)) < 10 ^ 51"
    and marks: "positive_marks (raw_marks (result_after (base r)))"
    and navs: "nav (result_after (base r)) = Inr nb" "nav (after_fees r) = Inr na"
  shows "na = nb - regulatory_fees_total r" "on_grid (- 8) na" "on_grid (- 8) nb" "0 \<le> na" "0 \<le> nb"
proof -
  note f = fees_rebalance [OF reb small]
  obtain vs where vs: "map_res (marked_position (raw_marks (result_after (base r)))) (positions (result_after (base r))) = Inr vs"
    "nb = cash (result_after (base r)) + sum_list vs + receivables (result_after (base r))" "on_grid (- 8) nb" "0 \<le> nb"
    by (rule nav_exact [OF rebalance_wf [OF f(1)] marks navs(1)]) blast
  have marks': "positive_marks (raw_marks (after_fees r))" using marks f(8) by simp
  obtain ws where ws: "map_res (marked_position (raw_marks (after_fees r))) (positions (after_fees r)) = Inr ws"
    "na = cash (after_fees r) + sum_list ws + receivables (after_fees r)" "on_grid (- 8) na" "0 \<le> na"
    by (rule nav_exact [OF f(6) marks' navs(2)]) blast
  from vs(1) ws(1) have "ws = vs" by (simp add: f)
  with vs ws show "na = nb - regulatory_fees_total r" "on_grid (- 8) na" "on_grid (- 8) nb" "0 \<le> na" "0 \<le> nb"
    by (auto simp: f)
qed


section \<open>An example\<close>

definition ex_taf_row :: json where
  "ex_taf_row = JObject [(''interval_id'', JString ''F1''), (''start_inclusive'', JString ''2010-01-04''),
     (''end_exclusive'', JString ''2026-08-15''), (''source_ids'', JList [JString ''FINRA'']),
     (''rate_per_share'', JString ''0.000166''), (''cap_per_regulatory_trade'', JString ''8.30''),
     (''low_price_threshold'', JNull), (''applicability_regime'', JString ''R'')]"

definition ex_schedule :: json where
  "ex_schedule = JObject [(''schedules'', JObject [
     (''sec_section_31'', JObject [(''status'', JString ''COMPLETE_OFFICIAL_SOURCE_LINKED''), (''intervals'', JList (replicate 20 ex_row))]),
     (''finra_taf'', JObject [(''status'', JString ''COMPLETE_OFFICIAL_SOURCE_LINKED''), (''intervals'', JList (replicate 9 ex_taf_row))])])]"

lemma ex_search:
  "search_rows ''SEC_SECTION_31'' ''2020-02-29'' (2020, 2, 29) (ex_row # rows) = Inr \<lparr>authority = ''SEC_SECTION_31'',
     effective_date = ''2020-02-29'', interval_id = JString ''S1'', start_inclusive = JString ''2010-01-04'',
     end_exclusive = JString ''2026-08-15'', rate = ''27.80'', cap = None, low_price_threshold = None,
     applicability_regime = None, source_ids = [''SEC'']\<rparr>"
  "search_rows ''FINRA_TAF'' ''2020-02-29'' (2020, 2, 29) (ex_taf_row # rows) = Inr \<lparr>authority = ''FINRA_TAF'',
     effective_date = ''2020-02-29'', interval_id = JString ''F1'', start_inclusive = JString ''2010-01-04'',
     end_exclusive = JString ''2026-08-15'', rate = ''0.000166'', cap = Some ''8.30'', low_price_threshold = None,
     applicability_regime = Some ''R'', source_ids = [''FINRA'']\<rparr>"
  by (simp_all add: ex_row_def ex_taf_row_def json_get_def ex_dates [folded parse_effective_date_eq] row_result_def strings_of_def
      optional_text_def)

lemma ex_lookup:
  "lookup_regulatory_fee_schedule (Inr ex_schedule) (JString ''SEC_SECTION_31'') (JString ''2020-02-29'')
     = search_rows ''SEC_SECTION_31'' ''2020-02-29'' (2020, 2, 29) (ex_row # replicate 19 ex_row)"
  "lookup_regulatory_fee_schedule (Inr ex_schedule) (JString ''FINRA_TAF'') (JString ''2020-02-29'')
     = search_rows ''FINRA_TAF'' ''2020-02-29'' (2020, 2, 29) (ex_taf_row # replicate 8 ex_taf_row)"
  by (simp_all add: lookup_regulatory_fee_schedule_def validate_request_def ex_dates resolve_from_config_def ex_schedule_def
      json_get_def SCHEDULE_START_def SCHEDULE_END_def numeral_eq_Suc del: search_rows.simps)

definition ex_charged :: asymmetric_rebalance_result where
  "ex_charged = \<lparr>base = ex_result, result_trade_date = ''2020-02-29'',
     regulatory_fee_lines = [\<lparr>line_trade_date = ''2020-02-29'', line_security_id = ''A'', sold_shares = 4,
       line_execution_price = 50, sold_notional = 200, sec31_interval_id = JString ''S1'',
       sec31_rate_per_million = ''27.80'', sec31_raw = 139 / 25000, finra_interval_id = JString ''F1'',
       finra_taf_rate_per_share = ''0.000166'', finra_taf_cap = Some ''8.30'', finra_low_price_threshold = None,
       finra_taf_raw = 83 / 125000, finra_cap_applied = False, finra_low_price_excluded = False,
       total_raw = 389 / 62500, ledger_amount = 389 / 62500\<rparr>],
     regulatory_fees_total = 389 / 62500,
     after_fees = ex_after\<lparr>cash := 201890981 / 200000 - 389 / 62500\<rparr>\<rparr>"

lemma ex_rates: "dec_of_text ''27.80'' = Some (Finite (139 / 5))" "dec_of_text ''0.000166'' = Some (Finite (83 / 500000))"
  "dec_of_text ''8.30'' = Some (Finite (83 / 10))"
  by (simp_all add: dec_of_text_def to_lower_def split_sign_def is_digit_def less_eq_char_def exponent_part_def digits_value_def
      digit_value_def power_int_minus eval_simps cong: eval_congs)

lemma ex_fee_line:
  "sell_side_regulatory_fee (Inr ex_schedule) ''2020-02-29'' ''A'' (PDecimal 4) (PDecimal 50) COVERAGE_SUPPORTED
     = Inr (hd (regulatory_fee_lines ex_charged))"
  by (simp add: sell_side_regulatory_fee_def ex_lookup ex_search FINRA_AUTHORITY_def SEC_AUTHORITY_def fee_dec_def
      fee_limit_def below_limit_def above_limit_def MILLION_def fee_q_def taf_fee_def sec31_fee_def FEE_PREC_def
      dec_of_str_of_def ex_rates ex_charged_def eval_simps del: search_rows.simps cong: eval_congs)

lemma ex_charge:
  "rebalance_with_regulatory_fees (Inr ex_schedule) ex_before ex_fills ''2020-02-29'' (PInt 10) ex_policy None None
     = Inr ex_charged"
proof -
  have "dec 60 4 = 4" "dec 60 (389 / 62500) = 389 / 62500" by (simp_all add: eval_simps cong: eval_congs)
  then have "fold_res (fee_step (Inr ex_schedule) ''2020-02-29'') ([], 0) (result_trades ex_result)
      = Inr (regulatory_fee_lines ex_charged, 389 / 62500)"
    by (simp add: ex_result_def ex_fills_def ex_trade_def fee_step_def FEE_PREC_def ex_fee_line)
      (simp add: ex_charged_def)
  then show ?thesis
    by (simp add: rebalance_with_regulatory_fees_def ex_rebalance ex_charged_def fee_q_def FEE_PREC_def)
      (simp add: ex_result_def ex_after_def ex_ledger_defs eval_simps cong: eval_congs)
qed

section \<open>Properties of the charged rebalance\<close>

text \<open>
  C35: a rebalance with regulatory fees is the canonical rebalance plus one cash line. It reports one
  fee line for every sell and none for a buy, in the order of the fills, each posted within half a
  currency quantum of its unrounded fee; the total is the exact sum of the posted lines, cash falls by
  exactly that total and stays non-negative, and positions, marks and receivables are those of the
  canonical rebalance: no trade is rescaled to pay the fees.
\<close>

theorem fees_are_one_cash_line:
  assumes "rebalance_with_regulatory_fees load pre fills day c pol ma ra = Inr r"
    and "sum_list (map (\<lambda>fl. \<bar>ledger_amount fl\<bar>) (regulatory_fee_lines r)) < 10 ^ 51"
  shows "rebalance pre fills c pol (PInt 0) ma ra = Inr (base r)
    \<and> list_all2 (line_for day) (filter (\<lambda>t. delta_shares t < 0) fills) (regulatory_fee_lines r)
    \<and> regulatory_fees_total r = sum_list (map ledger_amount (regulatory_fee_lines r))
    \<and> cash (after_fees r) = cash (result_after (base r)) - regulatory_fees_total r \<and> 0 \<le> cash (after_fees r)
    \<and> positions (after_fees r) = positions (result_after (base r))
    \<and> raw_marks (after_fees r) = raw_marks (result_after (base r))
    \<and> receivables (after_fees r) = receivables (result_after (base r))"
  using fees_rebalance [OF assms] by (auto simp: fees_of_def wf_portfolio_def)

lemma ex_charged_small: "sum_list (map (\<lambda>fl. \<bar>ledger_amount fl\<bar>) (regulatory_fee_lines ex_charged)) < 10 ^ 51"
  by (simp add: ex_charged_def)

theorem fees_are_one_cash_line_witness:
  "cash (after_fees ex_charged) = cash ex_after - 389 / 62500 \<and> positions (after_fees ex_charged) = positions ex_after"
  using fees_are_one_cash_line [OF ex_charge ex_charged_small] by (simp add: ex_charged_def ex_result_def)

text \<open>
  the extended identity holds without a residual of its own. For values below \<open>10 ^ 18\<close> the
  value after fees is the value of the canonical rebalance less the fees, and the extended residual is
  the residual of the canonical check rounded to the currency quantum, so that charging the fees never
  makes the check fail.
\<close>

theorem extended_identity_adds_no_residual:
  assumes "rebalance_with_regulatory_fees load pre fills day c pol ma ra = Inr r"
    and "sum_list (map (\<lambda>fl. \<bar>ledger_amount fl\<bar>) (regulatory_fee_lines r)) < 10 ^ 51"
    and "positive_marks (raw_marks (result_after (base r)))"
    and "nav (result_after (base r)) = Inr nb" "nav (after_fees r) = Inr na" "nb < 10 ^ 18" "na < 10 ^ 18"
  shows "na = nb - regulatory_fees_total r
    \<and> asymmetric_self_financing_error 28 r = rbind (self_financing_error 28 (base r)) (quantize 28 (- 8))"
proof -
  note n = fees_nav [OF assms(1-5)]
  have na: "dec 28 na = na" using n assms(7) by (intro dec28_amount) auto
  have "dec 28 (e + 0) = e" if "self_financing_error 28 (base r) = Inr e" for e
    using that by (auto simp: self_financing_error_def Let_def dec28.rnd_rnd elim!: res_elims)
  then show ?thesis
    using n(1) na assms(4,5)
    by (cases "self_financing_error 28 (base r)")
      (auto simp: asymmetric_self_financing_error_def fee_q_def INTERNAL_CURRENCY_QUANTUM_def dec28.rnd_zero)
qed

theorem extended_identity_adds_no_residual_witness:
  "asymmetric_self_financing_error 28 ex_charged = rbind (self_financing_error 28 ex_result) (quantize 28 (- 8))"
proof -
  have after: "nav (after_fees ex_charged) = Inr (300409981 / 200000 - 389 / 62500)"
    by (simp add: ex_charged_def eval_simps ex_ledger_defs ex_after_def cong: eval_congs)
  have b: "base ex_charged = ex_result" "result_after ex_result = ex_after"
    by (simp_all add: ex_charged_def ex_result_def)
  have "positive_marks (raw_marks ex_after)" by (simp add: ex_after_def ex_ledger_defs positive_marks_def)
  then have "positive_marks (raw_marks (result_after (base ex_charged)))"
    "nav (result_after (base ex_charged)) = Inr (300409981 / 200000)" by (simp_all add: b ex_navs(2))
  from extended_identity_adds_no_residual [OF ex_charge ex_charged_small this after] show ?thesis by (simp add: b)
qed

end
