(* ===== verification/Provider_Plan.thy ===== *)
theory Provider_Plan
  imports Intervals Equations
begin

text \<open>
  The evidence records of the data provider's plans, \<open>qme/data/alpha_vantage/plan_v1.py\<close>: which
  rate, burst and caps apply, from which day to which day, and the resolution of the one plan that is
  effective at an instant. Rates and bursts are finite floats, calendar days are proleptic Gregorian
  ordinals, and an instant counts microseconds from the start of day 1 in UTC. A dataclass that checks
  itself is a record and a \<open>post_init\<close> function that returns it or raises.
\<close>

definition PLAN_SCHEMA_VERSION :: string where "PLAN_SCHEMA_VERSION = ''qme.av_provider_plan.v1''"
definition PROVIDER_ID :: string where "PROVIDER_ID = ''alpha_vantage''"
definition PROVIDER_VERSION :: string where "PROVIDER_VERSION = ''alphavantage.co/query/v1''"

definition SOURCE_KINDS :: "string list" where
  "SOURCE_KINDS = [''OWNER_STATEMENT'', ''OWNER_DECISION_RECORD'', ''PROVIDER_DOCUMENTATION'',
     ''OWNER_DECISION_AND_PROVIDER_DOCUMENTATION'', ''TEST_CONSTRUCTED'']"

definition ProviderPlanError :: "string \<Rightarrow> py_exc" where
  "ProviderPlanError m = Raised ''ProviderPlanError'' m"

section \<open>Calendar days\<close>

definition days_before_year :: "int \<Rightarrow> int" where
  "days_before_year y = (y - 1) * 365 + (y - 1) div 4 - (y - 1) div 100 + (y - 1) div 400"

definition days_before_month :: "int \<Rightarrow> int \<Rightarrow> int" where
  "days_before_month y m = sum_list (map (days_in_month y) [1..m - 1])"

definition MAX_ORDINAL :: int where "MAX_ORDINAL = 3652059"

definition valid_day :: "int \<Rightarrow> int option" where
  "valid_day n = (if 1 \<le> n \<and> n \<le> MAX_ORDINAL then Some n else None)"

definition calendar_ordinal :: "int \<Rightarrow> int \<Rightarrow> int \<Rightarrow> int option" where
  "calendar_ordinal y m d =
     (if 1 \<le> y \<and> 1 \<le> m \<and> m \<le> 12 \<and> 1 \<le> d \<and> d \<le> days_in_month y m
      then valid_day (days_before_year y + days_before_month y m + d) else None)"

text \<open>Day \<open>d\<close> of week \<open>w\<close> of the ISO year \<open>y\<close>; weekday 0 is a Monday.\<close>

definition first_weekday :: "int \<Rightarrow> int" where
  "first_weekday y = (days_before_year y + 7) mod 7"

definition week1_monday :: "int \<Rightarrow> int" where
  "week1_monday y = days_before_year y + 1 - first_weekday y + (if first_weekday y > 3 then 7 else 0)"

definition iso_weeks :: "int \<Rightarrow> int" where
  "iso_weeks y = (if first_weekday y = 3 \<or> (first_weekday y = 2 \<and> leap_year y) then 53 else 52)"

definition iso_ordinal :: "int \<Rightarrow> int \<Rightarrow> int \<Rightarrow> int option" where
  "iso_ordinal y w d =
     (if 1 \<le> y \<and> 1 \<le> w \<and> w \<le> iso_weeks y \<and> 1 \<le> d \<and> d \<le> 7
      then valid_day (week1_monday y + (w - 1) * 7 + d - 1) else None)"

definition read_digits :: "nat \<Rightarrow> string \<Rightarrow> (int \<times> string) option" where
  "read_digits n s = (if n \<le> length s \<and> list_all is_digit (take n s)
     then Some (digits_value (take n s), drop n s) else None)"

text \<open>
  \<open>date.fromisoformat\<close> on an ASCII text: the calendar and the week forms, with separators or
  without. After a week form the parser does not look whether the text has ended.
\<close>

definition date_fromisoformat :: "string \<Rightarrow> int option" where
  "date_fromisoformat s =
     (if length s \<notin> {7, 8, 10} then None
      else (case read_digits 4 s of
        None \<Rightarrow> None
      | Some (y, r) \<Rightarrow>
          let sep = (take 1 r = ''-''); r1 = (if sep then drop 1 r else r)
          in if take 1 r1 = ''W''
             then (case read_digits 2 (drop 1 r1) of
                 None \<Rightarrow> None
               | Some (w, r2) \<Rightarrow>
                   if r2 = [] then iso_ordinal y w 1
                   else if sep \<and> take 1 r2 \<noteq> ''-'' then None
                   else (case read_digits 1 (if sep then drop 1 r2 else r2) of
                       None \<Rightarrow> None
                     | Some (d, r3) \<Rightarrow> iso_ordinal y w d))
             else (case read_digits 2 r1 of
                 None \<Rightarrow> None
               | Some (m, r2) \<Rightarrow>
                   if sep \<and> take 1 r2 \<noteq> ''-'' then None
                   else (case read_digits 2 (if sep then drop 1 r2 else r2) of
                       None \<Rightarrow> None
                     | Some (d, r3) \<Rightarrow> if r3 = [] then calendar_ordinal y m d else None))))"

definition plan_date :: "string \<Rightarrow> string \<Rightarrow> int res" where
  "plan_date value what = (case date_fromisoformat value of
     None \<Rightarrow> Inl (ProviderPlanError (what @ '' must be an ISO YYYY-MM-DD date''))
   | Some day \<Rightarrow> Inr day)"

definition DAY_MICROSECONDS :: int where "DAY_MICROSECONDS = 86400000000"

text \<open>\<open>astimezone(UTC)\<close> of an aware instant, and the day it falls on.\<close>

definition astimezone_utc :: "int \<Rightarrow> int res" where
  "astimezone_utc t = (if 0 \<le> t \<and> t < MAX_ORDINAL * DAY_MICROSECONDS then Inr t
     else Inl (Raised ''OverflowError'' ''date value out of range''))"

definition utc_day :: "int \<Rightarrow> int" where
  "utc_day t = t div DAY_MICROSECONDS + 1"

section \<open>Plan records\<close>

record endpoint_quota =
  quota_endpoint :: string
  quota_requests_per_minute :: "rat option"
  quota_burst :: "rat option"
  quota_daily_cap :: "int option"

definition below :: "'a::linorder option \<Rightarrow> 'a \<Rightarrow> bool" where
  "below v bound = (case v of None \<Rightarrow> False | Some x \<Rightarrow> x < bound)"

definition endpoint_quota_post_init :: "endpoint_quota \<Rightarrow> endpoint_quota res" where
  "endpoint_quota_post_init q =
     (if quota_endpoint q = [] \<or> quota_endpoint q \<noteq> strip (quota_endpoint q)
      then Inl (ProviderPlanError ''endpoint override name is not canonical'')
      else if (case quota_requests_per_minute q of None \<Rightarrow> False | Some x \<Rightarrow> x \<le> 0)
      then Inl (ProviderPlanError ''requests_per_minute must be > 0'')
      else if below (quota_burst q) 1 then Inl (ProviderPlanError ''burst must be >= 1'')
      else if below (quota_daily_cap q) 1 then Inl (ProviderPlanError ''daily_cap must be >= 1'')
      else Inr q)"

record provider_plan =
  plan_id :: string
  plan_name :: string
  plan_source_kind :: string
  plan_source :: string
  plan_source_reference :: string
  plan_effective_date :: string
  requests_per_minute :: rat
  plan_burst :: rat
  plan_daily_cap :: "int option"
  expires_after :: "string option"
  provider_id :: string
  provider_version :: string
  schema_version :: string
  endpoint_overrides :: "endpoint_quota list"

definition add_override :: "string list \<Rightarrow> endpoint_quota \<Rightarrow> string list res" where
  "add_override seen q = (if quota_endpoint q \<in> set seen then Inl (ProviderPlanError ''duplicate endpoint override'')
     else Inr (quota_endpoint q # seen))"

definition expiry_checked :: "provider_plan \<Rightarrow> int \<Rightarrow> unit res" where
  "expiry_checked p effective = (case expires_after p of
     None \<Rightarrow> Inr ()
   | Some e \<Rightarrow> rbind (plan_date e ''expires_after'') (\<lambda>expires.
       require (\<not> expires < effective) (ProviderPlanError ''expires_after precedes effective_date'')))"

definition provider_plan_post_init :: "provider_plan \<Rightarrow> provider_plan res" where
  "provider_plan_post_init p =
     (if strip (plan_id p) = [] then Inl (ProviderPlanError ''plan_id must be non-empty'')
      else if strip (plan_name p) = [] then Inl (ProviderPlanError ''plan_name must be non-empty'')
      else if plan_source_kind p \<notin> set SOURCE_KINDS then Inl (ProviderPlanError ''source_kind is not registered'')
      else if strip (plan_source p) = [] then Inl (ProviderPlanError ''source must state where the numbers came from'')
      else if strip (plan_source_reference p) = []
      then Inl (ProviderPlanError ''source_reference must cite a document or URL'')
      else if schema_version p \<noteq> PLAN_SCHEMA_VERSION then Inl (ProviderPlanError ''unsupported schema_version'')
      else if provider_id p \<noteq> PROVIDER_ID then Inl (ProviderPlanError ''provider_id is not the provider'')
      else if strip (provider_version p) = [] then Inl (ProviderPlanError ''provider_version must be non-empty'')
      else
      rbind (plan_date (plan_effective_date p) ''effective_date'') (\<lambda>effective.
      rbind (expiry_checked p effective) (\<lambda>_.
      if requests_per_minute p \<le> 0 then Inl (ProviderPlanError ''requests_per_minute (R) must be > 0'')
      else if plan_burst p < 1 then Inl (ProviderPlanError ''burst (B) must be >= 1'')
      else if below (plan_daily_cap p) 1 then Inl (ProviderPlanError ''daily_cap must be >= 1 or None'')
      else rbind (fold_res add_override [] (endpoint_overrides p)) (\<lambda>_. Inr p))))"

section \<open>Derived numbers\<close>

definition refill_rate_per_second :: "provider_plan \<Rightarrow> rat" where
  "refill_rate_per_second p = b64 (requests_per_minute p / 60)"

definition override_for :: "provider_plan \<Rightarrow> string \<Rightarrow> endpoint_quota option" where
  "override_for p endpoint = first_match (\<lambda>q. quota_endpoint q = endpoint) (endpoint_overrides p)"

definition endpoint_rate_per_second :: "provider_plan \<Rightarrow> string \<Rightarrow> rat" where
  "endpoint_rate_per_second p endpoint =
     (case Option.bind (override_for p endpoint) quota_requests_per_minute of
        Some r \<Rightarrow> b64 (r / 60) | None \<Rightarrow> refill_rate_per_second p)"

definition endpoint_burst :: "provider_plan \<Rightarrow> string \<Rightarrow> rat" where
  "endpoint_burst p endpoint =
     (case Option.bind (override_for p endpoint) quota_burst of Some b \<Rightarrow> b | None \<Rightarrow> plan_burst p)"

definition endpoint_daily_cap :: "provider_plan \<Rightarrow> string \<Rightarrow> int option" where
  "endpoint_daily_cap p endpoint = Option.bind (override_for p endpoint) quota_daily_cap"

definition is_effective_on :: "provider_plan \<Rightarrow> int \<Rightarrow> bool res" where
  "is_effective_on p day =
     rbind (plan_date (plan_effective_date p) ''effective_date'') (\<lambda>start.
       if day < start then Inr False
       else (case expires_after p of
          None \<Rightarrow> Inr True
        | Some e \<Rightarrow> rbind (plan_date e ''expires_after'') (\<lambda>stop. Inr (day \<le> stop))))"

section \<open>The registry\<close>

definition PREMIUM_BURST_2026_08 :: provider_plan where
  "PREMIUM_BURST_2026_08 = \<lparr>
     plan_id = ''alphavantage-premium-75rpm-2026-08'',
     plan_name = ''Alpha Vantage premium (one-month M0 burst)'',
     plan_source_kind = ''OWNER_DECISION_AND_PROVIDER_DOCUMENTATION'',
     plan_source =
       ''Owner decision of 2026-08-12 to purchase one month of Alpha Vantage premium '' @
       ''scoped to M0-blocker evidence and then cancel (M0_CLOSEOUT_EXECUTION_PLAN '' @
       ''2026-08-12 section 6.4); premium rate of 75 requests per minute with no daily '' @
       ''limit as recorded in momentum_strategy_audit.md from the Alpha Vantage premium '' @
       ''pricing page. expires_after is the one-month bound implied by that decision.'',
     plan_source_reference =
       ''docs/implementation/M0_CLOSEOUT_EXECUTION_PLAN_2026-08-12.md#64 ; '' @
       ''momentum_strategy_audit.md ; https://www.alphavantage.co/premium/'',
     plan_effective_date = ''2026-08-12'',
     requests_per_minute = 75,
     plan_burst = 75,
     plan_daily_cap = None,
     expires_after = Some ''2026-09-12'',
     provider_id = PROVIDER_ID,
     provider_version = PROVIDER_VERSION,
     schema_version = PLAN_SCHEMA_VERSION,
     endpoint_overrides = []\<rparr>"

definition REGISTERED_PLANS :: "provider_plan list" where
  "REGISTERED_PLANS = [PREMIUM_BURST_2026_08]"

record plan_window =
  win_start :: int
  win_end :: "int option"
  win_plan :: string

record registry_state =
  identifiers :: "string list"
  windows :: "plan_window list"

definition optional_date :: "string option \<Rightarrow> int option res" where
  "optional_date e = (case e of None \<Rightarrow> Inr None
     | Some s \<Rightarrow> rbind (plan_date s ''expires_after'') (\<lambda>d. Inr (Some d)))"

definition register_plan :: "registry_state \<Rightarrow> provider_plan \<Rightarrow> registry_state res" where
  "register_plan st p =
     (if plan_id p \<in> set (identifiers st) then Inl (ProviderPlanError ''duplicate plan_id in registry'')
      else rbind (plan_date (plan_effective_date p) ''effective_date'') (\<lambda>start.
           rbind (optional_date (expires_after p)) (\<lambda>stop.
             Inr \<lparr>identifiers = plan_id p # identifiers st,
                  windows = windows st @ [\<lparr>win_start = start, win_end = stop, win_plan = plan_id p\<rparr>]\<rparr>)))"

fun windows_checked :: "plan_window list \<Rightarrow> unit res" where
  "windows_checked (a # b # ws) =
     (if (case win_end a of None \<Rightarrow> True | Some e \<Rightarrow> win_start b \<le> e)
      then Inl (ProviderPlanError ''plan windows overlap'') else windows_checked (b # ws))"
| "windows_checked ws = Inr ()"

definition validate_registry :: "provider_plan list \<Rightarrow> unit res" where
  "validate_registry plans =
     (if plans = [] then Inl (ProviderPlanError ''no provider-plan evidence is registered'')
      else rbind (fold_res register_plan \<lparr>identifiers = [], windows = []\<rparr> plans) (\<lambda>st.
           windows_checked (sort_key win_start (windows st))))"

fun effective_plans :: "int \<Rightarrow> provider_plan list \<Rightarrow> provider_plan list res" where
  "effective_plans day [] = Inr []"
| "effective_plans day (p # ps) = rbind (is_effective_on p day) (\<lambda>e.
     rbind (effective_plans day ps) (\<lambda>rest. Inr (if e then p # rest else rest)))"

definition resolve_plan :: "pydatetime \<Rightarrow> provider_plan list \<Rightarrow> string option \<Rightarrow> provider_plan res" where
  "resolve_plan requested_at plans wanted = (case requested_at of
     Naive _ \<Rightarrow> Inl (ProviderPlanError ''requested_at must be a timezone-aware datetime'')
   | Aware t \<Rightarrow>
       rbind (validate_registry plans) (\<lambda>_.
       rbind (astimezone_utc t) (\<lambda>moment.
       rbind (effective_plans (utc_day moment) plans) (\<lambda>effective.
       let chosen = (case wanted of None \<Rightarrow> effective | Some i \<Rightarrow> filter (\<lambda>p. plan_id p = i) effective)
       in if wanted \<noteq> None \<and> chosen = []
          then Inl (ProviderPlanError ''plan is not registered or is not effective'')
          else if chosen = [] then Inl (ProviderPlanError ''no registered plan evidence is effective'')
          else if length chosen > 1 then Inl (ProviderPlanError ''ambiguous plan evidence'')
          else Inr (hd chosen)))))"

end
