(* ===== verification/Quota.thy ===== *)
theory Quota
  imports Provider_Plan
begin

text \<open>
  Token-bucket accounting of the requests to the data provider, \<open>qme/data/alpha_vantage/quota.py\<close>. A
  bucket and the ledger are states, their methods are actions that return a value or raise, and what a
  method changed before it raised stays changed. The clock is read at most twice: the first reading is an
  argument, and a sleep is the function from the seconds slept to the reading after it. Every float
  operation rounds to binary64; a timestamp in a result is its instant.
\<close>

definition NO_WAIT :: rat where "NO_WAIT = 0"

definition QuotaError :: "string \<Rightarrow> py_exc" where "QuotaError m = Raised ''QuotaError'' m"
definition QuotaExhaustedError :: "string \<Rightarrow> py_exc" where "QuotaExhaustedError m = Raised ''QuotaExhaustedError'' m"
definition QuotaUnavailableError :: "string \<Rightarrow> py_exc" where "QuotaUnavailableError m = Raised ''QuotaUnavailableError'' m"

definition require_aware :: "pydatetime \<Rightarrow> string \<Rightarrow> int res" where
  "require_aware moment what = (case moment of
     Naive _ \<Rightarrow> Inl (QuotaError (what @ '' must be a timezone-aware datetime''))
   | Aware t \<Rightarrow> astimezone_utc t)"

section \<open>Buckets\<close>

record token_bucket =
  rate_per_second :: rat
  burst :: rat
  tokens :: rat
  updated_at :: "int option"

text \<open>The start of a bucket is an instant here, so the constructor has no naive time to refuse.\<close>

definition token_bucket_post_init :: "token_bucket \<Rightarrow> token_bucket res" where
  "token_bucket_post_init b =
     (if rate_per_second b \<le> 0 then Inl (QuotaError ''rate_per_second (R) must be > 0'')
      else if burst b < 1 then Inl (QuotaError ''burst (B) must be >= 1'')
      else Inr b)"

definition full_bucket :: "rat \<Rightarrow> rat \<Rightarrow> pydatetime \<Rightarrow> token_bucket res" where
  "full_bucket r bst started =
     rbind (require_aware started ''started_at'') (\<lambda>t.
       token_bucket_post_init \<lparr>rate_per_second = r, burst = bst, tokens = bst, updated_at = Some t\<rparr>)"

definition total_seconds :: "int \<Rightarrow> rat" where
  "total_seconds us = b64 (of_int us / 1000000)"

definition tokens_at :: "pydatetime \<Rightarrow> (token_bucket, rat) act" where
  "tokens_at now b = (case require_aware now ''now'' of
     Inl e \<Rightarrow> (b, Inl e)
   | Inr moment \<Rightarrow> (case updated_at b of
       None \<Rightarrow> (b\<lparr>updated_at := Some moment, tokens := burst b\<rparr>, Inr (burst b))
     | Some t \<Rightarrow>
         let elapsed = total_seconds (moment - t)
         in if elapsed < 0 then (b, Inl (QuotaError ''clock moved backwards; refusing to invent quota''))
            else (b, Inr (min (burst b) (b64 (tokens b + b64 (rate_per_second b * elapsed)))))))"

definition seconds_until :: "pydatetime \<Rightarrow> rat \<Rightarrow> (token_bucket, rat) act" where
  "seconds_until now amount b =
     (if amount > burst b then (b, Inl (QuotaError ''cannot ever grant the tokens from the bucket''))
      else act_bind (tokens_at now) (\<lambda>available.
        if available \<ge> amount then act_return NO_WAIT
        else (\<lambda>b. (b, Inr (b64 (b64 (amount - available) / rate_per_second b))))) b)"

definition consume :: "pydatetime \<Rightarrow> rat \<Rightarrow> (token_bucket, rat) act" where
  "consume now amount =
     act_bind (act_res (require_aware now ''now'')) (\<lambda>moment.
     act_bind (tokens_at (Aware moment)) (\<lambda>available.
       if available < amount then act_raise (QuotaUnavailableError ''token bucket has too few tokens'')
       else (\<lambda>b. (b\<lparr>tokens := b64 (available - amount), updated_at := Some moment\<rparr>, Inr (b64 (available - amount))))))"

section \<open>The ledger\<close>

record quota_grant =
  grant_endpoint :: string
  granted_at :: int
  waited_seconds :: rat
  tokens_remaining :: rat
  grant_daily_used :: int
  grant_daily_cap :: "int option"

record quota_ledger =
  ledger_plan :: provider_plan
  started_at :: int
  shared_bucket :: token_bucket
  endpoint_buckets :: "(string, token_bucket) dict"
  granted_total :: int
  daily_counts :: "(int, int) dict"
  endpoint_counts :: "(int \<times> string, int) dict"

definition mk_quota_ledger :: "provider_plan \<Rightarrow> pydatetime \<Rightarrow> quota_ledger res" where
  "mk_quota_ledger p started =
     rbind (require_aware started ''started_at'') (\<lambda>start.
     rbind (full_bucket (refill_rate_per_second p) (plan_burst p) (Aware start)) (\<lambda>b.
       Inr \<lparr>ledger_plan = p, started_at = start, shared_bucket = b, endpoint_buckets = [],
            granted_total = 0, daily_counts = [], endpoint_counts = []\<rparr>))"

definition on_bucket :: "(token_bucket, 'a) act \<Rightarrow> (quota_ledger, 'a) act" where
  "on_bucket m l = (case m (shared_bucket l) of (b, r) \<Rightarrow> (l\<lparr>shared_bucket := b\<rparr>, r))"

definition on_endpoint :: "string \<Rightarrow> token_bucket \<Rightarrow> (token_bucket, 'a) act \<Rightarrow> (quota_ledger, 'a) act" where
  "on_endpoint endpoint b m l =
     (case m b of (b', r) \<Rightarrow> (l\<lparr>endpoint_buckets := dict_set (endpoint_buckets l) endpoint b'\<rparr>, r))"

definition endpoint_bucket :: "string \<Rightarrow> (quota_ledger, token_bucket option) act" where
  "endpoint_bucket endpoint l = (case override_for (ledger_plan l) endpoint of
     None \<Rightarrow> (l, Inr None)
   | Some q \<Rightarrow>
       if quota_requests_per_minute q = None \<and> quota_burst q = None then (l, Inr None)
       else (case dict_get (endpoint_buckets l) endpoint of
         Some b \<Rightarrow> (l, Inr (Some b))
       | None \<Rightarrow> (case full_bucket (endpoint_rate_per_second (ledger_plan l) endpoint)
                     (endpoint_burst (ledger_plan l) endpoint) (Aware (started_at l)) of
           Inl e \<Rightarrow> (l, Inl e)
         | Inr b \<Rightarrow> (l\<lparr>endpoint_buckets := dict_set (endpoint_buckets l) endpoint b\<rparr>, Inr (Some b)))))"

definition daily_used :: "quota_ledger \<Rightarrow> pydatetime \<Rightarrow> int res" where
  "daily_used l now = rbind (require_aware now ''now'') (\<lambda>t. Inr (dict_get_or (daily_counts l) (utc_day t) 0))"

definition endpoint_daily_used :: "quota_ledger \<Rightarrow> string \<Rightarrow> pydatetime \<Rightarrow> int res" where
  "endpoint_daily_used l endpoint now =
     rbind (require_aware now ''now'') (\<lambda>t. Inr (dict_get_or (endpoint_counts l) (utc_day t, endpoint) 0))"

definition cap_spent :: "int option \<Rightarrow> int \<Rightarrow> bool" where
  "cap_spent cap used = (case cap of None \<Rightarrow> False | Some c \<Rightarrow> used \<ge> c)"

definition check_caps :: "string \<Rightarrow> int \<Rightarrow> (quota_ledger, unit) act" where
  "check_caps endpoint now l =
     (let day = utc_day now in
      if cap_spent (plan_daily_cap (ledger_plan l)) (dict_get_or (daily_counts l) day 0)
      then (l, Inl (QuotaExhaustedError ''daily cap is spent''))
      else if cap_spent (endpoint_daily_cap (ledger_plan l) endpoint) (dict_get_or (endpoint_counts l) (day, endpoint) 0)
      then (l, Inl (QuotaExhaustedError ''daily cap for endpoint is spent''))
      else (l, Inr ()))"

definition seconds_until_available :: "string \<Rightarrow> pydatetime \<Rightarrow> (quota_ledger, rat) act" where
  "seconds_until_available endpoint now =
     act_bind (act_res (require_aware now ''now'')) (\<lambda>moment.
     act_bind (on_bucket (seconds_until (Aware moment) 1)) (\<lambda>wait.
     act_bind (endpoint_bucket endpoint) (\<lambda>eb. case eb of
         None \<Rightarrow> act_return wait
       | Some b \<Rightarrow> act_bind (on_endpoint endpoint b (seconds_until (Aware moment) 1)) (\<lambda>w. act_return (max wait w)))))"

definition count_grant :: "string \<Rightarrow> int \<Rightarrow> rat \<Rightarrow> rat \<Rightarrow> (quota_ledger, quota_grant) act" where
  "count_grant endpoint now waited remaining l =
     (let day = utc_day now;
          used = dict_get_or (daily_counts l) day 0 + 1
      in (l\<lparr>granted_total := granted_total l + 1, daily_counts := dict_set (daily_counts l) day used,
            endpoint_counts := dict_set (endpoint_counts l) (day, endpoint)
              (dict_get_or (endpoint_counts l) (day, endpoint) 0 + 1)\<rparr>,
          Inr \<lparr>grant_endpoint = endpoint, granted_at = now, waited_seconds = waited, tokens_remaining = remaining,
               grant_daily_used = used, grant_daily_cap = plan_daily_cap (ledger_plan l)\<rparr>))"

definition spend :: "string \<Rightarrow> int \<Rightarrow> rat \<Rightarrow> (quota_ledger, quota_grant) act" where
  "spend endpoint now waited =
     act_bind (on_bucket (consume (Aware now) 1)) (\<lambda>remaining.
     act_bind (endpoint_bucket endpoint) (\<lambda>eb.
     act_bind (case eb of None \<Rightarrow> act_return 0 | Some b \<Rightarrow> on_endpoint endpoint b (consume (Aware now) 1)) (\<lambda>_.
       count_grant endpoint now waited remaining)))"

text \<open>The second look at the caps and buckets, after a sleep of \<open>wait\<close> seconds.\<close>

definition after_sleep :: "string \<Rightarrow> pydatetime \<Rightarrow> rat \<Rightarrow> (quota_ledger, quota_grant) act" where
  "after_sleep endpoint clock wait =
     act_bind (act_res (require_aware clock ''clock()'')) (\<lambda>now.
     act_bind (check_caps endpoint now) (\<lambda>_.
     act_bind (seconds_until_available endpoint (Aware now)) (\<lambda>again.
       if again > 0 then act_raise (QuotaUnavailableError ''clock did not advance past the refill wait'')
       else spend endpoint now wait)))"

definition acquire ::
  "string \<Rightarrow> pydatetime \<Rightarrow> (rat \<Rightarrow> pydatetime) option \<Rightarrow> rat \<Rightarrow> (quota_ledger, quota_grant) act" where
  "acquire endpoint clock sleep max_wait =
     (if endpoint = [] \<or> endpoint \<noteq> strip endpoint then act_raise (QuotaError ''endpoint is not canonical'')
      else
      act_bind (act_res (require_aware clock ''clock()'')) (\<lambda>now.
      act_bind (check_caps endpoint now) (\<lambda>_.
      act_bind (seconds_until_available endpoint (Aware now)) (\<lambda>wait.
      if wait > 0
      then (case sleep of
          None \<Rightarrow> act_raise (QuotaUnavailableError ''no token available'')
        | Some clock_after \<Rightarrow>
            if wait > max_wait then act_raise (QuotaUnavailableError ''no token available'')
            else after_sleep endpoint (clock_after wait) wait)
      else spend endpoint now 0))))"

record quota_snapshot =
  observed_at :: int
  snapshot_plan_id :: string
  snapshot_requests_per_minute :: rat
  snapshot_burst :: rat
  snapshot_daily_cap :: "int option"
  tokens_available :: rat
  snapshot_granted_total :: int
  snapshot_daily_used :: int
  snapshot_day :: int
  snapshot_endpoint_daily_used :: "(string, int) dict"

definition snapshot :: "pydatetime \<Rightarrow> (quota_ledger, quota_snapshot) act" where
  "snapshot now =
     act_bind (act_res (require_aware now ''now'')) (\<lambda>moment.
     act_bind (on_bucket (tokens_at (Aware moment))) (\<lambda>available l.
       let day = utc_day moment in
       (l, Inr \<lparr>observed_at = moment, snapshot_plan_id = plan_id (ledger_plan l),
            snapshot_requests_per_minute = requests_per_minute (ledger_plan l),
            snapshot_burst = plan_burst (ledger_plan l), snapshot_daily_cap = plan_daily_cap (ledger_plan l),
            tokens_available = available, snapshot_granted_total = granted_total l,
            snapshot_daily_used = dict_get_or (daily_counts l) day 0, snapshot_day = day,
            snapshot_endpoint_daily_used =
              map (\<lambda>((used_day, endpoint), count). (endpoint, count))
                (filter (\<lambda>((used_day, endpoint), count). used_day = day) (sort_key fst (endpoint_counts l)))\<rparr>)))"

end
