(* ===== verification/Plan_Registry.thy ===== *)
theory Plan_Registry
  imports Provider_Plan
begin

text \<open>
  Properties of the plan registry: a validated registry has at most one effective plan on every day,
  so that the resolution is unique.
\<close>

section \<open>Windows\<close>

definition wf_window :: "plan_window \<Rightarrow> bool" where
  "wf_window w \<longleftrightarrow> (\<forall>e. win_end w = Some e \<longrightarrow> win_start w \<le> e)"

definition covers_day :: "int \<Rightarrow> plan_window \<Rightarrow> bool" where
  "covers_day day w \<longleftrightarrow> win_start w \<le> day \<and> (\<forall>e. win_end w = Some e \<longrightarrow> day \<le> e)"

lemma checked_windows_apart:
  "windows_checked (a # ws) = Inr () \<Longrightarrow> list_all wf_window ws \<Longrightarrow> w \<in> set ws \<Longrightarrow>
   \<exists>e. win_end a = Some e \<and> e < win_start w"
proof (induction ws arbitrary: a)
  case (Cons b ws)
  then obtain e where e: "win_end a = Some e" "e < win_start b" and rest: "windows_checked (b # ws) = Inr ()"
    by (auto split: if_splits option.splits)
  show ?case
  proof (cases "w = b")
    case False
    with Cons.IH [OF rest] Cons.prems obtain f where "win_end b = Some f" "f < win_start w" by auto
    moreover have "win_start b \<le> f" using Cons.prems(2) calculation(1) by (simp add: wf_window_def)
    ultimately show ?thesis using e by auto
  qed (use e in auto)
qed simp

lemma windows_checked_tl: "windows_checked (a # ws) = Inr () \<Longrightarrow> windows_checked ws = Inr ()"
  by (cases ws) (auto split: if_splits option.splits)

lemma one_window_covers:
  "windows_checked ws = Inr () \<Longrightarrow> list_all wf_window ws \<Longrightarrow> length (filter (covers_day day) ws) \<le> 1"
proof (induction ws)
  case (Cons a ws)
  show ?case
  proof (cases "covers_day day a")
    case True
    have "\<not> covers_day day w" if "w \<in> set ws" for w
      using checked_windows_apart [OF Cons.prems(1) _ that] Cons.prems(2) True by (auto simp: covers_day_def)
    then show ?thesis using True by (simp add: filter_empty_conv)
  qed (use Cons windows_checked_tl [OF Cons.prems(1)] in auto)
qed simp

section \<open>Registered plans\<close>

definition window_of :: "provider_plan \<Rightarrow> plan_window" where
  "window_of p = \<lparr>win_start = the (date_fromisoformat (plan_effective_date p)),
     win_end = map_option (\<lambda>e. the (date_fromisoformat e)) (expires_after p), win_plan = plan_id p\<rparr>"

lemma plan_date_Inr: "plan_date s what = Inr d \<longleftrightarrow> date_fromisoformat s = Some d"
  by (simp add: plan_date_def split: option.splits)

lemma post_init_dates:
  assumes "provider_plan_post_init p = Inr q"
  obtains d where "date_fromisoformat (plan_effective_date p) = Some d"
    "\<And>s. expires_after p = Some s \<Longrightarrow> \<exists>e. date_fromisoformat s = Some e \<and> d \<le> e"
proof -
  from assms obtain d where d: "plan_date (plan_effective_date p) ''effective_date'' = Inr d" "expiry_checked p d = Inr ()"
    unfolding provider_plan_post_init_def by (elim res_elims) auto
  show ?thesis
  proof (rule that)
    show "date_fromisoformat (plan_effective_date p) = Some d" using d(1) by (simp add: plan_date_Inr)
    show "\<exists>e. date_fromisoformat s = Some e \<and> d \<le> e" if "expires_after p = Some s" for s
      using d(2) that by (auto simp: expiry_checked_def plan_date_Inr not_less)
  qed
qed

lemma wf_window_of: "provider_plan_post_init p = Inr q \<Longrightarrow> wf_window (window_of p)"
  by (erule post_init_dates) (fastforce simp: wf_window_def window_of_def)

lemma is_effective_on_eq:
  "provider_plan_post_init p = Inr q \<Longrightarrow> is_effective_on p day = Inr (covers_day day (window_of p))"
  by (erule post_init_dates)
    (fastforce simp: is_effective_on_def covers_day_def window_of_def plan_date_def split: option.splits)

lemma register_plan_window:
  assumes "register_plan st p = Inr st'"
  shows "windows st' = windows st @ [window_of p]"
  using assms unfolding register_plan_def optional_date_def
  by (auto simp: plan_date_Inr window_of_def split: if_splits option.splits)

lemma registered_windows:
  "fold_res register_plan st ps = Inr st' \<Longrightarrow> windows st' = windows st @ map window_of ps"
  by (induction ps arbitrary: st) (auto dest: register_plan_window)

lemma validated_one_effective:
  assumes plans: "\<And>p. p \<in> set plans \<Longrightarrow> provider_plan_post_init p = Inr p" and v: "validate_registry plans = Inr ()"
  shows "length (filter (\<lambda>p. covers_day day (window_of p)) plans) \<le> 1"
proof -
  from v have "windows_checked (sort_key win_start (map window_of plans)) = Inr ()"
    by (auto simp: validate_registry_def dest!: registered_windows split: if_splits)
  moreover have "list_all wf_window (sort_key win_start (map window_of plans))"
    using plans wf_window_of by (auto simp: list_all_iff)
  ultimately have "length (filter (covers_day day) (sort_key win_start (map window_of plans))) \<le> 1"
    by (rule one_window_covers)
  then show ?thesis by (simp add: filter_sort filter_map o_def)
qed

lemma effective_plans_eq:
  "(\<And>p. p \<in> set plans \<Longrightarrow> provider_plan_post_init p = Inr p) \<Longrightarrow>
   effective_plans day plans = Inr (filter (\<lambda>p. covers_day day (window_of p)) plans)"
  by (induction plans) (auto simp: is_effective_on_eq)

section \<open>Properties of the registry\<close>

lemmas plan_evals = date_fromisoformat_def read_digits_def is_digit_def less_eq_char_def digits_value_def digit_value_def
  calendar_ordinal_def iso_ordinal_def valid_day_def MAX_ORDINAL_def days_before_year_def days_before_month_def
  days_in_month_def leap_year_def first_weekday_def week1_monday_def iso_weeks_def upto.simps Let_def

lemma ex_plan_dates: "date_fromisoformat ''2026-08-12'' = Some 739840" "date_fromisoformat ''2026-09-12'' = Some 739871"
  by (simp_all add: plan_evals)

lemmas plan_checks = provider_plan_post_init_def PREMIUM_BURST_2026_08_def SOURCE_KINDS_def PROVIDER_ID_def PROVIDER_VERSION_def
  PLAN_SCHEMA_VERSION_def expiry_checked_def plan_date_def ex_plan_dates below_def strip_def py_space_def

lemma premium_plan_valid: "provider_plan_post_init PREMIUM_BURST_2026_08 = Inr PREMIUM_BURST_2026_08"
  by (simp add: plan_checks)

text \<open>
  C36: in a registry whose plans passed their own checks and which passed its validation, at most one
  plan is effective on any day, so a lookup at an instant returns the plan effective on its UTC day, and
  when there is none it says so: the ambiguity error is never raised and no other plan is used.
\<close>

theorem resolve_plan_unique:
  assumes "list_all (\<lambda>p. provider_plan_post_init p = Inr p) plans"
    and "validate_registry plans = Inr ()" and "0 \<le> t" "t < MAX_ORDINAL * DAY_MICROSECONDS"
  shows "resolve_plan (Aware t) plans None =
      (case filter (\<lambda>p. is_effective_on p (utc_day t) = Inr True) plans of
         [] \<Rightarrow> Inl (ProviderPlanError ''no registered plan evidence is effective'')
       | p # _ \<Rightarrow> Inr p)
    \<and> length (filter (\<lambda>p. is_effective_on p (utc_day t) = Inr True) plans) \<le> 1"
proof -
  let ?F = "filter (\<lambda>p. covers_day (utc_day t) (window_of p)) plans"
  from assms(1) have plans: "\<And>p. p \<in> set plans \<Longrightarrow> provider_plan_post_init p = Inr p" by (simp add: list_all_iff)
  then have "filter (\<lambda>p. is_effective_on p (utc_day t) = Inr True) plans = ?F" by (intro filter_cong) (auto simp: is_effective_on_eq)
  moreover have one: "length ?F \<le> 1" by (rule validated_one_effective [OF plans assms(2)])
  moreover have "resolve_plan (Aware t) plans None =
      (case ?F of [] \<Rightarrow> Inl (ProviderPlanError ''no registered plan evidence is effective'') | p # _ \<Rightarrow> Inr p)"
    using assms effective_plans_eq [OF plans] one
    by (auto simp: resolve_plan_def astimezone_utc_def split: list.splits)
  ultimately show ?thesis by simp
qed

theorem resolve_plan_unique_witness:
  "resolve_plan (Aware (739850 * DAY_MICROSECONDS)) REGISTERED_PLANS None = Inr PREMIUM_BURST_2026_08"
proof -
  have v: "validate_registry REGISTERED_PLANS = Inr ()"
    by (simp add: validate_registry_def REGISTERED_PLANS_def register_plan_def optional_date_def plan_date_def
        PREMIUM_BURST_2026_08_def ex_plan_dates)
  have e: "is_effective_on PREMIUM_BURST_2026_08 739851 = Inr True"
    by (simp add: is_effective_on_def PREMIUM_BURST_2026_08_def plan_date_def ex_plan_dates)
  have "list_all (\<lambda>p. provider_plan_post_init p = Inr p) REGISTERED_PLANS"
    using premium_plan_valid by (simp add: REGISTERED_PLANS_def)
  from resolve_plan_unique [OF this v, of "739850 * DAY_MICROSECONDS"] e show ?thesis
    by (simp add: REGISTERED_PLANS_def utc_day_def DAY_MICROSECONDS_def MAX_ORDINAL_def)
qed

text \<open>
  The error message of a plan date asks for \<open>YYYY-MM-DD\<close>, but a basic form, a week form and a week
  form followed by other characters are dates as well.
\<close>

theorem plan_date_accepts_other_forms:
  "plan_date ''20260812'' w = Inr 739840" "plan_date ''2026-W33-3'' w = Inr 739840" "plan_date ''2026W333ab'' w = Inr 739840"
  by (simp_all add: plan_date_def plan_evals)

end
