(* ===== verification/Quota_Rules.thy ===== *)
theory Quota_Rules
  imports Quota Plan_Registry
begin

text \<open>
  Properties of the quota: what one request does to the ledger, the invariants of every sequence of
  requests (caps, totals, the rate bound with the rounding of binary64), and that a refused request
  leaves no trace. The locale \<open>run_invariant\<close> carries an invariant over all runs; its two
  interpretations are the caps and the rate.
\<close>

section \<open>Rounding\<close>

definition b64_unit :: rat where "b64_unit = 1 / 2 ^ 53"

lemma b64_relative_error: "\<bar>b64 x - x\<bar> \<le> \<bar>x\<bar> * b64_unit"
proof (cases "x = 0")
  case False
  have "\<bar>b64 x - x\<bar> \<le> 2 powi (adjusted 2 x + 1 - 53) / 2"
    unfolding b64_def using sig_round_error [of 2 x "adjusted 2 x + 1" 53] adjusted_bounds(2) [of 2 x] False by simp
  also have "\<dots> = 2 powi adjusted 2 x * b64_unit"
    by (simp add: b64_unit_def power_int_add power_int_diff)
  also have "\<dots> \<le> \<bar>x\<bar> * b64_unit"
    using adjusted_bounds(1) [of 2 x] False by (intro mult_right_mono) (auto simp: b64_unit_def)
  finally show ?thesis .
qed (simp add: b64.rnd_zero)

lemma b64_le: "0 \<le> x \<Longrightarrow> b64 x \<le> x * (1 + b64_unit)"
  using b64_relative_error [of x] by (simp add: algebra_simps abs_le_iff)

lemma b64_pos: "0 < x \<Longrightarrow> 0 < b64 x"
  by (simp add: b64_def sig_round_pos)

lemma b64_neg: "x < 0 \<Longrightarrow> b64 x < 0"
  using b64_pos [of "- x"] by (simp add: b64_def sig_round_minus)

lemma total_seconds_nonneg: "0 \<le> total_seconds us \<longleftrightarrow> 0 \<le> us"
  using b64_neg [of "of_int us / 1000000"] b64.rnd_nonneg [of "of_int us / 1000000"]
  by (auto simp: total_seconds_def not_less [symmetric])

section \<open>Buckets\<close>

definition wf_bucket :: "token_bucket \<Rightarrow> bool" where
  "wf_bucket b \<longleftrightarrow> 0 < rate_per_second b \<and> 1 \<le> burst b \<and> 0 \<le> tokens b \<and> updated_at b \<noteq> None"

text \<open>The tokens a bucket has at an instant, and the bucket after one of them is spent.\<close>

definition refill :: "token_bucket \<Rightarrow> int \<Rightarrow> rat" where
  "refill b m = min (burst b) (b64 (tokens b + b64 (rate_per_second b * total_seconds (m - the (updated_at b)))))"

definition spent :: "token_bucket \<Rightarrow> int \<Rightarrow> token_bucket" where
  "spent b m = b\<lparr>tokens := b64 (refill b m - 1), updated_at := Some m\<rparr>"

definition ready :: "token_bucket \<Rightarrow> int \<Rightarrow> bool" where
  "ready b m \<longleftrightarrow> (\<exists>t. updated_at b = Some t \<and> t \<le> m) \<and> 1 \<le> refill b m"

lemma astimezone_utc_Inr: "astimezone_utc t = Inr t' \<Longrightarrow> t' = t"
  by (auto simp: astimezone_utc_def split: if_splits)

lemma require_aware_Inr: "require_aware (Aware t) w = Inr t' \<Longrightarrow> t' = t"
  by (auto simp: require_aware_def astimezone_utc_Inr)

lemma full_bucket_Inr:
  "full_bucket r bst s = Inr b \<Longrightarrow> wf_bucket b \<and> tokens b = burst b \<and> burst b = bst \<and> rate_per_second b = r
    \<and> (\<exists>t. require_aware s ''started_at'' = Inr t \<and> updated_at b = Some t)"
  by (auto simp: full_bucket_def token_bucket_post_init_def wf_bucket_def not_less not_le split: if_splits)

lemma tokens_at_Inr:
  assumes "wf_bucket b" "tokens_at (Aware m) b = (b', Inr v)"
  shows "b' = b" "v = refill b m" "\<exists>t. updated_at b = Some t \<and> t \<le> m" "require_aware (Aware m) ''now'' = Inr m"
proof -
  obtain t where t: "updated_at b = Some t" using assms(1) by (auto simp: wf_bucket_def)
  from assms(2) have aware: "require_aware (Aware m) ''now'' = Inr m"
    by (cases "require_aware (Aware m) ''now''") (auto simp: tokens_at_def dest: require_aware_Inr)
  then show "require_aware (Aware m) ''now'' = Inr m" .
  show "b' = b" "v = refill b m" "\<exists>t. updated_at b = Some t \<and> t \<le> m"
    using assms(2) total_seconds_nonneg [of "m - t"]
    by (auto simp: tokens_at_def aware t refill_def Let_def not_less split: if_splits)
qed

lemma tokens_at_state: "wf_bucket b \<Longrightarrow> tokens_at now b = (b', r) \<Longrightarrow> b' = b"
  by (auto simp: tokens_at_def wf_bucket_def Let_def split: sum.splits option.splits if_splits)

lemma seconds_until_state: "wf_bucket b \<Longrightarrow> seconds_until now a b = (b', r) \<Longrightarrow> b' = b"
  by (auto simp: seconds_until_def act_bind_def dest: tokens_at_state split: if_splits prod.splits sum.splits)

lemma seconds_until_ready:
  assumes wf: "wf_bucket b" and s: "seconds_until (Aware m) 1 b = (b', Inr w)" and w: "w \<le> 0"
  shows "ready b m"
proof -
  from s have s': "act_bind (tokens_at (Aware m)) (\<lambda>available. if available \<ge> 1 then act_return NO_WAIT
        else (\<lambda>b. (b, Inr (b64 (b64 (1 - available) / rate_per_second b))))) b = (b', Inr w)"
    by (auto simp: seconds_until_def split: if_splits)
  then obtain v where v: "tokens_at (Aware m) b = (b, Inr v)"
    and c: "(if v \<ge> 1 then act_return NO_WAIT else (\<lambda>b. (b, Inr (b64 (b64 (1 - v) / rate_per_second b))))) b = (b', Inr w)"
    by (cases rule: act_bind_cases) (use tokens_at_state [OF wf] in auto)
  have "1 \<le> v"
  proof (rule ccontr)
    assume "\<not> 1 \<le> v"
    then have "0 < b64 (b64 (1 - v) / rate_per_second b)"
      using wf by (intro b64_pos divide_pos_pos) (auto simp: wf_bucket_def)
    with c w \<open>\<not> 1 \<le> v\<close> show False by simp
  qed
  with tokens_at_Inr [OF wf v] show ?thesis by (simp add: ready_def)
qed

lemma tokens_at_ready:
  assumes "ready b m" "require_aware (Aware m) ''now'' = Inr m"
  shows "tokens_at (Aware m) b = (b, Inr (refill b m))"
proof -
  obtain t where t: "updated_at b = Some t" "t \<le> m" using assms(1) by (auto simp: ready_def)
  then have "0 \<le> total_seconds (m - t)" by (simp add: total_seconds_nonneg)
  with t show ?thesis by (simp add: tokens_at_def assms(2) refill_def Let_def)
qed

lemma consume_ready:
  assumes "ready b m" "require_aware (Aware m) ''now'' = Inr m"
  shows "consume (Aware m) 1 b = (spent b m, Inr (b64 (refill b m - 1)))"
  using assms by (simp add: consume_def act_bind_def tokens_at_ready ready_def spent_def)

lemma wf_spent: "wf_bucket b \<Longrightarrow> ready b m \<Longrightarrow> wf_bucket (spent b m)"
  by (auto simp: wf_bucket_def ready_def spent_def intro!: b64.rnd_nonneg)

text \<open>
  One token spent costs one token of what the bucket held or was refilled with, up to rounding.
\<close>

definition rate_slack :: rat where "rate_slack = 1 / 2 ^ 51"

lemma spent_tokens:
  assumes wf: "wf_bucket b" and r: "ready b m" and t: "updated_at b = Some t"
  shows "tokens (spent b m) + 1 \<le> tokens b + rate_per_second b * (of_int (m - t) / 1000000) * (1 + rate_slack) + burst b * rate_slack"
proof -
  let ?R = "rate_per_second b" and ?B = "burst b" and ?dt = "of_int (m - t) / 1000000 :: rat" and ?u = b64_unit
  have dt: "0 \<le> ?dt" and av: "1 \<le> refill b m" using r t by (auto simp: ready_def)
  have pos: "0 < ?R" "1 \<le> ?B" "0 \<le> tokens b" using wf by (auto simp: wf_bucket_def)
  have u: "0 \<le> ?u" "(1 + ?u) * (1 + ?u) \<le> 1 + rate_slack" "2 * ?u \<le> rate_slack"
    by (simp_all add: b64_unit_def rate_slack_def)
  define s where "s = tokens b + b64 (?R * total_seconds (m - t))"
  have ts: "0 \<le> total_seconds (m - t)" "total_seconds (m - t) \<le> ?dt * (1 + ?u)"
    using dt b64_le [OF dt] by (auto simp: total_seconds_def intro: b64.rnd_nonneg)
  have rt: "0 \<le> ?R * total_seconds (m - t)" using pos ts by simp
  have "b64 (?R * total_seconds (m - t)) \<le> ?R * total_seconds (m - t) * (1 + ?u)" by (rule b64_le [OF rt])
  also have "\<dots> \<le> ?R * (?dt * (1 + ?u)) * (1 + ?u)"
    using pos ts u by (intro mult_right_mono mult_left_mono) auto
  also have "\<dots> = ?R * ?dt * ((1 + ?u) * (1 + ?u))" by (simp add: algebra_simps)
  also have "\<dots> \<le> ?R * ?dt * (1 + rate_slack)" using pos dt u by (intro mult_left_mono) auto
  finally have s: "s \<le> tokens b + ?R * ?dt * (1 + rate_slack)" by (simp add: s_def)
  have s0: "0 \<le> s" using pos rt by (auto simp: s_def intro: b64.rnd_nonneg add_nonneg_nonneg)
  have "refill b m = min ?B (b64 s)" by (simp add: refill_def t s_def)
  moreover have "min ?B (b64 s) \<le> s + ?B * ?u"
  proof (cases "s \<le> ?B")
    case True
    then have "s * ?u \<le> ?B * ?u" using u by (intro mult_right_mono) auto
    with b64_le [OF s0] show ?thesis by (simp add: algebra_simps min_def)
  next
    case False
    moreover have "0 \<le> ?B * ?u" using pos u by simp
    ultimately show ?thesis by (simp add: min_def)
  qed
  ultimately have a1: "refill b m \<le> s + ?B * ?u" "refill b m \<le> ?B" by auto
  have "b64 (refill b m - 1) \<le> (refill b m - 1) * (1 + ?u)" using av by (intro b64_le) simp
  moreover have "(refill b m - 1) * ?u \<le> ?B * ?u" using a1(2) u by (intro mult_right_mono) auto
  ultimately have "b64 (refill b m - 1) + 1 \<le> s + ?B * (2 * ?u)" using a1(1) by (simp add: algebra_simps)
  moreover have "?B * (2 * ?u) \<le> ?B * rate_slack" using u pos by (intro mult_left_mono) auto
  ultimately show ?thesis using s by (simp add: spent_def)
qed

section \<open>The ledger between requests\<close>

definition quota_ok :: "quota_ledger \<Rightarrow> bool" where
  "quota_ok l \<longleftrightarrow> wf_bucket (shared_bucket l) \<and> (\<forall>k b. dict_get (endpoint_buckets l) k = Some b \<longrightarrow> wf_bucket b)"

text \<open>Endpoint buckets appear, full, and no request that raises changes one.\<close>

definition grown :: "(string, token_bucket) dict \<Rightarrow> (string, token_bucket) dict \<Rightarrow> bool" where
  "grown d d' \<longleftrightarrow> (\<forall>k. dict_get d' k = dict_get d k
     \<or> (dict_get d k = None \<and> (\<exists>b. dict_get d' k = Some b \<and> wf_bucket b \<and> tokens b = burst b)))"

lemma grown_refl [simp]: "grown d d"
  by (simp add: grown_def)

lemma grown_trans: "grown d1 d2 \<Longrightarrow> grown d2 d3 \<Longrightarrow> grown d1 d3"
  unfolding grown_def by metis

lemma grown_ok: "quota_ok l \<Longrightarrow> grown (endpoint_buckets l) bs \<Longrightarrow> quota_ok (l\<lparr>endpoint_buckets := bs\<rparr>)"
proof -
  assume l: "quota_ok l" and g: "grown (endpoint_buckets l) bs"
  have "wf_bucket b" if "dict_get bs k = Some b" for k b
    using g [unfolded grown_def, rule_format, of k] that l by (auto simp: quota_ok_def)
  with l show ?thesis by (auto simp: quota_ok_def)
qed

lemma update_same: "map_of d k = Some v \<Longrightarrow> AList.update k v d = d"
  by (induction d) auto

lemma endpoint_bucket_spec:
  assumes "endpoint_bucket ep l = (l', r)"
  obtains bs where "l' = l\<lparr>endpoint_buckets := bs\<rparr>" "grown (endpoint_buckets l) bs"
    "\<And>b. r = Inr (Some b) \<Longrightarrow> dict_get bs ep = Some b"
    "\<And>x l2. r = Inr x \<Longrightarrow> ledger_plan l2 = ledger_plan l \<Longrightarrow> endpoint_buckets l2 = endpoint_buckets l' \<Longrightarrow> endpoint_bucket ep l2 = (l2, Inr x)"
proof -
  consider (old) "l' = l" "\<And>b. r = Inr (Some b) \<Longrightarrow> dict_get (endpoint_buckets l) ep = Some b"
      "\<And>x l2. r = Inr x \<Longrightarrow> ledger_plan l2 = ledger_plan l \<Longrightarrow> endpoint_buckets l2 = endpoint_buckets l \<Longrightarrow> endpoint_bucket ep l2 = (l2, Inr x)"
    | (new) b q where "override_for (ledger_plan l) ep = Some q" "\<not> (quota_requests_per_minute q = None \<and> quota_burst q = None)"
      "dict_get (endpoint_buckets l) ep = None" "wf_bucket b" "tokens b = burst b"
      "l' = l\<lparr>endpoint_buckets := dict_set (endpoint_buckets l) ep b\<rparr>" "r = Inr (Some b)"
    using assms by (fastforce simp: endpoint_bucket_def dest: full_bucket_Inr split: option.splits if_splits sum.splits)
  then show ?thesis
  proof cases
    case old
    with that [of "endpoint_buckets l"] show ?thesis by simp
  next
    case new
    show ?thesis
    proof (rule that [of "dict_set (endpoint_buckets l) ep b"])
      show "grown (endpoint_buckets l) (dict_set (endpoint_buckets l) ep b)"
        using new by (auto simp: grown_def update_conv')
    qed (use new in \<open>auto simp: endpoint_bucket_def update_conv'\<close>)
  qed
qed

lemma on_bucket_state:
  "wf_bucket (shared_bucket l) \<Longrightarrow> on_bucket (seconds_until now a) l = (l', r) \<Longrightarrow>
   l' = l \<and> seconds_until now a (shared_bucket l) = (shared_bucket l, r)"
  by (auto simp: on_bucket_def dest: seconds_until_state split: prod.splits)

definition endpoint_ready :: "string \<Rightarrow> int \<Rightarrow> quota_ledger \<Rightarrow> bool" where
  "endpoint_ready ep m l \<longleftrightarrow> (\<exists>eb. endpoint_bucket ep l = (l, Inr eb)
     \<and> (\<forall>b. eb = Some b \<longrightarrow> ready b m \<and> wf_bucket b \<and> dict_get (endpoint_buckets l) ep = Some b))"

lemma endpoint_wait:
  assumes wf: "\<And>b. eb = Some b \<Longrightarrow> wf_bucket b \<and> dict_get (endpoint_buckets l) ep = Some b"
    and w: "(case eb of None \<Rightarrow> act_return w0
       | Some b \<Rightarrow> act_bind (on_endpoint ep b (seconds_until (Aware m) 1)) (\<lambda>w. act_return (max w0 w))) l = (l', r)"
  shows "l' = l \<and> (\<forall>w. r = Inr w \<longrightarrow> w \<le> 0 \<longrightarrow> w0 \<le> 0 \<and> (\<forall>b. eb = Some b \<longrightarrow> ready b m))"
proof (cases eb)
  case (Some b)
  note b = wf [OF Some]
  obtain r1 where r1: "seconds_until (Aware m) 1 b = (b, r1)"
    using seconds_until_state b by (metis surj_pair)
  have "l\<lparr>endpoint_buckets := dict_set (endpoint_buckets l) ep b\<rparr> = l" using b by (simp add: update_same)
  with w r1 Some have "l' = l \<and> (r = (case r1 of Inl e \<Rightarrow> Inl e | Inr w \<Rightarrow> Inr (max w0 w)))"
    by (auto simp: act_bind_def on_endpoint_def split: sum.splits)
  then show ?thesis using seconds_until_ready [of b m b] r1 Some b by (auto split: sum.splits)
qed (use w in auto)

lemma seconds_until_available_spec:
  assumes ok: "quota_ok l" and s: "seconds_until_available ep (Aware m) l = (l', r)"
  obtains bs where "l' = l\<lparr>endpoint_buckets := bs\<rparr>" "grown (endpoint_buckets l) bs"
    "\<And>w. r = Inr w \<Longrightarrow> w \<le> 0 \<Longrightarrow> require_aware (Aware m) ''now'' = Inr m \<and> ready (shared_bucket l) m \<and> endpoint_ready ep m l'"
proof -
  have wf: "wf_bucket (shared_bucket l)" using ok by (simp add: quota_ok_def)
  from s show ?thesis
  proof (cases "require_aware (Aware m) ''now''")
    case (Inl e)
    with s have "l' = l" "r = Inl e" by (auto simp: seconds_until_available_def)
    with that [of "endpoint_buckets l"] show ?thesis by simp
  next
    case (Inr m')
    then have aware: "require_aware (Aware m) ''now'' = Inr m" using require_aware_Inr by metis
    from s have "act_bind (on_bucket (seconds_until (Aware m) 1)) (\<lambda>wait.
     act_bind (endpoint_bucket ep) (\<lambda>eb. case eb of
         None \<Rightarrow> act_return wait
       | Some b \<Rightarrow> act_bind (on_endpoint ep b (seconds_until (Aware m) 1)) (\<lambda>w. act_return (max wait w)))) l = (l', r)"
      by (simp add: seconds_until_available_def aware)
    then show ?thesis
    proof (cases rule: act_bind_cases)
      case (raised e)
      with on_bucket_state [OF wf] that [of "endpoint_buckets l"] show ?thesis by fastforce
    next
      case (returned w0 l0)
      from on_bucket_state [OF wf returned(1)] have l0: "l0 = l"
        and w0: "seconds_until (Aware m) 1 (shared_bucket l) = (shared_bucket l, Inr w0)" by auto
      from returned(2) [unfolded l0] show ?thesis
      proof (cases rule: act_bind_cases)
        case (raised e)
        from endpoint_bucket_spec [OF raised(1)] raised(2) that show ?thesis by (metis sum.distinct(1))
      next
        case (returned eb l1)
        obtain bs where bs: "l1 = l\<lparr>endpoint_buckets := bs\<rparr>" "grown (endpoint_buckets l) bs"
          "\<And>b. eb = Some b \<Longrightarrow> dict_get bs ep = Some b" "endpoint_bucket ep l1 = (l1, Inr eb)"
          by (rule endpoint_bucket_spec [OF returned(1)]) auto
        have wfb: "wf_bucket b" if "eb = Some b" for b
          using grown_ok [OF ok bs(2)] bs(3) [OF that] by (auto simp: quota_ok_def)
        have fin: "l' = l1 \<and> (\<forall>w. r = Inr w \<longrightarrow> w \<le> 0 \<longrightarrow> w0 \<le> 0 \<and> (\<forall>b. eb = Some b \<longrightarrow> ready b m))"
          by (rule endpoint_wait [OF _ returned(2)]) (use wfb bs in auto)
        show ?thesis
        proof (rule that [of bs])
          show "l' = l\<lparr>endpoint_buckets := bs\<rparr>" "grown (endpoint_buckets l) bs" using fin bs by auto
          fix w assume "r = Inr w" "w \<le> 0"
          with fin have "w0 \<le> 0" "\<And>b. eb = Some b \<Longrightarrow> ready b m" by auto
          with aware seconds_until_ready [OF wf w0] bs wfb fin
          show "require_aware (Aware m) ''now'' = Inr m \<and> ready (shared_bucket l) m \<and> endpoint_ready ep m l'"
            by (auto simp: endpoint_ready_def)
        qed
      qed
    qed
  qed
qed

section \<open>One request\<close>

definition caps_left :: "string \<Rightarrow> int \<Rightarrow> quota_ledger \<Rightarrow> bool" where
  "caps_left ep m l \<longleftrightarrow> \<not> cap_spent (plan_daily_cap (ledger_plan l)) (dict_get_or (daily_counts l) (utc_day m) 0)
     \<and> \<not> cap_spent (endpoint_daily_cap (ledger_plan l) ep) (dict_get_or (endpoint_counts l) (utc_day m, ep) 0)"

lemma check_caps_eq: "check_caps ep m l = (l', r) \<Longrightarrow> l' = l \<and> (r = Inr u \<longrightarrow> caps_left ep m l)"
  by (auto simp: check_caps_def caps_left_def Let_def split: if_splits)

text \<open>The ledger after a grant: one token spent, one request counted for its day and endpoint.\<close>

definition granted :: "string \<Rightarrow> int \<Rightarrow> quota_ledger \<Rightarrow> quota_ledger \<Rightarrow> bool" where
  "granted ep m l l' \<longleftrightarrow> caps_left ep m l \<and> ready (shared_bucket l) m \<and> quota_ok l'
     \<and> shared_bucket l' = spent (shared_bucket l) m \<and> ledger_plan l' = ledger_plan l \<and> started_at l' = started_at l
     \<and> granted_total l' = granted_total l + 1
     \<and> daily_counts l' = dict_set (daily_counts l) (utc_day m) (dict_get_or (daily_counts l) (utc_day m) 0 + 1)
     \<and> endpoint_counts l' = dict_set (endpoint_counts l) (utc_day m, ep) (dict_get_or (endpoint_counts l) (utc_day m, ep) 0 + 1)"

lemma spend_ready:
  assumes ok: "quota_ok l" and aware: "require_aware (Aware m) ''now'' = Inr m"
    and r: "ready (shared_bucket l) m" "endpoint_ready ep m l" and caps: "caps_left ep m l"
  shows "\<exists>l' g. spend ep m w l = (l', Inr g) \<and> granted ep m l l'"
proof -
  have wf: "wf_bucket (shared_bucket l)" using ok by (simp add: quota_ok_def)
  let ?l = "l\<lparr>shared_bucket := spent (shared_bucket l) m\<rparr>"
  have c: "on_bucket (consume (Aware m) 1) l = (?l, Inr (b64 (refill (shared_bucket l) m - 1)))"
    using consume_ready [OF r(1) aware] by (simp add: on_bucket_def)
  obtain eb where eb: "endpoint_bucket ep l = (l, Inr eb)"
    "\<And>b. eb = Some b \<Longrightarrow> ready b m \<and> wf_bucket b \<and> dict_get (endpoint_buckets l) ep = Some b"
    using r(2) by (auto simp: endpoint_ready_def)
  have eb': "endpoint_bucket ep ?l = (?l, Inr eb)"
    by (rule endpoint_bucket_spec [OF eb(1)]) simp
  define bs where "bs = (case eb of None \<Rightarrow> endpoint_buckets l | Some b \<Rightarrow> dict_set (endpoint_buckets l) ep (spent b m))"
  have "\<exists>x. (case eb of None \<Rightarrow> act_return 0 | Some b \<Rightarrow> on_endpoint ep b (consume (Aware m) 1)) ?l
      = (?l\<lparr>endpoint_buckets := bs\<rparr>, Inr x)"
    using eb(2) consume_ready [OF _ aware] by (cases eb) (auto simp: bs_def on_endpoint_def)
  moreover have "quota_ok (?l\<lparr>endpoint_buckets := bs\<rparr>)"
    using ok wf_spent [OF wf r(1)] eb(2) wf_spent
    by (auto simp: quota_ok_def bs_def update_conv' split: option.splits if_splits)
  ultimately show ?thesis using caps r(1) eb'
    by (auto simp: spend_def act_bind_def c count_grant_def Let_def granted_def quota_ok_def)
qed

lemma granted_after:
  assumes ok: "quota_ok l" and caps: "check_caps ep m l = (l0, Inr u)"
    and s: "seconds_until_available ep (Aware m) l0 = (l1, Inr w)" "w \<le> 0" and sp: "spend ep m x l1 = (l', r)"
  shows "\<exists>g. r = Inr g \<and> granted ep m l l'"
proof -
  have l0: "l0 = l" "caps_left ep m l" using check_caps_eq [OF caps] by auto
  obtain bs where bs: "l1 = l\<lparr>endpoint_buckets := bs\<rparr>" "grown (endpoint_buckets l) bs"
    and rd: "require_aware (Aware m) ''now'' = Inr m" "ready (shared_bucket l) m" "endpoint_ready ep m l1"
    by (rule seconds_until_available_spec [OF ok s(1) [unfolded l0(1)]]) (use s(2) in auto)
  have "quota_ok l1" "caps_left ep m l1" "ready (shared_bucket l1) m"
    using grown_ok [OF ok bs(2)] l0(2) rd(2) by (auto simp: bs(1) caps_left_def)
  from spend_ready [OF this(1) rd(1) this(3) rd(3) this(2), of x] sp obtain g where "r = Inr g" "granted ep m l1 l'" by auto
  then show ?thesis by (auto simp: granted_def caps_left_def bs(1))
qed

definition nothing_spent :: "quota_ledger \<Rightarrow> quota_ledger \<Rightarrow> bool" where
  "nothing_spent l l' \<longleftrightarrow> (\<exists>bs. l' = l\<lparr>endpoint_buckets := bs\<rparr> \<and> grown (endpoint_buckets l) bs)"

lemma nothing_spent_refl [simp]: "nothing_spent l l"
  unfolding nothing_spent_def by (rule exI [of _ "endpoint_buckets l"]) simp

lemma nothing_spent_trans: "nothing_spent l l1 \<Longrightarrow> nothing_spent l1 l2 \<Longrightarrow> nothing_spent l l2"
  unfolding nothing_spent_def by (elim exE conjE) (auto intro: grown_trans)

lemma nothing_spent_ok: "quota_ok l \<Longrightarrow> nothing_spent l l' \<Longrightarrow> quota_ok l'"
  by (auto simp: nothing_spent_def grown_ok)

lemma granted_from: "nothing_spent l l1 \<Longrightarrow> granted ep m l1 l' \<Longrightarrow> granted ep m l l'"
  by (auto simp: nothing_spent_def granted_def caps_left_def)

text \<open>The checks in front of a spend raise without a trace, or lead to the waiting time.\<close>

lemma checked_wait:
  assumes ok: "quota_ok l"
    and a: "act_bind (check_caps ep m) (\<lambda>_. act_bind (seconds_until_available ep (Aware m)) f) l = (l', r)"
  obtains (raised) e where "r = Inl e" "nothing_spent l l'"
    | (wait) w l1 where "nothing_spent l l1" "f w l1 = (l', r)"
        "\<And>x l2 r2. w \<le> 0 \<Longrightarrow> spend ep m x l1 = (l2, r2) \<Longrightarrow> \<exists>g. r2 = Inr g \<and> granted ep m l l2"
  using a
proof (cases rule: act_bind_cases)
  case (raised e)
  with check_caps_eq [OF raised(1)] that(1) show ?thesis by simp
next
  case (returned u l0)
  with check_caps_eq [OF returned(1)] have caps: "check_caps ep m l = (l, Inr u)" and l0: "l0 = l" by auto
  from returned(2) [unfolded l0] show ?thesis
  proof (cases rule: act_bind_cases)
    case (raised e)
    show ?thesis
      by (rule seconds_until_available_spec [OF ok raised(1)]) (use that(1) raised(2) in \<open>auto simp: nothing_spent_def\<close>)
  next
    case (returned w l1)
    have "nothing_spent l l1"
      by (rule seconds_until_available_spec [OF ok returned(1)]) (auto simp: nothing_spent_def)
    from that(2) [OF this returned(2)] granted_after [OF ok caps returned(1)] show ?thesis by blast
  qed
qed

lemma after_sleep_spec:
  assumes ok: "quota_ok l" and a: "after_sleep ep clock w l = (l', r)"
  obtains (raised) e where "r = Inl e" "nothing_spent l l'"
    | (grant) g m where "r = Inr g" "granted ep m l l'"
proof (cases "require_aware clock ''clock()''")
  case (Inl e)
  with a have "r = Inl e" "l' = l" by (auto simp: after_sleep_def)
  with that(1) show ?thesis by simp
next
  case (Inr now)
  with a have "act_bind (check_caps ep now) (\<lambda>_. act_bind (seconds_until_available ep (Aware now)) (\<lambda>again.
      if again > 0 then act_raise (QuotaUnavailableError ''clock did not advance past the refill wait'')
      else spend ep now w)) l = (l', r)"
    by (simp add: after_sleep_def)
  from ok this show ?thesis
  proof (cases rule: checked_wait)
    case (wait again l1)
    show ?thesis
    proof (cases "again > 0")
      case True
      with wait(2) have "l' = l1" "\<exists>e. r = Inl e" by auto
      with wait(1) that(1) show ?thesis by auto
    qed (use wait(2,3) that(2) in fastforce)
  qed (rule that(1))
qed

lemma acquire_spec:
  assumes ok: "quota_ok l" and a: "acquire ep clock sleep max_wait l = (l', r)"
  obtains (raised) e where "r = Inl e" "nothing_spent l l'"
    | (grant) g m where "r = Inr g" "granted ep m l l'"
proof (cases "(ep = [] \<or> ep \<noteq> strip ep) \<or> (\<exists>e. require_aware clock ''clock()'' = Inl e)")
  case True
  with a have "\<exists>e. r = Inl e" "l' = l" by (auto simp: acquire_def split: if_splits)
  with that(1) show ?thesis by auto
next
  case False
  then obtain now where "require_aware clock ''clock()'' = Inr now" by (cases "require_aware clock ''clock()''") auto
  with a False have "act_bind (check_caps ep now) (\<lambda>_. act_bind (seconds_until_available ep (Aware now)) (\<lambda>wait.
      if wait > 0
      then (case sleep of
          None \<Rightarrow> act_raise (QuotaUnavailableError ''no token available'')
        | Some clock_after \<Rightarrow>
            if wait > max_wait then act_raise (QuotaUnavailableError ''no token available'')
            else after_sleep ep (clock_after wait) wait)
      else spend ep now 0)) l = (l', r)"
    by (auto simp: acquire_def)
  from ok this show ?thesis
  proof (cases rule: checked_wait)
    case (wait w l1)
    consider "w \<le> 0" | "l' = l1" "\<exists>e. r = Inl e" | c where "after_sleep ep c w l1 = (l', r)"
      using wait(2) by (auto split: if_splits option.splits)
    then show ?thesis
    proof cases
      case 3
      from nothing_spent_ok [OF ok wait(1)] 3 show ?thesis
        by (cases rule: after_sleep_spec)
          (use that nothing_spent_trans [OF wait(1)] granted_from [OF wait(1)] in blast)+
    qed (use wait that in fastforce)+
  qed (rule that(1))
qed

section \<open>Every run of a ledger\<close>

inductive quota_run :: "provider_plan \<Rightarrow> int \<Rightarrow> quota_ledger \<Rightarrow> bool" for p start where
  started: "mk_quota_ledger p (Aware start) = Inr l \<Longrightarrow> quota_run p start l"
| requested: "quota_run p start l \<Longrightarrow> acquire ep clock sleep max_wait l = (l', r) \<Longrightarrow> quota_run p start l'"

text \<open>A predicate that a fresh ledger has and a grant keeps holds in every run.\<close>

locale run_invariant =
  fixes p :: provider_plan and start :: int and I :: "quota_ledger \<Rightarrow> bool"
  assumes fresh: "mk_quota_ledger p (Aware start) = Inr l \<Longrightarrow> I l"
    and unspent: "I l \<Longrightarrow> I (l\<lparr>endpoint_buckets := bs\<rparr>)"
    and grant: "I l \<Longrightarrow> quota_ok l \<Longrightarrow> granted ep m l l' \<Longrightarrow> I l'"
begin

lemma invariant: "quota_run p start l \<Longrightarrow> quota_ok l \<and> I l"
proof (induction rule: quota_run.induct)
  case (started l)
  then have "quota_ok l" by (auto simp: mk_quota_ledger_def quota_ok_def dest!: full_bucket_Inr)
  with fresh [OF started] show ?case by simp
next
  case (requested l ep clock sleep max_wait l' r)
  then have ok: "quota_ok l" and I: "I l" by auto
  from ok requested(2) show ?case
  proof (cases rule: acquire_spec)
    case (raised e)
    with ok I unspent show ?thesis by (auto simp: nothing_spent_def grown_ok)
  next
    case (grant g m)
    with run_invariant.grant [OF run_invariant_axioms I ok grant(2)] show ?thesis by (simp add: granted_def)
  qed
qed

end

section \<open>Caps\<close>

lemma count_sum: "sum_list (map snd (dict_set d k (dict_get_or d k 0 + 1))) = sum_list (map snd d) + (1::int)"
  by (induction d) auto

lemma not_spent: "\<not> cap_spent cap n \<Longrightarrow> cap = Some c \<Longrightarrow> n + 1 \<le> c"
  by (simp add: cap_spent_def)

definition caps_kept :: "provider_plan \<Rightarrow> quota_ledger \<Rightarrow> bool" where
  "caps_kept p l \<longleftrightarrow> ledger_plan l = p
     \<and> (\<forall>day c. plan_daily_cap p = Some c \<longrightarrow> dict_get_or (daily_counts l) day 0 \<le> c)
     \<and> (\<forall>day ep c. endpoint_daily_cap p ep = Some c \<longrightarrow> dict_get_or (endpoint_counts l) (day, ep) 0 \<le> c)
     \<and> granted_total l = sum_list (map snd (daily_counts l)) \<and> granted_total l = sum_list (map snd (endpoint_counts l))"

definition caps_positive :: "provider_plan \<Rightarrow> bool" where
  "caps_positive p \<longleftrightarrow> \<not> below (plan_daily_cap p) 1 \<and> (\<forall>ep. \<not> below (endpoint_daily_cap p ep) 1)"

lemma caps_kept_fresh: "caps_positive p \<Longrightarrow> mk_quota_ledger p s = Inr l \<Longrightarrow> caps_kept p l"
  by (fastforce simp: mk_quota_ledger_def caps_kept_def caps_positive_def below_def split: option.splits)

lemma caps_kept_granted: "caps_kept p l \<Longrightarrow> granted ep m l l' \<Longrightarrow> caps_kept p l'"
  unfolding caps_kept_def granted_def caps_left_def
  by (auto simp: update_conv' count_sum dest: not_spent)

lemma first_match_Some: "first_match P xs = Some x \<Longrightarrow> x \<in> set xs"
  by (induction xs) (auto split: if_splits)

lemma checked_plan_caps:
  assumes "provider_plan_post_init p = Inr p" "list_all (\<lambda>q. endpoint_quota_post_init q = Inr q) (endpoint_overrides p)"
  shows "caps_positive p"
proof -
  have "\<not> below (plan_daily_cap p) 1"
    using assms(1) unfolding provider_plan_post_init_def by (elim res_elims) auto
  moreover have "\<not> below (endpoint_daily_cap p ep) 1" for ep
  proof (cases "override_for p ep")
    case None
    then show ?thesis by (simp add: endpoint_daily_cap_def below_def)
  next
    case (Some q)
    then have "endpoint_quota_post_init q = Inr q"
      using assms(2) by (auto simp: override_for_def list_all_iff dest: first_match_Some)
    with Some show ?thesis by (auto simp: endpoint_daily_cap_def endpoint_quota_post_init_def split: if_splits)
  qed
  ultimately show ?thesis by (simp add: caps_positive_def)
qed

section \<open>The rate\<close>

definition rate_kept :: "provider_plan \<Rightarrow> int \<Rightarrow> quota_ledger \<Rightarrow> bool" where
  "rate_kept p start l \<longleftrightarrow> rate_per_second (shared_bucket l) = refill_rate_per_second p \<and> burst (shared_bucket l) = plan_burst p
     \<and> (\<exists>t. updated_at (shared_bucket l) = Some t \<and> start \<le> t
       \<and> of_int (granted_total l) + tokens (shared_bucket l)
         \<le> plan_burst p + refill_rate_per_second p * (of_int (t - start) / 1000000) * (1 + rate_slack)
           + of_int (granted_total l) * plan_burst p * rate_slack)"

lemma rate_kept_fresh: "mk_quota_ledger p (Aware start) = Inr l \<Longrightarrow> rate_kept p start l"
  by (auto simp: mk_quota_ledger_def rate_kept_def dest!: full_bucket_Inr require_aware_Inr)

lemma rate_kept_granted:
  assumes "rate_kept p start l" "quota_ok l" "granted ep m l l'"
  shows "rate_kept p start l'"
proof -
  let ?R = "refill_rate_per_second p" and ?B = "plan_burst p" and ?b = "shared_bucket l"
  from assms(1) obtain t where t: "rate_per_second ?b = ?R" "burst ?b = ?B" "updated_at ?b = Some t" "start \<le> t"
    "of_int (granted_total l) + tokens ?b \<le> ?B + ?R * (of_int (t - start) / 1000000) * (1 + rate_slack)
      + of_int (granted_total l) * ?B * rate_slack" by (auto simp: rate_kept_def)
  have wf: "wf_bucket ?b" and r: "ready ?b m" using assms(2,3) by (auto simp: quota_ok_def granted_def)
  have "t \<le> m" using r t(3) by (auto simp: ready_def)
  from spent_tokens [OF wf r t(3)] t(1,2)
  have "tokens (spent ?b m) + 1 \<le> tokens ?b + ?R * (of_int (m - t) / 1000000) * (1 + rate_slack) + ?B * rate_slack" by simp
  moreover have "?R * (of_int (t - start) / 1000000) * (1 + rate_slack) + ?R * (of_int (m - t) / 1000000) * (1 + rate_slack)
      = ?R * (of_int (m - start) / 1000000) * (1 + rate_slack)" by (simp add: field_simps)
  moreover have "of_int (granted_total l + 1) * ?B * rate_slack = of_int (granted_total l) * ?B * rate_slack + ?B * rate_slack"
    by (simp add: algebra_simps)
  ultimately have "of_int (granted_total l + 1) + tokens (spent ?b m) \<le> ?B + ?R * (of_int (m - start) / 1000000) * (1 + rate_slack)
      + of_int (granted_total l + 1) * ?B * rate_slack" using t(5) by linarith
  moreover have "shared_bucket l' = spent ?b m" "granted_total l' = granted_total l + 1" using assms(3) by (auto simp: granted_def)
  ultimately show ?thesis
    using t(1,2,4) \<open>t \<le> m\<close> by (simp add: rate_kept_def) (simp add: spent_def)
qed

interpretation rate_run: run_invariant p start "rate_kept p start" for p start
  by unfold_locales (auto simp: rate_kept_fresh rate_kept_granted, simp add: rate_kept_def)

interpretation caps_run: run_invariant p start "\<lambda>l. caps_positive p \<longrightarrow> caps_kept p l" for p start
  by unfold_locales (auto simp: caps_kept_fresh caps_kept_granted, simp add: caps_kept_def)

section \<open>Properties of the quota\<close>

lemmas bucket_evals = mk_quota_ledger_def full_bucket_def token_bucket_post_init_def require_aware_def astimezone_utc_def
  MAX_ORDINAL_def DAY_MICROSECONDS_def refill_rate_per_second_def total_seconds_def tokens_at_def seconds_until_def consume_def
  on_bucket_def endpoint_bucket_def override_for_def check_caps_def cap_spent_def endpoint_daily_cap_def
  seconds_until_available_def count_grant_def spend_def after_sleep_def acquire_def act_bind_def NO_WAIT_def utc_day_def

definition ex_plan :: provider_plan where
  "ex_plan = PREMIUM_BURST_2026_08\<lparr>requests_per_minute := 11, plan_burst := 1, plan_daily_cap := Some 2\<rparr>"

definition ex_ledger :: "int \<Rightarrow> quota_ledger" where
  "ex_ledger n = \<lparr>ledger_plan = ex_plan, started_at = 0,
     shared_bucket = \<lparr>rate_per_second = b64 (11 / 60), burst = 1, tokens = of_int (1 - n), updated_at = Some 0\<rparr>, endpoint_buckets = [],
     granted_total = n, daily_counts = (if n = 0 then [] else [(1, n)]),
     endpoint_counts = (if n = 0 then [] else [((1, ''Q''), n)])\<rparr>"

lemma ex_start: "mk_quota_ledger ex_plan (Aware 0) = Inr (ex_ledger 0)"
  by (simp add: bucket_evals ex_ledger_def ex_plan_def PREMIUM_BURST_2026_08_def eval_simps cong: eval_congs)

lemma ex_first: "\<exists>g. acquire ''Q'' (Aware 0) None 0 (ex_ledger 0) = (ex_ledger 1, Inr g)"
  by (simp add: bucket_evals ex_ledger_def ex_plan_def PREMIUM_BURST_2026_08_def eval_simps cong: eval_congs)

lemma ex_run: "quota_run ex_plan 0 (ex_ledger 1)"
  using ex_first quota_run.started [OF ex_start] quota_run.requested by blast

lemma ex_plan_valid: "provider_plan_post_init ex_plan = Inr ex_plan"
  by (simp add: ex_plan_def plan_checks)

text \<open>
  C37: over every sequence of requests, granted or refused, with any clock and any sleep, no UTC day
  has more grants than the daily cap of the plan, no endpoint has more on a day than its own cap, and
  the total of grants is the sum of the counts of the days and the sum of the counts of the endpoints.
\<close>

theorem quota_caps_hold:
  assumes "quota_run p start l" and "provider_plan_post_init p = Inr p"
    and "list_all (\<lambda>q. endpoint_quota_post_init q = Inr q) (endpoint_overrides p)"
  shows "(\<forall>day c. plan_daily_cap p = Some c \<longrightarrow> dict_get_or (daily_counts l) day 0 \<le> c)
    \<and> (\<forall>day ep c. endpoint_daily_cap p ep = Some c \<longrightarrow> dict_get_or (endpoint_counts l) (day, ep) 0 \<le> c)
    \<and> granted_total l = sum_list (map snd (daily_counts l))
    \<and> granted_total l = sum_list (map snd (endpoint_counts l))"
  using caps_run.invariant [OF assms(1)] checked_plan_caps [OF assms(2,3)] by (simp add: caps_kept_def)

theorem quota_caps_hold_witness: "dict_get_or (daily_counts (ex_ledger 1)) 1 0 \<le> 2 \<and> granted_total (ex_ledger 1) = 1"
proof -
  have "list_all (\<lambda>q. endpoint_quota_post_init q = Inr q) (endpoint_overrides ex_plan)" "plan_daily_cap ex_plan = Some 2"
    by (simp_all add: ex_plan_def PREMIUM_BURST_2026_08_def)
  with quota_caps_hold [OF ex_run ex_plan_valid] have "dict_get_or (daily_counts (ex_ledger 1)) 1 0 \<le> 2"
    "granted_total (ex_ledger 1) = sum_list (map snd (daily_counts (ex_ledger 1)))" by blast+
  then show ?thesis by (simp add: ex_ledger_def)
qed

text \<open>
  C38: the documented rate bound. When the bucket was last spent from, the number of grants is at most
  the burst plus the rate times the time since the start, up to the rounding of binary64: a relative
  \<open>2 ^ -51\<close> of the refill and \<open>2 ^ -51\<close> of a burst for every grant. The bucket never goes negative.
\<close>

theorem quota_rate_bound:
  assumes "quota_run p start l"
  shows "\<exists>t. updated_at (shared_bucket l) = Some t \<and> start \<le> t \<and> 0 \<le> tokens (shared_bucket l)
    \<and> of_int (granted_total l) \<le> plan_burst p + refill_rate_per_second p * (of_int (t - start) / 1000000) * (1 + 1 / 2 ^ 51)
        + of_int (granted_total l) * plan_burst p * (1 / 2 ^ 51)"
proof -
  from rate_run.invariant [OF assms] have ok: "0 \<le> tokens (shared_bucket l)" and "rate_kept p start l"
    by (auto simp: quota_ok_def wf_bucket_def)
  then obtain t where t: "updated_at (shared_bucket l) = Some t" "start \<le> t"
    and bound: "of_int (granted_total l) + tokens (shared_bucket l)
      \<le> plan_burst p + refill_rate_per_second p * (of_int (t - start) / 1000000) * (1 + rate_slack)
        + of_int (granted_total l) * plan_burst p * rate_slack"
    unfolding rate_kept_def by blast
  from order_trans [OF _ bound, of "of_int (granted_total l)"] ok t show ?thesis by (simp add: rate_slack_def)
qed

theorem quota_rate_bound_witness:
  "\<exists>t. updated_at (shared_bucket (ex_ledger 1)) = Some t \<and> 0 \<le> t \<and> 0 \<le> tokens (shared_bucket (ex_ledger 1))"
  using quota_rate_bound [OF ex_run] by blast

text \<open>
  A refused request costs nothing. When \<open>acquire\<close> raises, at whatever point, the shared bucket, the
  totals and the counts of days and endpoints are what they were, and every endpoint bucket is unchanged
  or was created, full, by this request; and a request that is granted counts once and spends one token
  that was there.
\<close>

theorem acquire_all_or_nothing:
  assumes "quota_run p start l" and "acquire ep clock sleep max_wait l = (l', r)"
  shows "case r of
      Inl e \<Rightarrow> l' = l\<lparr>endpoint_buckets := endpoint_buckets l'\<rparr>
        \<and> (\<forall>k. dict_get (endpoint_buckets l') k = dict_get (endpoint_buckets l) k
             \<or> (dict_get (endpoint_buckets l) k = None
                \<and> (\<exists>b. dict_get (endpoint_buckets l') k = Some b \<and> tokens b = burst b)))
    | Inr g \<Rightarrow> \<exists>m. 1 \<le> refill (shared_bucket l) m \<and> shared_bucket l' = spent (shared_bucket l) m
        \<and> granted_total l' = granted_total l + 1
        \<and> daily_counts l' = dict_set (daily_counts l) (utc_day m) (dict_get_or (daily_counts l) (utc_day m) 0 + 1)"
proof -
  from rate_run.invariant [OF assms(1)] have "quota_ok l" by simp
  from this assms(2) show ?thesis
  proof (cases rule: acquire_spec)
    case (raised e)
    then show ?thesis by (auto simp: nothing_spent_def grown_def)
  next
    case (grant g m)
    then show ?thesis by (auto simp: granted_def ready_def)
  qed
qed

lemma ex_refused: "acquire ''Q'' (Aware 0) None 0 (ex_ledger 1) = (ex_ledger 1, Inl (QuotaUnavailableError ''no token available''))"
  by (simp add: bucket_evals ex_ledger_def ex_plan_def PREMIUM_BURST_2026_08_def eval_simps cong: eval_congs)

theorem acquire_all_or_nothing_witness: "ex_ledger 1 = (ex_ledger 1)\<lparr>endpoint_buckets := endpoint_buckets (ex_ledger 1)\<rparr>"
  using acquire_all_or_nothing [OF ex_run ex_refused] by simp

text \<open>
  At 11 requests a minute an empty bucket asks for a wait of \<open>60 / 11\<close> seconds. A clock with the
  microsecond resolution of \<open>datetime\<close> that advances by that wait has advanced by a little less,
  and the request is refused after its wait although the wait was allowed.
\<close>

theorem refill_wait_may_not_suffice:
  "acquire ''Q'' (Aware 0) (Some (\<lambda>w. Aware (round_half_even (w * 1000000)))) 60 (ex_ledger 1)
     = (ex_ledger 1, Inl (QuotaUnavailableError ''clock did not advance past the refill wait''))"
  by (simp add: bucket_evals ex_ledger_def ex_plan_def PREMIUM_BURST_2026_08_def eval_simps cong: eval_congs)

end
