(* ===== verification/Trading_Calendar.thy ===== *)
theory Trading_Calendar
  imports Intervals
begin

text \<open>
  The accepted exchange calendar \<open>qme/data/stores/calendar_v1.py\<close>: session rows, the session algebra
  on the ordered vector of sessions, the only mapping that substitutes a date, month ends, and the
  loader. Reading and hashing files and parsing JSON are parameters of the loader: the hash of a path, the
  parsed document and the digest of the session vector. An error carries its typed state.
\<close>

definition TradingCalendarError :: "string \<Rightarrow> py_exc" where
  "TradingCalendarError state = Raised ''TradingCalendarError'' state"

definition CALENDAR_ID :: string where "CALENDAR_ID = ''XNAS_2010-01-04_2027-12-31_v1''"
definition ACCEPTED_SESSION_COUNT :: nat where "ACCEPTED_SESSION_COUNT = 4526"
definition CALENDAR_PATH :: string where
  "CALENDAR_PATH = ''tests/fixtures/governance/xnas-session-calendar-2010-2027-v1.candidate.json''"
definition CALENDAR_SHA256_GROUPED :: string where
  "CALENDAR_SHA256_GROUPED = ''a414d89a:2d18a3e2:27c7cfab:05c271c8:209490e3:beb49bf0:bb1a00f1:9ecd2a5e''"
definition SESSION_IDS_SHA256_GROUPED :: string where
  "SESSION_IDS_SHA256_GROUPED = ''dfbb9bc1:13e7de06:67c5226a:4451634a:943d3d70:2aa87db4:ffb1a72d:0d3f2bd8''"

definition CLOSE_CLASS_EARLY :: string where "CLOSE_CLASS_EARLY = ''EARLY_CLOSE''"
definition CLOSE_CLASSES :: "string list" where "CLOSE_CLASSES = [''NORMAL'', CLOSE_CLASS_EARLY]"
definition AUTHORITY_PHASE_FUTURE :: string where
  "AUTHORITY_PHASE_FUTURE = ''GENERATED_FUTURE_CANDIDATE_NOT_OBSERVED_OR_COMPLETE_OFFICIAL_AUTHORITY''"
definition AUTHORITY_PHASES :: "string list" where
  "AUTHORITY_PHASES = [''GENERATED_HISTORICAL_CANDIDATE'', AUTHORITY_PHASE_FUTURE]"

definition BLOCKED_SESSION_OFFSET_OUT_OF_RANGE :: string where
  "BLOCKED_SESSION_OFFSET_OUT_OF_RANGE = ''BLOCKED_SESSION_OFFSET_OUT_OF_RANGE''"

definition iso_date :: "string \<Rightarrow> string res" where
  "iso_date value =
     (if \<not> date_format value then Inl (TradingCalendarError ''BLOCKED_NOT_AN_ISO_DATE'')
      else if \<not> calendar_date value then Inl (TradingCalendarError ''BLOCKED_NOT_AN_ISO_DATE'')
      else Inr value)"

text \<open>The digest in groups of eight characters.\<close>

fun groups :: "nat \<Rightarrow> string \<Rightarrow> string" where
  "groups 0 s = []"
| "groups (Suc 0) s = take 8 s"
| "groups (Suc (Suc n)) s = take 8 s @ '':'' @ groups (Suc n) (drop 8 s)"

definition group_digest :: "string \<Rightarrow> string res" where
  "group_digest digest =
     (if length digest \<noteq> 64 \<or> list_ex (\<lambda>c. c \<notin> set ''0123456789abcdef'') digest
      then Inl (Raised ''MarketStoreError'' ''BLOCKED_MALFORMED_CALENDAR_ARTIFACT'')
      else Inr (groups 8 digest))"

section \<open>Sessions and the calendar\<close>

record session_row =
  row_session :: string
  market_open :: string
  market_close :: string
  close_class :: string
  row_phase :: string

definition row_is_half_day :: "session_row \<Rightarrow> bool" where
  "row_is_half_day r = (close_class r = CLOSE_CLASS_EARLY)"

definition row_is_projected :: "session_row \<Rightarrow> bool" where
  "row_is_projected r = (row_phase r = AUTHORITY_PHASE_FUTURE)"

record trading_calendar =
  cal_id :: string
  coverage_start :: string
  coverage_end :: string
  timezone :: string
  session_ids :: "string list"
  row_by_session :: "(string, session_row) dict"
  index_by_session :: "(string, int) dict"
  month_end_by_month :: "(string, string) dict"
  bytes_sha256_grouped :: string
  session_ids_sha256_grouped :: string

definition is_session :: "trading_calendar \<Rightarrow> string \<Rightarrow> bool res" where
  "is_session c day = rbind (iso_date day) (\<lambda>d. Inr (dict_get (index_by_session c) d \<noteq> None))"

definition reject_missing :: "trading_calendar \<Rightarrow> string \<Rightarrow> 'a res" where
  "reject_missing c day =
     (if day < coverage_start c \<or> day > coverage_end c then Inl (TradingCalendarError ''BLOCKED_DATE_OUT_OF_COVERAGE'')
      else Inl (TradingCalendarError ''BLOCKED_MISSING_SESSION''))"

definition session :: "trading_calendar \<Rightarrow> string \<Rightarrow> session_row res" where
  "session c sid = rbind (iso_date sid) (\<lambda>day. case dict_get (row_by_session c) day of
     None \<Rightarrow> reject_missing c day | Some r \<Rightarrow> Inr r)"

definition position :: "trading_calendar \<Rightarrow> string \<Rightarrow> int res" where
  "position c sid = rbind (iso_date sid) (\<lambda>day. case dict_get (index_by_session c) day of
     None \<Rightarrow> reject_missing c day | Some i \<Rightarrow> Inr i)"

definition offset :: "trading_calendar \<Rightarrow> string \<Rightarrow> int \<Rightarrow> string res" where
  "offset c sid n = rbind (position c sid) (\<lambda>p.
     let i = p + n in
     if i < 0 \<or> i \<ge> int (length (session_ids c)) then Inl (TradingCalendarError BLOCKED_SESSION_OFFSET_OUT_OF_RANGE)
     else Inr (session_ids c ! nat i))"

definition next_session :: "trading_calendar \<Rightarrow> string \<Rightarrow> string res" where
  "next_session c sid = offset c sid 1"

definition previous_session :: "trading_calendar \<Rightarrow> string \<Rightarrow> string res" where
  "previous_session c sid = offset c sid (- 1)"

definition sessions_between :: "trading_calendar \<Rightarrow> string \<Rightarrow> string \<Rightarrow> int res" where
  "sessions_between c start stop = rbind (position c stop) (\<lambda>q. rbind (position c start) (\<lambda>p. Inr (q - p)))"

definition next_eligible_session :: "trading_calendar \<Rightarrow> string \<Rightarrow> string res" where
  "next_eligible_session c day = rbind (iso_date day) (\<lambda>target.
     if target > coverage_end c then Inl (TradingCalendarError ''BLOCKED_DATE_OUT_OF_COVERAGE'')
     else if dict_get (index_by_session c) target \<noteq> None then Inr target
     else (case first_match (\<lambda>candidate. candidate \<ge> target) (session_ids c) of
        Some candidate \<Rightarrow> Inr candidate
      | None \<Rightarrow> Inl (TradingCalendarError ''BLOCKED_NO_NEXT_ELIGIBLE_SESSION'')))"

definition is_half_day :: "trading_calendar \<Rightarrow> string \<Rightarrow> bool res" where
  "is_half_day c sid = rbind (session c sid) (\<lambda>r. Inr (row_is_half_day r))"

text \<open>A session of the vector without a row is a key error.\<close>

definition half_day_sessions :: "trading_calendar \<Rightarrow> string list res" where
  "half_day_sessions c = rbind (map_res (\<lambda>s. case dict_get (row_by_session c) s of
       None \<Rightarrow> Inl KeyError | Some r \<Rightarrow> Inr (s, row_is_half_day r)) (session_ids c)) (\<lambda>ps.
     Inr (map fst (filter snd ps)))"

text \<open>The month is given by its key, the formatted year and month.\<close>

definition month_end_session :: "trading_calendar \<Rightarrow> string \<Rightarrow> string res" where
  "month_end_session c key = (case dict_get (month_end_by_month c) key of
     None \<Rightarrow> Inl (TradingCalendarError ''BLOCKED_DATE_OUT_OF_COVERAGE'') | Some s \<Rightarrow> Inr s)"

definition is_month_end_session :: "trading_calendar \<Rightarrow> string \<Rightarrow> bool res" where
  "is_month_end_session c sid = rbind (session c sid) (\<lambda>r.
     case dict_get (month_end_by_month c) (take 7 (row_session r)) of
       None \<Rightarrow> Inl KeyError | Some s \<Rightarrow> Inr (s = row_session r))"

definition month_end_sessions :: "trading_calendar \<Rightarrow> string list" where
  "month_end_sessions c = map (\<lambda>k. the (dict_get (month_end_by_month c) k)) (sort (map fst (month_end_by_month c)))"

definition authority_phase :: "trading_calendar \<Rightarrow> string \<Rightarrow> string res" where
  "authority_phase c sid = rbind (session c sid) (\<lambda>r. Inr (row_phase r))"

section \<open>Loading\<close>

record bound_artifact =
  role :: string
  artifact_path :: string
  artifact_sha256_grouped :: string

fun verify_bound_artifacts :: "(string \<Rightarrow> string res) \<Rightarrow> bound_artifact list \<Rightarrow> unit res" where
  "verify_bound_artifacts file_hash [] = Inr ()"
| "verify_bound_artifacts file_hash (a # rest) = rbind (file_hash (artifact_path a)) (\<lambda>observed.
     if observed \<noteq> artifact_sha256_grouped a then Inl (TradingCalendarError ''BLOCKED_CALENDAR_AUTHORITY_BYTES_MISMATCH'')
     else verify_bound_artifacts file_hash rest)"

definition malformed :: py_exc where "malformed = TradingCalendarError ''BLOCKED_MALFORMED_CALENDAR_ARTIFACT''"

definition require_str :: "json \<Rightarrow> string \<Rightarrow> string res" where
  "require_str document key = (case json_get document key of
     JString s \<Rightarrow> if s = [] then Inl malformed else Inr s
   | _ \<Rightarrow> Inl malformed)"

definition add_session_row :: "session_row list \<times> string \<Rightarrow> json \<Rightarrow> (session_row list \<times> string) res" where
  "add_session_row st entry = (case entry of
     JObject _ \<Rightarrow>
       rbind (require_str entry ''session_id'') (\<lambda>text.
       rbind (iso_date text) (\<lambda>sid.
       if sid \<le> snd st then Inl malformed
       else rbind (require_str entry ''close_class'') (\<lambda>cls.
       if cls \<notin> set CLOSE_CLASSES then Inl malformed
       else rbind (require_str entry ''authority_phase'') (\<lambda>phase.
       if phase \<notin> set AUTHORITY_PHASES then Inl malformed
       else rbind (require_str entry ''market_open'') (\<lambda>opn.
            rbind (require_str entry ''market_close'') (\<lambda>cls_time.
              Inr (fst st @ [\<lparr>row_session = sid, market_open = opn, market_close = cls_time, close_class = cls,
                               row_phase = phase\<rparr>], sid)))))))
   | _ \<Rightarrow> Inl malformed)"

definition session_rows :: "json \<Rightarrow> session_row list res" where
  "session_rows document = (case json_get document ''sessions'' of
     JList entries \<Rightarrow> if entries = [] then Inl malformed
       else rbind (fold_res add_session_row ([], []) entries) (\<lambda>st. Inr (fst st))
   | _ \<Rightarrow> Inl malformed)"

definition dict_of :: "('k \<times> 'v) list \<Rightarrow> ('k, 'v) dict" where
  "dict_of ps = foldl (\<lambda>d p. dict_set d (fst p) (snd p)) [] ps"

text \<open>The coverage check and the lookups, from the rows on.\<close>

definition build_calendar :: "json \<Rightarrow> string \<Rightarrow> string \<Rightarrow> string \<Rightarrow> session_row list \<Rightarrow> trading_calendar res" where
  "build_calendar document cid observed value_digest rows =
     (let sids = map row_session rows in
      rbind (require_str document ''coverage_start'') (\<lambda>cs. rbind (iso_date cs) (\<lambda>start.
      rbind (require_str document ''coverage_end'') (\<lambda>ce. rbind (iso_date ce) (\<lambda>stop.
      if \<not> (start \<le> hd sids \<and> last sids \<le> stop) then Inl malformed
      else rbind (require_str document ''timezone'') (\<lambda>tz.
        Inr \<lparr>cal_id = cid, coverage_start = start, coverage_end = stop, timezone = tz, session_ids = sids,
             row_by_session = dict_of (map (\<lambda>r. (row_session r, r)) rows),
             index_by_session = dict_of (zip sids (map int [0..<length sids])),
             month_end_by_month = dict_of (map (\<lambda>s. (take 7 s, s)) sids),
             bytes_sha256_grouped = observed, session_ids_sha256_grouped = value_digest\<rparr>))))))"

definition load_calendar ::
  "(string \<Rightarrow> string res) \<Rightarrow> json option \<Rightarrow> (string list \<Rightarrow> string) \<Rightarrow> bound_artifact list \<Rightarrow> bool \<Rightarrow> trading_calendar res" where
  "load_calendar file_hash parsed value_digest artifacts verify_authority_chain =
     (let mismatch = TradingCalendarError ''BLOCKED_CALENDAR_AUTHORITY_BYTES_MISMATCH'' in
      rbind (if verify_authority_chain then verify_bound_artifacts file_hash artifacts else Inr ()) (\<lambda>_.
      rbind (file_hash CALENDAR_PATH) (\<lambda>observed.
      if observed \<noteq> CALENDAR_SHA256_GROUPED then Inl mismatch
      else (case parsed of
         None \<Rightarrow> Inl malformed
       | Some document \<Rightarrow> (case document of
           JObject _ \<Rightarrow>
             rbind (require_str document ''calendar_id'') (\<lambda>cid.
             if cid \<noteq> CALENDAR_ID then Inl mismatch
             else rbind (session_rows document) (\<lambda>rows.
             if length rows \<noteq> ACCEPTED_SESSION_COUNT then Inl mismatch
             else if value_digest (map row_session rows) \<noteq> SESSION_IDS_SHA256_GROUPED then Inl mismatch
             else build_calendar document cid observed (value_digest (map row_session rows)) rows))
         | _ \<Rightarrow> Inl malformed)))))"

definition require_calendar :: "trading_calendar option \<Rightarrow> trading_calendar res" where
  "require_calendar calendar = (case calendar of
     None \<Rightarrow> Inl (TradingCalendarError ''BLOCKED_MISSING_CALENDAR'') | Some c \<Rightarrow> Inr c)"

end
