(* ===== verification/Calendar_Algebra.thy ===== *)
theory Calendar_Algebra
  imports Trading_Calendar Fee_Lookup
begin

text \<open>
  Properties of the exchange calendar: what a calendar built from checked rows satisfies, exact
  positions and offsets, the next eligible session, month ends, and that ISO texts are ordered as the dates
  they print.
\<close>

section \<open>Dictionaries built from pairs\<close>

lemma dict_of_snoc: "dict_of (ps @ [p]) = dict_set (dict_of ps) (fst p) (snd p)"
  by (simp add: dict_of_def)

lemma map_of_dict_of: "map_of (dict_of ps) k = map_of (rev ps) k"
  by (induction ps rule: rev_induct) (auto simp: dict_of_snoc update_conv' dict_of_def [of "[]"])

lemma distinct_dict_of: "distinct (map fst (dict_of ps))"
  by (induction ps rule: rev_induct) (auto simp: dict_of_snoc distinct_update dict_of_def [of "[]"])

lemma dict_set_new: "k \<notin> fst ` set d \<Longrightarrow> dict_set d k v = d @ [(k, v)]"
  by (induction d) auto

lemma dict_of_distinct: "distinct (map fst ps) \<Longrightarrow> dict_of ps = ps"
  by (induction ps rule: rev_induct) (auto simp: dict_of_snoc dict_set_new dict_of_def [of "[]"])

section \<open>Accepted calendars\<close>

definition iso_day :: "string \<Rightarrow> bool" where
  "iso_day s \<longleftrightarrow> date_format s \<and> calendar_date s"

lemma iso_date_eq: "iso_date s = (if iso_day s then Inr s else Inl (TradingCalendarError ''BLOCKED_NOT_AN_ISO_DATE''))"
  by (simp add: iso_date_def iso_day_def)

lemma iso_date_Inr: "iso_date s = Inr d \<longleftrightarrow> iso_day s \<and> d = s"
  by (auto simp: iso_date_eq)

definition wf_calendar :: "trading_calendar \<Rightarrow> bool" where
  "wf_calendar c \<longleftrightarrow> session_ids c \<noteq> [] \<and> sorted_wrt (<) (session_ids c) \<and> list_all iso_day (session_ids c)
     \<and> coverage_start c \<le> hd (session_ids c) \<and> last (session_ids c) \<le> coverage_end c
     \<and> index_by_session c = zip (session_ids c) (map int [0..<length (session_ids c)])
     \<and> (\<exists>rows. map row_session rows = session_ids c \<and> row_by_session c = map (\<lambda>r. (row_session r, r)) rows)
     \<and> month_end_by_month c = dict_of (map (\<lambda>s. (take 7 s, s)) (session_ids c))"

lemma add_session_row_Inr:
  "add_session_row st entry = Inr st' \<Longrightarrow>
   \<exists>r. st' = (fst st @ [r], row_session r) \<and> iso_day (row_session r) \<and> snd st < row_session r"
  unfolding add_session_row_def by (cases entry) (auto elim!: res_elims simp: not_le iso_date_Inr)

lemma session_rows_loop:
  assumes "fold_res add_session_row st entries = Inr st'"
    and "sorted_wrt (<) (map row_session (fst st))" "list_all iso_day (map row_session (fst st))"
    and "\<And>r. r \<in> set (fst st) \<Longrightarrow> row_session r \<le> snd st"
  shows "sorted_wrt (<) (map row_session (fst st')) \<and> list_all iso_day (map row_session (fst st'))
    \<and> (length (fst st') = length (fst st) + length entries)"
  using assms
proof (induction entries arbitrary: st)
  case (Cons entry entries)
  then obtain st1 where st1: "add_session_row st entry = Inr st1" "fold_res add_session_row st1 entries = Inr st'" by auto
  from st1(1) obtain r where r: "fst st1 = fst st @ [r]" "snd st1 = row_session r" "iso_day (row_session r)" "snd st < row_session r"
    using add_session_row_Inr by fastforce
  have "sorted_wrt (<) (map row_session (fst st1))"
    using Cons.prems(2,4) r by (force simp: sorted_wrt_append)
  moreover have "row_session x \<le> snd st1" if "x \<in> set (fst st1)" for x
    using that r Cons.prems(4) [of x] by auto
  ultimately show ?case using Cons.IH [OF st1(2)] Cons.prems(3) r by auto
qed simp

lemma session_rows_Inr:
  assumes "session_rows doc = Inr rows"
  shows "rows \<noteq> []" "sorted_wrt (<) (map row_session rows)" "list_all iso_day (map row_session rows)"
proof -
  from assms obtain entries st where e: "entries \<noteq> []" "fold_res add_session_row ([], []) entries = Inr st" "rows = fst st"
    by (auto simp: session_rows_def split: json.splits if_splits)
  from session_rows_loop [OF e(2)] e(1,3)
  show "rows \<noteq> []" "sorted_wrt (<) (map row_session rows)" "list_all iso_day (map row_session rows)" by auto
qed

lemma built_calendar:
  assumes rows: "session_rows doc = Inr rows" and c: "build_calendar d cid obs dig rows = Inr c"
  shows "wf_calendar c" "session_ids c = map row_session rows"
proof -
  note r = session_rows_Inr [OF rows]
  then have d: "distinct (map row_session rows)" by (simp add: strict_sorted_iff)
  from c have ids: "session_ids c = map row_session rows"
    and cov: "coverage_start c \<le> hd (session_ids c)" "last (session_ids c) \<le> coverage_end c"
    and dicts: "row_by_session c = dict_of (map (\<lambda>r. (row_session r, r)) rows)"
      "index_by_session c = dict_of (zip (session_ids c) (map int [0..<length (session_ids c)]))"
      "month_end_by_month c = dict_of (map (\<lambda>s. (take 7 s, s)) (session_ids c))"
    unfolding build_calendar_def Let_def by (auto split: if_splits)
  have "dict_of (map (\<lambda>r. (row_session r, r)) rows) = map (\<lambda>r. (row_session r, r)) rows"
    by (rule dict_of_distinct) (use d in \<open>simp add: o_def\<close>)
  moreover have "dict_of (zip (session_ids c) (map int [0..<length (session_ids c)])) = zip (session_ids c) (map int [0..<length (session_ids c)])"
    by (rule dict_of_distinct) (use d ids in simp)
  ultimately show "wf_calendar c"
    using r ids cov dicts unfolding wf_calendar_def by auto
  show "session_ids c = map row_session rows" by (rule ids)
qed

section \<open>The session algebra\<close>

lemma index_of_session:
  assumes "distinct ids"
  shows "map_of (zip ids (map int [0..<length ids])) s = Some i \<longleftrightarrow> 0 \<le> i \<and> i < int (length ids) \<and> ids ! nat i = s"
proof -
  have "map_of (zip ids (map int [0..<length ids])) s = Some i \<longleftrightarrow> (s, i) \<in> set (zip ids (map int [0..<length ids]))"
    using assms by (intro map_of_eq_Some_iff) simp
  also have "\<dots> \<longleftrightarrow> (\<exists>k < length ids. ids ! k = s \<and> int k = i)"
    by (auto simp: set_zip)
  finally show ?thesis by (metis nat_int nat_less_iff of_nat_0_le_iff of_nat_less_iff int_nat_eq)
qed

lemma wf_distinct: "wf_calendar c \<Longrightarrow> distinct (session_ids c)"
  by (simp add: wf_calendar_def strict_sorted_iff)

lemma wf_iso: "wf_calendar c \<Longrightarrow> s \<in> set (session_ids c) \<Longrightarrow> iso_day s"
  by (auto simp: wf_calendar_def list_all_iff)

lemma position_Inr:
  assumes wf: "wf_calendar c"
  shows "position c s = Inr i \<longleftrightarrow> 0 \<le> i \<and> i < int (length (session_ids c)) \<and> session_ids c ! nat i = s"
proof -
  have idx: "dict_get (index_by_session c) s = Some i \<longleftrightarrow> 0 \<le> i \<and> i < int (length (session_ids c)) \<and> session_ids c ! nat i = s" for i
    using index_of_session [OF wf_distinct [OF wf]] wf by (simp add: wf_calendar_def)
  show ?thesis
  proof (cases "iso_day s")
    case True
    with idx [of i] show ?thesis by (auto simp: position_def iso_date_eq reject_missing_def split: option.splits if_splits)
  next
    case False
    then have "s \<notin> set (session_ids c)" using wf_iso [OF wf] by blast
    then have "\<not> (0 \<le> i \<and> i < int (length (session_ids c)) \<and> session_ids c ! nat i = s)"
      using nth_mem [of "nat i" "session_ids c"] by auto
    with False show ?thesis by (auto simp: position_def iso_date_eq)
  qed
qed

lemma session_Inr:
  assumes wf: "wf_calendar c" and s: "s \<in> set (session_ids c)"
  shows "\<exists>r. session c s = Inr r \<and> row_session r = s"
proof -
  obtain rows where rows: "map row_session rows = session_ids c" "row_by_session c = map (\<lambda>r. (row_session r, r)) rows"
    using wf by (auto simp: wf_calendar_def)
  have "s \<in> set (map row_session rows)" using s rows(1) by simp
  then obtain r where r: "r \<in> set rows" "row_session r = s" by auto
  have "dict_get (row_by_session c) s = Some r"
  proof (rule map_of_is_SomeI)
    show "distinct (map fst (row_by_session c))" using rows wf_distinct [OF wf] by (simp add: o_def)
    show "(s, r) \<in> set (row_by_session c)" using r rows(2) by auto
  qed
  with r wf_iso [OF wf s] show ?thesis by (simp add: session_def iso_date_eq)
qed

lemma offset_iff:
  assumes wf: "wf_calendar c"
  shows "offset c s n = Inr t \<longleftrightarrow> (\<exists>p. position c s = Inr p \<and> position c t = Inr (p + n))"
proof (cases "position c s")
  case (Inr p)
  have "offset c s n = Inr t \<longleftrightarrow> 0 \<le> p + n \<and> p + n < int (length (session_ids c)) \<and> session_ids c ! nat (p + n) = t"
    by (auto simp: offset_def Inr Let_def)
  with position_Inr [OF wf, of t "p + n"] show ?thesis by (simp add: Inr)
qed (simp add: offset_def)

lemma first_match_sorted:
  "sorted_wrt (<) xs \<Longrightarrow> first_match (\<lambda>x. x \<ge> t) xs = Some s \<longleftrightarrow> s \<in> set xs \<and> t \<le> s \<and> (\<forall>x \<in> set xs. t \<le> x \<longrightarrow> s \<le> x)"
  for t :: "'a::linorder"
  by (induction xs) (auto simp: not_le dest: order_less_imp_le order_antisym)

lemma next_eligible_iff:
  assumes wf: "wf_calendar c"
  shows "next_eligible_session c day = Inr s \<longleftrightarrow> iso_day day \<and> day \<le> coverage_end c
    \<and> s \<in> set (session_ids c) \<and> day \<le> s \<and> (\<forall>x \<in> set (session_ids c). day \<le> x \<longrightarrow> s \<le> x)"
proof -
  have mem: "dict_get (index_by_session c) day \<noteq> None \<longleftrightarrow> day \<in> set (session_ids c)"
  proof -
    have "map fst (zip (session_ids c) (map int [0..<length (session_ids c)])) = session_ids c" by simp
    then have "fst ` set (zip (session_ids c) (map int [0..<length (session_ids c)])) = set (session_ids c)" by (metis list.set_map)
    with wf show ?thesis by (simp add: wf_calendar_def map_of_eq_None_iff)
  qed
  have srt: "sorted_wrt (<) (session_ids c)" using wf by (simp add: wf_calendar_def)
  show ?thesis
  proof (cases "iso_day day \<and> day \<le> coverage_end c")
    case True
    show ?thesis
    proof (cases "day \<in> set (session_ids c)")
      case day: True
      then have "next_eligible_session c day = Inr day"
        using True mem by (simp add: next_eligible_session_def iso_date_eq not_less)
      with True day show ?thesis by (auto intro: order_antisym)
    next
      case False
      then have "dict_get (index_by_session c) day = None" using mem by blast
      with True first_match_sorted [OF srt, of day s] show ?thesis
        by (auto simp: next_eligible_session_def iso_date_eq split: option.splits)
    qed
  qed (auto simp: next_eligible_session_def iso_date_eq)
qed

lemma session_le_end: "wf_calendar c \<Longrightarrow> x \<in> set (session_ids c) \<Longrightarrow> x \<le> coverage_end c"
proof -
  assume wf: "wf_calendar c" and x: "x \<in> set (session_ids c)"
  have "sorted (session_ids c)" using wf by (simp add: wf_calendar_def strict_sorted_iff)
  with x have "x \<le> last (session_ids c)"
    by (metis append_butlast_last_id empty_iff in_set_conv_decomp last_snoc list.set(1) set_ConsD sorted_append Un_iff set_append list.set_intros(1) order_refl)
  also have "\<dots> \<le> coverage_end c" using wf by (simp add: wf_calendar_def)
  finally show ?thesis .
qed

section \<open>Month ends\<close>

definition month_end :: "string list \<Rightarrow> string \<Rightarrow> bool" where
  "month_end ids s \<longleftrightarrow> s \<in> set ids \<and> (\<forall>x \<in> set ids. take 7 x = take 7 s \<longrightarrow> x \<le> s)"

lemma last_of_month:
  "sorted_wrt (<) ids \<Longrightarrow> map_of (rev (map (\<lambda>s. (take 7 s, s)) ids)) k = Some s \<longleftrightarrow> month_end ids s \<and> take 7 s = k"
proof (induction ids rule: rev_induct)
  case (snoc x ids)
  then have IH: "map_of (rev (map (\<lambda>s. (take 7 s, s)) ids)) k = Some s \<longleftrightarrow> month_end ids s \<and> take 7 s = k"
    and x: "\<And>y. y \<in> set ids \<Longrightarrow> y < x" by (auto simp: sorted_wrt_append)
  show ?case
  proof (cases "take 7 x = k")
    case True
    then show ?thesis using x by (fastforce simp: month_end_def not_le [symmetric])
  next
    case False
    with IH x show ?thesis by (fastforce simp: month_end_def)
  qed
qed (simp add: month_end_def)

lemma month_end_sessions_set:
  assumes wf: "wf_calendar c"
  shows "set (month_end_sessions c) = {s. month_end (session_ids c) s}"
proof -
  let ?d = "month_end_by_month c"
  have get: "dict_get ?d k = Some s \<longleftrightarrow> month_end (session_ids c) s \<and> take 7 s = k" for k s
    using last_of_month [of "session_ids c" k s] wf by (simp add: wf_calendar_def map_of_dict_of)
  have "s \<in> set (month_end_sessions c) \<longleftrightarrow> (\<exists>k. dict_get ?d k = Some s)" for s
  proof -
    have "s \<in> set (month_end_sessions c) \<longleftrightarrow> (\<exists>k \<in> fst ` set ?d. the (dict_get ?d k) = s)"
      by (auto simp: month_end_sessions_def)
    also have "\<dots> \<longleftrightarrow> (\<exists>k. dict_get ?d k = Some s)"
      by (metis dom_map_of_conv_image_fst domD domI option.sel)
    finally show ?thesis .
  qed
  then show ?thesis using get by auto
qed

lemma distinct_month_end_sessions:
  assumes wf: "wf_calendar c"
  shows "distinct (month_end_sessions c)"
proof -
  let ?d = "month_end_by_month c"
  have get: "dict_get ?d k = Some s \<Longrightarrow> take 7 s = k" for k s
    using last_of_month [of "session_ids c" k s] wf by (simp add: wf_calendar_def map_of_dict_of)
  have "distinct (map fst ?d)" using wf by (simp add: wf_calendar_def distinct_dict_of)
  moreover have "inj_on (\<lambda>k. the (dict_get ?d k)) (set (map fst ?d))"
  proof (rule inj_onI)
    fix k k' assume k: "k \<in> set (map fst ?d)" "k' \<in> set (map fst ?d)" and eq: "the (dict_get ?d k) = the (dict_get ?d k')"
    then obtain s s' where "dict_get ?d k = Some s" "dict_get ?d k' = Some s'"
      by (metis dom_map_of_conv_image_fst domD list.set_map)
    with get eq show "k = k'" by (metis option.sel)
  qed
  ultimately show ?thesis by (simp add: month_end_sessions_def distinct_map)
qed

section \<open>The order of dates\<close>

lemma append_less:
  "length a = length b \<Longrightarrow> a @ x < b @ y \<longleftrightarrow> a < b \<or> a = b \<and> x < y" for a b x y :: "'a::linorder list"
  by (induction a b rule: list_induct2) auto

lemma digits_value_Cons: "digits_value (c # cs) = digit_value c * 10 ^ length cs + digits_value cs"
  by (induction cs rule: rev_induct) (auto simp: digits_value_snoc digits_value_def [of "[_]"] digits_value_def [of "[]"] algebra_simps
      digits_value_snoc [of "_ # _", simplified])

lemma digits_less:
  "length a = length b \<Longrightarrow> list_all is_digit a \<Longrightarrow> list_all is_digit b \<Longrightarrow> a < b \<longleftrightarrow> digits_value a < digits_value b"
proof (induction a b rule: list_induct2)
  case (Cons c cs d ds)
  have less: "c < d \<longleftrightarrow> digit_value c < digit_value d" "c = d \<longleftrightarrow> digit_value c = digit_value d"
    by (auto simp: digit_value_def less_char_def)
  have b: "0 \<le> digits_value cs" "digits_value cs < 10 ^ length ds" "0 \<le> digits_value ds" "digits_value ds < 10 ^ length ds"
    using digits_value_bound [of cs] digits_value_bound [of ds] Cons by auto
  consider "digit_value c < digit_value d" | "digit_value c = digit_value d" | "digit_value d < digit_value c" by linarith
  then show ?case
  proof cases
    case 1
    then have "(digit_value c + 1) * 10 ^ length ds \<le> digit_value d * (10 ^ length ds :: int)" by (intro mult_right_mono) auto
    with 1 b less show ?thesis using Cons.hyps by (simp add: digits_value_Cons algebra_simps)
  next
    case 2
    with Cons less show ?thesis by (simp add: digits_value_Cons)
  next
    case 3
    then have "(digit_value d + 1) * 10 ^ length ds \<le> digit_value c * (10 ^ length ds :: int)" by (intro mult_right_mono) auto
    with 3 b less show ?thesis using Cons.hyps by (simp add: digits_value_Cons algebra_simps)
  qed
qed (simp add: digits_value_def)

lemma iso_day_less:
  assumes "iso_day s" "iso_day t"
  shows "s < t \<longleftrightarrow> date_of s < date_of t"
proof -
  have fs: "date_format s" and ft: "date_format t" using assms by (auto simp: iso_day_def)
  let ?a = "take 4 s" and ?b = "take 2 (drop 5 s)" and ?c = "drop 8 s"
    and ?a' = "take 4 t" and ?b' = "take 2 (drop 5 t)" and ?c' = "drop 8 t"
  have l: "length ?a = length ?a'" "length ?b = length ?b'" "length ?c = length ?c'"
    and d: "list_all is_digit ?a" "list_all is_digit ?a'" "list_all is_digit ?b" "list_all is_digit ?b'"
      "list_all is_digit ?c" "list_all is_digit ?c'"
    using fs ft by (auto simp: date_format_def)
  have eq: "x = y \<longleftrightarrow> digits_value x = digits_value y" if "length x = length y" "list_all is_digit x" "list_all is_digit y" for x y
    using digits_less [OF that] digits_less [OF that(1) [symmetric] that(3,2)] by (metis less_irrefl neqE)
  have "s < t \<longleftrightarrow> ?a @ ''-'' @ ?b @ ''-'' @ ?c < ?a' @ ''-'' @ ?b' @ ''-'' @ ?c'"
    using split_iso [OF fs] split_iso [OF ft] by simp
  also have "\<dots> \<longleftrightarrow> ?a < ?a' \<or> ?a = ?a' \<and> (?b < ?b' \<or> ?b = ?b' \<and> ?c < ?c')"
    by (simp only: append_less [OF l(1)] append_less [OF l(2)] append_Cons append_Nil Cons_less_Cons simp_thms less_irrefl)
  also have "\<dots> \<longleftrightarrow> date_of s < date_of t"
    unfolding date_of_def less_prod_simp
    using digits_less [OF l(1) d(1,2)] digits_less [OF l(2) d(3,4)] digits_less [OF l(3) d(5,6)]
      eq [OF l(1) d(1,2)] eq [OF l(2) d(3,4)] by auto
  finally show ?thesis .
qed

section \<open>Properties of the session algebra\<close>

definition ex_session :: "string \<Rightarrow> json" where
  "ex_session s = JObject [(''session_id'', JString s), (''market_open'', JString ''09:30''), (''market_close'', JString ''16:00''),
     (''close_class'', JString ''NORMAL''), (''authority_phase'', JString ''GENERATED_HISTORICAL_CANDIDATE'')]"

definition ex_document :: json where
  "ex_document = JObject [(''sessions'', JList (map ex_session [''2020-01-30'', ''2020-01-31'', ''2020-02-03'', ''2020-02-28'', ''2020-03-02''])),
     (''coverage_start'', JString ''2020-01-01''), (''coverage_end'', JString ''2020-03-31''), (''timezone'', JString ''America/New_York'')]"

definition ex_rows :: "session_row list" where
  "ex_rows = map (\<lambda>s. \<lparr>row_session = s, market_open = ''09:30'', market_close = ''16:00'', close_class = ''NORMAL'',
     row_phase = ''GENERATED_HISTORICAL_CANDIDATE''\<rparr>) [''2020-01-30'', ''2020-01-31'', ''2020-02-03'', ''2020-02-28'', ''2020-03-02'']"

lemma ex_days: "iso_day ''2020-01-30''" "iso_day ''2020-01-31''" "iso_day ''2020-02-03''" "iso_day ''2020-02-28''" "iso_day ''2020-03-02''"
  "iso_day ''2020-01-01''" "iso_day ''2020-03-31''" "iso_day ''2020-02-01''"
  by (simp_all add: iso_day_def date_format_def calendar_date_def is_digit_def less_eq_char_def digits_value_def digit_value_def
      days_in_month_def leap_year_def Let_def)

lemma ex_session_rows: "session_rows ex_document = Inr ex_rows"
  by (simp add: session_rows_def ex_document_def json_get_def add_session_row_def ex_session_def require_str_def iso_date_eq ex_days
      CLOSE_CLASSES_def AUTHORITY_PHASES_def ex_rows_def less_char_def)

definition ex_calendar :: trading_calendar where
  "ex_calendar = (case build_calendar ex_document ''X'' ''H'' ''D'' ex_rows of Inr c \<Rightarrow> c)"

lemma ex_build: "build_calendar ex_document ''X'' ''H'' ''D'' ex_rows = Inr ex_calendar"
  by (simp add: ex_calendar_def build_calendar_def ex_document_def json_get_def require_str_def iso_date_eq ex_days ex_rows_def Let_def
     less_char_def less_le [symmetric])

text \<open>
  C39: the session algebra is exact. On a calendar built from checked rows, moving \<open>n\<close> sessions from
  a session gives \<open>t\<close> exactly when \<open>n\<close> sessions lie between them, so that moving back
  returns to the start, nothing is clamped at the edges and no date is substituted; and the next eligible
  session of a date is the first session on or after it.
\<close>

theorem session_algebra_exact:
  assumes "session_rows doc = Inr rows" and "build_calendar doc cid observed digest rows = Inr c"
  shows "(offset c s n = Inr t \<longleftrightarrow> sessions_between c s t = Inr n)
    \<and> (offset c s n = Inr t \<longleftrightarrow> offset c t (- n) = Inr s)
    \<and> (next_eligible_session c day = Inr s \<longleftrightarrow> iso_day day \<and> day \<le> coverage_end c
        \<and> s \<in> row_session ` set rows \<and> day \<le> s \<and> (\<forall>x \<in> row_session ` set rows. day \<le> x \<longrightarrow> s \<le> x))"
proof -
  note wf = built_calendar [OF assms]
  have "sessions_between c s t = Inr n \<longleftrightarrow> (\<exists>p. position c s = Inr p \<and> position c t = Inr (p + n))"
    by (auto simp: sessions_between_def rbind_Inr_iff)
  then show ?thesis
    using offset_iff [OF wf(1)] next_eligible_iff [OF wf(1), of day s] wf(2) by auto
qed

lemma ex_forward: "offset ex_calendar ''2020-01-31'' 2 = Inr ''2020-02-28''"
proof -
  note c = built_calendar [OF ex_session_rows ex_build]
  have "position ex_calendar ''2020-01-31'' = Inr 1" "position ex_calendar ''2020-02-28'' = Inr 3"
    unfolding position_Inr [OF c(1)] by (simp_all add: c(2) ex_rows_def)
  then show ?thesis by (simp add: offset_iff [OF c(1)])
qed

theorem session_algebra_exact_witness:
  "offset ex_calendar ''2020-02-28'' (- 2) = Inr ''2020-01-31'' \<and> sessions_between ex_calendar ''2020-01-31'' ''2020-02-28'' = Inr 2"
  using session_algebra_exact [OF ex_session_rows ex_build] ex_forward by blast

end
