(* ===== verification/Rebalance_Schedule.thy ===== *)
theory Rebalance_Schedule
  imports Trading_Calendar Fee_Schedule
begin

text \<open>
  The rebalance-schedule kernel \<open>qme/quant/schedule_v1.py\<close>: policy records and their registry, the
  offsets of a feature variant, the warm-up of a signal session, the month-end selection and the derived
  schedule. The manifest of the calendar and the binding digest are copied into the result by the code and
  are left out, as is the canonical JSON of the result.
\<close>

definition RebalanceScheduleError :: "string \<Rightarrow> py_exc" where
  "RebalanceScheduleError state = Raised ''RebalanceScheduleError'' state"

definition FREQUENCY_KIND_MONTH_END_SESSIONS :: string where
  "FREQUENCY_KIND_MONTH_END_SESSIONS = ''MONTH_END_SESSIONS''"
definition FREQUENCY_KINDS :: "string list" where "FREQUENCY_KINDS = [FREQUENCY_KIND_MONTH_END_SESSIONS]"
definition REGISTERED_SOURCE_KINDS :: "string list" where
  "REGISTERED_SOURCE_KINDS = [''OWNER_DECISION_RECORD'', ''FROZEN_CONTRACT_KEY'']"
definition SCHEDULE_SOURCE_KINDS :: "string list" where
  "SCHEDULE_SOURCE_KINDS = [''OWNER_DECISION_RECORD'', ''FROZEN_CONTRACT_KEY'', ''TEST_CONSTRUCTED'']"

datatype warmup_state = WARMUP_SATISFIED | WARMUP_INSUFFICIENT_HISTORY

section \<open>Policies\<close>

definition schedule_identifier :: "pyval \<Rightarrow> string res" where
  "schedule_identifier value = (case value of
     PStr s \<Rightarrow> if s \<noteq> [] \<and> length s \<le> 128 \<and> identifier_start (hd s)
               \<and> list_all (\<lambda>c. identifier_start c \<or> c \<in> set ''._:-'') (tl s)
       then Inr s else Inl (RebalanceScheduleError ''BLOCKED_MALFORMED_SCHEDULE_POLICY'')
   | _ \<Rightarrow> Inl (RebalanceScheduleError ''BLOCKED_MALFORMED_SCHEDULE_POLICY''))"

definition exact_int :: "pyval \<Rightarrow> int res" where
  "exact_int value = (case value of
     PInt n \<Rightarrow> Inr n | _ \<Rightarrow> Inl (RebalanceScheduleError ''BLOCKED_INVALID_VARIANT_SESSION_OFFSETS''))"

record schedule_policy =
  policy_identifier :: string
  frequency_kind :: string
  schedule_source_kind :: string
  schedule_source :: string
  schedule_source_reference :: string

definition schedule_policy_post_init :: "schedule_policy \<Rightarrow> schedule_policy res" where
  "schedule_policy_post_init p =
     rbind (schedule_identifier (PStr (policy_identifier p))) (\<lambda>_.
     if frequency_kind p \<notin> set FREQUENCY_KINDS
     then Inl (RebalanceScheduleError ''BLOCKED_UNREGISTERED_FREQUENCY_KIND'')
     else if schedule_source_kind p \<notin> set SCHEDULE_SOURCE_KINDS
     then Inl (RebalanceScheduleError ''BLOCKED_UNREGISTERED_SCHEDULE_SOURCE_KIND'')
     else if strip (schedule_source p) = [] then Inl (RebalanceScheduleError ''BLOCKED_MALFORMED_SCHEDULE_POLICY'')
     else if strip (schedule_source_reference p) = []
     then Inl (RebalanceScheduleError ''BLOCKED_MALFORMED_SCHEDULE_POLICY'')
     else Inr p)"

definition REGISTERED_SCHEDULE_POLICIES :: "schedule_policy list" where
  "REGISTERED_SCHEDULE_POLICIES = []"

text \<open>\<open>shipped\<close> says that the registry is the module's own tuple, which the code tests by identity.\<close>

definition register_policy :: "bool \<Rightarrow> string list \<Rightarrow> schedule_policy \<Rightarrow> string list res" where
  "register_policy shipped seen p =
     (if policy_identifier p \<in> set seen then Inl (RebalanceScheduleError ''BLOCKED_AMBIGUOUS_SCHEDULE_POLICY'')
      else if shipped \<and> schedule_source_kind p \<notin> set REGISTERED_SOURCE_KINDS
      then Inl (RebalanceScheduleError ''BLOCKED_UNREGISTERED_SCHEDULE_SOURCE_KIND'')
      else Inr (policy_identifier p # seen))"

definition validate_schedule_policy_registry :: "bool \<Rightarrow> schedule_policy list \<Rightarrow> unit res" where
  "validate_schedule_policy_registry shipped ps =
     (if ps = [] then Inl (RebalanceScheduleError ''BLOCKED_NO_REGISTERED_REBALANCE_SCHEDULE_POLICY'')
      else rbind (fold_res (register_policy shipped) [] ps) (\<lambda>_. Inr ()))"

definition resolve_schedule_policy :: "bool \<Rightarrow> string \<Rightarrow> schedule_policy list \<Rightarrow> schedule_policy res" where
  "resolve_schedule_policy shipped pid ps =
     rbind (validate_schedule_policy_registry shipped ps) (\<lambda>_.
     let matches = filter (\<lambda>p. policy_identifier p = pid) ps in
     if matches = [] then Inl (RebalanceScheduleError ''BLOCKED_UNRESOLVED_SCHEDULE_POLICY'')
     else if length matches > 1 then Inl (RebalanceScheduleError ''BLOCKED_AMBIGUOUS_SCHEDULE_POLICY'')
     else Inr (hd matches))"

definition validate_variant_offsets :: "pyval \<Rightarrow> pyval \<Rightarrow> (int \<times> int) res" where
  "validate_variant_offsets lookback_sessions skip_sessions =
     rbind (exact_int lookback_sessions) (\<lambda>lookback.
     rbind (exact_int skip_sessions) (\<lambda>skip.
     if skip < 0 then Inl (RebalanceScheduleError ''BLOCKED_INVALID_VARIANT_SESSION_OFFSETS'')
     else if lookback \<le> skip then Inl (RebalanceScheduleError ''BLOCKED_INVALID_VARIANT_SESSION_OFFSETS'')
     else Inr (lookback, skip)))"

section \<open>Warm-up\<close>

record warmup_assessment =
  wa_signal_session :: string
  wa_position :: int
  wa_prior :: int
  wa_required :: int
  wa_recent_offset :: int
  wa_recent_anchor :: "string option"
  wa_old_offset :: int
  wa_old_anchor :: "string option"
  wa_state :: warmup_state

definition anchor_session :: "trading_calendar \<Rightarrow> string \<Rightarrow> int \<Rightarrow> string option res" where
  "anchor_session c sid n = (case offset c sid n of
     Inr s \<Rightarrow> Inr (Some s)
   | Inl e \<Rightarrow> if e = TradingCalendarError BLOCKED_SESSION_OFFSET_OUT_OF_RANGE then Inr None else Inl e)"

definition assess_warmup ::
  "trading_calendar option \<Rightarrow> string \<Rightarrow> pyval \<Rightarrow> pyval \<Rightarrow> warmup_assessment res" where
  "assess_warmup calendar signal lookback_sessions skip_sessions =
     rbind (require_calendar calendar) (\<lambda>c.
     rbind (validate_variant_offsets lookback_sessions skip_sessions) (\<lambda>ls.
     rbind (position c signal) (\<lambda>p.
     rbind (session c signal) (\<lambda>row.
     rbind (anchor_session c signal (- snd ls)) (\<lambda>recent.
     rbind (anchor_session c signal (- fst ls)) (\<lambda>old.
       Inr \<lparr>wa_signal_session = row_session row, wa_position = p, wa_prior = p, wa_required = fst ls + 1,
            wa_recent_offset = - snd ls, wa_recent_anchor = recent, wa_old_offset = - fst ls, wa_old_anchor = old,
            wa_state = (if p \<ge> fst ls + 1 then WARMUP_SATISFIED else WARMUP_INSUFFICIENT_HISTORY)\<rparr>))))))"

section \<open>The schedule\<close>

definition month_end_signal_sessions :: "trading_calendar \<Rightarrow> string \<Rightarrow> string \<Rightarrow> string list" where
  "month_end_signal_sessions c start stop = filter (\<lambda>s. start \<le> s \<and> s \<le> stop) (month_end_sessions c)"

definition signal_session_selectors ::
  "(string, trading_calendar \<Rightarrow> string \<Rightarrow> string \<Rightarrow> string list) dict" where
  "signal_session_selectors = [(FREQUENCY_KIND_MONTH_END_SESSIONS, month_end_signal_sessions)]"

text \<open>The calendar day after a date, in ISO form.\<close>

fun next_day :: "date \<Rightarrow> date" where
  "next_day (y, m, d) = (if d < days_in_month y m then (y, m, d + 1) else if m < 12 then (y, m + 1, 1) else (y + 1, 1, 1))"

definition day_after :: "string \<Rightarrow> string res" where
  "day_after s = (let d = next_day (date_of s) in
     if fst d > 9999 then Inl (Raised ''OverflowError'' ''date value out of range'') else Inr (isoformat d))"

definition is_calendar_error :: "py_exc \<Rightarrow> bool" where
  "is_calendar_error e = (case e of Raised cls state \<Rightarrow> cls = ''TradingCalendarError'' | _ \<Rightarrow> False)"

definition fill_session :: "trading_calendar \<Rightarrow> string \<Rightarrow> string res" where
  "fill_session c signal = rbind (day_after signal) (\<lambda>day. case next_eligible_session c day of
     Inr s \<Rightarrow> Inr s
   | Inl e \<Rightarrow> if is_calendar_error e then Inl (RebalanceScheduleError ''BLOCKED_FILL_SESSION_BEYOND_COVERAGE'') else Inl e)"

record rebalance_event =
  event_ordinal :: int
  ev_signal_session :: string
  ev_signal_position :: int
  ev_signal_close_class :: string
  ev_signal_phase :: string
  ev_fill_session :: string
  ev_fill_position :: int
  ev_fill_close_class :: string
  ev_fill_phase :: string
  ev_recent_offset :: int
  ev_recent_anchor :: "string option"
  ev_old_offset :: int
  ev_old_anchor :: "string option"
  ev_prior :: int
  ev_required :: int
  ev_warmup :: warmup_state
  ev_calendar_id :: string
  ev_calendar_sha256 :: string

record rebalance_schedule =
  sch_policy :: schedule_policy
  range_start :: string
  range_end :: string
  sch_lookback :: int
  sch_skip :: int
  sch_required :: int
  sch_calendar_id :: string
  sch_calendar_sha256 :: string
  sch_session_ids_sha256 :: string
  sch_coverage_start :: string
  sch_coverage_end :: string
  events :: "rebalance_event list"
  first_warmup_satisfied :: "int option"

definition warmup_satisfied_count :: "rebalance_schedule \<Rightarrow> int" where
  "warmup_satisfied_count s = int (length (filter (\<lambda>e. ev_warmup e = WARMUP_SATISFIED) (events s)))"

definition warmup_insufficient_count :: "rebalance_schedule \<Rightarrow> int" where
  "warmup_insufficient_count s = int (length (events s)) - warmup_satisfied_count s"

definition make_event :: "trading_calendar \<Rightarrow> int \<Rightarrow> int \<Rightarrow> int \<times> string \<Rightarrow> rebalance_event res" where
  "make_event c lookback skip numbered =
     (let signal = snd numbered in
      rbind (assess_warmup (Some c) signal (PInt lookback) (PInt skip)) (\<lambda>a.
      rbind (fill_session c signal) (\<lambda>fill.
      rbind (session c signal) (\<lambda>signal_row.
      rbind (session c fill) (\<lambda>fill_row.
      rbind (position c fill) (\<lambda>fill_position.
        Inr \<lparr>event_ordinal = fst numbered, ev_signal_session = row_session signal_row, ev_signal_position = wa_position a,
             ev_signal_close_class = close_class signal_row, ev_signal_phase = row_phase signal_row,
             ev_fill_session = row_session fill_row, ev_fill_position = fill_position,
             ev_fill_close_class = close_class fill_row, ev_fill_phase = row_phase fill_row,
             ev_recent_offset = wa_recent_offset a, ev_recent_anchor = wa_recent_anchor a,
             ev_old_offset = wa_old_offset a, ev_old_anchor = wa_old_anchor a, ev_prior = wa_prior a,
             ev_required = wa_required a, ev_warmup = wa_state a, ev_calendar_id = cal_id c,
             ev_calendar_sha256 = bytes_sha256_grouped c\<rparr>))))))"

definition derive_rebalance_schedule ::
  "trading_calendar option \<Rightarrow> bool \<Rightarrow> string \<Rightarrow> string \<Rightarrow> string \<Rightarrow> pyval \<Rightarrow> pyval \<Rightarrow> schedule_policy list
   \<Rightarrow> rebalance_schedule res" where
  "derive_rebalance_schedule calendar shipped pid range_from range_to lookback_sessions skip_sessions ps =
     rbind (require_calendar calendar) (\<lambda>c.
     rbind (resolve_schedule_policy shipped pid ps) (\<lambda>policy.
     rbind (validate_variant_offsets lookback_sessions skip_sessions) (\<lambda>ls.
     rbind (iso_date range_from) (\<lambda>start.
     rbind (iso_date range_to) (\<lambda>stop.
     if start > stop then Inl (RebalanceScheduleError ''BLOCKED_INVERTED_SCHEDULE_RANGE'')
     else if start < coverage_start c \<or> stop > coverage_end c
     then Inl (RebalanceScheduleError ''BLOCKED_SCHEDULE_RANGE_OUTSIDE_CALENDAR_COVERAGE'')
     else (case dict_get signal_session_selectors (frequency_kind policy) of
        None \<Rightarrow> Inl (RebalanceScheduleError ''BLOCKED_UNREGISTERED_FREQUENCY_KIND'')
      | Some selector \<Rightarrow>
          let signals = sort (selector c start stop) in
          if signals = [] then Inl (RebalanceScheduleError ''BLOCKED_EMPTY_DERIVED_SCHEDULE'')
          else rbind (map_res (make_event c (fst ls) (snd ls)) (zip (map int [0..<length signals]) signals)) (\<lambda>evs.
            Inr \<lparr>sch_policy = policy, range_start = start, range_end = stop, sch_lookback = fst ls, sch_skip = snd ls,
                 sch_required = fst ls + 1, sch_calendar_id = cal_id c, sch_calendar_sha256 = bytes_sha256_grouped c,
                 sch_session_ids_sha256 = session_ids_sha256_grouped c, sch_coverage_start = coverage_start c,
                 sch_coverage_end = coverage_end c, events = evs,
                 first_warmup_satisfied = map_option event_ordinal
                   (first_match (\<lambda>e. ev_warmup e = WARMUP_SATISFIED) evs)\<rparr>)))))))"

end
