(* ===== verification/Schedule_Rules.thy ===== *)
theory Schedule_Rules
  imports Calendar_Algebra Rebalance_Schedule
begin

text \<open>
  Properties of the derived rebalance schedule: which sessions signal, when they fill, what their anchors
  are and when they are warmed up, in terms of the ordered sessions of the accepted calendar.
\<close>

section \<open>The day after a date\<close>

lemma next_day_valid: "valid_date d \<Longrightarrow> fst (next_day d) \<le> 9999 \<Longrightarrow> valid_date (next_day d)"
  by (cases d) (auto simp: days_in_month_def split: if_splits)

lemma next_day_least:
  assumes "valid_date d" "valid_date x"
  shows "next_day d \<le> x \<longleftrightarrow> d < x"
proof -
  obtain y m k y' m' k' where d: "d = (y, m, k)" "x = (y', m', k')" by (metis prod_cases3)
  show ?thesis
  proof (cases "k < days_in_month y m")
    case True
    then show ?thesis by (auto simp: d)
  next
    case False
    then have k: "k = days_in_month y m" using assms(1) by (simp add: d)
    consider "y < y'" | "y = y'" "m < m'" | "y = y'" "m = m'" | "y = y'" "m' < m" | "y' < y" by linarith
    then show ?thesis by cases (use assms False k in \<open>auto simp: d\<close>)
  qed
qed

lemma day_after_next:
  assumes s: "iso_day s" and t: "day_after s = Inr t"
  shows "iso_day t" "\<And>x. iso_day x \<Longrightarrow> t \<le> x \<longleftrightarrow> s < x"
proof -
  have vs: "valid_date (date_of s)" using s by (auto simp: iso_day_def intro: valid_date_of)
  from t have t': "t = isoformat (next_day (date_of s))" "fst (next_day (date_of s)) \<le> 9999"
    by (auto simp: day_after_def Let_def split: if_splits)
  note v = next_day_valid [OF vs t'(2)]
  obtain y m d where n: "next_day (date_of s) = (y, m, d)" by (metis prod_cases3)
  have dt: "date_of t = next_day (date_of s)" and it: "iso_day t"
    using isoformat_parts [of y m d] v by (auto simp: t'(1) n iso_day_def)
  show "iso_day t" by (rule it)
  fix x assume x: "iso_day x"
  then have vx: "valid_date (date_of x)" by (auto simp: iso_day_def intro: valid_date_of)
  have "t \<le> x \<longleftrightarrow> date_of t \<le> date_of x" using iso_day_less [OF x it] by (simp add: not_less [symmetric])
  with iso_day_less [OF s x] next_day_least [OF vs vx] dt show "t \<le> x \<longleftrightarrow> s < x" by simp
qed

section \<open>Events\<close>

lemma anchor_eq:
  assumes wf: "wf_calendar c" and p: "position c s = Inr p"
  shows "anchor_session c s n = Inr (if 0 \<le> p + n \<and> p + n < int (length (session_ids c))
    then Some (session_ids c ! nat (p + n)) else None)"
  by (auto simp: anchor_session_def offset_def p Let_def)

text \<open>What an event says about its signal session, in terms of the ordered sessions.\<close>

definition event_correct :: "trading_calendar \<Rightarrow> int \<Rightarrow> int \<Rightarrow> rebalance_event \<Rightarrow> bool" where
  "event_correct c lookback skip e \<longleftrightarrow>
     (let ids = session_ids c; p = ev_signal_position e in
      0 \<le> p \<and> p < int (length ids) \<and> ids ! nat p = ev_signal_session e
      \<and> p = int (length (filter (\<lambda>x. x < ev_signal_session e) ids))
      \<and> ev_fill_session e \<in> set ids \<and> ev_signal_session e < ev_fill_session e
      \<and> (\<forall>x \<in> set ids. ev_signal_session e < x \<longrightarrow> ev_fill_session e \<le> x)
      \<and> (ev_warmup e = WARMUP_SATISFIED \<longleftrightarrow> lookback + 1 \<le> p)
      \<and> ev_recent_anchor e = (if skip \<le> p then Some (ids ! nat (p - skip)) else None)
      \<and> ev_old_anchor e = (if lookback \<le> p then Some (ids ! nat (p - lookback)) else None)
      \<and> ev_calendar_id e = cal_id c)"

lemma sessions_before:
  fixes ids :: "'a::linorder list"
  assumes "sorted_wrt (<) ids" "i < length ids"
  shows "length (filter (\<lambda>x. x < ids ! i) ids) = i"
proof -
  have "filter (\<lambda>x. x < ids ! i) ids = take i ids"
  proof -
    have "filter (\<lambda>x. x < ids ! i) (take i ids) = take i ids"
      using assms by (auto simp: filter_id_conv in_set_conv_nth sorted_wrt_iff_nth_less)
    moreover have "filter (\<lambda>x. x < ids ! i) (drop i ids) = []"
    proof -
      have "ids ! i \<le> x" if x: "x \<in> set (drop i ids)" for x
      proof -
        obtain j where "j < length ids - i" "x = ids ! (i + j)" using x by (auto simp: in_set_conv_nth)
        then show ?thesis using assms by (cases j) (auto simp: sorted_wrt_iff_nth_less less_imp_le)
      qed
      then show ?thesis by (auto simp: filter_empty_conv not_less)
    qed
    ultimately show ?thesis by (metis append_Nil2 append_take_drop_id filter_append)
  qed
  then show ?thesis using assms by simp
qed

lemma fill_session_Inr:
  assumes wf: "wf_calendar c" and s: "s \<in> set (session_ids c)" and f: "fill_session c s = Inr t"
  shows "t \<in> set (session_ids c)" "s < t" "\<And>x. x \<in> set (session_ids c) \<Longrightarrow> s < x \<Longrightarrow> t \<le> x"
proof -
  from f obtain day where day: "day_after s = Inr day" "next_eligible_session c day = Inr t"
    by (auto simp: fill_session_def split: sum.splits if_splits)
  note n = day_after_next [OF wf_iso [OF wf s] day(1)]
  note e = day(2) [unfolded next_eligible_iff [OF wf]]
  show "t \<in> set (session_ids c)" using e by simp
  then show "s < t" using e n(2) wf_iso [OF wf] by blast
  show "t \<le> x" if "x \<in> set (session_ids c)" "s < x" for x using e n(2) wf_iso [OF wf] that by blast
qed

lemma make_event_correct:
  assumes wf: "wf_calendar c" and s: "snd ns \<in> set (session_ids c)" and ls: "0 \<le> skip" "skip < lookback"
    and e: "make_event c lookback skip ns = Inr e"
  shows "ev_signal_session e = snd ns" "event_ordinal e = fst ns" "event_correct c lookback skip e"
proof -
  obtain i where i: "i < length (session_ids c)" "session_ids c ! i = snd ns" using s by (auto simp: in_set_conv_nth)
  then have p: "position c (snd ns) = Inr (int i)" by (simp add: position_Inr [OF wf])
  obtain row where row: "session c (snd ns) = Inr row" "row_session row = snd ns" using session_Inr [OF wf s] by blast
  from e p row obtain a fill fill_row where
    a: "assess_warmup (Some c) (snd ns) (PInt lookback) (PInt skip) = Inr a"
    and fill: "fill_session c (snd ns) = Inr fill" "session c fill = Inr fill_row"
    and ev: "event_ordinal e = fst ns" "ev_signal_session e = snd ns" "ev_signal_position e = wa_position a"
      "ev_fill_session e = row_session fill_row" "ev_recent_anchor e = wa_recent_anchor a" "ev_old_anchor e = wa_old_anchor a"
      "ev_warmup e = wa_state a" "ev_calendar_id e = cal_id c"
    by (auto simp: make_event_def Let_def)
  note f = fill_session_Inr [OF wf s fill(1)]
  have fr: "row_session fill_row = fill" using session_Inr [OF wf f(1)] fill(2) by auto
  have wa: "wa_position a = int i" "wa_state a = WARMUP_SATISFIED \<longleftrightarrow> lookback + 1 \<le> int i"
    "wa_recent_anchor a = (if skip \<le> int i then Some (session_ids c ! nat (int i - skip)) else None)"
    "wa_old_anchor a = (if lookback \<le> int i then Some (session_ids c ! nat (int i - lookback)) else None)"
    using a p row ls i(1)
    by (auto simp: assess_warmup_def require_calendar_def validate_variant_offsets_def exact_int_def anchor_eq [OF wf p] split: if_splits)
  have "int (length (filter (\<lambda>x. x < snd ns) (session_ids c))) = int i"
    using sessions_before [of "session_ids c" i] i wf by (simp add: wf_calendar_def)
  with ev f fr wa i show "ev_signal_session e = snd ns" "event_ordinal e = fst ns" "event_correct c lookback skip e"
    by (simp_all add: event_correct_def Let_def)
qed

section \<open>The derived schedule\<close>

lemma derived_events:
  assumes wf: "wf_calendar c"
    and d: "derive_rebalance_schedule (Some c) shipped pid a b l k ps = Inr sch"
  obtains signals where "signals = sort (month_end_signal_sessions c a b)" "signals \<noteq> []"
    "map_res (make_event c (sch_lookback sch) (sch_skip sch)) (zip (map int [0..<length signals]) signals) = Inr (events sch)"
    "0 \<le> sch_skip sch" "sch_skip sch < sch_lookback sch" "range_start sch = a" "range_end sch = b"
    "first_warmup_satisfied sch = map_option event_ordinal (first_match (\<lambda>e. ev_warmup e = WARMUP_SATISFIED) (events sch))"
  using d unfolding derive_rebalance_schedule_def require_calendar_def Let_def
  by (auto simp: signal_session_selectors_def iso_date_Inr validate_variant_offsets_def not_less not_le split: if_splits option.splits)

lemma derived_schedule:
  assumes wf: "wf_calendar c"
    and d: "derive_rebalance_schedule (Some c) shipped pid a b l k ps = Inr sch"
  shows "map ev_signal_session (events sch) = sort (month_end_signal_sessions c a b)"
    "\<And>e. e \<in> set (events sch) \<Longrightarrow> event_correct c (sch_lookback sch) (sch_skip sch) e"
proof -
  obtain sg where sg: "sg = sort (month_end_signal_sessions c a b)"
    and m: "map_res (make_event c (sch_lookback sch) (sch_skip sch)) (zip (map int [0..<length sg]) sg) = Inr (events sch)"
    and ls: "0 \<le> sch_skip sch" "sch_skip sch < sch_lookback sch"
    by (rule derived_events [OF wf d]) blast
  have mem: "x \<in> set (session_ids c)" if "x \<in> set sg" for x
    using that month_end_sessions_set [OF wf] by (auto simp: sg month_end_signal_sessions_def month_end_def)
  note len = map_res_Inr [OF m]
  have ev: "make_event c (sch_lookback sch) (sch_skip sch) (int i, sg ! i) = Inr (events sch ! i)" if "i < length sg" for i
    using len that by auto
  have correct: "ev_signal_session (events sch ! i) = sg ! i \<and> event_correct c (sch_lookback sch) (sch_skip sch) (events sch ! i)"
    if i: "i < length sg" for i
    using make_event_correct [OF wf _ ls ev [OF i]] mem nth_mem [OF i] by simp
  have l: "length (events sch) = length sg" using len by simp
  then show "map ev_signal_session (events sch) = sort (month_end_signal_sessions c a b)"
    using correct unfolding sg [symmetric] by (intro nth_equalityI) auto
  show "event_correct c (sch_lookback sch) (sch_skip sch) e" if "e \<in> set (events sch)" for e
    using that correct l by (auto simp: in_set_conv_nth)
qed

text \<open>
  C40: a derived schedule is complete and looks only backwards. Its signal sessions are, in order and
  once each, exactly the last accepted sessions of their months inside the requested range. Every event
  fills at the first accepted session after its signal; its anchors are the sessions exactly \<open>S\<close> and
  \<open>L\<close> sessions earlier, or absent when the calendar does not reach back that far; and it is warmed up
  exactly when at least \<open>L + 1\<close> accepted sessions precede the signal.
\<close>

theorem schedule_point_in_time:
  assumes "session_rows doc = Inr rows" and "build_calendar doc cid observed digest rows = Inr c"
    and "derive_rebalance_schedule (Some c) shipped pid a b l k ps = Inr sch"
  shows "sorted_wrt (<) (map ev_signal_session (events sch))
    \<and> set (map ev_signal_session (events sch)) = {s. month_end (map row_session rows) s \<and> a \<le> s \<and> s \<le> b}
    \<and> list_all (event_correct c (sch_lookback sch) (sch_skip sch)) (events sch)"
proof -
  note c = built_calendar [OF assms(1,2)]
  note d = derived_schedule [OF c(1) assms(3)]
  have "distinct (month_end_signal_sessions c a b)"
    using distinct_month_end_sessions [OF c(1)] by (simp add: month_end_signal_sessions_def)
  then have "sorted_wrt (<) (sort (month_end_signal_sessions c a b))" by (simp add: strict_sorted_iff)
  then show ?thesis
    using d month_end_sessions_set [OF c(1)] by (auto simp: c(2) month_end_signal_sessions_def list_all_iff)
qed

definition ex_policy_record :: schedule_policy where
  "ex_policy_record = \<lparr>policy_identifier = ''monthly'', frequency_kind = ''MONTH_END_SESSIONS'', schedule_source_kind = ''TEST_CONSTRUCTED'',
     schedule_source = ''test'', schedule_source_reference = ''test''\<rparr>"

lemma ex_calendar_fields:
  "coverage_start ex_calendar = ''2020-01-01''" "coverage_end ex_calendar = ''2020-03-31''" "cal_id ex_calendar = ''X''"
  "session_ids ex_calendar = [''2020-01-30'', ''2020-01-31'', ''2020-02-03'', ''2020-02-28'', ''2020-03-02'']"
  "row_by_session ex_calendar = map (\<lambda>r. (row_session r, r)) ex_rows"
  "index_by_session ex_calendar = [(''2020-01-30'', 0), (''2020-01-31'', 1), (''2020-02-03'', 2), (''2020-02-28'', 3), (''2020-03-02'', 4)]"
  "month_end_by_month ex_calendar = [(''2020-01'', ''2020-01-31''), (''2020-02'', ''2020-02-28''), (''2020-03'', ''2020-03-02'')]"
proof -
  have "ex_calendar = \<lparr>cal_id = ''X'', coverage_start = ''2020-01-01'', coverage_end = ''2020-03-31'', timezone = ''America/New_York'',
      session_ids = [''2020-01-30'', ''2020-01-31'', ''2020-02-03'', ''2020-02-28'', ''2020-03-02''],
      row_by_session = map (\<lambda>r. (row_session r, r)) ex_rows,
      index_by_session = [(''2020-01-30'', 0), (''2020-01-31'', 1), (''2020-02-03'', 2), (''2020-02-28'', 3), (''2020-03-02'', 4)],
      month_end_by_month = [(''2020-01'', ''2020-01-31''), (''2020-02'', ''2020-02-28''), (''2020-03'', ''2020-03-02'')],
      bytes_sha256_grouped = ''H'', session_ids_sha256_grouped = ''D''\<rparr>"
    using ex_build [symmetric] by (simp add: build_calendar_def ex_document_def json_get_def require_str_def iso_date_eq ex_days
        ex_rows_def dict_of_def less_char_def less_le [symmetric] Let_def upt_conv_Cons)
  note eq = this
  show "coverage_start ex_calendar = ''2020-01-01''" "coverage_end ex_calendar = ''2020-03-31''" "cal_id ex_calendar = ''X''"
    "session_ids ex_calendar = [''2020-01-30'', ''2020-01-31'', ''2020-02-03'', ''2020-02-28'', ''2020-03-02'']"
    "row_by_session ex_calendar = map (\<lambda>r. (row_session r, r)) ex_rows"
    "index_by_session ex_calendar = [(''2020-01-30'', 0), (''2020-01-31'', 1), (''2020-02-03'', 2), (''2020-02-28'', 3), (''2020-03-02'', 4)]"
    "month_end_by_month ex_calendar = [(''2020-01'', ''2020-01-31''), (''2020-02'', ''2020-02-28''), (''2020-03'', ''2020-03-02'')]"
    unfolding eq by (rule trading_calendar.simps)+
qed

lemma ex_day_29: "iso_day ''2020-02-29''"
  by (simp add: iso_day_def date_format_def calendar_date_def is_digit_def less_eq_char_def digits_value_def digit_value_def
      days_in_month_def leap_year_def Let_def)

lemma ex_next: "day_after ''2020-01-31'' = Inr ''2020-02-01''" "day_after ''2020-02-28'' = Inr ''2020-02-29''"
proof -
  have d: "date_of ''2020-01-31'' = (2020, 1, 31)" "date_of ''2020-02-28'' = (2020, 2, 28)"
    "date_of ''2020-02-01'' = (2020, 2, 1)" "date_of ''2020-02-29'' = (2020, 2, 29)"
    by (simp_all add: date_of_def digits_value_def digit_value_def)
  have f: "date_format ''2020-02-01''" "date_format ''2020-02-29''" using ex_days ex_day_29 by (simp_all add: iso_day_def)
  show "day_after ''2020-01-31'' = Inr ''2020-02-01''" "day_after ''2020-02-28'' = Inr ''2020-02-29''"
    using isoformat_date_of [OF f(1)] isoformat_date_of [OF f(2)]
    by (simp_all add: day_after_def d days_in_month_def leap_year_def del: isoformat.simps)
qed

lemma ex_month_ends: "sort (month_end_signal_sessions ex_calendar ''2020-01-01'' ''2020-02-28'') = [''2020-01-31'', ''2020-02-28'']"
  by (simp add: month_end_signal_sessions_def month_end_sessions_def ex_calendar_fields less_char_def less_le [symmetric])

lemma ex_derived: "\<exists>sch. derive_rebalance_schedule (Some ex_calendar) False ''monthly'' ''2020-01-01'' ''2020-02-28'' (PInt 2) (PInt 1)
    [ex_policy_record] = Inr sch \<and> length (events sch) = 2"
  by (simp add: derive_rebalance_schedule_def require_calendar_def resolve_schedule_policy_def validate_schedule_policy_registry_def
      register_policy_def ex_policy_record_def validate_variant_offsets_def exact_int_def iso_date_eq ex_days ex_day_29
      signal_session_selectors_def FREQUENCY_KIND_MONTH_END_SESSIONS_def ex_month_ends make_event_def assess_warmup_def position_def
      session_def anchor_session_def offset_def fill_session_def ex_next next_eligible_session_def ex_calendar_fields ex_rows_def
      BLOCKED_SESSION_OFFSET_OUT_OF_RANGE_def less_char_def less_le [symmetric] Let_def)

theorem schedule_point_in_time_witness:
  "\<exists>sch :: rebalance_schedule. length (events sch) = 2 \<and> list_all (event_correct ex_calendar (sch_lookback sch) (sch_skip sch)) (events sch)"
proof -
  obtain sch where "derive_rebalance_schedule (Some ex_calendar) False ''monthly'' ''2020-01-01'' ''2020-02-28'' (PInt 2) (PInt 1)
    [ex_policy_record] = Inr sch" "length (events sch) = 2" using ex_derived by blast
  with schedule_point_in_time [OF ex_session_rows ex_build this(1)] show ?thesis by blast
qed

end
