(* ===== verification/Action_Factors.thy ===== *)
theory Action_Factors
  imports Fee_Schedule
begin

text \<open>
  The corporate-action kernel \<open>qme/data/corporate_actions/factors_v1.py\<close>: exact decimal texts, the
  validation and collapse of a security's action stream, the split-adjusted and total-return series,
  and the walk of shares, cash and receivables over the same stream. A \<open>Fraction\<close> is a rational. A refusal is
  a record of its state and of the event it names; the message text is left out. Arguments have their
  annotated types, and sessions are compared as texts, as the code does.
\<close>

section \<open>Refusals\<close>

record factor_error =
  err_state :: string
  err_security :: "string option"
  err_event :: "string option"
  err_session :: "string option"
  err_action_type :: "string option"

type_synonym 'a fres = "factor_error + 'a"

definition blocked :: "string \<Rightarrow> factor_error" where
  "blocked s = \<lparr>err_state = s, err_security = None, err_event = None, err_session = None, err_action_type = None\<rparr>"

definition FAIL_CLOSED_STATES :: "string list" where
  "FAIL_CLOSED_STATES =
    [''BLOCKED_AMBIGUOUS_EVENT_COORDINATE'', ''BLOCKED_DUPLICATE_EVENT'', ''BLOCKED_DUPLICATE_SESSION'',
     ''BLOCKED_FOREIGN_SECURITY_ACTION'', ''BLOCKED_MISSING_RAW_CLOSE'', ''BLOCKED_NEGATIVE_DISTRIBUTION'',
     ''BLOCKED_NEGATIVE_HELD_SHARES'', ''BLOCKED_NEGATIVE_LEDGER_VALUE'', ''BLOCKED_NEGATIVE_RAW_VOLUME'',
     ''BLOCKED_NONFINITE_INPUT'', ''BLOCKED_NONPOSITIVE_RAW_CLOSE'', ''BLOCKED_NONPOSITIVE_SPLIT_FACTOR'',
     ''BLOCKED_NONREPRESENTABLE_LEDGER_QUANTUM'', ''BLOCKED_NONREPRESENTABLE_SHARE_QUANTUM'',
     ''BLOCKED_PAYMENT_BEFORE_ENTITLEMENT'', ''BLOCKED_POST_CUTOFF_EVENT'', ''BLOCKED_POST_CUTOFF_SESSION'',
     ''BLOCKED_SPLIT_CONSERVATION_VIOLATED'', ''BLOCKED_SPLIT_WITHOUT_PRIOR_RAW_CLOSE'',
     ''BLOCKED_SUPPORTED_ACTION_AFTER_EXCLUSION'', ''BLOCKED_UNKNOWN_ACTION_TYPE'',
     ''BLOCKED_UNREGISTERED_SAME_DAY_EVENT_ORDER'', ''BLOCKED_UNREGISTERED_UNSUPPORTED_ACTION_POLICY'',
     ''RUN_INVALID_UNSUPPORTED_HELD_ACTION'']"

definition REGISTERED_SAME_DAY_EVENT_ORDER :: string where
  "REGISTERED_SAME_DAY_EVENT_ORDER = ''SPLIT_BEFORE_DIVIDEND_UNIT_CONVERSION''"
definition ARTIFACT_SCALE :: nat where "ARTIFACT_SCALE = 18"
definition LEDGER_CURRENCY_QUANTUM :: rat where "LEDGER_CURRENCY_QUANTUM = 1 / 100000000"
definition LEDGER_SHARE_QUANTUM :: rat where "LEDGER_SHARE_QUANTUM = 1 / 100000000"
definition BASIS_POST_SPLIT :: string where "BASIS_POST_SPLIT = ''POST_SPLIT''"
definition DIVIDEND_SHARE_BASES :: "string list" where "DIVIDEND_SHARE_BASES = [BASIS_POST_SPLIT, ''PRE_ACTION'']"
definition DIVIDEND_CLASSIFICATIONS :: "string list" where "DIVIDEND_CLASSIFICATIONS = [''ORDINARY'', ''SPECIAL'']"
definition UNSUPPORTED_ACTION_TYPES :: "string list" where
  "UNSUPPORTED_ACTION_TYPES = [''MERGER'', ''SPINOFF'', ''RIGHTS'', ''LIQUIDATION'', ''UNKNOWN'']"
definition SERIES_OK :: string where "SERIES_OK = ''SERIES_OK''"
definition EXCLUDED_UNSUPPORTED_UNHELD_ACTION :: string where
  "EXCLUDED_UNSUPPORTED_UNHELD_ACTION = ''EXCLUDED_UNSUPPORTED_UNHELD_ACTION''"

section \<open>Exact decimal texts\<close>

definition unsigned_decimal :: "string \<Rightarrow> bool" where
  "unsigned_decimal t =
     (let ip = takeWhile is_digit t; r = dropWhile is_digit t
      in ip \<noteq> [] \<and> (ip = ''0'' \<or> hd ip \<noteq> CHR ''0'')
         \<and> (r = [] \<or> hd r = CHR ''.'' \<and> tl r \<noteq> [] \<and> list_all is_digit (tl r)))"

definition decimal_text :: "string \<Rightarrow> bool" where
  "decimal_text t = unsigned_decimal (if take 1 t = ''-'' then tl t else t)"

definition rstrip :: "char \<Rightarrow> string \<Rightarrow> string" where
  "rstrip c s = rev (dropWhile (\<lambda>x. x = c) (rev s))"

definition trimmed :: "string \<Rightarrow> string" where
  "trimmed digits =
     (if CHR ''.'' \<in> set digits
      then let d = rstrip (CHR ''.'') (rstrip (CHR ''0'') digits) in if d = [] then ''0'' else d
      else digits)"

definition exact_canonical_decimal :: "string \<Rightarrow> string fres" where
  "exact_canonical_decimal value =
     (if \<not> decimal_text value then Inl (blocked ''BLOCKED_NONFINITE_INPUT'')
      else let negative = (take 1 value = ''-'');
               digits = trimmed (if negative then tl value else value)
           in if digits = ''0'' then Inr ''0'' else Inr ((if negative then ''-'' else []) @ digits))"

text \<open>\<open>Fraction(text)\<close> on the texts the program gives it: a sign, digits and an optional point.\<close>

definition fraction_of_text :: "string \<Rightarrow> rat" where
  "fraction_of_text t =
     (let (sg, r) = split_sign t; ip = takeWhile is_digit r; fp = tl (dropWhile is_digit r)
      in of_int (sg * digits_value (ip @ fp)) / 10 ^ length fp)"

definition parse_exact :: "string \<Rightarrow> rat fres" where
  "parse_exact value = rbind (exact_canonical_decimal value) (\<lambda>t. Inr (fraction_of_text t))"

definition quantize_half_even :: "rat \<Rightarrow> rat \<Rightarrow> rat fres" where
  "quantize_half_even value quantum =
     (if quantum \<le> 0 then Inl (blocked ''BLOCKED_NONFINITE_INPUT'')
      else let scaled = value / quantum;
               sign = (if scaled < 0 then -1 else 1);
               (n, d) = quotient_of \<bar>scaled\<bar>;
               quotient = n div d; twice = (n mod d) * 2;
               rounded = (if twice > d \<or> (twice = d \<and> quotient mod 2 = 1) then quotient + 1 else quotient)
           in Inr (of_int (sign * rounded) * quantum))"

text \<open>The loop \<open>while remaining % p == 0\<close>; a denominator is positive.\<close>

function divide_out :: "int \<Rightarrow> int \<Rightarrow> nat \<Rightarrow> int \<times> nat" where
  "divide_out p remaining k =
     (if 1 < p \<and> 0 < remaining \<and> remaining mod p = 0 then divide_out p (remaining div p) (Suc k) else (remaining, k))"
  by pat_completeness auto
termination
  by (relation "measure (\<lambda>(p, r, k). nat r)") (auto simp: int_div_less_self)

declare divide_out.simps [simp del]

definition rjust :: "nat \<Rightarrow> string \<Rightarrow> string" where
  "rjust w s = replicate (w - length s) (CHR ''0'') @ s"

definition render_exact :: "rat \<Rightarrow> string fres" where
  "render_exact value =
     (let (numerator, denominator) = quotient_of value;
          (remaining2, twos) = divide_out 2 denominator 0;
          (remaining, fives) = divide_out 5 remaining2 0
      in if remaining \<noteq> 1 then Inl (blocked ''BLOCKED_NONFINITE_INPUT'')
         else let scale = max twos fives;
                  scaled = numerator * 10 ^ scale div denominator;
                  digits = rjust (scale + 1) (nat_text (nat \<bar>scaled\<bar>));
                  text = (if scale = 0 then digits
                     else take (length digits - scale) digits @ ''.'' @ drop (length digits - scale) digits)
              in exact_canonical_decimal ((if scaled < 0 then ''-'' else []) @ text))"

definition render_artifact :: "rat \<Rightarrow> nat \<Rightarrow> string fres" where
  "render_artifact value scale =
     (if scale < 1 then Inl (blocked ''BLOCKED_NONFINITE_INPUT'')
      else let quantum = 1 / 10 ^ scale in rbind (quantize_half_even value quantum) (\<lambda>q.
           let (units, d) = quotient_of (q / quantum) in
           if d \<noteq> 1 then Inl (blocked ''BLOCKED_NONFINITE_INPUT'')
           else Inr ((if units < 0 then ''-'' else []) @ nat_text (nat (\<bar>units\<bar> div 10 ^ scale))
                  @ ''.'' @ padded scale (\<bar>units\<bar> mod 10 ^ scale))))"

definition render_ledger :: "rat \<Rightarrow> rat \<Rightarrow> string fres" where
  "render_ledger value quantum = rbind (quantize_half_even value quantum) render_exact"

text \<open>A session text and an identifier.\<close>

definition session_text :: "string \<Rightarrow> string fres" where
  "session_text value =
     (if \<not> date_format value then Inl (blocked ''BLOCKED_NONFINITE_INPUT'')
      else if \<not> calendar_date value then Inl (blocked ''BLOCKED_NONFINITE_INPUT'')
      else Inr value)"

definition identifier_text :: "string \<Rightarrow> string fres" where
  "identifier_text s =
     (if s \<noteq> [] \<and> length s \<le> 128 \<and> identifier_start (hd s)
         \<and> list_all (\<lambda>c. identifier_start c \<or> c \<in> set ''._:-'') (tl s)
      then Inr s else Inl (blocked ''BLOCKED_NONFINITE_INPUT''))"

section \<open>Inputs\<close>

record raw_session_bar =
  bar_session :: string
  bar_close :: string
  bar_volume :: string

datatype corporate_action =
    SplitAction (event_id: string) (action_security: string) (action_session: string) (split_text: string)
  | CashDividendAction (event_id: string) (action_security: string) (action_session: string)
      (cash_text: string) (payment_session: string) (share_basis: "string option") (classification: string)
  | UnsupportedAction (event_id: string) (action_security: string) (action_session: string) (unsupported_type: string)

definition action_class :: "corporate_action \<Rightarrow> string" where
  "action_class a = (case a of
     SplitAction _ _ _ _ \<Rightarrow> ''SPLIT''
   | CashDividendAction _ _ _ _ _ _ _ \<Rightarrow> ''CASH_DIVIDEND''
   | UnsupportedAction _ _ _ _ \<Rightarrow> ''UNSUPPORTED'')"

definition class_rank :: "corporate_action \<Rightarrow> nat" where
  "class_rank a = (case a of
     SplitAction _ _ _ _ \<Rightarrow> 0
   | CashDividendAction _ _ _ _ _ _ _ \<Rightarrow> 1
   | UnsupportedAction _ _ _ _ \<Rightarrow> 2)"

section \<open>The contract lines\<close>

definition gross_return :: "rat \<Rightarrow> rat \<Rightarrow> rat \<Rightarrow> rat \<Rightarrow> rat option \<Rightarrow> rat fres" where
  "gross_return s close previous d_pre d_post_given =
     (if previous \<le> 0 \<or> close \<le> 0 then Inl (blocked ''BLOCKED_NONPOSITIVE_RAW_CLOSE'')
      else if s \<le> 0 then Inl (blocked ''BLOCKED_NONPOSITIVE_SPLIT_FACTOR'')
      else if d_pre < 0 then Inl (blocked ''BLOCKED_NEGATIVE_DISTRIBUTION'')
      else let d_post = (case d_post_given of None \<Rightarrow> d_pre / s | Some d \<Rightarrow> d) in
        if d_post < 0 then Inl (blocked ''BLOCKED_NEGATIVE_DISTRIBUTION'')
        else if d_pre \<noteq> s * d_post then Inl (blocked ''BLOCKED_AMBIGUOUS_EVENT_COORDINATE'')
        else let ticket = (s * close + d_pre) / previous;
                 registered = s * (close + d_post) / previous
             in if ticket \<noteq> registered then Inl (blocked ''BLOCKED_AMBIGUOUS_EVENT_COORDINATE'') else Inr ticket)"

definition verify_split_conservation :: "rat \<Rightarrow> rat \<Rightarrow> rat \<Rightarrow> rat \<Rightarrow> rat fres" where
  "verify_split_conservation shares_before shares_after close_before s =
     (if s \<le> 0 then Inl (blocked ''BLOCKED_NONPOSITIVE_SPLIT_FACTOR'')
      else if close_before \<le> 0 then Inl (blocked ''BLOCKED_NONPOSITIVE_RAW_CLOSE'')
      else let reference_before = shares_before * close_before; reference_after = shares_after * (close_before / s) in
        if reference_before \<noteq> reference_after then Inl (blocked ''BLOCKED_SPLIT_CONSERVATION_VIOLATED'')
        else Inr reference_before)"

definition times_factor :: "rat \<Rightarrow> rat \<Rightarrow> rat fres" where
  "times_factor product factor =
     (if factor \<le> 0 then Inl (blocked ''BLOCKED_NONPOSITIVE_SPLIT_FACTOR'') else Inr (product * factor))"

definition split_adjustment_factor :: "rat list \<Rightarrow> rat fres" where
  "split_adjustment_factor factors = fold_res times_factor 1 factors"

end
