(* ===== verification/Action_Stream.thy ===== *)
theory Action_Stream
  imports Action_Factors
begin

text \<open>
  Validation, ordering and collapse of a security's corporate actions and of its raw bars
  (\<open>normalize_actions\<close> and \<open>_normalized_bars\<close> of \<open>factors_v1.py\<close>). Each loop of the code is one step
  function under \<open>fold_res\<close>; the two dictionaries of the collapse keep their insertion order.
\<close>

type_synonym payment = "string \<times> string \<times> rat"

record session_actions =
  sa_session :: string
  sa_split_factor :: rat
  sa_dividend_post :: rat
  sa_dividend_pre :: rat
  split_event_ids :: "string list"
  dividend_event_ids :: "string list"
  sa_payments :: "payment list"

record exclusion_record =
  exclusion_state :: string
  exclusion_security :: string
  exclusion_event :: string
  exclusion_session :: string
  exclusion_type :: string

record normalized_actions =
  na_security :: string
  na_cutoff :: string
  na_same_day_event_order :: "string option"
  by_session :: "(string, session_actions) dict"
  ordered_sessions :: "string list"
  na_exclusion :: "exclusion_record option"

definition action_key :: "corporate_action \<Rightarrow> string \<times> nat \<times> string" where
  "action_key a = (action_session a, class_rank a, event_id a)"

definition validate_policy_hook :: "pyval \<Rightarrow> unit fres" where
  "validate_policy_hook policy =
     require (policy = PNone) (blocked ''BLOCKED_UNREGISTERED_UNSUPPORTED_ACTION_POLICY'')"

text \<open>A refusal that names an event of the security.\<close>

definition event_error :: "string \<Rightarrow> string \<Rightarrow> corporate_action \<Rightarrow> factor_error" where
  "event_error state security a = \<lparr>err_state = state, err_security = Some security, err_event = Some (event_id a),
     err_session = Some (action_session a), err_action_type = None\<rparr>"

definition typed_error :: "string \<Rightarrow> string \<Rightarrow> corporate_action \<Rightarrow> string \<Rightarrow> factor_error" where
  "typed_error state security a t = (event_error state security a)\<lparr>err_action_type := Some t\<rparr>"

definition check_action :: "string \<Rightarrow> string \<Rightarrow> string list \<Rightarrow> corporate_action \<Rightarrow> string list fres" where
  "check_action security cutoff seen a =
     rbind (identifier_text (event_id a)) (\<lambda>event.
     rbind (session_text (action_session a)) (\<lambda>_.
     rbind (identifier_text (action_security a)) (\<lambda>own.
       if own \<noteq> security then Inl (event_error ''BLOCKED_FOREIGN_SECURITY_ACTION'' (action_security a) a)
       else if event \<in> set seen then Inl (event_error ''BLOCKED_DUPLICATE_EVENT'' security a)
       else if action_session a > cutoff
         then Inl (typed_error ''BLOCKED_POST_CUTOFF_EVENT'' security a (action_class a))
       else Inr (event # seen))))"

definition exclude_unsupported ::
  "string \<Rightarrow> rat \<Rightarrow> exclusion_record option \<Rightarrow> corporate_action \<Rightarrow> exclusion_record option fres" where
  "exclude_unsupported security held excl a = (case a of
     UnsupportedAction event _ sess t \<Rightarrow>
       if t \<notin> set UNSUPPORTED_ACTION_TYPES then Inl (typed_error ''BLOCKED_UNKNOWN_ACTION_TYPE'' security a t)
       else if held > 0 then Inl (typed_error ''RUN_INVALID_UNSUPPORTED_HELD_ACTION'' security a t)
       else Inr (case excl of
           Some x \<Rightarrow> Some x
         | None \<Rightarrow> Some \<lparr>exclusion_state = EXCLUDED_UNSUPPORTED_UNHELD_ACTION, exclusion_security = security,
             exclusion_event = event, exclusion_session = sess, exclusion_type = t\<rparr>)
   | _ \<Rightarrow> Inr excl)"

definition check_before_exclusion :: "string \<Rightarrow> exclusion_record \<Rightarrow> unit \<Rightarrow> corporate_action \<Rightarrow> unit fres" where
  "check_before_exclusion security x u a = (case a of
     UnsupportedAction _ _ _ _ \<Rightarrow> Inr ()
   | _ \<Rightarrow> if action_session a \<ge> exclusion_session x
          then Inl (typed_error ''BLOCKED_SUPPORTED_ACTION_AFTER_EXCLUSION'' security a (action_class a)) else Inr ())"

text \<open>\<open>d.setdefault(k, []).append(v)\<close>\<close>

definition dict_append :: "('k, 'v list) dict \<Rightarrow> 'k \<Rightarrow> 'v \<Rightarrow> ('k, 'v list) dict" where
  "dict_append d k v = dict_set d k (dict_get_or d k [] @ [v])"

type_synonym split_entry = "string \<times> rat"
type_synonym dividend_entry = "string \<times> rat \<times> string option \<times> string"

record collected =
  col_splits :: "(string, split_entry list) dict"
  col_dividends :: "(string, dividend_entry list) dict"

definition collect_split :: "string \<Rightarrow> collected \<Rightarrow> corporate_action \<Rightarrow> collected fres" where
  "collect_split security c a =
     rbind (parse_exact (split_text a)) (\<lambda>factor.
       if factor \<le> 0 then Inl (event_error ''BLOCKED_NONPOSITIVE_SPLIT_FACTOR'' security a)
       else Inr (c\<lparr>col_splits := dict_append (col_splits c) (action_session a) (event_id a, factor)\<rparr>))"

definition collect_dividend :: "string \<Rightarrow> string \<Rightarrow> collected \<Rightarrow> corporate_action \<Rightarrow> collected fres" where
  "collect_dividend security cutoff c a =
     rbind (parse_exact (cash_text a)) (\<lambda>cash.
       if cash < 0 then Inl (event_error ''BLOCKED_NEGATIVE_DISTRIBUTION'' security a)
       else if classification a \<notin> set DIVIDEND_CLASSIFICATIONS
         then Inl (typed_error ''BLOCKED_UNKNOWN_ACTION_TYPE'' security a (classification a))
       else if share_basis a \<noteq> None \<and> the (share_basis a) \<notin> set DIVIDEND_SHARE_BASES
         then Inl (event_error ''BLOCKED_AMBIGUOUS_EVENT_COORDINATE'' security a)
       else rbind (session_text (payment_session a)) (\<lambda>payment.
         if payment < action_session a then Inl (event_error ''BLOCKED_PAYMENT_BEFORE_ENTITLEMENT'' security a)
         else if payment > cutoff
           then Inl ((typed_error ''BLOCKED_POST_CUTOFF_EVENT'' security a ''CASH_DIVIDEND_PAYMENT'')
                  \<lparr>err_session := Some payment\<rparr>)
         else Inr (c\<lparr>col_dividends := dict_append (col_dividends c) (action_session a)
                (event_id a, cash, share_basis a, payment)\<rparr>)))"

definition collect :: "string \<Rightarrow> string \<Rightarrow> collected \<Rightarrow> corporate_action \<Rightarrow> collected fres" where
  "collect security cutoff c a = (case a of
     SplitAction _ _ _ _ \<Rightarrow> collect_split security c a
   | CashDividendAction _ _ _ _ _ _ _ \<Rightarrow> collect_dividend security cutoff c a
   | UnsupportedAction _ _ _ _ \<Rightarrow> Inr c)"

definition entry_error :: "string \<Rightarrow> string \<Rightarrow> string \<Rightarrow> string \<Rightarrow> factor_error" where
  "entry_error state security event sess = \<lparr>err_state = state, err_security = Some security,
     err_event = Some event, err_session = Some sess, err_action_type = None\<rparr>"

text \<open>One distribution of a session, converted to the coordinate after the session's splits.\<close>

definition post_split_cash ::
  "string \<Rightarrow> string option \<Rightarrow> string \<Rightarrow> bool \<Rightarrow> rat \<Rightarrow> dividend_entry \<Rightarrow> rat fres" where
  "post_split_cash security order sess has_splits factor entry = (case entry of (event, cash, basis, payment) \<Rightarrow>
     (case basis of
        None \<Rightarrow>
          if has_splits \<and> factor \<noteq> 1
          then if order \<noteq> Some REGISTERED_SAME_DAY_EVENT_ORDER
               then Inl (entry_error ''BLOCKED_UNREGISTERED_SAME_DAY_EVENT_ORDER'' security event sess)
               else Inl (entry_error ''BLOCKED_AMBIGUOUS_EVENT_COORDINATE'' security event sess)
          else Inr cash
      | Some b \<Rightarrow> if b = BASIS_POST_SPLIT then Inr cash else Inr (cash / factor)))"

definition collapse_dividend ::
  "string \<Rightarrow> string option \<Rightarrow> string \<Rightarrow> bool \<Rightarrow> rat \<Rightarrow> rat \<times> payment list \<Rightarrow> dividend_entry \<Rightarrow> (rat \<times> payment list) fres" where
  "collapse_dividend security order sess has_splits factor st entry =
     rbind (post_split_cash security order sess has_splits factor entry) (\<lambda>post_split.
       case entry of (event, cash, basis, payment) \<Rightarrow>
       if has_splits \<and> order \<noteq> Some REGISTERED_SAME_DAY_EVENT_ORDER
       then Inl (entry_error ''BLOCKED_UNREGISTERED_SAME_DAY_EVENT_ORDER'' security event sess)
       else Inr (fst st + post_split, snd st @ [(event, payment, post_split)]))"

definition collapse_session :: "string \<Rightarrow> string option \<Rightarrow> collected \<Rightarrow> string \<Rightarrow> session_actions fres" where
  "collapse_session security order c sess =
     (let splits = dict_get_or (col_splits c) sess []; dividends = dict_get_or (col_dividends c) sess [] in
      rbind (split_adjustment_factor (map snd splits)) (\<lambda>factor.
      rbind (fold_res (collapse_dividend security order sess (splits \<noteq> []) factor) (0, []) dividends) (\<lambda>st.
        Inr \<lparr>sa_session = sess, sa_split_factor = factor, sa_dividend_post = fst st, sa_dividend_pre = fst st * factor,
             split_event_ids = map fst splits, dividend_event_ids = map fst dividends, sa_payments = snd st\<rparr>)))"

definition action_sessions :: "collected \<Rightarrow> string list" where
  "action_sessions c = sort (remdups (map fst (col_splits c) @ map fst (col_dividends c)))"

definition normalize_actions ::
  "corporate_action list \<Rightarrow> string \<Rightarrow> string \<Rightarrow> rat \<Rightarrow> string option \<Rightarrow> pyval \<Rightarrow> normalized_actions fres" where
  "normalize_actions actions security_id cutoff_session held order policy =
     rbind (validate_policy_hook policy) (\<lambda>_.
     rbind (identifier_text security_id) (\<lambda>security.
     rbind (session_text cutoff_session) (\<lambda>cutoff.
       if held < 0 then Inl ((blocked ''BLOCKED_NEGATIVE_HELD_SHARES'')\<lparr>err_security := Some security\<rparr>)
       else rbind (fold_res (check_action security cutoff) [] actions) (\<lambda>_.
         let ordered = sort_key action_key actions in
         rbind (fold_res (exclude_unsupported security held) None ordered) (\<lambda>excl.
         rbind (case excl of None \<Rightarrow> Inr () | Some x \<Rightarrow> fold_res (check_before_exclusion security x) () ordered) (\<lambda>_.
         rbind (fold_res (collect security cutoff) \<lparr>col_splits = [], col_dividends = []\<rparr> ordered) (\<lambda>c.
         rbind (map_res (\<lambda>s. rbind (collapse_session security order c s) (\<lambda>a. Inr (s, a))) (action_sessions c)) (\<lambda>by_sess.
           Inr \<lparr>na_security = security, na_cutoff = cutoff, na_same_day_event_order = order, by_session = by_sess,
                ordered_sessions = sort (map fst by_sess), na_exclusion = excl\<rparr>))))))))"

section \<open>Raw bars\<close>

type_synonym bar_row = "string \<times> rat \<times> rat"

definition session_error :: "string \<Rightarrow> string \<Rightarrow> factor_error" where
  "session_error state sess = (blocked state)\<lparr>err_session := Some sess\<rparr>"

definition check_bar :: "string \<Rightarrow> bar_row list \<Rightarrow> raw_session_bar \<Rightarrow> bar_row list fres" where
  "check_bar cutoff rows bar =
     rbind (session_text (bar_session bar)) (\<lambda>sess.
       if sess \<in> fst ` set rows then Inl (session_error ''BLOCKED_DUPLICATE_SESSION'' sess)
       else if sess > cutoff then Inl (session_error ''BLOCKED_POST_CUTOFF_SESSION'' sess)
       else rbind (parse_exact (bar_close bar)) (\<lambda>close.
         if close \<le> 0 then Inl (session_error ''BLOCKED_NONPOSITIVE_RAW_CLOSE'' sess)
         else rbind (parse_exact (bar_volume bar)) (\<lambda>volume.
           if volume < 0 then Inl (session_error ''BLOCKED_NEGATIVE_RAW_VOLUME'' sess)
           else Inr (rows @ [(sess, close, volume)]))))"

definition normalized_bars :: "raw_session_bar list \<Rightarrow> string \<Rightarrow> bar_row list fres" where
  "normalized_bars bars cutoff =
     rbind (fold_res (check_bar cutoff) [] bars) (\<lambda>rows.
       if rows = [] then Inl (blocked ''BLOCKED_MISSING_RAW_CLOSE'') else Inr (sort_key fst rows))"

text \<open>The rows a run works on: those before an exclusion, with a bar for every action session.\<close>

definition rows_before_exclusion :: "normalized_actions \<Rightarrow> bar_row list \<Rightarrow> bar_row list" where
  "rows_before_exclusion n rows = (case na_exclusion n of
     None \<Rightarrow> rows | Some x \<Rightarrow> filter (\<lambda>r. fst r < exclusion_session x) rows)"

definition check_action_bar :: "normalized_actions \<Rightarrow> bar_row list \<Rightarrow> unit \<Rightarrow> string \<Rightarrow> unit fres" where
  "check_action_bar n rows u sess =
     (if list_all (\<lambda>r. fst r \<noteq> sess) rows
      then Inl ((session_error ''BLOCKED_MISSING_RAW_CLOSE'' sess)\<lparr>err_security := Some (na_security n)\<rparr>) else Inr ())"

end
