(* ===== verification/Factor_Series.thy ===== *)
theory Factor_Series
  imports Action_Stream
begin

text \<open>
  The two walks of \<open>factors_v1.py\<close> over the validated bars and actions: \<open>build_factor_series\<close>, the split
  adjustment factors and the total-return index, and \<open>walk_ledger\<close>, the shares, cash and receivables of a
  holder. The dictionaries the result classes render are left out; the renderers are in \<open>Action_Factors\<close>.
\<close>

section \<open>Factor series\<close>

record session_factors =
  sf_session :: string
  sf_raw_close :: rat
  sf_raw_volume :: rat
  raw_dollar_volume :: rat
  sf_adjustment :: rat
  split_adjusted_close :: rat
  split_adjusted_volume :: rat
  split_adjusted_dollar_volume :: rat
  applied_split_factor :: rat
  applied_dividend_post :: rat
  applied_dividend_pre :: rat
  sf_gross_return :: "rat option"
  total_return_index :: rat

record factor_series =
  fs_security :: string
  fs_cutoff :: string
  fs_state :: string
  fs_sessions :: "session_factors list"
  fs_exclusion :: "exclusion_record option"

definition split_of :: "session_actions option \<Rightarrow> rat" where
  "split_of action = (case action of None \<Rightarrow> 1 | Some a \<Rightarrow> sa_split_factor a)"

definition dividend_post_of :: "session_actions option \<Rightarrow> rat" where
  "dividend_post_of action = (case action of None \<Rightarrow> 0 | Some a \<Rightarrow> sa_dividend_post a)"

definition dividend_pre_of :: "session_actions option \<Rightarrow> rat" where
  "dividend_pre_of action = (case action of None \<Rightarrow> 0 | Some a \<Rightarrow> sa_dividend_pre a)"

text \<open>The backward accumulation: the state is the list of factors so far and the running product.\<close>

definition adjustment_step ::
  "(string, session_actions) dict \<Rightarrow> rat list \<times> rat \<Rightarrow> bar_row \<Rightarrow> rat list \<times> rat" where
  "adjustment_step by_sess st row =
     (fst st @ [snd st],
      case dict_get by_sess (fst row) of None \<Rightarrow> snd st | Some a \<Rightarrow> snd st * sa_split_factor a)"

definition adjustments :: "(string, session_actions) dict \<Rightarrow> bar_row list \<Rightarrow> rat list" where
  "adjustments by_sess rows = rev (fst (foldl (adjustment_step by_sess) ([], 1) (rev rows)))"

record series_state =
  ser_sessions :: "session_factors list"
  ser_index :: rat
  ser_previous :: "rat option"

definition series_step ::
  "(string, session_actions) dict \<Rightarrow> rat list \<Rightarrow> series_state \<Rightarrow> nat \<times> bar_row \<Rightarrow> series_state fres" where
  "series_step by_sess adj st item = (case item of (position, sess, close, volume) \<Rightarrow>
     let action = dict_get by_sess sess; factor = split_of action;
         d_post = dividend_post_of action; d_pre = dividend_pre_of action;
         adjustment_u = adj ! position;
         adjusted_close = close / adjustment_u; adjusted_volume = volume * adjustment_u;
         raw_dollar = close * volume; adjusted_dollar = adjusted_close * adjusted_volume
     in if adjusted_dollar \<noteq> raw_dollar then Inl (session_error ''BLOCKED_NONFINITE_INPUT'' sess)
        else rbind (case ser_previous st of
               None \<Rightarrow> Inr (None, ser_index st)
             | Some previous \<Rightarrow> rbind (gross_return factor close previous d_pre (Some d_post))
                 (\<lambda>g. Inr (Some g, ser_index st * g)))
             (\<lambda>(gross, index). Inr
               \<lparr>ser_sessions = ser_sessions st @
                  [\<lparr>sf_session = sess, sf_raw_close = close, sf_raw_volume = volume, raw_dollar_volume = raw_dollar,
                    sf_adjustment = adjustment_u, split_adjusted_close = adjusted_close,
                    split_adjusted_volume = adjusted_volume, split_adjusted_dollar_volume = adjusted_dollar,
                    applied_split_factor = factor, applied_dividend_post = d_post, applied_dividend_pre = d_pre,
                    sf_gross_return = gross, total_return_index = index\<rparr>],
                ser_index = index, ser_previous = Some close\<rparr>))"

definition run_state :: "exclusion_record option \<Rightarrow> string" where
  "run_state excl = (case excl of None \<Rightarrow> SERIES_OK | Some x \<Rightarrow> exclusion_state x)"

definition build_factor_series ::
  "raw_session_bar list \<Rightarrow> corporate_action list \<Rightarrow> string \<Rightarrow> string \<Rightarrow> string \<Rightarrow> string \<Rightarrow> string option \<Rightarrow> pyval
   \<Rightarrow> factor_series fres" where
  "build_factor_series bars actions security_id cutoff_session held_raw_shares base_index order policy =
     rbind (session_text cutoff_session) (\<lambda>cutoff.
     rbind (parse_exact held_raw_shares) (\<lambda>held.
     rbind (parse_exact base_index) (\<lambda>base.
       if base \<le> 0 then Inl (blocked ''BLOCKED_NONFINITE_INPUT'')
       else rbind (normalize_actions actions security_id cutoff held order policy) (\<lambda>n.
         rbind (normalized_bars bars cutoff) (\<lambda>all_rows.
         let rows = rows_before_exclusion n all_rows in
         rbind (fold_res (check_action_bar n rows) () (ordered_sessions n)) (\<lambda>_.
         rbind (fold_res (series_step (by_session n) (adjustments (by_session n) rows))
                  \<lparr>ser_sessions = [], ser_index = base, ser_previous = None\<rparr> (enumerate 0 rows)) (\<lambda>st.
           Inr \<lparr>fs_security = na_security n, fs_cutoff = cutoff, fs_state = run_state (na_exclusion n),
                fs_sessions = ser_sessions st, fs_exclusion = na_exclusion n\<rparr>)))))))"

section \<open>Ledger walk\<close>

record ledger_state =
  ls_shares :: rat
  ls_cash :: rat
  ls_receivables :: rat

definition ledger_nav :: "ledger_state \<Rightarrow> rat \<Rightarrow> rat" where
  "ledger_nav s mark = ls_cash s + ls_receivables s + ls_shares s * mark"

definition multiple_of :: "rat \<Rightarrow> rat \<Rightarrow> bool" where
  "multiple_of value quantum = (snd (quotient_of (value / quantum)) = 1)"

definition validate_ledger_state :: "ledger_state \<Rightarrow> ledger_state fres" where
  "validate_ledger_state s =
     (if ls_shares s < 0 \<or> ls_cash s < 0 \<or> ls_receivables s < 0 then Inl (blocked ''BLOCKED_NEGATIVE_LEDGER_VALUE'')
      else if \<not> multiple_of (ls_shares s) LEDGER_SHARE_QUANTUM
        then Inl (blocked ''BLOCKED_NONREPRESENTABLE_SHARE_QUANTUM'')
      else if \<not> multiple_of (ls_cash s) LEDGER_CURRENCY_QUANTUM
        then Inl (blocked ''BLOCKED_NONREPRESENTABLE_LEDGER_QUANTUM'')
      else if \<not> multiple_of (ls_receivables s) LEDGER_CURRENCY_QUANTUM
        then Inl (blocked ''BLOCKED_NONREPRESENTABLE_LEDGER_QUANTUM'')
      else Inr s)"

definition opening_ledger_state :: "string \<Rightarrow> string \<Rightarrow> string \<Rightarrow> ledger_state fres" where
  "opening_ledger_state shares cash receivables =
     rbind (parse_exact shares) (\<lambda>q. rbind (parse_exact cash) (\<lambda>c. rbind (parse_exact receivables) (\<lambda>r.
       validate_ledger_state \<lparr>ls_shares = q, ls_cash = c, ls_receivables = r\<rparr>)))"

record ledger_transition =
  lt_session :: string
  lt_raw_close :: rat
  lt_previous_close :: "rat option"
  state_before :: ledger_state
  state_after :: ledger_state
  lt_split_factor :: rat
  shares_before_split :: rat
  shares_after_split :: rat
  split_reference_price :: "rat option"
  split_reference_before :: "rat option"
  split_reference_after :: "rat option"
  dividend_eligible_shares :: rat
  lt_dividend_pre :: rat
  lt_dividend_post :: rat
  receivable_recognized :: rat
  receivable_settled :: rat
  nav_after :: rat

record ledger_walk =
  lw_security :: string
  lw_state :: string
  opening_state :: ledger_state
  lw_transitions :: "ledger_transition list"
  closing_state :: ledger_state
  pending_receivables :: "payment list"
  lw_exclusion :: "exclusion_record option"

record walk_state =
  wk_ledger :: ledger_state
  wk_pending :: "payment list"
  wk_transitions :: "ledger_transition list"
  wk_previous :: "rat option"

text \<open>The split of a session: shares after it, with the reference price and values it conserves.\<close>

definition apply_session_split ::
  "string \<Rightarrow> string \<Rightarrow> session_actions option \<Rightarrow> rat option \<Rightarrow> rat \<Rightarrow> (rat \<times> rat option \<times> rat option \<times> rat option) fres" where
  "apply_session_split security sess action previous shares_before = (case action of
     None \<Rightarrow> Inr (shares_before, None, None, None)
   | Some a \<Rightarrow>
      if split_event_ids a = [] then Inr (shares_before, None, None, None)
      else (case previous of
         None \<Rightarrow> Inl (entry_error ''BLOCKED_SPLIT_WITHOUT_PRIOR_RAW_CLOSE'' security (hd (split_event_ids a)) sess)
       | Some p \<Rightarrow>
          let after = sa_split_factor a * shares_before in
          if \<not> multiple_of after LEDGER_SHARE_QUANTUM
          then Inl (entry_error ''BLOCKED_NONREPRESENTABLE_SHARE_QUANTUM'' security (hd (split_event_ids a)) sess)
          else rbind (verify_split_conservation shares_before after p (sa_split_factor a)) (\<lambda>before_value.
            let price = p / sa_split_factor a
            in Inr (after, Some price, Some before_value, Some (after * price)))))"

definition recognize_payment :: "rat \<Rightarrow> rat \<times> payment list \<Rightarrow> payment \<Rightarrow> (rat \<times> payment list) fres" where
  "recognize_payment eligible st pay = (case pay of (event, when, per_share) \<Rightarrow>
     rbind (quantize_half_even (eligible * per_share) LEDGER_CURRENCY_QUANTUM) (\<lambda>amount.
       Inr (fst st + amount, snd st @ [(event, when, amount)])))"

text \<open>The distributions of a session: the amount recognised and the receivables then pending.\<close>

definition recognize_session ::
  "string \<Rightarrow> string \<Rightarrow> session_actions option \<Rightarrow> rat \<Rightarrow> rat \<Rightarrow> payment list \<Rightarrow> (rat \<times> payment list) fres" where
  "recognize_session security sess action shares_before eligible pending = (case action of
     None \<Rightarrow> Inr (0, pending)
   | Some a \<Rightarrow>
      if sa_payments a = [] then Inr (0, pending)
      else if eligible * sa_dividend_post a \<noteq> shares_before * sa_dividend_pre a
        then Inl ((session_error ''BLOCKED_AMBIGUOUS_EVENT_COORDINATE'' sess)\<lparr>err_security := Some security\<rparr>)
      else fold_res (recognize_payment eligible) (0, pending) (sa_payments a))"

definition due :: "string \<Rightarrow> payment \<Rightarrow> bool" where
  "due sess pay = (fst (snd pay) = sess)"

definition amounts :: "payment list \<Rightarrow> rat" where
  "amounts ps = sum_list (map (\<lambda>p. snd (snd p)) ps)"

definition walk_step ::
  "string \<Rightarrow> (string, session_actions) dict \<Rightarrow> walk_state \<Rightarrow> bar_row \<Rightarrow> walk_state fres" where
  "walk_step security by_sess st row = (case row of (sess, close, volume) \<Rightarrow>
     let action = dict_get by_sess sess; entering = wk_ledger st; shares_before = ls_shares entering in
     rbind (apply_session_split security sess action (wk_previous st) shares_before)
       (\<lambda>(shares_after, price, ref_before, ref_after).
     let s1 = entering\<lparr>ls_shares := shares_after\<rparr>; eligible = ls_shares s1 in
     rbind (recognize_session security sess action shares_before eligible (wk_pending st)) (\<lambda>(recognized, pending).
     let s2 = s1\<lparr>ls_receivables := ls_receivables s1 + recognized\<rparr>;
         settled = amounts (filter (due sess) pending);
         remaining = filter (\<lambda>p. \<not> due sess p) pending;
         s3 = (if settled \<noteq> 0
               then s2\<lparr>ls_cash := ls_cash s2 + settled, ls_receivables := ls_receivables s2 - settled\<rparr> else s2)
     in if ls_receivables s3 < 0 \<or> ls_cash s3 < 0 \<or> ls_shares s3 < 0
        then Inl ((session_error ''BLOCKED_NEGATIVE_LEDGER_VALUE'' sess)\<lparr>err_security := Some security\<rparr>)
        else Inr \<lparr>wk_ledger = s3, wk_pending = remaining,
          wk_transitions = wk_transitions st @
            [\<lparr>lt_session = sess, lt_raw_close = close, lt_previous_close = wk_previous st, state_before = entering,
              state_after = s3, lt_split_factor = split_of action, shares_before_split = shares_before,
              shares_after_split = shares_after, split_reference_price = price, split_reference_before = ref_before,
              split_reference_after = ref_after, dividend_eligible_shares = eligible,
              lt_dividend_pre = dividend_pre_of action, lt_dividend_post = dividend_post_of action,
              receivable_recognized = recognized, receivable_settled = settled, nav_after = ledger_nav s3 close\<rparr>],
          wk_previous = Some close\<rparr>)))"

definition walk_ledger ::
  "ledger_state \<Rightarrow> raw_session_bar list \<Rightarrow> corporate_action list \<Rightarrow> string \<Rightarrow> string \<Rightarrow> string option \<Rightarrow> pyval
   \<Rightarrow> ledger_walk fres" where
  "walk_ledger opening bars actions security_id cutoff_session order policy =
     rbind (session_text cutoff_session) (\<lambda>cutoff.
     rbind (validate_ledger_state opening) (\<lambda>_.
     rbind (normalize_actions actions security_id cutoff (ls_shares opening) order policy) (\<lambda>n.
     rbind (normalized_bars bars cutoff) (\<lambda>all_rows.
     let rows = rows_before_exclusion n all_rows in
     rbind (fold_res (check_action_bar n rows) () (ordered_sessions n)) (\<lambda>_.
     rbind (fold_res (walk_step (na_security n) (by_session n))
              \<lparr>wk_ledger = opening, wk_pending = [], wk_transitions = [], wk_previous = None\<rparr> rows) (\<lambda>st.
       Inr \<lparr>lw_security = na_security n, lw_state = run_state (na_exclusion n), opening_state = opening,
            lw_transitions = wk_transitions st, closing_state = wk_ledger st,
            pending_receivables = wk_pending st, lw_exclusion = na_exclusion n\<rparr>))))))"

end
