(* ===== verification/Stream_Rules.thy ===== *)
theory Stream_Rules
  imports Factor_Series "HOL-Library.Multiset"
begin

text \<open>
  The normalised action stream: rounding to a quantum, the two dictionaries of the collapse as filters of the
  action list, the factor and the distributions of a session as the product and the sum of what its actions declare,
  and the irrelevance of the order of the inputs.
\<close>

section \<open>Rounding\<close>

lemma quantize_half_even_eq:
  assumes "0 < q"
  shows "quantize_half_even v q = Inr (of_int (round_half_even (v / q)) * q)"
proof -
  define x where "x = \<bar>v / q\<bar>"
  obtain n d where nd: "quotient_of x = (n, d)" by (cases "quotient_of x")
  then have d: "0 < d" and x: "x = of_int n / of_int d"
    by (auto simp: quotient_of_denom_pos quotient_of_div)
  have fl: "\<lfloor>x\<rfloor> = n div d" by (simp add: x floor_divide_of_int_eq)
  have "(of_int n :: rat) = of_int (n mod d) + of_int d * of_int (n div d)"
    by (metis mod_mult_div_eq of_int_add of_int_mult)
  then have rest: "x - of_int (n div d) = of_int (n mod d) / of_int d"
    using d by (simp add: x field_simps)
  have lt: "x - of_int (n div d) < 1/2 \<longleftrightarrow> (n mod d) * 2 < d"
  proof -
    have "x - of_int (n div d) < 1/2 \<longleftrightarrow> (of_int ((n mod d) * 2) :: rat) < of_int d"
      using d by (simp add: rest pos_divide_less_eq field_simps)
    then show ?thesis by (simp only: of_int_less_iff)
  qed
  have eq: "x - of_int (n div d) = 1/2 \<longleftrightarrow> (n mod d) * 2 = d"
  proof -
    have "x - of_int (n div d) = 1/2 \<longleftrightarrow> (of_int ((n mod d) * 2) :: rat) = of_int d"
      using d by (auto simp: rest field_simps)
    then show ?thesis by (simp only: of_int_eq_iff)
  qed
  have r: "(if (n mod d) * 2 > d \<or> ((n mod d) * 2 = d \<and> n div d mod 2 = 1) then n div d + 1 else n div d) = round_half_even x"
    unfolding round_half_even_def Let_def fl lt eq by (auto simp: even_iff_mod_2_eq_zero)
  have "round_half_even (v / q) = (if v / q < 0 then - 1 else 1) * round_half_even x"
    using round_half_even_minus [of "v / q"] by (auto simp: x_def abs_if)
  moreover have "quotient_of (\<bar>v\<bar> / q) = (n, d)" using nd assms by (simp add: x_def)
  ultimately show ?thesis using assms r by (simp add: quantize_half_even_def)
qed

lemma multiple_of_iff: "0 < q \<Longrightarrow> multiple_of v q \<longleftrightarrow> (\<exists>n. v = of_int n * q)"
proof -
  assume q: "0 < q"
  have "snd (quotient_of x) = 1 \<longleftrightarrow> (\<exists>n. x = of_int n)" for x
    by (metis quotient_of_div quotient_of_int snd_conv prod.collapse of_int_1 div_by_1)
  then show ?thesis using q by (auto simp: multiple_of_def field_simps)
qed

section \<open>The collapse of a session\<close>

definition text_value :: "string \<Rightarrow> rat" where
  "text_value t = (case parse_exact t of Inr v \<Rightarrow> v | Inl _ \<Rightarrow> 0)"

definition splits_on :: "string \<Rightarrow> corporate_action list \<Rightarrow> corporate_action list" where
  "splits_on s as = filter (\<lambda>a. is_SplitAction a \<and> action_session a = s) as"

definition dividends_on :: "string \<Rightarrow> corporate_action list \<Rightarrow> corporate_action list" where
  "dividends_on s as = filter (\<lambda>a. is_CashDividendAction a \<and> action_session a = s) as"

definition split_entry_of :: "corporate_action \<Rightarrow> split_entry" where
  "split_entry_of a = (event_id a, text_value (split_text a))"

definition dividend_entry_of :: "corporate_action \<Rightarrow> dividend_entry" where
  "dividend_entry_of a = (event_id a, text_value (cash_text a), share_basis a, payment_session a)"

definition action_ok :: "string \<Rightarrow> corporate_action \<Rightarrow> bool" where
  "action_ok cutoff a = (case a of
     SplitAction _ _ _ t \<Rightarrow> 0 < text_value t
   | CashDividendAction _ _ s t p b _ \<Rightarrow> 0 \<le> text_value t \<and> s \<le> p \<and> p \<le> cutoff
       \<and> (b = None \<or> b = Some ''POST_SPLIT'' \<or> b = Some ''PRE_ACTION'')
   | UnsupportedAction _ _ _ _ \<Rightarrow> True)"

lemma dict_get_append: "dict_get_or (dict_append d k v) k' [] = dict_get_or d k' [] @ (if k = k' then [v] else [])"
  by (auto simp: dict_append_def update_conv' split: option.splits)

lemma keys_append: "fst ` set (dict_append d k v) = insert k (fst ` set d)"
  by (simp add: dict_append_def dom_update)

lemma session_text_Inr: "session_text s = Inr t \<longleftrightarrow> date_format s \<and> calendar_date s \<and> t = s"
  by (auto simp: session_text_def)

text \<open>What one action adds to the collection, once its checks have passed.\<close>

fun collected_step :: "collected \<Rightarrow> corporate_action \<Rightarrow> collected" where
  "collected_step c (SplitAction i sec s x) =
     c\<lparr>col_splits := dict_append (col_splits c) s (i, text_value x)\<rparr>"
| "collected_step c (CashDividendAction i sec s x p b cl) =
     c\<lparr>col_dividends := dict_append (col_dividends c) s (i, text_value x, b, p)\<rparr>"
| "collected_step c (UnsupportedAction i sec s x) = c"

lemma collect_Inr:
  assumes "collect security cutoff c a = Inr c'"
  shows "action_ok cutoff a \<and> c' = collected_step c a"
proof (cases a)
  case (SplitAction i sec t x)
  with assms show ?thesis
    by (auto simp: collect_def collect_split_def text_value_def not_le action_ok_def split_entry_of_def)
next
  case (CashDividendAction i sec t x p b cl)
  with assms show ?thesis
    by (auto simp: collect_def collect_dividend_def text_value_def not_less session_text_Inr
        action_ok_def dividend_entry_of_def DIVIDEND_SHARE_BASES_def BASIS_POST_SPLIT_def)
next
  case (UnsupportedAction i sec t x)
  with assms show ?thesis by (simp add: collect_def action_ok_def)
qed

lemma collect_all:
  "fold_res (collect security cutoff) c as = Inr c' \<Longrightarrow> list_all (action_ok cutoff) as \<and> c' = foldl collected_step c as"
proof (induction as arbitrary: c)
  case (Cons a as)
  then obtain c1 where c1: "collect security cutoff c a = Inr c1" "fold_res (collect security cutoff) c1 as = Inr c'" by auto
  with Cons.IH [OF c1(2)] collect_Inr [OF c1(1)] show ?case by simp
qed simp

lemma collected_splits:
  "dict_get_or (col_splits (foldl collected_step c as)) s [] = dict_get_or (col_splits c) s [] @ map split_entry_of (splits_on s as)"
proof (induction as arbitrary: c)
  case (Cons a as)
  show ?case by (cases a) (simp_all add: Cons.IH splits_on_def dict_get_append split_entry_of_def)
qed (simp add: splits_on_def)

lemma collected_dividends:
  "dict_get_or (col_dividends (foldl collected_step c as)) s [] = dict_get_or (col_dividends c) s [] @ map dividend_entry_of (dividends_on s as)"
proof (induction as arbitrary: c)
  case (Cons a as)
  show ?case by (cases a) (simp_all add: Cons.IH dividends_on_def dict_get_append dividend_entry_of_def)
qed (simp add: dividends_on_def)

lemma collected_keys:
  "fst ` set (col_splits (foldl collected_step c as)) \<union> fst ` set (col_dividends (foldl collected_step c as)) =
   fst ` set (col_splits c) \<union> fst ` set (col_dividends c) \<union> action_session ` {a \<in> set as. \<not> is_UnsupportedAction a}"
proof (induction as arbitrary: c)
  case (Cons a as)
  have "{x \<in> set (a # as). \<not> is_UnsupportedAction x} = (if is_UnsupportedAction a then {} else {a}) \<union> {x \<in> set as. \<not> is_UnsupportedAction x}"
    by auto
  then show ?case by (cases a) (simp_all add: Cons.IH keys_append)
qed simp

lemma action_sessions_set:
  "set (action_sessions c) = fst ` set (col_splits c) \<union> fst ` set (col_dividends c)"
  by (simp add: action_sessions_def)

subsection \<open>Factor and distributions\<close>

lemma split_product:
  "fold_res times_factor p xs = Inr f \<longleftrightarrow> (\<forall>x \<in> set xs. 0 < x) \<and> f = p * prod_list xs"
proof (induction xs arbitrary: p)
  case (Cons x xs)
  show ?case by (cases "x \<le> 0") (auto simp: times_factor_def [of p x] Cons.IH mult.assoc not_le)
qed auto

definition converted :: "rat \<Rightarrow> dividend_entry \<Rightarrow> rat" where
  "converted factor entry = (case entry of (event, cash, basis, pay) \<Rightarrow>
     if basis = None \<or> basis = Some ''POST_SPLIT'' then cash else cash / factor)"

definition converted_payment :: "rat \<Rightarrow> dividend_entry \<Rightarrow> payment" where
  "converted_payment factor entry = (fst entry, snd (snd (snd entry)), converted factor entry)"

lemma collapse_dividend_Inr:
  assumes "collapse_dividend security order s has factor st e = Inr st'"
  shows "st' = (fst st + converted factor e, snd st @ [converted_payment factor e])"
  using assms
  by (cases e) (auto simp: collapse_dividend_def post_split_cash_def converted_def converted_payment_def BASIS_POST_SPLIT_def
      split: option.splits if_splits)

lemma collapse_dividends:
  "fold_res (collapse_dividend security order s has factor) st es = Inr st' \<Longrightarrow>
   st' = (fst st + sum_list (map (converted factor) es), snd st @ map (converted_payment factor) es)"
proof (induction es arbitrary: st)
  case (Cons e es)
  then obtain st1 where st1: "collapse_dividend security order s has factor st e = Inr st1"
    "fold_res (collapse_dividend security order s has factor) st1 es = Inr st'" by auto
  from Cons.IH [OF st1(2)] collapse_dividend_Inr [OF st1(1)] show ?case by (simp add: add.assoc)
qed simp


lemma collapse_session_Inr:
  assumes "collapse_session security order c s = Inr a"
    and "dict_get_or (col_splits c) s [] = sp" "dict_get_or (col_dividends c) s [] = dv"
  shows "sa_split_factor a = prod_list (map snd sp)" "\<forall>e \<in> set sp. 0 < snd e"
    "sa_dividend_post a = sum_list (map (converted (sa_split_factor a)) dv)"
    "sa_dividend_pre a = sa_dividend_post a * sa_split_factor a"
    "split_event_ids a = map fst sp" "sa_payments a = map (converted_payment (sa_split_factor a)) dv"
  using assms by (auto simp: collapse_session_def Let_def split_adjustment_factor_def split_product dest!: collapse_dividends)


section \<open>The normalised stream\<close>

definition declared_split :: "string \<Rightarrow> corporate_action list \<Rightarrow> rat" where
  "declared_split s as = prod_list (map (\<lambda>a. text_value (split_text a)) (splits_on s as))"

definition declared_cash :: "string \<Rightarrow> corporate_action list \<Rightarrow> rat" where
  "declared_cash s as = sum_list (map (\<lambda>a. if share_basis a = Some ''PRE_ACTION''
       then text_value (cash_text a) / declared_split s as else text_value (cash_text a)) (dividends_on s as))"

lemma declared_sort: "declared_split s (sort_key k as) = declared_split s as" "declared_cash s (sort_key k as) = declared_cash s as"
proof -
  show eq: "declared_split s (sort_key k as) = declared_split s as"
    unfolding declared_split_def splits_on_def by (simp flip: prod_mset_prod_list)
  show "declared_cash s (sort_key k as) = declared_cash s as"
    unfolding declared_cash_def eq dividends_on_def by (simp flip: sum_mset_sum_list)
qed

lemma length_dividends_sort: "length (dividends_on s (sort_key k as)) = length (dividends_on s as)"
  by (simp add: dividends_on_def flip: size_mset)

definition wf_session :: "string \<Rightarrow> string \<Rightarrow> session_actions \<Rightarrow> bool" where
  "wf_session cutoff s a \<longleftrightarrow> 0 < sa_split_factor a \<and> 0 \<le> sa_dividend_post a
     \<and> sa_dividend_pre a = sa_dividend_post a * sa_split_factor a
     \<and> (split_event_ids a = [] \<longrightarrow> sa_split_factor a = 1)
     \<and> sa_dividend_post a = amounts (sa_payments a)
     \<and> (\<forall>p \<in> set (sa_payments a). 0 \<le> snd (snd p) \<and> s \<le> fst (snd p) \<and> fst (snd p) \<le> cutoff)"

definition normal_stream :: "string \<Rightarrow> corporate_action list \<Rightarrow> normalized_actions \<Rightarrow> bool" where
  "normal_stream cutoff as n \<longleftrightarrow> na_cutoff n = cutoff
     \<and> map fst (by_session n) = sorted_list_of_set (action_session ` {a \<in> set as. \<not> is_UnsupportedAction a})
     \<and> ordered_sessions n = map fst (by_session n)
     \<and> (\<forall>(s, a) \<in> set (by_session n). wf_session cutoff s a \<and> sa_split_factor a = declared_split s as
          \<and> sa_dividend_post a = declared_cash s as \<and> length (sa_payments a) = length (dividends_on s as))"

lemma prod_list_pos: "(\<And>x. x \<in> set xs \<Longrightarrow> 0 < x) \<Longrightarrow> 0 < prod_list (xs :: rat list)"
  by (induction xs) auto

lemma collapsed_session:
  assumes ok: "list_all (action_ok cutoff) as" and c: "c = foldl collected_step \<lparr>col_splits = [], col_dividends = []\<rparr> as"
    and a: "collapse_session security order c s = Inr a"
  shows "wf_session cutoff s a" "sa_split_factor a = declared_split s as" "sa_dividend_post a = declared_cash s as"
    "length (sa_payments a) = length (dividends_on s as)"
proof -
  have sp: "dict_get_or (col_splits c) s [] = map split_entry_of (splits_on s as)"
    unfolding c collected_splits by simp
  have dv: "dict_get_or (col_dividends c) s [] = map dividend_entry_of (dividends_on s as)"
    unfolding c collected_dividends by simp
  note facts = collapse_session_Inr [OF a sp dv]
  show f: "sa_split_factor a = declared_split s as"
    unfolding facts(1) declared_split_def by (simp add: split_entry_of_def comp_def)
  have ok': "x \<in> set as \<Longrightarrow> action_ok cutoff x" for x using ok by (auto simp: list_all_iff)
  have dok: "0 \<le> text_value (cash_text x) \<and> s \<le> payment_session x \<and> payment_session x \<le> cutoff
      \<and> (share_basis x = None \<or> share_basis x = Some ''POST_SPLIT'' \<or> share_basis x = Some ''PRE_ACTION'')"
    if "x \<in> set (dividends_on s as)" for x
  proof -
    have "action_ok cutoff x" "is_CashDividendAction x" "action_session x = s"
      using that ok' by (auto simp: dividends_on_def)
    then show ?thesis by (cases x) (simp_all add: action_ok_def)
  qed
  have conv: "converted (sa_split_factor a) (dividend_entry_of x) = (if share_basis x = Some ''PRE_ACTION''
       then text_value (cash_text x) / sa_split_factor a else text_value (cash_text x))" if "x \<in> set (dividends_on s as)" for x
    using dok [OF that] by (auto simp: converted_def dividend_entry_of_def)
  show d: "sa_dividend_post a = declared_cash s as"
    unfolding facts(3) declared_cash_def f [symmetric] by (simp add: comp_def conv cong: map_cong)
  show "length (sa_payments a) = length (dividends_on s as)" unfolding facts(6) by simp
  have pos: "0 < sa_split_factor a"
    unfolding facts(1) using facts(2) by (auto intro!: prod_list_pos)
  have nonneg: "0 \<le> converted (sa_split_factor a) (dividend_entry_of x)" if "x \<in> set (dividends_on s as)" for x
    using dok [OF that] pos by (simp add: conv [OF that])
  have amounts: "sa_dividend_post a = amounts (sa_payments a)"
    unfolding facts(3,6) by (simp add: amounts_def converted_payment_def comp_def)
  have "0 \<le> sa_dividend_post a"
    unfolding facts(3) using nonneg by (auto intro!: sum_list_nonneg)
  moreover have "\<forall>p \<in> set (sa_payments a). 0 \<le> snd (snd p) \<and> s \<le> fst (snd p) \<and> fst (snd p) \<le> cutoff"
    unfolding facts(6) using nonneg dok by (auto simp: converted_payment_def dividend_entry_of_def)
  moreover have "split_event_ids a = [] \<longrightarrow> sa_split_factor a = 1" unfolding facts(1,5) by auto
  ultimately show "wf_session cutoff s a" unfolding wf_session_def using pos amounts facts(4) by blast
qed

lemma map_res_keyed:
  "map_res (\<lambda>s. rbind (f s) (\<lambda>a. Inr (s, a))) ks = Inr kvs \<Longrightarrow> map fst kvs = ks \<and> (\<forall>(k, v) \<in> set kvs. f k = Inr v)"
  by (induction ks arbitrary: kvs) auto

lemma normalize_Inr:
  assumes "normalize_actions actions security_id cutoff_session held order policy = Inr n"
  shows "normal_stream cutoff_session actions n" "na_security n = security_id"
    "fold_res (exclude_unsupported security_id held) None (sort_key action_key actions) = Inr (na_exclusion n)"
    "\<exists>seen. fold_res (check_action security_id cutoff_session) [] actions = Inr seen" "0 \<le> held"
proof -
  define ordered where "ordered = sort_key action_key actions"
  from assms obtain seen c kvs where sec: "identifier_text security_id = Inr (na_security n)"
    and cut: "session_text cutoff_session = Inr (na_cutoff n)" and "0 \<le> held"
    and seen: "fold_res (check_action (na_security n) (na_cutoff n)) [] actions = Inr seen"
    and ex: "fold_res (exclude_unsupported (na_security n) held) None ordered = Inr (na_exclusion n)"
    and c: "fold_res (collect (na_security n) (na_cutoff n)) \<lparr>col_splits = [], col_dividends = []\<rparr> ordered = Inr c"
    and kvs: "map_res (\<lambda>s. rbind (collapse_session (na_security n) order c s) (\<lambda>a. Inr (s, a))) (action_sessions c) = Inr kvs"
    and n: "by_session n = kvs" "ordered_sessions n = sort (map fst kvs)"
    by (auto simp: normalize_actions_def Let_def ordered_def not_less)
  have na: "na_security n = security_id" "na_cutoff n = cutoff_session"
    using sec cut by (auto simp: identifier_text_def session_text_Inr split: if_splits)
  from collect_all [OF c] have ok: "list_all (action_ok cutoff_session) ordered"
    and ceq: "c = foldl collected_step \<lparr>col_splits = [], col_dividends = []\<rparr> ordered" by (auto simp: na)
  have keys: "set (action_sessions c) = action_session ` {a \<in> set actions. \<not> is_UnsupportedAction a}"
    unfolding action_sessions_set ceq collected_keys by (simp add: ordered_def)
  have sorted: "sorted (action_sessions c)" "distinct (action_sessions c)" by (simp_all add: action_sessions_def)
  have eq: "action_sessions c = sorted_list_of_set (action_session ` {a \<in> set actions. \<not> is_UnsupportedAction a})"
    unfolding keys [symmetric] using sorted by (simp add: sorted_list_of_set_sort_remdups sort_key_id_if_sorted distinct_remdups_id)
  note kv = map_res_keyed [OF kvs]
  have "\<forall>(s, a) \<in> set kvs. wf_session cutoff_session s a \<and> sa_split_factor a = declared_split s actions
      \<and> sa_dividend_post a = declared_cash s actions \<and> length (sa_payments a) = length (dividends_on s actions)"
    using kv collapsed_session [OF ok ceq] by (auto simp: ordered_def declared_sort length_dividends_sort)
  moreover have "ordered_sessions n = map fst (by_session n)"
    using n kv sorted by (simp add: sort_key_id_if_sorted)
  ultimately show "normal_stream cutoff_session actions n"
    using n kv eq na by (simp add: normal_stream_def)
  show "na_security n = security_id" by (rule na)
  show "fold_res (exclude_unsupported security_id held) None (sort_key action_key actions) = Inr (na_exclusion n)"
    using ex na by (simp add: ordered_def)
  show "\<exists>seen. fold_res (check_action security_id cutoff_session) [] actions = Inr seen" using seen na by auto
  show "0 \<le> held" by fact
qed

section \<open>Order of the inputs\<close>

definition is_identifier :: "string \<Rightarrow> bool" where
  "is_identifier s \<longleftrightarrow> s \<noteq> [] \<and> length s \<le> 128 \<and> identifier_start (hd s)
     \<and> list_all (\<lambda>c. identifier_start c \<or> c \<in> set ''._:-'') (tl s)"

lemma identifier_text_eq: "identifier_text s = (if is_identifier s then Inr s else Inl (blocked ''BLOCKED_NONFINITE_INPUT''))"
  by (auto simp: identifier_text_def is_identifier_def)

lemma session_text_eq:
  "session_text s = (if date_format s \<and> calendar_date s then Inr s else Inl (blocked ''BLOCKED_NONFINITE_INPUT''))"
  by (simp add: session_text_def)

definition admitted :: "string \<Rightarrow> string \<Rightarrow> corporate_action \<Rightarrow> bool" where
  "admitted security cutoff a \<longleftrightarrow> is_identifier (event_id a) \<and> date_format (action_session a) \<and> calendar_date (action_session a)
     \<and> is_identifier (action_security a) \<and> action_security a = security \<and> action_session a \<le> cutoff"

lemma check_action_Inr:
  "check_action security cutoff seen a = Inr seen' \<longleftrightarrow>
   admitted security cutoff a \<and> event_id a \<notin> set seen \<and> seen' = event_id a # seen"
  by (auto simp: check_action_def admitted_def not_less session_text_eq identifier_text_eq split: if_splits)

lemma check_actions_iff:
  "(\<exists>r. fold_res (check_action security cutoff) seen as = Inr r) \<longleftrightarrow>
   (\<forall>a \<in> set as. admitted security cutoff a) \<and> distinct (map event_id as) \<and> event_id ` set as \<inter> set seen = {}"
proof (induction as arbitrary: seen)
  case (Cons a as)
  have "(\<exists>r. fold_res (check_action security cutoff) seen (a # as) = Inr r) \<longleftrightarrow>
      admitted security cutoff a \<and> event_id a \<notin> set seen \<and>
      (\<exists>r. fold_res (check_action security cutoff) (event_id a # seen) as = Inr r)"
    by (auto simp: rbind_Inr_iff check_action_Inr)
  then show ?case unfolding Cons.IH by auto
qed simp

lemma sort_key_mset:
  assumes "mset xs = mset ys" "inj_on k (set xs)"
  shows "sort_key k xs = sort_key k ys"
  using assms by (intro sort_key_inj_key_eq) simp_all

lemma action_key_inj: "distinct (map event_id as) \<Longrightarrow> inj_on action_key (set as)"
  by (auto simp: distinct_map action_key_def inj_on_def)

lemma normalize_permuted:
  assumes perm: "mset as = mset as'"
    and n: "normalize_actions as security_id cutoff_session held order policy = Inr n"
  shows "normalize_actions as' security_id cutoff_session held order policy = Inr n"
proof -
  obtain seen where seen: "fold_res (check_action security_id cutoff_session) [] as = Inr seen" using normalize_Inr(4) [OF n] by blast
  then have adm: "(\<forall>a \<in> set as. admitted security_id cutoff_session a) \<and> distinct (map event_id as)"
    using check_actions_iff [of security_id cutoff_session "[]" as] by auto
  moreover have "set as' = set as" "distinct (map event_id as')"
    using perm adm mset_eq_setD mset_eq_imp_distinct_iff by (metis, metis mset_map)
  ultimately obtain seen' where seen': "fold_res (check_action security_id cutoff_session) [] as' = Inr seen'"
    using check_actions_iff [of security_id cutoff_session "[]" as'] by auto
  have sorted: "sort_key action_key as = sort_key action_key as'"
    using perm adm by (intro sort_key_mset action_key_inj) auto
  have id: "identifier_text security_id = Inr security_id" "session_text cutoff_session = Inr cutoff_session"
    using n by (auto simp: normalize_actions_def identifier_text_eq session_text_eq split: if_splits)
  have "normalize_actions as security_id cutoff_session held order policy = normalize_actions as' security_id cutoff_session held order policy"
    unfolding normalize_actions_def id rbind_simps seen seen' sorted ..
  with n show ?thesis by simp
qed

definition bar_row_of :: "raw_session_bar \<Rightarrow> bar_row" where
  "bar_row_of b = (bar_session b, text_value (bar_close b), text_value (bar_volume b))"

definition bar_ok :: "string \<Rightarrow> raw_session_bar \<Rightarrow> bool" where
  "bar_ok cutoff b \<longleftrightarrow> session_text (bar_session b) = Inr (bar_session b) \<and> bar_session b \<le> cutoff
     \<and> (\<exists>c v. parse_exact (bar_close b) = Inr c \<and> parse_exact (bar_volume b) = Inr v \<and> 0 < c \<and> 0 \<le> v)"

lemma check_bar_Inr:
  "check_bar cutoff rows b = Inr rows' \<longleftrightarrow> bar_ok cutoff b \<and> bar_session b \<notin> fst ` set rows \<and> rows' = rows @ [bar_row_of b]"
  by (cases "parse_exact (bar_close b)"; cases "parse_exact (bar_volume b)")
    (auto simp: check_bar_def bar_ok_def bar_row_of_def session_text_eq text_value_def split: if_splits)

lemma check_bars_iff:
  "fold_res (check_bar cutoff) rows bs = Inr rows' \<longleftrightarrow>
   (\<forall>b \<in> set bs. bar_ok cutoff b) \<and> distinct (map bar_session bs) \<and> bar_session ` set bs \<inter> fst ` set rows = {}
   \<and> rows' = rows @ map bar_row_of bs"
proof (induction bs arbitrary: rows)
  case (Cons b bs)
  have "fold_res (check_bar cutoff) rows (b # bs) = Inr rows' \<longleftrightarrow>
      bar_ok cutoff b \<and> bar_session b \<notin> fst ` set rows \<and> fold_res (check_bar cutoff) (rows @ [bar_row_of b]) bs = Inr rows'"
    by (auto simp: rbind_Inr_iff check_bar_Inr)
  then show ?case unfolding Cons.IH by (auto simp: bar_row_of_def)
qed auto

lemma normalized_bars_iff:
  "normalized_bars bs cutoff = Inr rows \<longleftrightarrow>
   bs \<noteq> [] \<and> (\<forall>b \<in> set bs. bar_ok cutoff b) \<and> distinct (map bar_session bs) \<and> rows = sort_key fst (map bar_row_of bs)"
  by (auto simp: normalized_bars_def rbind_Inr_iff check_bars_iff)

lemma normalized_bars_permuted:
  assumes "mset bs = mset bs'" "normalized_bars bs cutoff = Inr rows"
  shows "normalized_bars bs' cutoff = Inr rows"
proof -
  have set: "set bs' = set bs" using assms(1) by (metis set_mset_mset)
  have "distinct (map bar_session bs)" using assms(2) by (simp add: normalized_bars_iff)
  then have d: "distinct (map bar_session bs')" using assms(1) by (metis mset_map mset_eq_imp_distinct_iff)
  have "inj_on fst (set (map bar_row_of bs))"
    using \<open>distinct (map bar_session bs)\<close> by (auto simp: distinct_map inj_on_def bar_row_of_def)
  then have "sort_key fst (map bar_row_of bs) = sort_key fst (map bar_row_of bs')"
    using assms(1) by (intro sort_key_mset) auto
  with assms(2) set d show ?thesis by (auto simp: normalized_bars_iff)
qed

lemma normalized_rows:
  assumes "normalized_bars bs cutoff = Inr rows"
  shows "sorted (map fst rows)" "distinct (map fst rows)" "r \<in> set rows \<Longrightarrow> 0 < fst (snd r) \<and> 0 \<le> snd (snd r)"
proof -
  note n = assms [unfolded normalized_bars_iff]
  show "sorted (map fst rows)" using n by simp
  have "distinct (map fst (map bar_row_of bs))" using n by (simp add: bar_row_of_def comp_def)
  then show "distinct (map fst rows)" using n by (metis mset_map mset_sort mset_eq_imp_distinct_iff)
  show "0 < fst (snd r) \<and> 0 \<le> snd (snd r)" if "r \<in> set rows"
    using that n by (auto simp: bar_row_of_def bar_ok_def text_value_def)
qed

end
