(* ===== verification/Factor_Rules.thy ===== *)
theory Factor_Rules
  imports Stream_Rules
begin

text \<open>
  What the published factor series means: the adjustment factor of a session is the product of the later splits, the
  total-return index is the wealth of a holder who reinvests every distribution at the close, and the consistency checks
  of the kernel never refuse a validated input.
\<close>

section \<open>Lookups in the normalised stream\<close>

definition wf_stream :: "string \<Rightarrow> (string, session_actions) dict \<Rightarrow> bool" where
  "wf_stream cutoff by_sess \<longleftrightarrow> (\<forall>(s, a) \<in> set by_sess. wf_session cutoff s a)"

lemma stream_lookup: "wf_stream cutoff by_sess \<Longrightarrow> dict_get by_sess s = Some a \<Longrightarrow> wf_session cutoff s a"
  by (auto simp: wf_stream_def dest!: map_of_SomeD)

lemma normal_stream_wf: "normal_stream cutoff as n \<Longrightarrow> wf_stream cutoff (by_session n)"
  by (auto simp: normal_stream_def wf_stream_def)

lemma stream_signs:
  assumes "wf_stream cutoff by_sess"
  shows "0 < split_of (dict_get by_sess s)" "0 \<le> dividend_post_of (dict_get by_sess s)"
    "dividend_pre_of (dict_get by_sess s) = dividend_post_of (dict_get by_sess s) * split_of (dict_get by_sess s)"
  using stream_lookup [OF assms, of s]
  by (auto simp: split_of_def dividend_post_of_def dividend_pre_of_def wf_session_def split: option.splits)

definition payment_count :: "session_actions option \<Rightarrow> nat" where
  "payment_count action = (case action of None \<Rightarrow> 0 | Some a \<Rightarrow> length (sa_payments a))"

lemma stream_declared:
  assumes "normal_stream cutoff as n"
  shows "split_of (dict_get (by_session n) s) = declared_split s as"
    "dividend_post_of (dict_get (by_session n) s) = declared_cash s as"
    "payment_count (dict_get (by_session n) s) = length (dividends_on s as)"
proof -
  have keys: "fst ` set (by_session n) = action_session ` {a \<in> set as. \<not> is_UnsupportedAction a}"
  proof -
    have "map fst (by_session n) = sorted_list_of_set (action_session ` {a \<in> set as. \<not> is_UnsupportedAction a})"
      using assms by (simp add: normal_stream_def)
    then have "set (map fst (by_session n)) = action_session ` {a \<in> set as. \<not> is_UnsupportedAction a}" by simp
    then show ?thesis by simp
  qed
  have none: "splits_on s as = [] \<and> dividends_on s as = []" if "dict_get (by_session n) s = None"
  proof -
    have "s \<notin> action_session ` {a \<in> set as. \<not> is_UnsupportedAction a}"
      using that keys by (simp add: map_of_eq_None_iff)
    then show ?thesis
      by (auto simp: splits_on_def dividends_on_def filter_empty_conv image_iff)
  qed
  show "split_of (dict_get (by_session n) s) = declared_split s as"
    "dividend_post_of (dict_get (by_session n) s) = declared_cash s as"
    "payment_count (dict_get (by_session n) s) = length (dividends_on s as)"
    using assms none
    by (auto simp: split_of_def dividend_post_of_def payment_count_def normal_stream_def declared_split_def declared_cash_def
        dest!: map_of_SomeD split: option.splits)
qed

section \<open>The adjustment factors\<close>

definition factor_at :: "(string, session_actions) dict \<Rightarrow> bar_row \<Rightarrow> rat" where
  "factor_at by_sess r = split_of (dict_get by_sess (fst r))"

lemma adjustment_step_eq: "adjustment_step by_sess st r = (fst st @ [snd st], snd st * factor_at by_sess r)"
  by (auto simp: adjustment_step_def factor_at_def split_of_def split: option.splits)

lemma running_product: "snd (foldl (adjustment_step by_sess) st rs) = snd st * prod_list (map (factor_at by_sess) rs)"
  by (induction rs arbitrary: st) (simp_all add: adjustment_step_eq mult.assoc)

lemma adjustments_Nil: "adjustments by_sess [] = []"
  by (simp add: adjustments_def)

lemma adjustments_Cons: "adjustments by_sess (r # rs) = prod_list (map (factor_at by_sess) rs) # adjustments by_sess rs"
proof -
  have "prod_list (map (factor_at by_sess) (rev rs)) = prod_list (map (factor_at by_sess) rs)"
    by (simp add: rev_map [symmetric] prod_list.rev)
  then show ?thesis by (simp add: adjustments_def adjustment_step_eq running_product)
qed

section \<open>The series\<close>

lemma gross_return_value:
  assumes "0 < previous" "0 < close" "0 < s" "0 \<le> d"
  shows "gross_return s close previous (d * s) (Some d) = Inr (s * (close + d) / previous)"
  using assms by (simp add: gross_return_def field_simps not_less not_le)

text \<open>The published series as one recursive equation.\<close>

fun series_of :: "(string, session_actions) dict \<Rightarrow> rat option \<Rightarrow> rat \<Rightarrow> bar_row list \<Rightarrow> session_factors list" where
  "series_of by_sess prev idx [] = []"
| "series_of by_sess prev idx ((s, c, v) # rs) =
    (let f = split_of (dict_get by_sess s); d = dividend_post_of (dict_get by_sess s);
         adj = prod_list (map (factor_at by_sess) rs);
         g = (case prev of None \<Rightarrow> None | Some p \<Rightarrow> Some (f * (c + d) / p));
         idx' = (case g of None \<Rightarrow> idx | Some x \<Rightarrow> idx * x)
     in \<lparr>sf_session = s, sf_raw_close = c, sf_raw_volume = v, raw_dollar_volume = c * v, sf_adjustment = adj,
         split_adjusted_close = c / adj, split_adjusted_volume = v * adj, split_adjusted_dollar_volume = c / adj * (v * adj),
         applied_split_factor = f, applied_dividend_post = d, applied_dividend_pre = dividend_pre_of (dict_get by_sess s),
         sf_gross_return = g, total_return_index = idx'\<rparr> # series_of by_sess (Some c) idx' rs)"

lemma factor_product_pos: "wf_stream cutoff by_sess \<Longrightarrow> 0 < prod_list (map (factor_at by_sess) rs)"
  by (rule prod_list_pos) (auto simp: factor_at_def stream_signs)

lemma series_loop:
  assumes wf: "wf_stream cutoff by_sess"
  shows "\<lbrakk>\<forall>r \<in> set rs. 0 < fst (snd r); \<forall>p. ser_previous st = Some p \<longrightarrow> 0 < p; drop k adj = adjustments by_sess rs\<rbrakk>
    \<Longrightarrow> \<exists>st'. fold_res (series_step by_sess adj) st (enumerate k rs) = Inr st'
        \<and> ser_sessions st' = ser_sessions st @ series_of by_sess (ser_previous st) (ser_index st) rs"
proof (induction rs arbitrary: st k)
  case (Cons r rs)
  obtain s c v where r: "r = (s, c, v)" by (cases r)
  have c: "0 < c" using Cons.prems(1) by (simp add: r)
  define adj_u where "adj_u = prod_list (map (factor_at by_sess) rs)"
  have pos: "0 < adj_u" unfolding adj_u_def by (rule factor_product_pos [OF wf])
  have drop: "drop k adj = adj_u # adjustments by_sess rs" using Cons.prems(3) by (simp add: adjustments_Cons adj_u_def)
  then have nth: "adj ! k = adj_u" and rest: "drop (Suc k) adj = adjustments by_sess rs"
    by (metis drop_eq_Nil list.distinct(1) not_le_imp_less nth_via_drop, metis drop_Suc list.sel(3) tl_drop)
  note signs = stream_signs [OF wf, of s]
  have "\<exists>st1. series_step by_sess adj st (k, r) = Inr st1 \<and> ser_previous st1 = Some c
      \<and> ser_sessions st1 @ series_of by_sess (ser_previous st1) (ser_index st1) rs
        = ser_sessions st @ series_of by_sess (ser_previous st) (ser_index st) (r # rs)"
  proof (cases "ser_previous st")
    case None
    with pos show ?thesis by (simp add: series_step_def r nth Let_def adj_u_def [symmetric])
  next
    case (Some p)
    then have "0 < p" using Cons.prems(2) by simp
    from gross_return_value [OF this c signs(1,2)] Some pos show ?thesis
      by (simp add: series_step_def r nth Let_def adj_u_def [symmetric] signs(3))
  qed
  then obtain st1 where st1: "series_step by_sess adj st (k, r) = Inr st1" "ser_previous st1 = Some c"
    "ser_sessions st1 @ series_of by_sess (ser_previous st1) (ser_index st1) rs
        = ser_sessions st @ series_of by_sess (ser_previous st) (ser_index st) (r # rs)" by blast
  from Cons.IH [of st1 "Suc k"] Cons.prems(1) st1(2) c rest
  obtain st' where "fold_res (series_step by_sess adj) st1 (enumerate (Suc k) rs) = Inr st'"
    "ser_sessions st' = ser_sessions st1 @ series_of by_sess (ser_previous st1) (ser_index st1) rs" by auto
  with st1 show ?case by simp
qed simp


lemma rows_kept:
  assumes "normalized_bars bars cutoff = Inr rows"
  shows "sorted (map fst (rows_before_exclusion n rows))" "distinct (map fst (rows_before_exclusion n rows))"
    "\<forall>r \<in> set (rows_before_exclusion n rows). 0 < fst (snd r) \<and> 0 \<le> snd (snd r)"
  using normalized_rows [OF assms]
  by (auto simp: rows_before_exclusion_def sorted_map_same distinct_map_filter intro: sorted_filter split: option.splits)

lemma build_factor_series_Inr:
  assumes "build_factor_series bars actions security_id cutoff held_text base_text order policy = Inr fs"
  obtains n rows held base where
    "normalize_actions actions security_id cutoff held order policy = Inr n"
    "normalized_bars bars cutoff = Inr rows" "parse_exact base_text = Inr base" "0 < base"
    "parse_exact held_text = Inr held"
    "fs_sessions fs = series_of (by_session n) None base (rows_before_exclusion n rows)"
    "fs_security fs = security_id" "fs_cutoff fs = cutoff" "fs_exclusion fs = na_exclusion n"
    "fs_state fs = run_state (na_exclusion n)"
    "\<forall>s \<in> set (ordered_sessions n). s \<in> fst ` set (rows_before_exclusion n rows)"
proof -
  from assms obtain held base n rows u st where 1: "parse_exact held_text = Inr held" "parse_exact base_text = Inr base" "0 < base"
    and n: "normalize_actions actions security_id cutoff held order policy = Inr n"
    and rows: "normalized_bars bars cutoff = Inr rows"
    and chk: "fold_res (check_action_bar n (rows_before_exclusion n rows)) () (ordered_sessions n) = Inr u"
    and st: "fold_res (series_step (by_session n) (adjustments (by_session n) (rows_before_exclusion n rows)))
       \<lparr>ser_sessions = [], ser_index = base, ser_previous = None\<rparr> (enumerate 0 (rows_before_exclusion n rows)) = Inr st"
    and fs: "fs = \<lparr>fs_security = na_security n, fs_cutoff = cutoff, fs_state = run_state (na_exclusion n),
                fs_sessions = ser_sessions st, fs_exclusion = na_exclusion n\<rparr>"
    by (auto simp: build_factor_series_def Let_def session_text_Inr not_le)
  have wf: "wf_stream cutoff (by_session n)" by (rule normal_stream_wf [OF normalize_Inr(1) [OF n]])
  from series_loop [OF wf, of "rows_before_exclusion n rows" "\<lparr>ser_sessions = [], ser_index = base, ser_previous = None\<rparr>" 0
      "adjustments (by_session n) (rows_before_exclusion n rows)"] rows_kept(3) [OF rows, of n] st
  have "ser_sessions st = series_of (by_session n) None base (rows_before_exclusion n rows)" by auto
  moreover have "fold_res (check_action_bar n xs) u' ys = Inr u'' \<Longrightarrow> \<forall>s \<in> set ys. s \<in> fst ` set xs" for xs ys u' u''
    by (induction ys arbitrary: u') (auto simp: check_action_bar_def list_all_iff image_iff split: if_splits)
  ultimately show thesis using 1 n rows chk fs normalize_Inr(2) [OF n] by (intro that) auto
qed

section \<open>Properties of the published series\<close>

lemma series_sessions: "map sf_session (series_of by_sess prev idx rs) = map fst rs"
  by (induction by_sess prev idx rs rule: series_of.induct) (auto simp: Let_def)

lemma length_series: "length (series_of by_sess prev idx rs) = length rs"
  using series_sessions [of by_sess prev idx rs] by (metis length_map)

lemma series_applied: "x \<in> set (series_of by_sess prev idx rs) \<Longrightarrow>
   applied_split_factor x = split_of (dict_get by_sess (sf_session x))
   \<and> applied_dividend_post x = dividend_post_of (dict_get by_sess (sf_session x))
   \<and> applied_dividend_pre x = dividend_pre_of (dict_get by_sess (sf_session x))
   \<and> (sf_session x, sf_raw_close x, sf_raw_volume x) \<in> set rs
   \<and> raw_dollar_volume x = sf_raw_close x * sf_raw_volume x
   \<and> split_adjusted_close x = sf_raw_close x / sf_adjustment x
   \<and> split_adjusted_volume x = sf_raw_volume x * sf_adjustment x
   \<and> split_adjusted_dollar_volume x = split_adjusted_close x * split_adjusted_volume x"
proof (induction rs arbitrary: prev idx)
  case (Cons r rs)
  show ?case
  proof (cases "x = hd (series_of by_sess prev idx (r # rs))")
    case True
    then show ?thesis by (cases r) (simp add: Let_def)
  next
    case False
    with Cons.prems obtain prev' idx' where "x \<in> set (series_of by_sess prev' idx' rs)"
      by (cases r) (auto simp: Let_def)
    from Cons.IH [OF this] show ?thesis by simp
  qed
qed simp

lemma series_factors: "map applied_split_factor (series_of by_sess prev idx rs) = map (factor_at by_sess) rs"
  by (induction by_sess prev idx rs rule: series_of.induct) (auto simp: Let_def factor_at_def)

lemma series_adjustment:
  "i < length rs \<Longrightarrow> sf_adjustment (series_of by_sess prev idx rs ! i) =
    prod_list (map applied_split_factor (drop (Suc i) (series_of by_sess prev idx rs)))"
proof (induction by_sess prev idx rs arbitrary: i rule: series_of.induct)
  case (2 by_sess prev idx s c v rs)
  then show ?case by (cases i) (auto simp: Let_def series_factors)
qed simp

text \<open>
  A holder who reinvests: the split multiplies the shares, the distribution is paid on the shares after the split
  and buys more of them at the close.
\<close>

definition reinvest :: "rat \<Rightarrow> session_factors \<Rightarrow> rat" where
  "reinvest q x = (let after_split = q * applied_split_factor x
     in after_split + after_split * applied_dividend_post x / sf_raw_close x)"

lemma series_reinvests:
  assumes "wf_stream cutoff by_sess"
  shows "\<lbrakk>\<forall>r \<in> set rs. 0 < fst (snd r); 0 < p; i < length rs\<rbrakk> \<Longrightarrow>
    total_return_index (series_of by_sess (Some p) (q * p) rs ! i) =
    foldl reinvest q (take (Suc i) (series_of by_sess (Some p) (q * p) rs)) * sf_raw_close (series_of by_sess (Some p) (q * p) rs ! i)"
proof (induction rs arbitrary: p q i)
  case (Cons r rs)
  obtain s c v where r: "r = (s, c, v)" by (cases r)
  have c: "0 < c" using Cons.prems(1) by (simp add: r)
  define f d where "f = split_of (dict_get by_sess s)" and "d = dividend_post_of (dict_get by_sess s)"
  define q' where "q' = q * f + q * f * d / c"
  have idx: "p \<noteq> 0" "q * (f * (c + d)) = q' * c" using Cons.prems(2) c by (simp_all add: q'_def field_simps)
  have re: "reinvest q x = q'" if "applied_split_factor x = f" "applied_dividend_post x = d" "sf_raw_close x = c" for x
    by (simp add: reinvest_def Let_def that q'_def)
  show ?case
  proof (cases i)
    case 0
    then show ?thesis by (simp add: r Let_def f_def [symmetric] d_def [symmetric] idx re)
  next
    case (Suc j)
    have "j < length rs" using Cons.prems(3) Suc by simp
    from Cons.IH [OF _ c this, of q'] Cons.prems(1) Suc show ?thesis
      by (simp add: r Let_def f_def [symmetric] d_def [symmetric] idx re)
  qed
qed simp

lemma series_gross:
  "Suc i < length rs \<Longrightarrow> sf_gross_return (series_of by_sess prev idx rs ! Suc i) =
    Some (applied_split_factor (series_of by_sess prev idx rs ! Suc i) * (sf_raw_close (series_of by_sess prev idx rs ! Suc i)
      + applied_dividend_post (series_of by_sess prev idx rs ! Suc i)) / sf_raw_close (series_of by_sess prev idx rs ! i))"
proof (induction by_sess prev idx rs arbitrary: i rule: series_of.induct)
  case (2 by_sess prev idx s c v rs)
  show ?case
  proof (cases i)
    case 0
    with 2 obtain s' c' v' rs' where "rs = (s', c', v') # rs'" by (cases rs) auto
    with 0 show ?thesis by (simp add: Let_def)
  next
    case (Suc j)
    with 2 show ?thesis by (simp add: Let_def)
  qed
qed simp

section \<open>Example\<close>

definition ex_bars :: "raw_session_bar list" where
  "ex_bars = [\<lparr>bar_session = ''2024-01-02'', bar_close = ''100'', bar_volume = ''10''\<rparr>,
    \<lparr>bar_session = ''2024-01-04'', bar_close = ''26'', bar_volume = ''50''\<rparr>,
    \<lparr>bar_session = ''2024-01-03'', bar_close = ''25.5'', bar_volume = ''40''\<rparr>]"

definition ex_actions :: "corporate_action list" where
  "ex_actions = [CashDividendAction ''d1'' ''S'' ''2024-01-03'' ''0.5'' ''2024-01-04'' (Some ''PRE_ACTION'') ''ORDINARY'',
    SplitAction ''s1'' ''S'' ''2024-01-03'' ''4.0'']"

definition ex_order :: "string option" where "ex_order = Some REGISTERED_SAME_DAY_EVENT_ORDER"

definition ex_series :: factor_series where
  "ex_series = \<lparr>fs_security = ''S'', fs_cutoff = ''2024-01-04'', fs_state = ''SERIES_OK'',
     fs_sessions = series_of [(''2024-01-03'', \<lparr>sa_session = ''2024-01-03'', sa_split_factor = 4, sa_dividend_post = 1/8,
          sa_dividend_pre = 1/2, split_event_ids = [''s1''], dividend_event_ids = [''d1''],
          sa_payments = [(''d1'', ''2024-01-04'', 1/8)]\<rparr>)] None 1
        [(''2024-01-02'', 100, 10), (''2024-01-03'', 51/2, 40), (''2024-01-04'', 26, 50)],
     fs_exclusion = None\<rparr>"

lemma ex_series_built: "build_factor_series ex_bars ex_actions ''S'' ''2024-01-04'' ''0'' ''1'' ex_order PNone = Inr ex_series"
  by code_simp

section \<open>Meaning of the series\<close>

text \<open>
  C11: Whenever the series is built, its sessions are ordered, the split factor and the distribution
  it applies are the product and the sum of what the session's actions declare, and the total-return index is the wealth of
  a holder who puts the base index into the first close and reinvests every distribution at the close.
\<close>

theorem total_return_reinvests:
  assumes "build_factor_series bars actions security_id cutoff held_text base_text order policy = Inr fs"
  shows "sorted (map sf_session (fs_sessions fs)) \<and> distinct (map sf_session (fs_sessions fs))
    \<and> (\<forall>x \<in> set (fs_sessions fs). applied_split_factor x = declared_split (sf_session x) actions
         \<and> applied_dividend_post x = declared_cash (sf_session x) actions)
    \<and> (\<forall>i < length (fs_sessions fs). total_return_index (fs_sessions fs ! i) =
         foldl reinvest (text_value base_text / sf_raw_close (hd (fs_sessions fs))) (take i (tl (fs_sessions fs)))
         * sf_raw_close (fs_sessions fs ! i))"
proof -
  from assms show ?thesis
  proof (rule build_factor_series_Inr)
    fix n rows held base
    assume n: "normalize_actions actions security_id cutoff held order policy = Inr n"
      and rows: "normalized_bars bars cutoff = Inr rows" and base: "parse_exact base_text = Inr base"
      and fs: "fs_sessions fs = series_of (by_session n) None base (rows_before_exclusion n rows)"
    note ns = normalize_Inr(1) [OF n]
    have wf: "wf_stream cutoff (by_session n)" by (rule normal_stream_wf [OF ns])
    note kept = rows_kept [OF rows, of n]
    have tri: "total_return_index (fs_sessions fs ! i) =
         foldl reinvest (base / sf_raw_close (hd (fs_sessions fs))) (take i (tl (fs_sessions fs))) * sf_raw_close (fs_sessions fs ! i)"
      if "i < length (fs_sessions fs)" for i
    proof -
      have "rows_before_exclusion n rows \<noteq> []" using that by (auto simp: fs)
      then obtain s c v rs where rs: "rows_before_exclusion n rows = (s, c, v) # rs" by (metis neq_Nil_conv prod_cases3)
      have c: "0 < c" and pos: "\<forall>r \<in> set rs. 0 < fst (snd r)" using kept(3) by (auto simp: rs)
      show ?thesis
      proof (cases i)
        case 0
        with c show ?thesis by (simp add: fs rs Let_def)
      next
        case (Suc j)
        then have "j < length rs" using that by (simp add: fs rs length_series Let_def)
        from series_reinvests [OF wf pos c this, of "base / c"] c Suc show ?thesis by (simp add: fs rs Let_def)
      qed
    qed
    have "\<forall>x \<in> set (fs_sessions fs). applied_split_factor x = declared_split (sf_session x) actions
         \<and> applied_dividend_post x = declared_cash (sf_session x) actions"
      using series_applied [of _ "by_session n" None base "rows_before_exclusion n rows"] by (simp add: fs stream_declared [OF ns])
    with tri kept(1,2) base show ?thesis by (simp add: fs series_sessions text_value_def)
  qed
qed

theorem total_return_reinvests_witness:
  "total_return_index (fs_sessions ex_series ! 2) =
     foldl reinvest (1 / 100) (take 2 (tl (fs_sessions ex_series))) * 26 \<and> total_return_index (fs_sessions ex_series ! 2) = 533 / 510"
proof -
  have "length (fs_sessions ex_series) = 3" "sf_raw_close (hd (fs_sessions ex_series)) = 100" "sf_raw_close (fs_sessions ex_series ! 2) = 26"
    "text_value ''1'' = 1" "total_return_index (fs_sessions ex_series ! 2) = 533 / 510" by code_simp+
  with total_return_reinvests [OF ex_series_built] show ?thesis by force
qed

text \<open>
  In the published series the adjustment factor of a session is the product of the splits applied
  after it, adjusted closes and volumes restate the raw ones with the dollar volume unchanged, and the gross return of a session is
  the return of the adjusted closes with the distribution in the same adjusted coordinate.
\<close>

theorem split_adjusted_series:
  assumes "build_factor_series bars actions security_id cutoff held_text base_text order policy = Inr fs"
  shows "(\<forall>i < length (fs_sessions fs). let x = fs_sessions fs ! i in
      sf_adjustment x = prod_list (map applied_split_factor (drop (Suc i) (fs_sessions fs))) \<and> 0 < sf_adjustment x
      \<and> split_adjusted_close x * sf_adjustment x = sf_raw_close x
      \<and> split_adjusted_volume x = sf_raw_volume x * sf_adjustment x
      \<and> split_adjusted_dollar_volume x = sf_raw_close x * sf_raw_volume x)
    \<and> (\<forall>i. Suc i < length (fs_sessions fs) \<longrightarrow> (let x = fs_sessions fs ! i; y = fs_sessions fs ! Suc i in
      sf_gross_return y = Some ((split_adjusted_close y + applied_dividend_post y / sf_adjustment y) / split_adjusted_close x)))"
proof -
  from assms show ?thesis
  proof (rule build_factor_series_Inr)
    fix n rows held base
    assume n: "normalize_actions actions security_id cutoff held order policy = Inr n"
      and rows: "normalized_bars bars cutoff = Inr rows"
      and fs: "fs_sessions fs = series_of (by_session n) None base (rows_before_exclusion n rows)"
    define rs where "rs = rows_before_exclusion n rows"
    have wf: "wf_stream cutoff (by_session n)" by (rule normal_stream_wf [OF normalize_Inr(1) [OF n]])
    have len: "length (fs_sessions fs) = length rs" by (simp add: fs length_series rs_def)
    have adj: "sf_adjustment (fs_sessions fs ! i) = prod_list (map applied_split_factor (drop (Suc i) (fs_sessions fs)))"
      "0 < sf_adjustment (fs_sessions fs ! i)" if "i < length rs" for i
    proof -
      show eq: "sf_adjustment (fs_sessions fs ! i) = prod_list (map applied_split_factor (drop (Suc i) (fs_sessions fs)))"
        using series_adjustment that by (simp add: fs rs_def)
      show "0 < sf_adjustment (fs_sessions fs ! i)"
        unfolding eq drop_map [symmetric] unfolding fs series_factors drop_map by (rule factor_product_pos [OF wf])
    qed
    have app: "split_adjusted_close x = sf_raw_close x / sf_adjustment x" "split_adjusted_volume x = sf_raw_volume x * sf_adjustment x"
      "split_adjusted_dollar_volume x = split_adjusted_close x * split_adjusted_volume x" if "x \<in> set (fs_sessions fs)" for x
      using series_applied that by (simp_all add: fs)
    have step: "sf_adjustment (fs_sessions fs ! i) = applied_split_factor (fs_sessions fs ! Suc i) * sf_adjustment (fs_sessions fs ! Suc i)"
      if "Suc i < length rs" for i
      using that by (simp add: adj len Cons_nth_drop_Suc [symmetric])
    have "sf_gross_return (fs_sessions fs ! Suc i) = Some ((split_adjusted_close (fs_sessions fs ! Suc i)
        + applied_dividend_post (fs_sessions fs ! Suc i) / sf_adjustment (fs_sessions fs ! Suc i)) / split_adjusted_close (fs_sessions fs ! i))"
      if "Suc i < length rs" for i
    proof -
      have mem: "fs_sessions fs ! i \<in> set (fs_sessions fs)" "fs_sessions fs ! Suc i \<in> set (fs_sessions fs)" using that by (simp_all add: len)
      show ?thesis
        using series_gross [of i "rows_before_exclusion n rows" "by_session n" None base] that adj(2) [of "Suc i"] adj(2) [of i]
        unfolding fs [symmetric] app(1) [OF mem(1)] app(1) [OF mem(2)] step [OF that]
        by (simp add: rs_def add_divide_distrib [symmetric] zero_less_mult_iff)
    qed
    moreover have "split_adjusted_close x * sf_adjustment x = sf_raw_close x \<and> split_adjusted_dollar_volume x = sf_raw_close x * sf_raw_volume x"
      if "x \<in> set (fs_sessions fs)" "0 < sf_adjustment x" for x using that by (simp add: app)
    moreover have "fs_sessions fs ! i \<in> set (fs_sessions fs)" if "i < length rs" for i using that by (simp add: len)
    ultimately show ?thesis unfolding len Let_def using adj app(2) by blast
  qed
qed

theorem split_adjusted_series_witness:
  "sf_gross_return (fs_sessions ex_series ! 1) = Some ((51/2 + 1/8) / 25) \<and> sf_adjustment (hd (fs_sessions ex_series)) = 4"
proof -
  have ev: "length (fs_sessions ex_series) = 3" "split_adjusted_close (fs_sessions ex_series ! 0) = 25" "split_adjusted_close (fs_sessions ex_series ! Suc 0) = 51/2"
    "applied_dividend_post (fs_sessions ex_series ! Suc 0) = 1/8" "sf_adjustment (fs_sessions ex_series ! Suc 0) = 1"
    "sf_adjustment (hd (fs_sessions ex_series)) = 4" by code_simp+
  from split_adjusted_series [OF ex_series_built, THEN conjunct2, rule_format, of 0] ev show ?thesis by (simp add: Let_def)
qed

end
