(* ===== verification/Ledger_Walk.thy ===== *)
theory Ledger_Walk
  imports Factor_Rules
begin

text \<open>
  What the walk of a holder's shares, cash and receivables keeps: every state is valid and on the quantum, the totals follow
  from the transitions, receivables pend only for sessions without a bar, and the value follows the total return.
\<close>

section \<open>One session\<close>

definition quantum_rounded :: "rat \<Rightarrow> rat" where
  "quantum_rounded x = of_int (round_half_even (x / LEDGER_CURRENCY_QUANTUM)) * LEDGER_CURRENCY_QUANTUM"

lemma quantum_rounded_error: "\<bar>quantum_rounded x - x\<bar> \<le> LEDGER_CURRENCY_QUANTUM / 2"
proof -
  define y where "y = x / LEDGER_CURRENCY_QUANTUM"
  have "quantum_rounded x - x = (of_int (round_half_even y) - y) * LEDGER_CURRENCY_QUANTUM"
    by (simp add: quantum_rounded_def y_def LEDGER_CURRENCY_QUANTUM_def field_simps)
  moreover have "\<bar>of_int (round_half_even y) - y\<bar> * LEDGER_CURRENCY_QUANTUM \<le> 1/2 * LEDGER_CURRENCY_QUANTUM"
    by (intro mult_right_mono round_half_even_error) (simp add: LEDGER_CURRENCY_QUANTUM_def)
  moreover have "\<bar>LEDGER_CURRENCY_QUANTUM\<bar> = LEDGER_CURRENCY_QUANTUM" by (simp add: LEDGER_CURRENCY_QUANTUM_def)
  ultimately show ?thesis by (metis abs_mult mult.commute mult.right_neutral times_divide_eq_right)
qed

lemma quantum_rounded_nonneg: "0 \<le> x \<Longrightarrow> 0 \<le> quantum_rounded x"
  using round_half_even_ge [of 0 "x / LEDGER_CURRENCY_QUANTUM"] by (simp add: quantum_rounded_def LEDGER_CURRENCY_QUANTUM_def)

definition on_quantum :: "rat \<Rightarrow> bool" where
  "on_quantum x \<longleftrightarrow> (\<exists>n. x = of_int n / 100000000)"

lemma on_quantum_0 [simp]: "on_quantum 0" by (auto simp: on_quantum_def intro: exI [of _ 0])

lemma on_quantum_add: "on_quantum x \<Longrightarrow> on_quantum y \<Longrightarrow> on_quantum (x + y)"
  by (auto simp: on_quantum_def) (metis add_divide_distrib of_int_add)

lemma on_quantum_minus: "on_quantum x \<Longrightarrow> on_quantum (- x)"
  by (auto simp: on_quantum_def) (metis minus_divide_left of_int_minus)

lemma on_quantum_diff: "on_quantum x \<Longrightarrow> on_quantum y \<Longrightarrow> on_quantum (x - y)"
  using on_quantum_add [of x "- y"] on_quantum_minus by simp

lemma on_quantum_sum: "(\<And>x. x \<in> set xs \<Longrightarrow> on_quantum x) \<Longrightarrow> on_quantum (sum_list xs)"
  by (induction xs) (auto intro: on_quantum_add)

lemma on_quantum_rounded: "on_quantum (quantum_rounded x)"
  by (auto simp: on_quantum_def quantum_rounded_def LEDGER_CURRENCY_QUANTUM_def)

lemma multiple_of_quantum: "multiple_of x LEDGER_CURRENCY_QUANTUM = on_quantum x" "multiple_of x LEDGER_SHARE_QUANTUM = on_quantum x"
  by (simp_all add: multiple_of_iff on_quantum_def LEDGER_CURRENCY_QUANTUM_def LEDGER_SHARE_QUANTUM_def)

definition holder_ok :: "ledger_state \<Rightarrow> bool" where
  "holder_ok s \<longleftrightarrow> 0 \<le> ls_shares s \<and> 0 \<le> ls_cash s \<and> 0 \<le> ls_receivables s
     \<and> on_quantum (ls_shares s) \<and> on_quantum (ls_cash s) \<and> on_quantum (ls_receivables s)"

lemma validate_ledger_state_Inr: "validate_ledger_state s = Inr s' \<longleftrightarrow> holder_ok s \<and> s' = s"
  by (auto simp: validate_ledger_state_def holder_ok_def multiple_of_quantum not_less)

definition wf_action :: "string \<Rightarrow> string \<Rightarrow> session_actions option \<Rightarrow> bool" where
  "wf_action cutoff s action \<longleftrightarrow> (\<forall>a. action = Some a \<longrightarrow> wf_session cutoff s a)"

lemma session_split:
  assumes "wf_action cutoff s action" "\<forall>p. previous = Some p \<longrightarrow> 0 < p"
  shows "apply_session_split security s action previous q = Inr (q', price, rb, ra) \<Longrightarrow>
      q' = split_of action * q \<and> (on_quantum q \<longrightarrow> on_quantum q')"
    and "apply_session_split security s action previous q = Inl e \<Longrightarrow>
      err_state e \<in> {''BLOCKED_SPLIT_WITHOUT_PRIOR_RAW_CLOSE'', ''BLOCKED_NONREPRESENTABLE_SHARE_QUANTUM''}"
  using assms
  by (auto simp: apply_session_split_def split_of_def wf_action_def wf_session_def multiple_of_quantum verify_split_conservation_def
      entry_error_def Let_def split: option.splits if_splits)

definition receivables_of :: "session_actions option \<Rightarrow> rat \<Rightarrow> payment list" where
  "receivables_of action eligible = (case action of None \<Rightarrow> []
     | Some a \<Rightarrow> map (\<lambda>p. (fst p, fst (snd p), quantum_rounded (eligible * snd (snd p)))) (sa_payments a))"

lemma amounts_simps [simp]: "amounts [] = 0" "amounts (p # ps) = snd (snd p) + amounts ps" "amounts (ps @ qs) = amounts ps + amounts qs"
  by (simp_all add: amounts_def)

lemma recognize_payments:
  "fold_res (recognize_payment eligible) (t, ps) qs =
   Inr (t + amounts (map (\<lambda>p. (fst p, fst (snd p), quantum_rounded (eligible * snd (snd p)))) qs),
        ps @ map (\<lambda>p. (fst p, fst (snd p), quantum_rounded (eligible * snd (snd p)))) qs)"
proof (induction qs arbitrary: t ps)
  case (Cons p qs)
  have "recognize_payment eligible (t, ps) p =
      Inr (t + quantum_rounded (eligible * snd (snd p)), ps @ [(fst p, fst (snd p), quantum_rounded (eligible * snd (snd p)))])"
    by (cases p) (simp add: recognize_payment_def quantize_half_even_eq quantum_rounded_def LEDGER_CURRENCY_QUANTUM_def)
  with Cons.IH show ?case by (simp add: add.assoc)
qed simp

lemma session_receivables:
  assumes "wf_action cutoff s action" "eligible = split_of action * q"
  shows "recognize_session security s action q eligible pending =
    Inr (amounts (receivables_of action eligible), pending @ receivables_of action eligible)"
proof (cases action)
  case (Some a)
  then have "eligible * sa_dividend_post a = q * sa_dividend_pre a"
    using assms by (simp add: wf_action_def wf_session_def split_of_def)
  with Some show ?thesis by (simp add: recognize_session_def receivables_of_def recognize_payments)
qed (simp add: recognize_session_def receivables_of_def)

lemma receivables_of_ok:
  assumes "wf_action cutoff s action" "0 \<le> eligible" "p \<in> set (receivables_of action eligible)"
  shows "0 \<le> snd (snd p)" "on_quantum (snd (snd p))" "s \<le> fst (snd p)" "fst (snd p) \<le> cutoff"
proof -
  from assms(3) obtain a x where a: "action = Some a" "x \<in> set (sa_payments a)"
    and p: "p = (fst x, fst (snd x), quantum_rounded (eligible * snd (snd x)))"
    by (auto simp: receivables_of_def split: option.splits)
  with assms(1) have "0 \<le> snd (snd x)" "s \<le> fst (snd x)" "fst (snd x) \<le> cutoff" by (auto simp: wf_action_def wf_session_def)
  then show "0 \<le> snd (snd p)" "on_quantum (snd (snd p))" "s \<le> fst (snd p)" "fst (snd p) \<le> cutoff"
    using assms(2) by (simp_all add: p on_quantum_rounded quantum_rounded_nonneg)
qed

lemma receivables_near:
  assumes "wf_action cutoff s action"
  shows "\<bar>amounts (receivables_of action eligible) - eligible * dividend_post_of action\<bar>
    \<le> of_nat (length (receivables_of action eligible)) * (LEDGER_CURRENCY_QUANTUM / 2)"
proof -
  have near: "\<bar>amounts (map (\<lambda>p. (fst p, fst (snd p), quantum_rounded (eligible * snd (snd p)))) ps) - eligible * amounts ps\<bar>
      \<le> of_nat (length ps) * (LEDGER_CURRENCY_QUANTUM / 2)" for ps :: "payment list"
  proof (induction ps)
    case (Cons p ps)
    define r where "r = amounts (map (\<lambda>p. (fst p, fst (snd p), quantum_rounded (eligible * snd (snd p)))) ps)"
    have "\<bar>(quantum_rounded (eligible * snd (snd p)) + r) - (eligible * snd (snd p) + eligible * amounts ps)\<bar>
        \<le> \<bar>quantum_rounded (eligible * snd (snd p)) - eligible * snd (snd p)\<bar> + \<bar>r - eligible * amounts ps\<bar>"
      by (rule abs_diff_triangle_ineq)
    also have "\<dots> \<le> LEDGER_CURRENCY_QUANTUM / 2 + of_nat (length ps) * (LEDGER_CURRENCY_QUANTUM / 2)"
      using Cons.IH by (intro add_mono quantum_rounded_error) (simp add: r_def)
    finally show ?case by (simp add: r_def distrib_left distrib_right add_divide_distrib)
  qed simp
  show ?thesis
  proof (cases action)
    case (Some a)
    with assms near [of "sa_payments a"] show ?thesis by (simp add: receivables_of_def dividend_post_of_def wf_action_def wf_session_def)
  qed (simp add: receivables_of_def dividend_post_of_def)
qed


lemma length_receivables: "length (receivables_of action eligible) = payment_count action"
  by (simp add: receivables_of_def payment_count_def split: option.split)

definition transition_ok :: "(string, session_actions) dict \<Rightarrow> ledger_transition \<Rightarrow> bool" where
  "transition_ok by_sess t \<longleftrightarrow> (let action = dict_get by_sess (lt_session t) in
     lt_split_factor t = split_of action
     \<and> ls_shares (state_after t) = split_of action * ls_shares (state_before t)
     \<and> ls_cash (state_after t) = ls_cash (state_before t) + receivable_settled t
     \<and> ls_receivables (state_after t) = ls_receivables (state_before t) + receivable_recognized t - receivable_settled t
     \<and> \<bar>receivable_recognized t - ls_shares (state_after t) * dividend_post_of action\<bar>
         \<le> of_nat (payment_count action) * (LEDGER_CURRENCY_QUANTUM / 2)
     \<and> nav_after t = ledger_nav (state_after t) (lt_raw_close t)
     \<and> split_reference_before t = split_reference_after t
     \<and> holder_ok (state_after t))"

lemma amounts_filter: "amounts (filter P ps) + amounts (filter (\<lambda>p. \<not> P p) ps) = amounts ps"
  by (induction ps) auto

lemma amounts_nonneg: "(\<And>p. p \<in> set ps \<Longrightarrow> 0 \<le> snd (snd p)) \<Longrightarrow> 0 \<le> amounts ps"
  by (auto simp: amounts_def intro!: sum_list_nonneg)

lemma on_quantum_amounts: "(\<And>p. p \<in> set ps \<Longrightarrow> on_quantum (snd (snd p))) \<Longrightarrow> on_quantum (amounts ps)"
  by (auto simp: amounts_def intro!: on_quantum_sum)

definition payment_ok :: "string \<Rightarrow> payment \<Rightarrow> bool" where
  "payment_ok cutoff p \<longleftrightarrow> 0 \<le> snd (snd p) \<and> on_quantum (snd (snd p)) \<and> fst (snd p) \<le> cutoff"

text \<open>The state of the walk: what is held is valid, and the receivables are those of the opening and the pending ones.\<close>

definition walk_inv :: "string \<Rightarrow> ledger_state \<Rightarrow> walk_state \<Rightarrow> bool" where
  "walk_inv cutoff opening st \<longleftrightarrow> holder_ok (wk_ledger st) \<and> holder_ok opening
     \<and> ls_receivables (wk_ledger st) = ls_receivables opening + amounts (wk_pending st)
     \<and> (\<forall>p \<in> set (wk_pending st). payment_ok cutoff p)
     \<and> (\<forall>p. wk_previous st = Some p \<longrightarrow> 0 < p)"

lemma split_reference_conserved:
  assumes "wf_action cutoff s action" "apply_session_split security s action previous q = Inr (q', price, rb, ra)"
  shows "rb = ra"
  using assms
  by (auto simp: apply_session_split_def wf_action_def wf_session_def verify_split_conservation_def Let_def
      split: option.splits if_splits)

lemma walk_step_result:
  fixes s :: string
  assumes wf: "wf_stream cutoff by_sess" and inv: "walk_inv cutoff opening st" and c: "0 < c"
  defines "action \<equiv> dict_get by_sess s"
  defines "q \<equiv> split_of action * ls_shares (wk_ledger st)"
  defines "new \<equiv> receivables_of action q"
  defines "pending \<equiv> wk_pending st @ new"
  shows "walk_step security by_sess st (s, c, v) = Inr st' \<Longrightarrow>
      walk_inv cutoff opening st' \<and> wk_pending st' = filter (\<lambda>p. \<not> due s p) pending
      \<and> (\<exists>t. wk_transitions st' = wk_transitions st @ [t] \<and> transition_ok by_sess t \<and> lt_session t = s \<and> lt_raw_close t = c
            \<and> lt_previous_close t = wk_previous st \<and> state_before t = wk_ledger st \<and> state_after t = wk_ledger st')
      \<and> wk_previous st' = Some c"
    and "walk_step security by_sess st (s, c, v) = Inl e \<Longrightarrow>
      err_state e \<in> {''BLOCKED_SPLIT_WITHOUT_PRIOR_RAW_CLOSE'', ''BLOCKED_NONREPRESENTABLE_SHARE_QUANTUM''}"
proof -
  have act: "wf_action cutoff s action" using stream_lookup [OF wf] by (auto simp: wf_action_def action_def)
  have prev: "\<forall>p. wk_previous st = Some p \<longrightarrow> 0 < p" using inv by (simp add: walk_inv_def)
  note split = session_split [OF act prev]
  have led: "holder_ok (wk_ledger st)" "holder_ok opening"
    "ls_receivables (wk_ledger st) = ls_receivables opening + amounts (wk_pending st)" using inv by (auto simp: walk_inv_def)
  have q: "0 \<le> q" using led(1) stream_signs(1) [OF wf, of s] by (simp add: q_def action_def holder_ok_def)
  have new_ok: "payment_ok cutoff p" if "p \<in> set pending" for p
    using that inv receivables_of_ok [OF act q, of p] by (auto simp: pending_def new_def walk_inv_def payment_ok_def)
  define settled where "settled = amounts (filter (due s) pending)"
  define rest where "rest = amounts (filter (\<lambda>p. \<not> due s p) pending)"
  have sum: "settled + rest = amounts (wk_pending st) + amounts new"
    unfolding settled_def rest_def amounts_filter by (simp add: pending_def)
  have nn: "0 \<le> settled" "0 \<le> rest" "on_quantum settled" "on_quantum rest"
    using new_ok by (auto simp: settled_def rest_def payment_ok_def intro!: amounts_nonneg on_quantum_amounts)
  have rec: "ls_receivables (wk_ledger st) + amounts new - settled = ls_receivables opening + rest" using led(3) sum by simp
  have near: "\<bar>amounts new - q * dividend_post_of action\<bar> \<le> of_nat (payment_count action) * (LEDGER_CURRENCY_QUANTUM / 2)"
    using receivables_near [OF act, of q] by (simp add: new_def length_receivables)
  show "err_state e \<in> {''BLOCKED_SPLIT_WITHOUT_PRIOR_RAW_CLOSE'', ''BLOCKED_NONREPRESENTABLE_SHARE_QUANTUM''}"
    if "walk_step security by_sess st (s, c, v) = Inl e"
  proof (cases "apply_session_split security s action (wk_previous st) (ls_shares (wk_ledger st))")
    case (Inl e')
    with that split(2) show ?thesis by (simp add: walk_step_def action_def [symmetric])
  next
    case (Inr x)
    obtain q' price rb ra where x: "x = (q', price, rb, ra)" by (cases x)
    with Inr split(1) have q': "q' = q" by (simp add: q_def)
    have False
      using that Inr session_receivables [OF act q_def [THEN meta_eq_to_obj_eq]] rec led nn q
      by (auto simp: walk_step_def action_def [symmetric] x q' Let_def new_def [symmetric] pending_def [symmetric]
          settled_def [symmetric] holder_ok_def split: if_splits)
    then show ?thesis ..
  qed
  assume step: "walk_step security by_sess st (s, c, v) = Inr st'"
  then obtain q' price rb ra where spl: "apply_session_split security s action (wk_previous st) (ls_shares (wk_ledger st)) = Inr (q', price, rb, ra)"
    by (auto simp: walk_step_def action_def [symmetric] Let_def)
  from split(1) [OF spl] have q': "q' = q" and onq: "on_quantum q" using led(1) by (auto simp: q_def holder_ok_def)
  have ref: "rb = ra" by (rule split_reference_conserved [OF act spl])
  define L where "L = \<lparr>ls_shares = q, ls_cash = ls_cash (wk_ledger st) + settled, ls_receivables = ls_receivables opening + rest\<rparr>"
  have L: "holder_ok L" using led(1,2) nn q onq by (auto simp: L_def holder_ok_def intro: on_quantum_add)
  define T where "T = \<lparr>lt_session = s, lt_raw_close = c, lt_previous_close = wk_previous st, state_before = wk_ledger st,
      state_after = L, lt_split_factor = split_of action, shares_before_split = ls_shares (wk_ledger st),
      shares_after_split = q, split_reference_price = price, split_reference_before = rb, split_reference_after = ra,
      dividend_eligible_shares = q, lt_dividend_pre = dividend_pre_of action, lt_dividend_post = dividend_post_of action,
      receivable_recognized = amounts new, receivable_settled = settled, nav_after = ledger_nav L c\<rparr>"
  have s3: "(let s2 = (wk_ledger st)\<lparr>ls_shares := q, ls_receivables := ls_receivables (wk_ledger st) + amounts new\<rparr> in
      if settled \<noteq> 0 then s2\<lparr>ls_cash := ls_cash s2 + settled, ls_receivables := ls_receivables s2 - settled\<rparr> else s2) = L"
    using rec by (cases "wk_ledger st") (auto simp: L_def Let_def)
  have "st' = \<lparr>wk_ledger = L, wk_pending = filter (\<lambda>p. \<not> due s p) pending, wk_transitions = wk_transitions st @ [T], wk_previous = Some c\<rparr>"
    using step spl session_receivables [OF act q_def [THEN meta_eq_to_obj_eq]] s3
    by (auto simp: walk_step_def action_def [symmetric] q' Let_def new_def [symmetric] pending_def [symmetric]
        settled_def [symmetric] T_def split: if_splits)
  moreover have "transition_ok by_sess T"
    using near L rec by (simp add: transition_ok_def T_def action_def [symmetric] L_def q_def [symmetric] ref)
  ultimately have st': "wk_ledger st' = L" "wk_pending st' = filter (\<lambda>p. \<not> due s p) pending" "wk_previous st' = Some c"
    "\<exists>t. wk_transitions st' = wk_transitions st @ [t] \<and> transition_ok by_sess t \<and> lt_session t = s \<and> lt_raw_close t = c
       \<and> lt_previous_close t = wk_previous st \<and> state_before t = wk_ledger st \<and> state_after t = L"
    by (auto simp: T_def)
  then show "walk_inv cutoff opening st' \<and> wk_pending st' = filter (\<lambda>p. \<not> due s p) pending
      \<and> (\<exists>t. wk_transitions st' = wk_transitions st @ [t] \<and> transition_ok by_sess t \<and> lt_session t = s \<and> lt_raw_close t = c
            \<and> lt_previous_close t = wk_previous st \<and> state_before t = wk_ledger st \<and> state_after t = wk_ledger st')
      \<and> wk_previous st' = Some c"
    using L led(2) new_ok c by (auto simp: walk_inv_def L_def rest_def)
qed


section \<open>The walk\<close>

fun linked :: "ledger_state \<Rightarrow> ledger_transition list \<Rightarrow> ledger_state \<Rightarrow> bool" where
  "linked s [] s' \<longleftrightarrow> s = s'"
| "linked s (t # ts) s' \<longleftrightarrow> state_before t = s \<and> linked (state_after t) ts s'"

lemma linked_totals:
  "linked s ts s' \<Longrightarrow> list_all (transition_ok by_sess) ts \<Longrightarrow>
   ls_shares s' = ls_shares s * prod_list (map lt_split_factor ts)
   \<and> ls_cash s' = ls_cash s + sum_list (map receivable_settled ts)
   \<and> ls_cash s' + ls_receivables s' = ls_cash s + ls_receivables s + sum_list (map receivable_recognized ts)"
  by (induction s ts s' rule: linked.induct) (auto simp: transition_ok_def Let_def algebra_simps)

definition unsettled :: "walk_state \<Rightarrow> bool" where
  "unsettled st \<longleftrightarrow> (\<forall>p \<in> set (wk_pending st). \<forall>t \<in> set (wk_transitions st). fst (snd p) \<noteq> lt_session t)"

lemma walk_loop:
  assumes wf: "wf_stream cutoff by_sess"
  shows "\<lbrakk>walk_inv cutoff opening st; unsettled st; \<forall>r \<in> set rs. 0 < fst (snd r); sorted (map fst rs); distinct (map fst rs);
     \<forall>t \<in> set (wk_transitions st). \<forall>r \<in> set rs. lt_session t < fst r; fold_res (walk_step security by_sess) st rs = Inr st'\<rbrakk>
    \<Longrightarrow> walk_inv cutoff opening st' \<and> unsettled st' \<and> (\<exists>ts. wk_transitions st' = wk_transitions st @ ts
        \<and> map lt_session ts = map fst rs \<and> map lt_raw_close ts = map (\<lambda>r. fst (snd r)) rs
        \<and> list_all (transition_ok by_sess) ts \<and> linked (wk_ledger st) ts (wk_ledger st'))"
proof (induction rs arbitrary: st)
  case (Cons r rs)
  obtain s c v where r: "r = (s, c, v)" by (cases r)
  from Cons.prems(7) obtain st1 where st1: "walk_step security by_sess st (s, c, v) = Inr st1"
    "fold_res (walk_step security by_sess) st1 rs = Inr st'" by (auto simp: r)
  have c: "0 < c" using Cons.prems(3) by (simp add: r)
  from walk_step_result(1) [OF wf Cons.prems(1) c st1(1)] obtain t where inv1: "walk_inv cutoff opening st1"
    and pend: "wk_pending st1 = filter (\<lambda>p. \<not> due s p) (wk_pending st @ receivables_of (dict_get by_sess s)
        (split_of (dict_get by_sess s) * ls_shares (wk_ledger st)))"
    and t: "wk_transitions st1 = wk_transitions st @ [t]" "transition_ok by_sess t" "lt_session t = s" "lt_raw_close t = c"
      "state_before t = wk_ledger st" "state_after t = wk_ledger st1" by blast
  have act: "wf_action cutoff s (dict_get by_sess s)" using stream_lookup [OF wf] by (auto simp: wf_action_def)
  have q: "0 \<le> split_of (dict_get by_sess s) * ls_shares (wk_ledger st)"
    using Cons.prems(1) stream_signs(1) [OF wf, of s] by (simp add: walk_inv_def holder_ok_def)
  have uns: "unsettled st1"
    unfolding unsettled_def
  proof (intro ballI)
    fix p x assume p: "p \<in> set (wk_pending st1)" and x: "x \<in> set (wk_transitions st1)"
    from p pend have nd: "fst (snd p) \<noteq> s" by (auto simp: due_def)
    show "fst (snd p) \<noteq> lt_session x"
    proof (cases "x = t")
      case True
      with nd t(3) show ?thesis by simp
    next
      case False
      with x t(1) have x': "x \<in> set (wk_transitions st)" by auto
      with Cons.prems(6) have "lt_session x < s" by (simp add: r)
      with x' p pend Cons.prems(2) receivables_of_ok(3) [OF act q, of p] show ?thesis by (auto simp: unsettled_def)
    qed
  qed
  have "\<forall>x \<in> set (wk_transitions st1). \<forall>y \<in> set rs. lt_session x < fst y"
    using Cons.prems(4-6) t(1,3) by (auto simp: r less_le)
  from Cons.IH [OF inv1 uns _ _ _ this st1(2)] Cons.prems(3-5) obtain ts where "walk_inv cutoff opening st'" "unsettled st'"
    "wk_transitions st' = wk_transitions st1 @ ts" "map lt_session ts = map fst rs" "map lt_raw_close ts = map (\<lambda>r. fst (snd r)) rs"
    "list_all (transition_ok by_sess) ts" "linked (wk_ledger st1) ts (wk_ledger st')" by auto
  with t show ?case by (auto simp: r intro!: exI [of _ "t # ts"])
qed simp

lemma walk_loop_error:
  assumes wf: "wf_stream cutoff by_sess"
  shows "\<lbrakk>walk_inv cutoff opening st; \<forall>r \<in> set rs. 0 < fst (snd r); fold_res (walk_step security by_sess) st rs = Inl e\<rbrakk>
    \<Longrightarrow> err_state e \<in> {''BLOCKED_SPLIT_WITHOUT_PRIOR_RAW_CLOSE'', ''BLOCKED_NONREPRESENTABLE_SHARE_QUANTUM''}"
proof (induction rs arbitrary: st)
  case (Cons r rs)
  obtain s c v where r: "r = (s, c, v)" by (cases r)
  have c: "0 < c" using Cons.prems(2) by (simp add: r)
  show ?case
  proof (cases "walk_step security by_sess st (s, c, v)")
    case (Inl e')
    with Cons.prems(3) walk_step_result(2) [OF wf Cons.prems(1) c] show ?thesis by (simp add: r)
  next
    case (Inr st1)
    with Cons.prems walk_step_result(1) [OF wf Cons.prems(1) c Inr] Cons.IH [of st1] show ?thesis by (simp add: r)
  qed
qed simp

lemma walk_ledger_Inr:
  assumes "walk_ledger opening bars actions security_id cutoff order policy = Inr w"
  obtains n rows where
    "normalize_actions actions security_id cutoff (ls_shares opening) order policy = Inr n"
    "normalized_bars bars cutoff = Inr rows" "holder_ok opening" "holder_ok (closing_state w)"
    "ls_receivables (closing_state w) = ls_receivables opening + amounts (pending_receivables w)"
    "\<forall>p \<in> set (pending_receivables w). payment_ok cutoff p \<and> (\<forall>t \<in> set (lw_transitions w). fst (snd p) \<noteq> lt_session t)"
    "map lt_session (lw_transitions w) = map fst (rows_before_exclusion n rows)"
    "map lt_raw_close (lw_transitions w) = map (\<lambda>r. fst (snd r)) (rows_before_exclusion n rows)"
    "list_all (transition_ok (by_session n)) (lw_transitions w)" "linked opening (lw_transitions w) (closing_state w)"
    "opening_state w = opening" "lw_exclusion w = na_exclusion n"
proof -
  let ?st = "\<lparr>wk_ledger = opening, wk_pending = [], wk_transitions = [], wk_previous = None\<rparr>"
  from assms obtain n rows st where ok: "holder_ok opening"
    and n: "normalize_actions actions security_id cutoff (ls_shares opening) order policy = Inr n"
    and rows: "normalized_bars bars cutoff = Inr rows"
    and st: "fold_res (walk_step (na_security n) (by_session n)) ?st (rows_before_exclusion n rows) = Inr st"
    and w: "lw_transitions w = wk_transitions st" "closing_state w = wk_ledger st" "pending_receivables w = wk_pending st"
      "opening_state w = opening" "lw_exclusion w = na_exclusion n"
    by (auto simp: walk_ledger_def Let_def session_text_Inr validate_ledger_state_Inr)
  have wf: "wf_stream cutoff (by_session n)" by (rule normal_stream_wf [OF normalize_Inr(1) [OF n]])
  note kept = rows_kept [OF rows, of n]
  have "walk_inv cutoff opening ?st" "unsettled ?st" using ok by (simp_all add: walk_inv_def unsettled_def)
  from walk_loop [OF wf this _ kept(1,2) _ st] kept(3) obtain ts where "walk_inv cutoff opening st" "unsettled st"
    "wk_transitions st = ts" "map lt_session ts = map fst (rows_before_exclusion n rows)"
    "map lt_raw_close ts = map (\<lambda>r. fst (snd r)) (rows_before_exclusion n rows)"
    "list_all (transition_ok (by_session n)) ts" "linked opening ts (wk_ledger st)" by auto
  then show thesis using n rows ok w by (intro that) (auto simp: walk_inv_def unsettled_def)
qed

definition ex_opening :: ledger_state where "ex_opening = \<lparr>ls_shares = 3, ls_cash = 10, ls_receivables = 0\<rparr>"

definition ex_closing :: ledger_state where "ex_closing = \<lparr>ls_shares = 12, ls_cash = 23/2, ls_receivables = 0\<rparr>"

lemma ex_walk:
  "\<exists>w. walk_ledger ex_opening ex_bars ex_actions ''S'' ''2024-01-04'' ex_order PNone = Inr w \<and> closing_state w = ex_closing
     \<and> map nav_after (lw_transitions w) = [310, 635/2, 647/2] \<and> pending_receivables w = []"
proof -
  have "(case walk_ledger ex_opening ex_bars ex_actions ''S'' ''2024-01-04'' ex_order PNone of Inl e \<Rightarrow> False
     | Inr w \<Rightarrow> closing_state w = ex_closing \<and> map nav_after (lw_transitions w) = [310, 635/2, 647/2] \<and> pending_receivables w = [])"
    by code_simp
  then show ?thesis by (auto split: sum.splits)
qed

section \<open>Properties\<close>

text \<open>
  C12: Whenever the walk returns, every state it passes through is non-negative and on the quantum, the
  transitions are linked from the opening to the closing state, shares change by the declared splits only, cash and receivables
  together grow by what was recognised, cash grows by what was settled, and what is still receivable belongs to payment sessions without a bar.
\<close>

theorem ledger_walk_conserves:
  assumes "walk_ledger opening bars actions security_id cutoff order policy = Inr w"
  shows "linked opening (lw_transitions w) (closing_state w) \<and> holder_ok (closing_state w)
    \<and> (\<forall>t \<in> set (lw_transitions w). holder_ok (state_after t) \<and> split_reference_before t = split_reference_after t
         \<and> nav_after t = ledger_nav (state_after t) (lt_raw_close t))
    \<and> ls_shares (closing_state w) = ls_shares opening * prod_list (map (\<lambda>t. declared_split (lt_session t) actions) (lw_transitions w))
    \<and> ls_cash (closing_state w) = ls_cash opening + sum_list (map receivable_settled (lw_transitions w))
    \<and> ls_cash (closing_state w) + ls_receivables (closing_state w) =
        ls_cash opening + ls_receivables opening + sum_list (map receivable_recognized (lw_transitions w))
    \<and> ls_receivables (closing_state w) = ls_receivables opening + amounts (pending_receivables w)
    \<and> (\<forall>p \<in> set (pending_receivables w). fst (snd p) \<le> cutoff \<and> fst (snd p) \<notin> lt_session ` set (lw_transitions w))"
proof -
  from assms show ?thesis
  proof (rule walk_ledger_Inr)
    fix n rows
    assume n: "normalize_actions actions security_id cutoff (ls_shares opening) order policy = Inr n"
      and ok: "list_all (transition_ok (by_session n)) (lw_transitions w)" and link: "linked opening (lw_transitions w) (closing_state w)"
      and rest: "holder_ok (closing_state w)" "ls_receivables (closing_state w) = ls_receivables opening + amounts (pending_receivables w)"
        "\<forall>p \<in> set (pending_receivables w). payment_ok cutoff p \<and> (\<forall>t \<in> set (lw_transitions w). fst (snd p) \<noteq> lt_session t)"
    have "lt_split_factor t = declared_split (lt_session t) actions" if "t \<in> set (lw_transitions w)" for t
      using ok that by (simp add: list_all_iff transition_ok_def Let_def stream_declared [OF normalize_Inr(1) [OF n]])
    then have "map lt_split_factor (lw_transitions w) = map (\<lambda>t. declared_split (lt_session t) actions) (lw_transitions w)" by simp
    with linked_totals [OF link ok] link rest ok show ?thesis by (auto simp: list_all_iff transition_ok_def Let_def payment_ok_def)
  qed
qed

theorem ledger_walk_conserves_witness:
  "\<exists>w. walk_ledger ex_opening ex_bars ex_actions ''S'' ''2024-01-04'' ex_order PNone = Inr w
     \<and> linked ex_opening (lw_transitions w) ex_closing \<and> sum_list (map receivable_settled (lw_transitions w)) = 3/2"
proof -
  obtain w where w: "walk_ledger ex_opening ex_bars ex_actions ''S'' ''2024-01-04'' ex_order PNone = Inr w" "closing_state w = ex_closing"
    using ex_walk by blast
  from ledger_walk_conserves [OF w(1)] have l: "linked ex_opening (lw_transitions w) ex_closing"
    and c: "ls_cash ex_closing = ls_cash ex_opening + sum_list (map receivable_settled (lw_transitions w))" by (simp_all add: w(2))
  from c have "sum_list (map receivable_settled (lw_transitions w)) = 3/2" by (simp add: ex_closing_def ex_opening_def)
  with w(1) l show ?thesis by blast
qed

lemma exclusion_held_irrelevant:
  "fold_res (exclude_unsupported security h) x as = Inr y \<Longrightarrow> fold_res (exclude_unsupported security h') x as = Inr y' \<Longrightarrow> y = y'"
proof (induction as arbitrary: x)
  case (Cons a as)
  from Cons.prems obtain x1 x2 where "exclude_unsupported security h x a = Inr x1" "fold_res (exclude_unsupported security h) x1 as = Inr y"
    "exclude_unsupported security h' x a = Inr x2" "fold_res (exclude_unsupported security h') x2 as = Inr y'" by auto
  moreover from this have "x1 = x2" by (auto simp: exclude_unsupported_def split: corporate_action.splits if_splits)
  ultimately show ?case using Cons.IH by blast
qed simp

lemma normalize_held_irrelevant:
  assumes "normalize_actions as security_id cutoff h order policy = Inr n" "normalize_actions as security_id cutoff h' order policy = Inr n'"
  shows "n = n'"
proof -
  have "na_exclusion n = na_exclusion n'"
    using exclusion_held_irrelevant normalize_Inr(3) [OF assms(1)] normalize_Inr(3) [OF assms(2)] by metis
  with assms show ?thesis by (auto simp: normalize_actions_def Let_def)
qed

lemma transition_value:
  assumes t: "transition_ok by_sess t" and p: "0 < p"
  shows "\<bar>nav_after t - (ls_cash (state_before t) + ls_receivables (state_before t) + ls_shares (state_before t) * p *
      (split_of (dict_get by_sess (lt_session t)) * (lt_raw_close t + dividend_post_of (dict_get by_sess (lt_session t))) / p))\<bar>
    \<le> of_nat (payment_count (dict_get by_sess (lt_session t))) * (1 / 200000000)"
proof -
  define action where "action = dict_get by_sess (lt_session t)"
  define b where "b = state_before t"
  note ok = t [unfolded transition_ok_def Let_def, folded action_def b_def]
  then have near: "\<bar>receivable_recognized t - ls_shares (state_after t) * dividend_post_of action\<bar>
      \<le> of_nat (payment_count action) * (LEDGER_CURRENCY_QUANTUM / 2)" by blast
  have "nav_after t = ls_cash b + ls_receivables b + receivable_recognized t + ls_shares (state_after t) * lt_raw_close t"
    using ok by (simp add: ledger_nav_def)
  moreover have "ls_shares b * p * (split_of action * (lt_raw_close t + dividend_post_of action) / p) =
      ls_shares (state_after t) * lt_raw_close t + ls_shares (state_after t) * dividend_post_of action"
  proof -
    have sh: "ls_shares (state_after t) = split_of action * ls_shares b" using ok by blast
    show ?thesis unfolding sh using p by (simp add: field_simps)
  qed
  ultimately have "nav_after t - (ls_cash b + ls_receivables b + ls_shares b * p *
      (split_of action * (lt_raw_close t + dividend_post_of action) / p)) =
      receivable_recognized t - ls_shares (state_after t) * dividend_post_of action" by simp
  with near show ?thesis unfolding action_def b_def LEDGER_CURRENCY_QUANTUM_def by simp
qed

lemma series_closes: "map sf_raw_close (series_of by_sess prev idx rs) = map (\<lambda>r. fst (snd r)) rs"
  by (induction by_sess prev idx rs rule: series_of.induct) (auto simp: Let_def)

text \<open>
  C13: The two walks agree: on the same bars and actions the value of the holder after a session is
  the value entering it with the shares valued at the previous close times the gross return of the published series, up to half a currency
  quantum for each distribution of the session.
\<close>

theorem ledger_follows_total_return:
  assumes fs: "build_factor_series bars actions security_id cutoff held_text base_text order policy = Inr fs"
    and w: "walk_ledger opening bars actions security_id cutoff order policy = Inr w"
  shows "length (lw_transitions w) = length (fs_sessions fs)
    \<and> (\<forall>i. Suc i < length (fs_sessions fs) \<longrightarrow> (let t = lw_transitions w ! Suc i; b = state_before t in
      \<exists>g. sf_gross_return (fs_sessions fs ! Suc i) = Some g \<and>
      \<bar>nav_after t - (ls_cash b + ls_receivables b + ls_shares b * sf_raw_close (fs_sessions fs ! i) * g)\<bar>
        \<le> of_nat (length (dividends_on (lt_session t) actions)) * (1 / 200000000)))"
proof -
  from w show ?thesis
  proof (rule walk_ledger_Inr)
    fix n rows
    define rs where "rs = rows_before_exclusion n rows"
    assume n: "normalize_actions actions security_id cutoff (ls_shares opening) order policy = Inr n"
      and rows: "normalized_bars bars cutoff = Inr rows"
      and ts: "map lt_session (lw_transitions w) = map fst (rows_before_exclusion n rows)"
        "map lt_raw_close (lw_transitions w) = map (\<lambda>r. fst (snd r)) (rows_before_exclusion n rows)"
      and ok: "list_all (transition_ok (by_session n)) (lw_transitions w)"
    from fs obtain base where xs: "fs_sessions fs = series_of (by_session n) None base rs"
    proof (rule build_factor_series_Inr)
      fix n' rows' held base
      assume "normalize_actions actions security_id cutoff held order policy = Inr n'" "normalized_bars bars cutoff = Inr rows'"
        "fs_sessions fs = series_of (by_session n') None base (rows_before_exclusion n' rows')"
      with normalize_held_irrelevant [OF n] rows show thesis by (intro that [of base]) (auto simp: rs_def)
    qed
    have len: "length (lw_transitions w) = length rs" "length (fs_sessions fs) = length rs"
      using ts(1) by (metis length_map rs_def, simp add: xs length_series)
    have "\<exists>g. sf_gross_return (fs_sessions fs ! Suc i) = Some g \<and>
      \<bar>nav_after t - (ls_cash b + ls_receivables b + ls_shares b * sf_raw_close (fs_sessions fs ! i) * g)\<bar>
        \<le> of_nat (length (dividends_on (lt_session t) actions)) * (1 / 200000000)"
      if i: "Suc i < length rs" and t: "t = lw_transitions w ! Suc i" and b: "b = state_before t" for i t b
    proof -
      define y where "y = fs_sessions fs ! Suc i"
      define action where "action = dict_get (by_session n) (lt_session t)"
      have mem: "y \<in> set (fs_sessions fs)" "fs_sessions fs ! i \<in> set (fs_sessions fs)" using i by (simp_all add: y_def len)
      have sess: "lt_session t = sf_session y"
        using ts(1) i series_sessions [of "by_session n" None base rs] unfolding t y_def xs [symmetric] rs_def [symmetric]
        by (metis len nth_map)
      have cl: "lt_raw_close t = sf_raw_close y"
        using ts(2) i series_closes [of "by_session n" None base rs] unfolding t y_def xs [symmetric] rs_def [symmetric] by (metis len nth_map)
      have app: "applied_split_factor y = split_of action" "applied_dividend_post y = dividend_post_of action"
        using series_applied mem(1) by (simp_all add: xs action_def sess)
      have p: "0 < sf_raw_close (fs_sessions fs ! i)"
        using series_applied [of "fs_sessions fs ! i" "by_session n" None base rs] mem(2) rows_kept(3) [OF rows, of n]
        by (auto simp: xs rs_def)
      have g: "sf_gross_return y = Some (split_of action * (sf_raw_close y + dividend_post_of action) / sf_raw_close (fs_sessions fs ! i))"
        using series_gross [OF i, of "by_session n" None base] by (simp add: xs [symmetric] y_def [symmetric] app)
      have tok: "transition_ok (by_session n) t" using ok i by (simp add: t list_all_length len)
      from transition_value [OF this p] g show ?thesis
        by (simp add: y_def [symmetric] action_def [symmetric] cl b stream_declared(3) [OF normalize_Inr(1) [OF n], symmetric])
    qed
    then show ?thesis by (simp add: len Let_def)
  qed
qed

theorem ledger_follows_total_return_witness:
  "\<exists>w. walk_ledger ex_opening ex_bars ex_actions ''S'' ''2024-01-04'' ex_order PNone = Inr w
     \<and> length (lw_transitions w) = length (fs_sessions ex_series) \<and> length (fs_sessions ex_series) = 3
     \<and> sf_gross_return (fs_sessions ex_series ! 2) = Some (26 / (51/2))"
proof -
  obtain w where w: "walk_ledger ex_opening ex_bars ex_actions ''S'' ''2024-01-04'' ex_order PNone = Inr w" using ex_walk by blast
  have "length (fs_sessions ex_series) = 3" "sf_gross_return (fs_sessions ex_series ! 2) = Some (26 / (51/2))" by code_simp+
  with ledger_follows_total_return [OF ex_series_built w] w show ?thesis by blast
qed

section \<open>Order of the inputs and refusals\<close>

text \<open>
  The order of the bars and of the actions is irrelevant: on permuted inputs the series and
  the walk return the same result.
\<close>

theorem input_order_irrelevant:
  assumes "mset bars = mset bars'" "mset actions = mset actions'"
  shows "(build_factor_series bars actions security_id cutoff held_text base_text order policy = Inr fs \<longleftrightarrow>
      build_factor_series bars' actions' security_id cutoff held_text base_text order policy = Inr fs)
    \<and> (walk_ledger opening bars actions security_id cutoff order policy = Inr w \<longleftrightarrow>
      walk_ledger opening bars' actions' security_id cutoff order policy = Inr w)"
proof -
  have build: "build_factor_series bs' as' security_id cutoff held_text base_text order policy = Inr fs"
    if "mset bs = mset bs'" "mset as = mset as'" "build_factor_series bs as security_id cutoff held_text base_text order policy = Inr fs"
    for bs bs' as as'
    using that(3) by (auto simp: build_factor_series_def rbind_Inr_iff session_text_Inr
        dest!: normalize_permuted [OF that(2)] normalized_bars_permuted [OF that(1)])
  have walk: "walk_ledger opening bs' as' security_id cutoff order policy = Inr w"
    if "mset bs = mset bs'" "mset as = mset as'" "walk_ledger opening bs as security_id cutoff order policy = Inr w"
    for bs bs' as as'
    using that(3) by (auto simp: walk_ledger_def rbind_Inr_iff session_text_Inr
        dest!: normalize_permuted [OF that(2)] normalized_bars_permuted [OF that(1)])
  show ?thesis
    using build [OF assms] build [OF assms [symmetric]] walk [OF assms] walk [OF assms [symmetric]] by blast
qed

theorem input_order_irrelevant_witness:
  "build_factor_series (rev ex_bars) (rev ex_actions) ''S'' ''2024-01-04'' ''0'' ''1'' ex_order PNone = Inr ex_series"
  using input_order_irrelevant [of ex_bars "rev ex_bars" ex_actions "rev ex_actions"] ex_series_built by (simp add: mset_rev)

end
