(* ===== verification/Kernel_Refusals.thy ===== *)
theory Kernel_Refusals
  imports Ledger_Walk
begin

text \<open>
  What the corporate-action kernel refuses: unsupported actions exclude a security or invalidate a run, and once the inputs are
  validated only two refusals are left, a split without a prior close and a split that breaks the share quantum.
\<close>

section \<open>Unsupported actions\<close>

definition exclusion_of :: "string \<Rightarrow> corporate_action \<Rightarrow> exclusion_record" where
  "exclusion_of security a = \<lparr>exclusion_state = EXCLUDED_UNSUPPORTED_UNHELD_ACTION, exclusion_security = security,
     exclusion_event = event_id a, exclusion_session = action_session a, exclusion_type = unsupported_type a\<rparr>"

lemma exclude_step:
  "exclude_unsupported security held x a = Inr y \<Longrightarrow>
   (if is_UnsupportedAction a then held \<le> 0 \<and> y = (case x of None \<Rightarrow> Some (exclusion_of security a) | Some z \<Rightarrow> Some z) else y = x)"
  by (cases a) (auto simp: exclude_unsupported_def exclusion_of_def split: option.splits if_splits)

lemma exclude_loop:
  "fold_res (exclude_unsupported security held) x as = Inr y \<Longrightarrow>
   y = (case x of Some z \<Rightarrow> Some z | None \<Rightarrow> map_option (exclusion_of security) (first_match is_UnsupportedAction as))
   \<and> (list_ex is_UnsupportedAction as \<longrightarrow> held \<le> 0)"
proof (induction as arbitrary: x)
  case (Cons a as)
  then obtain x1 where x1: "exclude_unsupported security held x a = Inr x1" "fold_res (exclude_unsupported security held) x1 as = Inr y" by auto
  from exclude_step [OF x1(1)] Cons.IH [OF x1(2)] show ?case by (cases "is_UnsupportedAction a") (auto split: option.splits)
qed (simp split: option.splits)

lemma first_match_least:
  "sorted (map k xs) \<Longrightarrow> first_match P xs = Some x \<Longrightarrow> x \<in> set xs \<and> P x \<and> (\<forall>y \<in> set xs. P y \<longrightarrow> k x \<le> k y)"
  by (induction xs) (auto split: if_splits)

lemma before_exclusion:
  "fold_res (check_before_exclusion security x) u as = Inr u' \<Longrightarrow> \<forall>a \<in> set as. is_UnsupportedAction a \<or> action_session a < exclusion_session x"
proof (induction as arbitrary: u)
  case (Cons a as)
  then show ?case by (cases a) (auto simp: check_before_exclusion_def not_le split: if_splits)
qed simp

lemma normalize_exclusion:
  assumes "normalize_actions actions security_id cutoff held order policy = Inr n"
  shows "na_exclusion n = None \<longleftrightarrow> (\<forall>a \<in> set actions. \<not> is_UnsupportedAction a)"
    and "na_exclusion n = Some x \<Longrightarrow> held = 0 \<and> (\<exists>a \<in> set actions. is_UnsupportedAction a \<and> x = exclusion_of security_id a
      \<and> (\<forall>b \<in> set actions. is_UnsupportedAction b \<longrightarrow> action_session a \<le> action_session b))
      \<and> (\<forall>b \<in> set actions. \<not> is_UnsupportedAction b \<longrightarrow> action_session b < exclusion_session x)"
proof -
  define ordered where "ordered = sort_key action_key actions"
  have set: "set ordered = set actions" and sorted: "sorted (map action_key ordered)" by (simp_all add: ordered_def)
  from exclude_loop [OF normalize_Inr(3) [OF assms, folded ordered_def]]
  have ex: "na_exclusion n = map_option (exclusion_of security_id) (first_match is_UnsupportedAction ordered)"
    and held: "list_ex is_UnsupportedAction ordered \<longrightarrow> held \<le> 0" by auto
  show "na_exclusion n = None \<longleftrightarrow> (\<forall>a \<in> set actions. \<not> is_UnsupportedAction a)"
    by (simp add: ex first_match_None set)
  assume x: "na_exclusion n = Some x"
  then obtain a where a: "first_match is_UnsupportedAction ordered = Some a" "x = exclusion_of security_id a" by (auto simp: ex)
  note least = first_match_least [OF sorted a(1)]
  have "action_session a \<le> action_session b" if "b \<in> set actions" "is_UnsupportedAction b" for b
    using least that by (auto simp: set action_key_def less_eq_prod_def)
  moreover have "held = 0" using held least normalize_Inr(5) [OF assms] by (auto simp: list_ex_iff)
  moreover have "\<forall>b \<in> set actions. \<not> is_UnsupportedAction b \<longrightarrow> action_session b < exclusion_session x"
  proof -
    from assms x obtain u where "fold_res (check_before_exclusion (na_security n) x) () ordered = Inr u"
      by (auto simp: normalize_actions_def Let_def ordered_def)
    from before_exclusion [OF this] show ?thesis by (auto simp: set)
  qed
  ultimately show "held = 0 \<and> (\<exists>a \<in> set actions. is_UnsupportedAction a \<and> x = exclusion_of security_id a
      \<and> (\<forall>b \<in> set actions. is_UnsupportedAction b \<longrightarrow> action_session a \<le> action_session b))
      \<and> (\<forall>b \<in> set actions. \<not> is_UnsupportedAction b \<longrightarrow> action_session b < exclusion_session x)"
    using a(2) least by (auto simp: set)
qed

text \<open>
  C14: An unsupported action stops a security: the series is complete exactly when there is none; otherwise
  nothing was held, the exclusion names the earliest unsupported action, every supported action lies before it and no session from it on is published.
\<close>

theorem unsupported_action_excludes:
  assumes "build_factor_series bars actions security_id cutoff held_text base_text order policy = Inr fs"
  shows "(fs_exclusion fs = None \<longleftrightarrow> (\<forall>a \<in> set actions. \<not> is_UnsupportedAction a))
    \<and> (fs_state fs = SERIES_OK \<longleftrightarrow> fs_exclusion fs = None)
    \<and> (\<forall>x. fs_exclusion fs = Some x \<longrightarrow> text_value held_text = 0
       \<and> (\<exists>a \<in> set actions. is_UnsupportedAction a \<and> exclusion_event x = event_id a \<and> exclusion_session x = action_session a
            \<and> (\<forall>b \<in> set actions. is_UnsupportedAction b \<longrightarrow> action_session a \<le> action_session b))
       \<and> (\<forall>b \<in> set actions. \<not> is_UnsupportedAction b \<longrightarrow> action_session b < exclusion_session x)
       \<and> (\<forall>y \<in> set (fs_sessions fs). sf_session y < exclusion_session x))"
proof -
  from assms show ?thesis
  proof (rule build_factor_series_Inr)
    fix n rows held base
    assume n: "normalize_actions actions security_id cutoff held order policy = Inr n" and held: "parse_exact held_text = Inr held"
      and fs: "fs_sessions fs = series_of (by_session n) None base (rows_before_exclusion n rows)" "fs_exclusion fs = na_exclusion n"
        "fs_state fs = run_state (na_exclusion n)"
    note ex = normalize_exclusion [OF n]
    have pub: "sf_session y < exclusion_session x" if "na_exclusion n = Some x" "y \<in> set (fs_sessions fs)" for x y
    proof -
      have "sf_session y \<in> set (map fst (rows_before_exclusion n rows))"
        using that(2) series_sessions [of "by_session n" None base "rows_before_exclusion n rows"] by (metis fs(1) image_eqI set_map)
      with that(1) show ?thesis by (auto simp: rows_before_exclusion_def)
    qed
    have state: "fs_state fs = SERIES_OK \<longleftrightarrow> na_exclusion n = None"
    proof (cases "na_exclusion n")
      case (Some x)
      with ex(2) obtain a where "x = exclusion_of security_id a" by blast
      with Some show ?thesis by (simp add: fs run_state_def exclusion_of_def SERIES_OK_def EXCLUDED_UNSUPPORTED_UNHELD_ACTION_def)
    qed (simp add: fs run_state_def)
    show ?thesis
    proof (intro conjI allI impI)
      show "fs_exclusion fs = None \<longleftrightarrow> (\<forall>a \<in> set actions. \<not> is_UnsupportedAction a)" using ex(1) fs(2) by simp
      show "fs_state fs = SERIES_OK \<longleftrightarrow> fs_exclusion fs = None" using state fs(2) by simp
      fix x assume "fs_exclusion fs = Some x"
      then have x: "na_exclusion n = Some x" by (simp add: fs)
      note e = ex(2) [OF x]
      show "text_value held_text = 0" using e held by (simp add: text_value_def)
      show "\<exists>a \<in> set actions. is_UnsupportedAction a \<and> exclusion_event x = event_id a \<and> exclusion_session x = action_session a
            \<and> (\<forall>b \<in> set actions. is_UnsupportedAction b \<longrightarrow> action_session a \<le> action_session b)"
        using e by (auto simp: exclusion_of_def)
      show "\<forall>b \<in> set actions. \<not> is_UnsupportedAction b \<longrightarrow> action_session b < exclusion_session x" using e by blast
      show "\<forall>y \<in> set (fs_sessions fs). sf_session y < exclusion_session x" using pub x by blast
    qed
  qed
qed

theorem unsupported_action_excludes_witness:
  "\<exists>fs x. build_factor_series ex_bars (UnsupportedAction ''m1'' ''S'' ''2024-01-04'' ''MERGER'' # [SplitAction ''s1'' ''S'' ''2024-01-03'' ''4.0'']) ''S'' ''2024-01-04''
       ''0'' ''1'' ex_order PNone = Inr fs \<and> fs_exclusion fs = Some x \<and> length (fs_sessions fs) = 2
     \<and> (\<forall>y \<in> set (fs_sessions fs). sf_session y < exclusion_session x)"
proof -
  let ?as = "UnsupportedAction ''m1'' ''S'' ''2024-01-04'' ''MERGER'' # [SplitAction ''s1'' ''S'' ''2024-01-03'' ''4.0'']"
  have "(case build_factor_series ex_bars ?as ''S'' ''2024-01-04'' ''0'' ''1'' ex_order PNone of Inl e \<Rightarrow> False
     | Inr fs \<Rightarrow> fs_exclusion fs \<noteq> None \<and> length (fs_sessions fs) = 2)" by code_simp
  then obtain fs x where fs: "build_factor_series ex_bars ?as ''S'' ''2024-01-04'' ''0'' ''1'' ex_order PNone = Inr fs"
    "fs_exclusion fs = Some x" "length (fs_sessions fs) = 2" by (auto split: sum.splits)
  from unsupported_action_excludes [OF fs(1)] fs(2) have "\<forall>y \<in> set (fs_sessions fs). sf_session y < exclusion_session x" by blast
  with fs show ?thesis by blast
qed

section \<open>Refusals\<close>

definition INPUT_STATES :: "string list" where
  "INPUT_STATES =
    [''BLOCKED_AMBIGUOUS_EVENT_COORDINATE'', ''BLOCKED_DUPLICATE_EVENT'', ''BLOCKED_DUPLICATE_SESSION'',
     ''BLOCKED_FOREIGN_SECURITY_ACTION'', ''BLOCKED_MISSING_RAW_CLOSE'', ''BLOCKED_NEGATIVE_DISTRIBUTION'',
     ''BLOCKED_NEGATIVE_HELD_SHARES'', ''BLOCKED_NEGATIVE_RAW_VOLUME'',
     ''BLOCKED_NONFINITE_INPUT'', ''BLOCKED_NONPOSITIVE_RAW_CLOSE'', ''BLOCKED_NONPOSITIVE_SPLIT_FACTOR'',
     ''BLOCKED_PAYMENT_BEFORE_ENTITLEMENT'', ''BLOCKED_POST_CUTOFF_EVENT'', ''BLOCKED_POST_CUTOFF_SESSION'',
     ''BLOCKED_SUPPORTED_ACTION_AFTER_EXCLUSION'', ''BLOCKED_UNKNOWN_ACTION_TYPE'',
     ''BLOCKED_UNREGISTERED_SAME_DAY_EVENT_ORDER'', ''BLOCKED_UNREGISTERED_UNSUPPORTED_ACTION_POLICY'',
     ''RUN_INVALID_UNSUPPORTED_HELD_ACTION'']"

definition input_refusal :: "factor_error \<Rightarrow> bool" where
  "input_refusal e \<longleftrightarrow> err_state e \<in> set INPUT_STATES"

lemma err_states [simp]: "err_state (blocked s) = s" "err_state (event_error s sec a) = s" "err_state (typed_error s sec a t) = s"
  "err_state (entry_error s sec i d) = s" "err_state (session_error s d) = s"
  by (simp_all add: blocked_def event_error_def typed_error_def entry_error_def session_error_def)

lemmas refusal_simps = input_refusal_def INPUT_STATES_def

lemma parse_refusal: "parse_exact t = Inl e \<Longrightarrow> input_refusal e"
  by (auto simp: parse_exact_def exact_canonical_decimal_def Let_def refusal_simps split: if_splits)

lemma text_refusals: "session_text s = Inl e \<Longrightarrow> input_refusal e" "identifier_text s = Inl e \<Longrightarrow> input_refusal e"
  by (auto simp: session_text_def identifier_text_def refusal_simps split: if_splits)

lemma check_action_refusal: "check_action security cutoff seen a = Inl e \<Longrightarrow> input_refusal e"
  by (auto simp: check_action_def dest!: text_refusals split: if_splits) (simp_all add: refusal_simps)

lemma exclude_refusal: "exclude_unsupported security held x a = Inl e \<Longrightarrow> input_refusal e"
  by (auto simp: exclude_unsupported_def refusal_simps split: corporate_action.splits if_splits)

lemma before_refusal: "check_before_exclusion security x u a = Inl e \<Longrightarrow> input_refusal e"
  by (auto simp: check_before_exclusion_def refusal_simps split: corporate_action.splits if_splits)

lemma collect_refusal: "collect security cutoff c a = Inl e \<Longrightarrow> input_refusal e"
  by (auto simp: collect_def collect_split_def collect_dividend_def dest!: text_refusals parse_refusal
      split: corporate_action.splits if_splits) (simp_all add: refusal_simps)

lemma collapse_refusal: "collapse_session security order c s = Inl e \<Longrightarrow> input_refusal e"
proof -
  have f: "split_adjustment_factor xs = Inl e \<Longrightarrow> input_refusal e" for xs
    by (auto simp: split_adjustment_factor_def times_factor_def refusal_simps dest!: fold_res_Inl split: if_splits)
  have d: "collapse_dividend security order s h f st x = Inl e \<Longrightarrow> input_refusal e" for h f st x
    by (auto simp: collapse_dividend_def post_split_cash_def refusal_simps split: prod.splits option.splits if_splits)
  assume "collapse_session security order c s = Inl e"
  then show ?thesis by (auto simp: collapse_session_def Let_def dest!: f fold_res_Inl d)
qed

lemma normalize_refusal: "normalize_actions actions security_id cutoff held order policy = Inl e \<Longrightarrow> input_refusal e"
  by (auto simp: normalize_actions_def validate_policy_hook_def Let_def dest!: text_refusals split: if_splits option.splits
      dest!: fold_res_Inl map_res_Inl check_action_refusal exclude_refusal before_refusal collect_refusal collapse_refusal)
    (simp_all add: refusal_simps)

lemma bars_refusal: "normalized_bars bars cutoff = Inl e \<Longrightarrow> input_refusal e"
proof -
  have c: "check_bar cutoff rows b = Inl e \<Longrightarrow> input_refusal e" for rows b
    by (auto simp: check_bar_def dest!: text_refusals parse_refusal split: if_splits) (simp_all add: refusal_simps)
  assume "normalized_bars bars cutoff = Inl e"
  then show ?thesis by (auto simp: normalized_bars_def dest!: fold_res_Inl c split: if_splits) (simp add: refusal_simps)
qed

lemma action_bar_refusal: "fold_res (check_action_bar n rows) u ss = Inl e \<Longrightarrow> input_refusal e"
  by (auto simp: check_action_bar_def refusal_simps dest!: fold_res_Inl split: if_splits)

text \<open>
  C15: The kernel's own consistency checks never refuse: building the series fails only with a state of
  the input validation, and the walk fails only with such a state, with the validation of its opening state, or with a split that has no
  prior close or breaks the share quantum; the conservation check of a split is never violated.
\<close>

theorem kernel_refusals:
  "(build_factor_series bars actions security_id cutoff held_text base_text order policy = Inl e \<longrightarrow> err_state e \<in> set INPUT_STATES)
   \<and> (walk_ledger opening bars actions security_id cutoff order policy = Inl e \<longrightarrow>
      err_state e \<in> set INPUT_STATES \<or> validate_ledger_state opening = Inl e
      \<or> err_state e \<in> {''BLOCKED_SPLIT_WITHOUT_PRIOR_RAW_CLOSE'', ''BLOCKED_NONREPRESENTABLE_SHARE_QUANTUM''})
   \<and> set INPUT_STATES \<subseteq> set FAIL_CLOSED_STATES \<and> ''BLOCKED_SPLIT_CONSERVATION_VIOLATED'' \<notin> set INPUT_STATES"
proof (intro conjI impI)
  assume b: "build_factor_series bars actions security_id cutoff held_text base_text order policy = Inl e"
  have "\<not> (fold_res (series_step (by_session n) (adjustments (by_session n) (rows_before_exclusion n rows)))
       \<lparr>ser_sessions = [], ser_index = base, ser_previous = None\<rparr> (enumerate 0 (rows_before_exclusion n rows)) = Inl e)"
    if "normalize_actions actions security_id cutoff held order policy = Inr n" "normalized_bars bars cutoff = Inr rows" for n rows held base
  proof -
    have wf: "wf_stream cutoff (by_session n)" by (rule normal_stream_wf [OF normalize_Inr(1) [OF that(1)]])
    from series_loop [OF wf, of "rows_before_exclusion n rows" "\<lparr>ser_sessions = [], ser_index = base, ser_previous = None\<rparr>" 0
        "adjustments (by_session n) (rows_before_exclusion n rows)"] rows_kept(3) [OF that(2), of n] show ?thesis by auto
  qed
  with b have "input_refusal e"
    by (auto simp: build_factor_series_def Let_def session_text_Inr dest!: text_refusals parse_refusal normalize_refusal bars_refusal action_bar_refusal
        split: if_splits) (simp add: refusal_simps)
  then show "err_state e \<in> set INPUT_STATES" by (simp add: input_refusal_def)
next
  assume b: "walk_ledger opening bars actions security_id cutoff order policy = Inl e"
  let ?st = "\<lparr>wk_ledger = opening, wk_pending = [], wk_transitions = [], wk_previous = None\<rparr>"
  have "err_state e \<in> {''BLOCKED_SPLIT_WITHOUT_PRIOR_RAW_CLOSE'', ''BLOCKED_NONREPRESENTABLE_SHARE_QUANTUM''}"
    if "normalize_actions actions security_id cutoff (ls_shares opening) order policy = Inr n" "normalized_bars bars cutoff = Inr rows"
      "holder_ok opening" "fold_res (walk_step (na_security n) (by_session n)) ?st (rows_before_exclusion n rows) = Inl e" for n rows
  proof -
    have wf: "wf_stream cutoff (by_session n)" by (rule normal_stream_wf [OF normalize_Inr(1) [OF that(1)]])
    have "walk_inv cutoff opening ?st" using that(3) by (simp add: walk_inv_def)
    from walk_loop_error [OF wf this _ that(4)] rows_kept(3) [OF that(2), of n] show ?thesis by auto
  qed
  with b have "input_refusal e \<or> validate_ledger_state opening = Inl e
      \<or> err_state e \<in> {''BLOCKED_SPLIT_WITHOUT_PRIOR_RAW_CLOSE'', ''BLOCKED_NONREPRESENTABLE_SHARE_QUANTUM''}"
    by (auto simp: walk_ledger_def Let_def session_text_Inr validate_ledger_state_Inr
        dest!: text_refusals parse_refusal normalize_refusal bars_refusal action_bar_refusal)
  then show "err_state e \<in> set INPUT_STATES \<or> validate_ledger_state opening = Inl e
      \<or> err_state e \<in> {''BLOCKED_SPLIT_WITHOUT_PRIOR_RAW_CLOSE'', ''BLOCKED_NONREPRESENTABLE_SHARE_QUANTUM''}"
    by (simp add: input_refusal_def)
next
  show "set INPUT_STATES \<subseteq> set FAIL_CLOSED_STATES" by (simp add: INPUT_STATES_def FAIL_CLOSED_STATES_def)
  show "''BLOCKED_SPLIT_CONSERVATION_VIOLATED'' \<notin> set INPUT_STATES" by (simp add: INPUT_STATES_def)
qed

theorem kernel_refusals_witness:
  "\<exists>e. walk_ledger ex_opening (tl ex_bars) ex_actions ''S'' ''2024-01-04'' ex_order PNone = Inl e
     \<and> err_state e = ''BLOCKED_SPLIT_WITHOUT_PRIOR_RAW_CLOSE'' \<and> validate_ledger_state ex_opening \<noteq> Inl e
     \<and> err_state e \<notin> set INPUT_STATES \<and> err_state e \<in> {''BLOCKED_SPLIT_WITHOUT_PRIOR_RAW_CLOSE'', ''BLOCKED_NONREPRESENTABLE_SHARE_QUANTUM''}"
proof -
  have "(case walk_ledger ex_opening (tl ex_bars) ex_actions ''S'' ''2024-01-04'' ex_order PNone of
      Inl e \<Rightarrow> err_state e = ''BLOCKED_SPLIT_WITHOUT_PRIOR_RAW_CLOSE'' | Inr w \<Rightarrow> False)" by code_simp
  then obtain e where e: "walk_ledger ex_opening (tl ex_bars) ex_actions ''S'' ''2024-01-04'' ex_order PNone = Inl e"
    "err_state e = ''BLOCKED_SPLIT_WITHOUT_PRIOR_RAW_CLOSE''" by (auto split: sum.splits)
  have "''BLOCKED_SPLIT_WITHOUT_PRIOR_RAW_CLOSE'' \<notin> set INPUT_STATES" by code_simp
  moreover have "validate_ledger_state ex_opening = Inr ex_opening" by code_simp
  ultimately show ?thesis
    using e kernel_refusals [THEN conjunct2, THEN conjunct1, rule_format, OF e(1)] by auto
qed

end
