(* ===== verification/Decimal_Text.thy ===== *)
theory Decimal_Text
  imports Stream_Rules Fee_Lookup
begin

text \<open>
  The decimal texts of the corporate-action kernel: what a text denotes, that normalising keeps its value, and that every number the
  kernel renders is read back exactly, or at the nearest multiple of the artifact scale.
\<close>

section \<open>The value of a decimal text\<close>

definition dec_value :: "string \<Rightarrow> string \<Rightarrow> rat" where
  "dec_value ip fp = of_int (digits_value (ip @ fp)) / 10 ^ length fp"

definition dec_text :: "string \<Rightarrow> string \<Rightarrow> string" where
  "dec_text ip fp = ip @ (if fp = [] then [] else CHR ''.'' # fp)"

definition whole_part :: "string \<Rightarrow> bool" where
  "whole_part ip \<longleftrightarrow> list_all is_digit ip \<and> ip \<noteq> [] \<and> (ip = ''0'' \<or> hd ip \<noteq> CHR ''0'')"

lemma not_digit: "\<not> is_digit (CHR ''.'')" "\<not> is_digit (CHR ''-'')" "is_digit (CHR ''0'')" "digit_value (CHR ''0'') = 0"
  by (simp_all add: is_digit_def digit_value_def)

lemma dec_text_parts:
  assumes "list_all is_digit ip" "list_all is_digit fp"
  shows "takeWhile is_digit (dec_text ip fp) = ip" "dropWhile is_digit (dec_text ip fp) = (if fp = [] then [] else CHR ''.'' # fp)"
  using assms by (auto simp: dec_text_def list_all_iff not_digit takeWhile_append dropWhile_append)

lemma unsigned_dec_text: "whole_part ip \<Longrightarrow> list_all is_digit fp \<Longrightarrow> unsigned_decimal (dec_text ip fp)"
  by (simp add: unsigned_decimal_def dec_text_parts whole_part_def)

lemma rstrip_append: "rstrip c (xs @ ys) = (if rstrip c ys = [] then rstrip c xs else xs @ rstrip c ys)"
  by (simp add: rstrip_def dropWhile_append)

lemma rstrip_split: "\<exists>n. s = rstrip c s @ replicate n c"
proof -
  have eq: "rev s = takeWhile (\<lambda>x. x = c) (rev s) @ dropWhile (\<lambda>x. x = c) (rev s)" by simp
  have "takeWhile (\<lambda>x. x = c) (rev s) = replicate (length (takeWhile (\<lambda>x. x = c) (rev s))) c"
    by (rule replicate_eqI) (auto dest: set_takeWhileD)
  then have "rev s = replicate (length (takeWhile (\<lambda>x. x = c) (rev s))) c @ dropWhile (\<lambda>x. x = c) (rev s)" using eq by simp
  then show ?thesis unfolding rstrip_def by (metis rev_append rev_replicate rev_rev_ident)
qed

lemma rstrip_noop: "s = [] \<or> last s \<noteq> c \<Longrightarrow> rstrip c s = s"
  by (cases s rule: rev_cases) (auto simp: rstrip_def)

lemma trimmed_dec_text:
  assumes "whole_part ip" "list_all is_digit fp"
  shows "trimmed (dec_text ip fp) = dec_text ip (rstrip (CHR ''0'') fp)"
proof (cases "fp = []")
  case True
  have "CHR ''.'' \<notin> set ip" using assms(1) not_digit(1) by (metis list_all_iff whole_part_def)
  with True show ?thesis by (simp add: trimmed_def dec_text_def rstrip_noop)
next
  case False
  have r0: "rstrip (CHR ''0'') (CHR ''.'' # fp) = CHR ''.'' # rstrip (CHR ''0'') fp"
    using rstrip_append [of "CHR ''0''" "[CHR ''.'']" fp] by (auto simp: rstrip_noop)
  have strip0: "rstrip (CHR ''0'') (dec_text ip fp) = ip @ CHR ''.'' # rstrip (CHR ''0'') fp"
    using False by (simp add: dec_text_def rstrip_append r0)
  have last_ip: "last ip \<noteq> CHR ''.''" "ip \<noteq> []" using assms not_digit(1) by (metis last_in_set list_all_iff whole_part_def)+
  show ?thesis
  proof (cases "rstrip (CHR ''0'') fp = []")
    case True
    have "rstrip (CHR ''.'') (ip @ [CHR ''.'']) = ip"
      using last_ip by (simp add: rstrip_append rstrip_noop) (simp add: rstrip_def)
    with True False strip0 last_ip show ?thesis by (simp add: trimmed_def dec_text_def Let_def)
  next
    case nonempty: False
    have "last (rstrip (CHR ''0'') fp) \<in> set fp" using nonempty
      by (metis append.right_neutral in_set_conv_decomp last_in_set rstrip_split set_append Un_iff)
    then have "last (rstrip (CHR ''0'') fp) \<noteq> CHR ''.''" using assms(2) not_digit(1) by (metis list_all_iff)
    then have "rstrip (CHR ''.'') (ip @ CHR ''.'' # rstrip (CHR ''0'') fp) = ip @ CHR ''.'' # rstrip (CHR ''0'') fp"
      using nonempty by (intro rstrip_noop) simp
    with False nonempty strip0 show ?thesis by (simp add: trimmed_def dec_text_def Let_def)
  qed
qed

lemma dec_value_zeros: "dec_value ip (fp @ replicate n (CHR ''0'')) = dec_value ip fp"
proof (induction n)
  case (Suc n)
  have "dec_value ip ((fp @ replicate n (CHR ''0'')) @ [CHR ''0'']) = dec_value ip (fp @ replicate n (CHR ''0''))"
    by (simp add: dec_value_def digits_value_snoc not_digit flip: append_assoc)
  then show ?case using Suc by (simp add: replicate_append_same)
qed simp

lemma dec_value_trimmed: "dec_value ip (rstrip (CHR ''0'') fp) = dec_value ip fp"
  using rstrip_split [of fp "CHR ''0''"] dec_value_zeros by metis

definition signed_text :: "bool \<Rightarrow> string \<Rightarrow> string" where
  "signed_text neg t = (if neg then ''-'' else []) @ t"

lemma fraction_of_signed:
  assumes "whole_part ip" "list_all is_digit fp"
  shows "fraction_of_text (signed_text neg (dec_text ip fp)) = (if neg then - dec_value ip fp else dec_value ip fp)"
proof -
  obtain c cs where ip: "ip = c # cs" "is_digit c" using assms(1) by (cases ip) (auto simp: whole_part_def)
  then have "c \<noteq> CHR ''-''" "c \<noteq> CHR ''+''" using not_digit by (auto simp: is_digit_def)
  then have "split_sign (signed_text neg (dec_text ip fp)) = (if neg then -1 else 1, dec_text ip fp)"
    by (simp add: split_sign_def signed_text_def ip dec_text_def)
  moreover have "list_all is_digit ip" using assms(1) by (simp add: whole_part_def)
  ultimately show ?thesis using assms(2) by (simp add: fraction_of_text_def dec_text_parts dec_value_def)
qed

lemma digits_list_all_rstrip: "list_all is_digit fp \<Longrightarrow> list_all is_digit (rstrip c fp)"
  by (metis list_all_append rstrip_split)

lemma canonical_signed:
  assumes "whole_part ip" "list_all is_digit fp"
  shows "exact_canonical_decimal (signed_text neg (dec_text ip fp)) = Inr (signed_text
      (neg \<and> \<not> (ip = ''0'' \<and> rstrip (CHR ''0'') fp = [])) (dec_text ip (rstrip (CHR ''0'') fp)))"
proof -
  obtain c cs where ip: "ip = c # cs" "is_digit c" using assms(1) by (cases ip) (auto simp: whole_part_def)
  then have c: "c \<noteq> CHR ''-''" using not_digit by auto
  have "dec_text ip gp = ''0'' \<longleftrightarrow> ip = ''0'' \<and> gp = []" if "list_all is_digit gp" for gp
    using ip by (auto simp: dec_text_def)
  from this [OF digits_list_all_rstrip [OF assms(2)], of "CHR ''0''"] show ?thesis
    using assms c unsigned_dec_text [OF assms] trimmed_dec_text [OF assms]
    by (auto simp: exact_canonical_decimal_def decimal_text_def signed_text_def ip dec_text_def Let_def)
qed

lemma parse_signed:
  assumes "whole_part ip" "list_all is_digit fp"
  shows "parse_exact (signed_text neg (dec_text ip fp)) = Inr (if neg then - dec_value ip fp else dec_value ip fp)"
proof -
  have zero: "dec_value ip fp = 0" if "ip = ''0''" "rstrip (CHR ''0'') fp = []"
    using dec_value_trimmed [of ip fp] that by (simp add: dec_value_def digits_value_def digit_value_def)
  show ?thesis
    unfolding parse_exact_def canonical_signed [OF assms] rbind_simps
      fraction_of_signed [OF assms(1) digits_list_all_rstrip [OF assms(2)]] dec_value_trimmed
    using zero by auto
qed


lemma rstrip_idem: "rstrip c (rstrip c s) = rstrip c s"
  by (simp add: rstrip_def)

lemma digits_value_append: "digits_value (s @ t) = digits_value s * 10 ^ length t + digits_value t"
proof (induction t rule: rev_induct)
  case (snoc c t)
  then show ?case by (simp add: digits_value_snoc algebra_simps flip: append_assoc)
qed (simp add: digits_value_def)

section \<open>Printing\<close>

lemma nat_text_digits: "list_all is_digit (nat_text n) \<and> digits_value (nat_text n) = int n \<and> nat_text n \<noteq> []"
proof (induction n rule: nat_text.induct)
  case (1 n)
  have d: "is_digit (char_of (48 + m))" "digit_value (char_of (48 + m)) = int m" if "m < 10" for m :: nat
    using that is_digit_char [of "int m"] digit_char [of "int m"] by simp_all
  show ?case
  proof (cases "n < 10")
    case True
    then show ?thesis using d [of n] digits_value_snoc [of "[]" "char_of (48 + n)"]
      by (simp add: nat_text.simps [of n] digits_value_def)
  next
    case False
    moreover have "10 * int (n div 10) + int (n mod 10) = int n" by presburger
    ultimately show ?thesis using 1 d [of "n mod 10"] by (simp add: nat_text.simps [of n] digits_value_snoc)
  qed
qed

lemma nat_text_head: "n \<noteq> 0 \<Longrightarrow> hd (nat_text n) \<noteq> CHR ''0''"
proof (induction n rule: nat_text.induct)
  case (1 n)
  show ?case
  proof (cases "n < 10")
    case True
    have "char_of (48 + n) \<noteq> CHR ''0''"
      using digit_char [of "int n"] True 1(2) not_digit(4) by auto
    with True show ?thesis by (simp add: nat_text.simps [of n])
  next
    case False
    with 1 nat_text_digits [of "n div 10"] show ?thesis by (simp add: nat_text.simps [of n])
  qed
qed

lemma nat_text_0: "nat_text 0 = ''0''"
  by code_simp

lemma whole_nat_text: "whole_part (nat_text n)"
  using nat_text_digits [of n] nat_text_head [of n] nat_text_0 by (cases "n = 0") (auto simp: whole_part_def)

lemma digits_value_zeros: "digits_value (replicate k (CHR ''0'') @ s) = digits_value s"
  by (induction k) (simp_all add: digits_value_def not_digit)

lemma divide_out_spec:
  "1 < p \<Longrightarrow> 0 < r \<Longrightarrow> divide_out p r k = (r', k') \<Longrightarrow> k \<le> k' \<and> r = r' * p ^ (k' - k) \<and> 0 < r' \<and> \<not> p dvd r'"
proof (induction p r k rule: divide_out.induct)
  case (1 p r k)
  show ?case
  proof (cases "r mod p = 0")
    case True
    then have r: "r = r div p * p" by auto
    have pos: "0 < r div p" using 1(2,3) True by (auto simp: pos_imp_zdiv_pos_iff dest: zdvd_imp_le)
    have "divide_out p (r div p) (Suc k) = (r', k')" using 1(2-4) True by (simp add: divide_out.simps [of p r k])
    with 1(1) [OF _ 1(2) pos] 1(2,3) True have ih: "Suc k \<le> k'" "r div p = r' * p ^ (k' - Suc k)" "0 < r'" "\<not> p dvd r'" by auto
    have "p ^ (k' - k) = p ^ (k' - Suc k) * p" using ih(1) by (metis Suc_diff_le Suc_le_lessD diff_Suc_Suc less_imp_Suc_add power_Suc2 Suc_diff_Suc)
    with r ih show ?thesis by (simp add: mult.assoc)
  next
    case False
    with 1(2-4) show ?thesis by (auto simp: divide_out.simps [of p r k] dvd_eq_mod_eq_0)
  qed
qed

lemma rjust_digits:
  fixes n :: int and scale :: nat
  assumes "0 \<le> n"
  defines "d \<equiv> rjust (scale + 1) (nat_text (nat n))"
  shows "list_all is_digit d" "digits_value d = n" "scale < length d" "whole_part (take (length d - scale) d)"
proof -
  define t where "t = nat_text (nat n)"
  have t: "list_all is_digit t" "digits_value t = n" "t \<noteq> []" "whole_part t"
    using nat_text_digits [of "nat n"] whole_nat_text [of "nat n"] assms(1) by (simp_all add: t_def)
  have d: "d = replicate (scale + 1 - length t) (CHR ''0'') @ t" by (simp add: d_def rjust_def t_def)
  show dig: "list_all is_digit d" using t(1) by (auto simp: d list_all_iff not_digit)
  show "digits_value d = n" unfolding d digits_value_zeros by (rule t(2))
  show len: "scale < length d" using t(3) by (simp add: d)
  have dig': "list_all is_digit (take (length d - scale) d)" using dig by (auto simp: list_all_iff dest: in_set_takeD)
  show "whole_part (take (length d - scale) d)"
  proof (cases "length t \<le> scale + 1")
    case True
    then have "length d = scale + 1" by (simp add: d)
    then obtain x where "take (length d - scale) d = [x]" by (cases d) auto
    with dig' show ?thesis by (auto simp: whole_part_def)
  next
    case False
    then have eq: "take (length d - scale) d = take (length t - scale) t" by (simp add: d)
    moreover have "t \<noteq> ''0''" using False by auto
    ultimately show ?thesis using False t dig' by (auto simp: whole_part_def hd_take)
  qed
qed


section \<open>Round trips\<close>

definition is_decimal :: "rat \<Rightarrow> bool" where
  "is_decimal x \<longleftrightarrow> (\<exists>n k. x = of_int n / 10 ^ k)"

text \<open>The denominator without its factors two and five.\<close>

lemma denominator_rest:
  assumes x: "quotient_of x = (a, d)" and two: "divide_out 2 d 0 = (r2, twos)" and five: "divide_out 5 r2 0 = (r, fives)"
  shows "d = r * 5 ^ fives * 2 ^ twos" "0 < r" "is_decimal x \<longleftrightarrow> r = 1"
proof -
  have d: "0 < d" and cop: "coprime a d" and xeq: "x = of_int a / of_int d"
    using x by (auto simp: quotient_of_denom_pos quotient_of_coprime quotient_of_div)
  from divide_out_spec [OF _ d two] have 2: "d = r2 * 2 ^ twos" "0 < r2" "\<not> 2 dvd r2" by auto
  from divide_out_spec [OF _ 2(2) five] have 5: "r2 = r * 5 ^ fives" "0 < r" "\<not> 5 dvd r" by auto
  show deq: "d = r * 5 ^ fives * 2 ^ twos" using 2 5 by simp
  show "0 < r" by (rule 5(2))
  have "\<not> 2 dvd r" using 2(3) 5(1) by auto
  then have c2: "coprime r 2" by (simp add: coprime_right_2_iff_odd)
  have "r mod 5 = 1 \<or> r mod 5 = 2 \<or> r mod 5 = 3 \<or> r mod 5 = 4" using 5(3) by presburger
  then have "gcd 5 (r mod 5) = 1" by (elim disjE) (simp_all add: gcd_non_0_int)
  then have c5: "coprime r 5" by (simp add: coprime_iff_gcd_eq_1 gcd_red_int [of r 5])
  show "is_decimal x \<longleftrightarrow> r = 1"
  proof
    assume "is_decimal x"
    then obtain n k where n: "x = of_int n / 10 ^ k" by (auto simp: is_decimal_def)
    then have "(of_int (a * 10 ^ k) :: rat) = of_int (n * d)" using d xeq by (simp add: field_simps)
    then have "a * 10 ^ k = n * d" by (simp only: of_int_eq_iff)
    then have "d dvd 10 ^ k * a" by (metis dvd_triv_right mult.commute)
    then have "d dvd 10 ^ k" using cop coprime_commute coprime_dvd_mult_left_iff by blast
    then have "r dvd 10 ^ k" using deq by (metis dvd_mult_left dvd_trans dvd_triv_left mult.assoc)
    moreover have "coprime r (10 ^ k)"
    proof -
      have "coprime r (2 * 5)" by (simp only: coprime_mult_right_iff c2 c5 simp_thms)
      moreover have "2 * 5 = (10 :: int)" by simp
      ultimately have "coprime r 10" by metis
      then show ?thesis by (simp add: coprime_power_right_iff)
    qed
    ultimately have "is_unit r" by (meson coprime_common_divisor dvd_refl)
    with 5(2) show "r = 1" by simp
  next
    assume r: "r = 1"
    define k where "k = max twos fives"
    have "d dvd 2 ^ k * 5 ^ k" unfolding deq r by (simp add: k_def mult.commute mult_dvd_mono le_imp_power_dvd)
    then have "d dvd 10 ^ k" by (simp flip: power_mult_distrib)
    then obtain m where m: "10 ^ k = d * m" by (auto elim: dvdE)
    then have "(10 ^ k :: rat) = of_int d * of_int m" by (metis of_int_mult of_int_numeral of_int_power)
    then have "x = of_int (a * m) / 10 ^ k" using d xeq by (auto simp: field_simps)
    then show "is_decimal x" unfolding is_decimal_def by blast
  qed
qed

lemma render_exact_eq:
  assumes "is_decimal x"
  obtains ip fp where "render_exact x = exact_canonical_decimal (signed_text (x < 0) (dec_text ip fp))" "whole_part ip"
    "list_all is_digit fp" "dec_value ip fp = \<bar>x\<bar>"
proof -
  obtain a d where ad: "quotient_of x = (a, d)" by (cases "quotient_of x")
  obtain r2 twos where two: "divide_out 2 d 0 = (r2, twos)" by (cases "divide_out 2 d 0")
  obtain r fives where five: "divide_out 5 r2 0 = (r, fives)" by (cases "divide_out 5 r2 0")
  note rest = denominator_rest [OF ad two five]
  have r: "r = 1" using rest(3) assms by simp
  have d: "0 < d" and xeq: "x = of_int a / of_int d" using ad by (auto simp: quotient_of_denom_pos quotient_of_div)
  define k where "k = max twos fives"
  have "d dvd 2 ^ k * 5 ^ k" unfolding rest(1) r by (simp add: k_def mult.commute mult_dvd_mono le_imp_power_dvd)
  then have dk: "d dvd a * 10 ^ k" by (simp flip: power_mult_distrib)
  define n where "n = a * 10 ^ k div d"
  have "n * d = a * 10 ^ k" using dk by (simp add: n_def)
  then have "(of_int n * of_int d :: rat) = of_int a * 10 ^ k" by (metis of_int_mult of_int_numeral of_int_power)
  then have "of_int d * (x * 10 ^ k) = of_int d * of_int n" using d xeq by (simp add: mult.commute)
  then have "x * 10 ^ k = of_int n" using d by simp
  then have x: "x = of_int n / 10 ^ k" by (simp add: field_simps)
  define t where "t = rjust (k + 1) (nat_text (nat \<bar>n\<bar>))"
  have t: "list_all is_digit t" "digits_value t = \<bar>n\<bar>" "k < length t" "whole_part (take (length t - k) t)"
    unfolding t_def by (rule rjust_digits, simp)+
  define ip fp where "ip = take (length t - k) t" and "fp = drop (length t - k) t"
  have parts: "ip @ fp = t" "length fp = k" using t(3) by (simp_all add: ip_def fp_def)
  have eq: "(if k = 0 then t else take (length t - k) t @ ''.'' @ drop (length t - k) t) = dec_text ip fp"
    using t(3) by (auto simp: ip_def fp_def dec_text_def)
  have neg: "n < 0 \<longleftrightarrow> x < 0" by (simp add: x divide_less_0_iff)
  have "render_exact x = exact_canonical_decimal (signed_text (x < 0) (dec_text ip fp))"
    unfolding render_exact_def ad two five prod.case Let_def r k_def [symmetric] n_def [symmetric] t_def [symmetric] eq neg signed_text_def
    by (simp only: simp_thms if_False)
  moreover have "dec_value ip fp = \<bar>x\<bar>" by (simp add: dec_value_def parts t(2) x)
  moreover have "list_all is_digit fp" using t(1) parts by (metis list_all_append)
  ultimately show thesis using that t(4) by (simp add: ip_def)
qed

lemma render_exact_refuses: "\<not> is_decimal x \<Longrightarrow> \<exists>e. render_exact x = Inl e"
proof -
  assume n: "\<not> is_decimal x"
  obtain a d where ad: "quotient_of x = (a, d)" by (cases "quotient_of x")
  obtain r2 twos where two: "divide_out 2 d 0 = (r2, twos)" by (cases "divide_out 2 d 0")
  obtain r fives where five: "divide_out 5 r2 0 = (r, fives)" by (cases "divide_out 5 r2 0")
  from denominator_rest(3) [OF ad two five] n have "r \<noteq> 1" by simp
  then show ?thesis by (simp add: render_exact_def ad two five)
qed


lemma render_exact_ok:
  assumes dx: "is_decimal x"
  shows "\<exists>t. render_exact x = Inr t \<and> parse_exact t = Inr x \<and> exact_canonical_decimal t = Inr t"
proof -
  from render_exact_eq [OF dx] obtain ip fp where re: "render_exact x = exact_canonical_decimal (signed_text (x < 0) (dec_text ip fp))"
    and parts: "whole_part ip" "list_all is_digit fp" "dec_value ip fp = \<bar>x\<bar>" by metis
  define gp neg where "gp = rstrip (CHR ''0'') fp" and "neg = (x < 0 \<and> \<not> (ip = ''0'' \<and> gp = []))"
  have gp: "list_all is_digit gp" "rstrip (CHR ''0'') gp = gp"
    using parts(2) by (simp_all add: gp_def digits_list_all_rstrip rstrip_idem)
  have "render_exact x = Inr (signed_text neg (dec_text ip gp))" unfolding re canonical_signed [OF parts(1,2)] gp_def neg_def ..
  moreover have "exact_canonical_decimal (signed_text neg (dec_text ip gp)) = Inr (signed_text neg (dec_text ip gp))"
    unfolding canonical_signed [OF parts(1) gp(1)] gp(2) neg_def by simp
  moreover have "parse_exact (signed_text neg (dec_text ip gp)) = Inr x"
  proof -
    have "dec_value ip gp = \<bar>x\<bar>" using parts(3) by (simp add: gp_def dec_value_trimmed)
    moreover have "x = 0" if "ip = ''0''" "gp = []"
      using calculation that by (simp add: dec_value_def digits_value_def digit_value_def)
    ultimately show ?thesis unfolding parse_signed [OF parts(1) gp(1)] neg_def by auto
  qed
  ultimately show ?thesis by blast
qed

lemma render_artifact_ok:
  assumes s: "0 < scale"
  shows "\<exists>t. render_artifact x scale = Inr t \<and> parse_exact t = Inr (of_int (round_half_even (x * 10 ^ scale)) / 10 ^ scale)"
proof -
  define u where "u = round_half_even (x * 10 ^ scale)"
  define w f where "w = \<bar>u\<bar> div 10 ^ scale" and "f = \<bar>u\<bar> mod 10 ^ scale"
  have f: "0 \<le> f" "f < 10 ^ scale" "0 \<le> w" by (simp_all add: f_def w_def pos_imp_zdiv_nonneg_iff)
  have pad: "list_all is_digit (padded scale f)" "length (padded scale f) = scale" "digits_value (padded scale f) = f"
    using padded_format padded_value [OF f(1,2)] by auto
  have ne: "padded scale f \<noteq> []" using pad(2) s by auto
  have "quantize_half_even x (1 / 10 ^ scale) = Inr (of_int u / 10 ^ scale)" by (simp add: quantize_half_even_eq u_def)
  then have "render_artifact x scale = Inr (signed_text (u < 0) (dec_text (nat_text (nat w)) (padded scale f)))"
    using s ne by (simp add: render_artifact_def Let_def signed_text_def dec_text_def w_def f_def)
  moreover have "parse_exact (signed_text (u < 0) (dec_text (nat_text (nat w)) (padded scale f))) = Inr (of_int u / 10 ^ scale)"
  proof -
    have "digits_value (nat_text (nat w) @ padded scale f) = w * 10 ^ scale + f"
      using nat_text_digits [of "nat w"] f(3) pad by (simp add: digits_value_append)
    also have "\<dots> = \<bar>u\<bar>" unfolding w_def f_def by (rule div_mult_mod_eq)
    finally have "dec_value (nat_text (nat w)) (padded scale f) = of_int \<bar>u\<bar> / 10 ^ scale" by (simp add: dec_value_def pad)
    then show ?thesis unfolding parse_signed [OF whole_nat_text pad(1)] by auto
  qed
  ultimately show ?thesis by (simp add: u_def)
qed

text \<open>
  C16: Rendering and parsing are inverse: exactly the numbers with a finite decimal expansion are
  rendered, their text is canonical and is read back as the same number, and the text of an artifact is read back as the nearest multiple
  of its scale, ties to even.
\<close>

theorem decimal_round_trip:
  "(is_decimal x \<longleftrightarrow> (\<exists>t. render_exact x = Inr t))
   \<and> (\<forall>t. render_exact x = Inr t \<longrightarrow> parse_exact t = Inr x \<and> exact_canonical_decimal t = Inr t)
   \<and> (\<forall>scale t. render_artifact x scale = Inr t \<longrightarrow> parse_exact t = Inr (of_int (round_half_even (x * 10 ^ scale)) / 10 ^ scale))
   \<and> (\<forall>scale > 0. \<exists>t. render_artifact x scale = Inr t)"
proof -
  have none: "render_artifact x 0 = Inl (blocked ''BLOCKED_NONFINITE_INPUT'')" by (simp add: render_artifact_def)
  have dec: "is_decimal x" if "render_exact x = Inr t" for t using that render_exact_refuses [of x] by force
  show ?thesis
  proof (intro conjI allI impI)
    show "is_decimal x \<longleftrightarrow> (\<exists>t. render_exact x = Inr t)" using render_exact_ok dec by blast
    show "parse_exact t = Inr x" "exact_canonical_decimal t = Inr t" if "render_exact x = Inr t" for t
      using render_exact_ok [OF dec [OF that]] that by auto
    show "parse_exact t = Inr (of_int (round_half_even (x * 10 ^ scale)) / 10 ^ scale)" if "render_artifact x scale = Inr t" for scale t
      using render_artifact_ok [of scale x] none that by (cases scale) auto
    show "\<exists>t. render_artifact x scale = Inr t" if "0 < scale" for scale using render_artifact_ok [OF that] by blast
  qed
qed

theorem decimal_round_trip_witness:
  "render_exact (- 1/8) = Inr ''-0.125'' \<and> parse_exact ''-0.125'' = Inr (- 1/8) \<and> render_artifact (2/3) 2 = Inr ''0.67''
   \<and> parse_exact ''0.67'' = Inr (of_int (round_half_even (2/3 * 10 ^ 2)) / 10 ^ 2)"
proof -
  have "render_exact (- 1/8) = Inr ''-0.125''" "render_artifact (2/3) 2 = Inr ''0.67''" by code_simp+
  with decimal_round_trip [of "- 1/8"] decimal_round_trip [of "2/3"] show ?thesis by blast
qed

end
