(* ===== verification/Factor_Documents.thy ===== *)
theory Factor_Documents
  imports Kernel_Refusals Decimal_Text
begin

text \<open>
  The documents of the corporate-action kernel: what the \<open>to_json_dict\<close> methods of \<open>factors_v1.py\<close> write, and that they write it for
  every series and every walk the kernel returns, although most fields are refused unless their number is a finite decimal.
\<close>

section \<open>Documents\<close>

definition KERNEL_ID :: string where "KERNEL_ID = ''QME-NEE125-CORPORATE-ACTION-FACTOR-KERNEL-V1''"
definition FACTOR_SCHEMA_VERSION :: string where "FACTOR_SCHEMA_VERSION = ''qme.corporate_action_factors.v1''"
definition METHODOLOGY_ID :: string where "METHODOLOGY_ID = ''qme-point-in-time-total-return-close-v1''"
definition METHODOLOGY_PATH :: string where "METHODOLOGY_PATH = ''configs/quant/qme-v0.1-total-return-methodology.json''"
definition METHODOLOGY_SHA256_GROUPED :: string where
  "METHODOLOGY_SHA256_GROUPED = ''95381821:c1c8ff00:e0e626b3:d7ee3646:6d12c3be:9e6b8cb7:5ee166f0:043454ac''"
definition ROUNDING_MODE :: string where "ROUNDING_MODE = ''ROUND_HALF_EVEN''"
definition DERIVED_SERIES_NAMES :: "string list" where
  "DERIVED_SERIES_NAMES = [''raw_close'', ''raw_volume'', ''raw_dollar_volume'', ''split_adjustment_factor'', ''split_adjusted_close'',
     ''split_adjusted_volume'', ''split_adjusted_dollar_volume'', ''gross_return'', ''total_return_index'']"
definition NON_CLAIMS :: json where
  "NON_CLAIMS = JObject (map (\<lambda>k. (k, JBool False)) [''vendor_adjusted_comparison_run'', ''security_identity_join_applied'',
     ''raw_cache_integration_applied'', ''sourced_unsupported_outcome_policy_registered'', ''independent_review_recorded'',
     ''freeze_blocker_changed''])"

text \<open>A dictionary display: the fields in order, and the first refusal of a renderer.\<close>

definition document :: "(string \<times> json fres) list \<Rightarrow> json fres" where
  "document entries = rbind (map_res (\<lambda>(k, r). rbind r (\<lambda>v. Inr (k, v))) entries) (\<lambda>kvs. Inr (JObject kvs))"

definition text_json :: "string fres \<Rightarrow> json fres" where
  "text_json r = rbind r (\<lambda>t. Inr (JString t))"

definition optional_json :: "('a \<Rightarrow> json fres) \<Rightarrow> 'a option \<Rightarrow> json fres" where
  "optional_json f v = (case v of None \<Rightarrow> Inr JNull | Some x \<Rightarrow> f x)"

abbreviation exact_json :: "rat \<Rightarrow> json fres" where "exact_json v \<equiv> text_json (render_exact v)"
abbreviation artifact_json :: "rat \<Rightarrow> json fres" where "artifact_json v \<equiv> text_json (render_artifact v ARTIFACT_SCALE)"
abbreviation currency_json :: "rat \<Rightarrow> json fres" where "currency_json v \<equiv> text_json (render_ledger v LEDGER_CURRENCY_QUANTUM)"
abbreviation shares_json :: "rat \<Rightarrow> json fres" where "shares_json v \<equiv> text_json (render_ledger v LEDGER_SHARE_QUANTUM)"

definition exclusion_json :: "exclusion_record \<Rightarrow> json fres" where
  "exclusion_json x = Inr (JObject [(''state'', JString (exclusion_state x)), (''security_id'', JString (exclusion_security x)),
     (''event_id'', JString (exclusion_event x)), (''session'', JString (exclusion_session x)), (''action_type'', JString (exclusion_type x))])"

definition error_json :: "factor_error \<Rightarrow> json" where
  "error_json e = (let opt = (\<lambda>v. case v of None \<Rightarrow> JNull | Some t \<Rightarrow> JString t) in
     JObject [(''state'', JString (err_state e)), (''security_id'', opt (err_security e)), (''event_id'', opt (err_event e)),
       (''session'', opt (err_session e)), (''action_type'', opt (err_action_type e))])"

definition session_factors_json :: "session_factors \<Rightarrow> json fres" where
  "session_factors_json x = document
    [(''session'', Inr (JString (sf_session x))),
     (''raw_close'', exact_json (sf_raw_close x)),
     (''raw_volume'', exact_json (sf_raw_volume x)),
     (''raw_dollar_volume'', exact_json (raw_dollar_volume x)),
     (''split_adjustment_factor'', exact_json (sf_adjustment x)),
     (''split_adjusted_close'', artifact_json (split_adjusted_close x)),
     (''split_adjusted_volume'', exact_json (split_adjusted_volume x)),
     (''split_adjusted_dollar_volume'', exact_json (split_adjusted_dollar_volume x)),
     (''applied_split_factor'', exact_json (applied_split_factor x)),
     (''applied_dividend_post_split_per_share'', artifact_json (applied_dividend_post x)),
     (''applied_dividend_pre_action_per_share'', exact_json (applied_dividend_pre x)),
     (''gross_return'', optional_json (\<lambda>g. artifact_json g) (sf_gross_return x)),
     (''total_return_index'', artifact_json (total_return_index x))]"

definition list_json :: "('a \<Rightarrow> json fres) \<Rightarrow> 'a list \<Rightarrow> json fres" where
  "list_json f xs = rbind (map_res f xs) (\<lambda>vs. Inr (JList vs))"

definition factor_series_json :: "factor_series \<Rightarrow> json fres" where
  "factor_series_json fs = document
    [(''schema_version'', Inr (JString FACTOR_SCHEMA_VERSION)),
     (''kernel_id'', Inr (JString KERNEL_ID)),
     (''methodology_id'', Inr (JString METHODOLOGY_ID)),
     (''methodology_path'', Inr (JString METHODOLOGY_PATH)),
     (''methodology_sha256_grouped'', Inr (JString METHODOLOGY_SHA256_GROUPED)),
     (''same_day_event_order'', Inr (JString REGISTERED_SAME_DAY_EVENT_ORDER)),
     (''artifact_scale'', Inr (JNumber (nat_text ARTIFACT_SCALE))),
     (''rounding_mode'', Inr (JString ROUNDING_MODE)),
     (''security_id'', Inr (JString (fs_security fs))),
     (''adjustment_cutoff_session'', Inr (JString (fs_cutoff fs))),
     (''state'', Inr (JString (fs_state fs))),
     (''sessions'', list_json session_factors_json (fs_sessions fs)),
     (''exclusion'', optional_json exclusion_json (fs_exclusion fs)),
     (''derived_series_names'', Inr (JList (map JString DERIVED_SERIES_NAMES))),
     (''claims'', Inr NON_CLAIMS)]"

definition ledger_state_json :: "ledger_state \<Rightarrow> json fres" where
  "ledger_state_json s = document
    [(''raw_shares'', shares_json (ls_shares s)), (''cash'', currency_json (ls_cash s)), (''receivables'', currency_json (ls_receivables s))]"

definition transition_json :: "ledger_transition \<Rightarrow> json fres" where
  "transition_json t = document
    [(''session'', Inr (JString (lt_session t))),
     (''raw_close'', exact_json (lt_raw_close t)),
     (''split_factor'', exact_json (lt_split_factor t)),
     (''shares_before_split'', shares_json (shares_before_split t)),
     (''shares_after_split'', shares_json (shares_after_split t)),
     (''split_reference_price'', optional_json (\<lambda>v. artifact_json v) (split_reference_price t)),
     (''split_reference_value_before'', optional_json (\<lambda>v. currency_json v) (split_reference_before t)),
     (''split_reference_value_after'', optional_json (\<lambda>v. currency_json v) (split_reference_after t)),
     (''dividend_eligible_raw_shares'', shares_json (dividend_eligible_shares t)),
     (''dividend_receivable'', currency_json (receivable_recognized t)),
     (''receivable_settled'', currency_json (receivable_settled t)),
     (''state_after'', ledger_state_json (state_after t)),
     (''nav_after'', currency_json (nav_after t))]"

definition pending_json :: "payment \<Rightarrow> json fres" where
  "pending_json p = document [(''event_id'', Inr (JString (fst p))), (''payment_session'', Inr (JString (fst (snd p)))),
     (''amount'', currency_json (snd (snd p)))]"

definition ledger_walk_json :: "ledger_walk \<Rightarrow> json fres" where
  "ledger_walk_json w = document
    [(''schema_version'', Inr (JString FACTOR_SCHEMA_VERSION)),
     (''kernel_id'', Inr (JString KERNEL_ID)),
     (''security_id'', Inr (JString (lw_security w))),
     (''state'', Inr (JString (lw_state w))),
     (''opening_state'', ledger_state_json (opening_state w)),
     (''transitions'', list_json transition_json (lw_transitions w)),
     (''closing_state'', ledger_state_json (closing_state w)),
     (''pending_receivables'', list_json pending_json (pending_receivables w)),
     (''exclusion'', optional_json exclusion_json (lw_exclusion w)),
     (''claims'', Inr NON_CLAIMS)]"

section \<open>Rendering never fails on a result\<close>

definition renders :: "'a fres \<Rightarrow> bool" where
  "renders r \<longleftrightarrow> (\<exists>v. r = Inr v)"

lemma renders_Inr [simp]: "renders (Inr v)" by (simp add: renders_def)

lemma map_res_renders: "renders (map_res f xs) \<longleftrightarrow> (\<forall>x \<in> set xs. renders (f x))"
proof (induction xs)
  case (Cons x xs)
  then show ?case by (cases "f x"; cases "map_res f xs") (auto simp: renders_def)
qed simp

lemma bind_Inr_renders [simp]: "renders (rbind r (\<lambda>v. Inr (g v))) = renders r"
  by (cases r) (auto simp: renders_def)

lemma document_renders: "renders (document entries) \<longleftrightarrow> (\<forall>(k, r) \<in> set entries. renders r)"
  unfolding document_def bind_Inr_renders map_res_renders by (auto simp: split_beta)

lemma list_json_renders: "renders (list_json f xs) \<longleftrightarrow> (\<forall>x \<in> set xs. renders (f x))"
  by (simp add: list_json_def map_res_renders)

lemma optional_renders: "(\<And>x. renders (f x)) \<Longrightarrow> renders (optional_json f v)"
  by (simp add: optional_json_def split: option.split)

lemma exact_renders: "is_decimal v \<Longrightarrow> renders (exact_json v)"
  using render_exact_ok [of v] by (auto simp: text_json_def renders_def)


lemma artifact_renders: "renders (artifact_json v)"
  unfolding text_json_def bind_Inr_renders renders_def using render_artifact_ok [of ARTIFACT_SCALE v] by (auto simp: ARTIFACT_SCALE_def)

lemma ledger_renders: "renders (currency_json v)" "renders (shares_json v)"
proof -
  have "is_decimal (of_int n * (1 / 100000000))" for n
    unfolding is_decimal_def by (rule exI [of _ n], rule exI [of _ 8]) simp
  then have "renders (render_ledger v (1 / 100000000))"
    using render_exact_ok by (fastforce simp: render_ledger_def quantize_half_even_eq renders_def)
  then show "renders (currency_json v)" "renders (shares_json v)"
    unfolding text_json_def bind_Inr_renders by (simp_all add: LEDGER_CURRENCY_QUANTUM_def LEDGER_SHARE_QUANTUM_def)
qed

subsection \<open>Decimals\<close>

lemma is_decimal_1 [simp]: "is_decimal 1" "is_decimal 0"
  unfolding is_decimal_def by (metis div_by_1 of_int_1 power_0, metis div_by_1 of_int_0 power_0)

lemma is_decimal_mult: "is_decimal x \<Longrightarrow> is_decimal y \<Longrightarrow> is_decimal (x * y)"
  unfolding is_decimal_def by (metis of_int_mult power_add times_divide_times_eq)

lemma is_decimal_add:
  assumes "is_decimal x" "is_decimal y"
  shows "is_decimal (x + y)"
proof -
  from assms obtain a k b l where xy: "x = of_int a / 10 ^ k" "y = of_int b / 10 ^ l" by (auto simp: is_decimal_def)
  have "x + y = of_int (a * 10 ^ l + b * 10 ^ k) / 10 ^ (k + l)" unfolding xy by (simp add: add_frac_eq power_add)
  then show ?thesis unfolding is_decimal_def by blast
qed

lemma is_decimal_prod: "(\<And>x. x \<in> set xs \<Longrightarrow> is_decimal x) \<Longrightarrow> is_decimal (prod_list xs)"
  by (induction xs) (auto intro: is_decimal_mult)

lemma is_decimal_sum: "(\<And>x. x \<in> set xs \<Longrightarrow> is_decimal x) \<Longrightarrow> is_decimal (sum_list xs)"
  by (induction xs) (auto intro: is_decimal_add)

lemma is_decimal_text: "is_decimal (text_value t)"
proof (cases "exact_canonical_decimal t")
  case (Inr c)
  then have "text_value t = fraction_of_text c" by (simp add: text_value_def parse_exact_def)
  then show ?thesis unfolding is_decimal_def fraction_of_text_def Let_def split_beta by blast
qed (simp add: text_value_def parse_exact_def)

lemma declared_split_decimal: "is_decimal (declared_split s as)"
  unfolding declared_split_def by (rule is_decimal_prod) (auto simp: is_decimal_text)

text \<open>Distributions before the split are finite decimals although those after it need not be.\<close>

lemma declared_cash_decimal:
  assumes "0 < declared_split s as"
  shows "is_decimal (declared_cash s as * declared_split s as)"
proof -
  have "is_decimal ((if share_basis a = Some ''PRE_ACTION'' then text_value (cash_text a) / declared_split s as else text_value (cash_text a))
      * declared_split s as)" for a
    using assms declared_split_decimal [of s as] by (auto simp: is_decimal_text intro: is_decimal_mult)
  then show ?thesis
    unfolding declared_cash_def sum_list_mult_const [symmetric] by (intro is_decimal_sum) auto
qed

lemma bar_decimals:
  assumes "normalized_bars bars cutoff = Inr rows" "r \<in> set (rows_before_exclusion n rows)"
  shows "is_decimal (fst (snd r))" "is_decimal (snd (snd r))"
proof -
  have "r \<in> set rows" using assms(2) by (auto simp: rows_before_exclusion_def split: option.splits)
  then obtain b where "r = bar_row_of b" using assms(1) by (auto simp: normalized_bars_iff)
  then show "is_decimal (fst (snd r))" "is_decimal (snd (snd r))" by (simp_all add: bar_row_of_def is_decimal_text)
qed

section \<open>Every result is published\<close>

lemma series_renders:
  assumes "build_factor_series bars actions security_id cutoff held_text base_text order policy = Inr fs"
    and x: "x \<in> set (fs_sessions fs)"
  shows "renders (session_factors_json x)"
proof -
  from assms(1) show ?thesis
  proof (rule build_factor_series_Inr)
    fix n rows held base
    assume n: "normalize_actions actions security_id cutoff held order policy = Inr n" and rows: "normalized_bars bars cutoff = Inr rows"
      and fs: "fs_sessions fs = series_of (by_session n) None base (rows_before_exclusion n rows)"
    note ns = normalize_Inr(1) [OF n]
    have wf: "wf_stream cutoff (by_session n)" by (rule normal_stream_wf [OF ns])
    define s where "s = declared_split (sf_session x) actions"
    from series_applied [of x "by_session n" None base "rows_before_exclusion n rows"] x
    have app: "applied_split_factor x = s" "applied_dividend_pre x = declared_cash (sf_session x) actions * s"
      "raw_dollar_volume x = sf_raw_close x * sf_raw_volume x" "split_adjusted_volume x = sf_raw_volume x * sf_adjustment x"
      "split_adjusted_dollar_volume x = sf_raw_close x / sf_adjustment x * split_adjusted_volume x"
      and mem: "(sf_session x, sf_raw_close x, sf_raw_volume x) \<in> set (rows_before_exclusion n rows)"
      by (simp_all add: fs stream_declared [OF ns] stream_signs(3) [OF wf] s_def)
    have pos: "0 < s" using stream_signs(1) [OF wf, of "sf_session x"] by (simp add: stream_declared [OF ns] s_def)
    have close: "is_decimal (sf_raw_close x)" "is_decimal (sf_raw_volume x)" using bar_decimals [OF rows mem] by simp_all
    obtain i where i: "i < length (fs_sessions fs)" "x = fs_sessions fs ! i" using x by (auto simp: in_set_conv_nth)
    have adj: "sf_adjustment x = prod_list (map applied_split_factor (drop (Suc i) (fs_sessions fs)))"
      using series_adjustment [of i "rows_before_exclusion n rows" "by_session n" None base] i by (simp add: fs length_series)
    have adj_pos: "0 < sf_adjustment x"
      unfolding adj drop_map [symmetric] unfolding fs series_factors drop_map by (rule factor_product_pos [OF wf])
    have adj_dec: "is_decimal (sf_adjustment x)"
      unfolding adj using series_applied [of _ "by_session n" None base "rows_before_exclusion n rows"]
      by (intro is_decimal_prod) (auto simp: fs stream_declared [OF ns] declared_split_decimal dest!: in_set_dropD)
    have "is_decimal (raw_dollar_volume x)" "is_decimal (split_adjusted_volume x)" "is_decimal (applied_dividend_pre x)"
      "is_decimal (applied_split_factor x)" "is_decimal (split_adjusted_dollar_volume x)"
      using close adj_dec adj_pos pos declared_cash_decimal [of "sf_session x" actions] declared_split_decimal [of "sf_session x" actions]
      by (auto simp: app s_def intro: is_decimal_mult)
    then show ?thesis
      unfolding session_factors_json_def document_renders
      using close adj_dec by (auto intro!: exact_renders artifact_renders optional_renders)
  qed
qed

lemma ledger_state_renders: "renders (ledger_state_json s)"
  unfolding ledger_state_json_def document_renders by (auto intro!: ledger_renders)

lemma transition_renders: "is_decimal (lt_raw_close t) \<Longrightarrow> is_decimal (lt_split_factor t) \<Longrightarrow> renders (transition_json t)"
  unfolding transition_json_def document_renders
  by (auto intro!: exact_renders artifact_renders ledger_renders optional_renders ledger_state_renders)

lemma exclusion_renders: "renders (optional_json exclusion_json x)"
  by (rule optional_renders) (simp add: exclusion_json_def)

text \<open>
  Every result can be published: whenever the kernel returns a series or a walk, its document is rendered without a refusal;
  in particular the distribution per share before a split is a finite decimal even when the one after it is not.
\<close>

theorem results_are_published:
  "(build_factor_series bars actions security_id cutoff held_text base_text order policy = Inr fs \<longrightarrow> (\<exists>d. factor_series_json fs = Inr d))
   \<and> (walk_ledger opening bars actions security_id cutoff order policy = Inr w \<longrightarrow> (\<exists>d. ledger_walk_json w = Inr d))"
proof (intro conjI impI)
  assume fs: "build_factor_series bars actions security_id cutoff held_text base_text order policy = Inr fs"
  have "renders (list_json session_factors_json (fs_sessions fs))"
    unfolding list_json_renders using series_renders [OF fs] by blast
  then have "renders (factor_series_json fs)"
    unfolding factor_series_json_def document_renders by (auto intro: exclusion_renders)
  then show "\<exists>d. factor_series_json fs = Inr d" by (simp add: renders_def)
next
  assume "walk_ledger opening bars actions security_id cutoff order policy = Inr w"
  then show "\<exists>d. ledger_walk_json w = Inr d"
  proof (rule walk_ledger_Inr)
    fix n rows
    assume n: "normalize_actions actions security_id cutoff (ls_shares opening) order policy = Inr n"
      and rows: "normalized_bars bars cutoff = Inr rows"
      and cl: "map lt_raw_close (lw_transitions w) = map (\<lambda>r. fst (snd r)) (rows_before_exclusion n rows)"
      and ok: "list_all (transition_ok (by_session n)) (lw_transitions w)"
    have "renders (transition_json t)" if t: "t \<in> set (lw_transitions w)" for t
    proof (rule transition_renders)
      have "lt_raw_close t \<in> set (map (\<lambda>r. fst (snd r)) (rows_before_exclusion n rows))" using t unfolding cl [symmetric] by simp
      then show "is_decimal (lt_raw_close t)" using bar_decimals(1) [OF rows] by auto
      show "is_decimal (lt_split_factor t)"
        using ok t by (simp add: list_all_iff transition_ok_def Let_def stream_declared [OF normalize_Inr(1) [OF n]] declared_split_decimal)
    qed
    then have "renders (list_json transition_json (lw_transitions w))" unfolding list_json_renders by blast
    moreover have "renders (list_json pending_json (pending_receivables w))"
      unfolding list_json_renders pending_json_def document_renders by (auto intro!: ledger_renders)
    ultimately have "renders (ledger_walk_json w)"
      unfolding ledger_walk_json_def document_renders by (auto intro: exclusion_renders ledger_state_renders)
    then show ?thesis by (simp add: renders_def)
  qed
qed

theorem results_are_published_witness: "\<exists>d. factor_series_json ex_series = Inr d"
  using results_are_published ex_series_built by blast

end
