(* ===== verification/Execution_Records.thy ===== *)
theory Execution_Records
  imports Action_Factors Equations
begin

text \<open>
  The records, registries and small operations of the execution kernel
  \<open>qme/quant/execution_v1.py\<close>: ledger texts, grouped digests, identifiers, and the provenance-checked
  registries with their lookup. A refusal is a
  record of its state and of the identities it names; its message is left out. Arguments have
  their annotated types. UTF-8 byte order is code-point order, so the stable-key order is the
  lexicographic order of the texts.
\<close>

section \<open>Refusals\<close>

record exec_error =
  xe_state :: string
  xe_security :: "string option"
  xe_session :: "int option"
  xe_stage :: "string option"
  xe_path :: "string option"

text \<open>A typed refusal, or an exception of the numeric layer that the kernel lets through.\<close>

datatype exec_exc = Refused exec_error | Escaped py_exc

type_synonym 'a xres = "exec_exc + 'a"

definition refusal :: "string \<Rightarrow> string option \<Rightarrow> int option \<Rightarrow> string option \<Rightarrow> exec_exc" where
  "refusal state sec session stage =
     Refused \<lparr>xe_state = state, xe_security = sec, xe_session = session, xe_stage = stage, xe_path = None\<rparr>"

abbreviation refuse :: "string \<Rightarrow> exec_exc" where "refuse state \<equiv> refusal state None None None"
abbreviation refuse_for :: "string \<Rightarrow> string \<Rightarrow> exec_exc" where
  "refuse_for state sec \<equiv> refusal state (Some sec) None None"

definition malformed :: string where "malformed = ''BLOCKED_MALFORMED_LEDGER_VALUE''"

text \<open>\<open>except (TypeError, ValueError)\<close>, and \<open>str(exc)\<close> for the exceptions it catches.\<close>

fun caught_text :: "py_exc \<Rightarrow> string option" where
  "caught_text (TypeError m) = Some m"
| "caught_text (ValueError m) = Some m"
| "caught_text (Raised c m) = Some m"
| "caught_text _ = None"

definition let_through :: "'a res \<Rightarrow> 'a xres" where
  "let_through r = (case r of Inl e \<Rightarrow> Inl (Escaped e) | Inr a \<Rightarrow> Inr a)"

definition translated_to :: "exec_exc \<Rightarrow> 'a res \<Rightarrow> 'a xres" where
  "translated_to x r = (case r of Inr a \<Rightarrow> Inr a
     | Inl e \<Rightarrow> Inl (if caught_text e = None then Escaped e else x))"

text \<open>Python's \<open>needle in text\<close>.\<close>

fun text_in :: "string \<Rightarrow> string \<Rightarrow> bool" where
  "text_in needle [] = (needle = [])"
| "text_in needle (c # cs) = (take (length needle) (c # cs) = needle \<or> text_in needle cs)"

section \<open>Ledger values and their texts\<close>

definition to_ledger_decimal :: "pyval \<Rightarrow> rat xres" where
  "to_ledger_decimal value = (case decimal value [] of
     Inl e \<Rightarrow> Inl (refuse malformed) | Inr x \<Rightarrow> Inr x)"

abbreviation ledger_of_text :: "string \<Rightarrow> rat xres" where
  "ledger_of_text t \<equiv> to_ledger_decimal (PStr t)"

definition quantize_ledger :: "rat \<Rightarrow> rat xres" where
  "quantize_ledger value = (case quantize DECIMAL_PRECISION INTERNAL_CURRENCY_QUANTUM value of
     Inl e \<Rightarrow> Inl (refuse malformed) | Inr x \<Rightarrow> Inr x)"

text \<open>The fixed-point text of \<open>units\<close> multiples of \<open>10 ^ - scale\<close>, without a signed zero.\<close>

definition fixed_text :: "nat \<Rightarrow> int \<Rightarrow> string" where
  "fixed_text scale units =
     (if units < 0 then ''-'' else []) @ nat_text (nat (\<bar>units\<bar> div 10 ^ scale)) @ ''.''
       @ rjust scale (nat_text (nat (\<bar>units\<bar> mod 10 ^ scale)))"

definition format_ledger :: "pyval \<Rightarrow> string xres" where
  "format_ledger value =
     rbind (to_ledger_decimal value) (\<lambda>x.
     rbind (quantize_ledger x) (\<lambda>q. Inr (fixed_text 8 \<lfloor>q * 100000000\<rfloor>)))"

definition require_share_quantum :: "rat \<Rightarrow> string option \<Rightarrow> rat xres" where
  "require_share_quantum value sec =
     rbind (let_through (quantize DECIMAL_PRECISION SHARE_STORAGE_QUANTUM value)) (\<lambda>q.
       if q \<noteq> value then Inl (refusal ''BLOCKED_NONREPRESENTABLE_SHARE_QUANTITY'' sec None None)
       else Inr q)"

definition require_ledger_price_quantum :: "pyval \<Rightarrow> string option \<Rightarrow> rat xres" where
  "require_ledger_price_quantum value sec =
     rbind (to_ledger_decimal value) (\<lambda>amount.
     rbind (let_through (quantize DECIMAL_PRECISION INTERNAL_CURRENCY_QUANTUM amount)) (\<lambda>q.
       if q \<noteq> amount then Inl (refusal malformed sec None None) else Inr q))"

definition format_exact_fraction :: "rat \<Rightarrow> string xres" where
  "format_exact_fraction value =
     (let scaled = value * 100000000
      in if of_int \<lfloor>scaled\<rfloor> \<noteq> scaled then Inl (refuse malformed) else Inr (fixed_text 8 \<lfloor>scaled\<rfloor>))"

text \<open>A grouped digest: eight groups of eight lowercase hexadecimal digits joined by colons.\<close>

fun split_colons :: "string \<Rightarrow> string list" where
  "split_colons [] = [[]]"
| "split_colons (c # cs) =
     (if c = CHR '':'' then [] # split_colons cs
      else (case split_colons cs of g # gs \<Rightarrow> (c # g) # gs | [] \<Rightarrow> [[c]]))"

definition ungroup_sha256 :: "string \<Rightarrow> string xres" where
  "ungroup_sha256 text =
     (let groups = split_colons text
      in if length groups \<noteq> 8 \<or> list_ex (\<lambda>g. length g \<noteq> 8 \<or> \<not> list_all is_hex g) groups
         then Inl (refuse malformed) else Inr (concat groups))"

definition canonical_identifier :: "string \<Rightarrow> string xres" where
  "canonical_identifier text =
     (if text = [] \<or> length text > 128 \<or> text \<noteq> strip text then Inl (refuse malformed)
      else if list_ex (\<lambda>c. c \<in> set [CHR 0x00, CHR 0x0D, CHR 0x0A, CHR 0x09]) text then Inl (refuse malformed)
      else Inr text)"

definition sorted_symbols :: "string list \<Rightarrow> string list" where
  "sorted_symbols symbols = sort symbols"

section \<open>Owner-gated registries\<close>

record provenance =
  record_id :: string
  source_kind :: string
  record_source :: string
  source_reference :: string
  effective_date :: int

definition REGISTERED_SOURCE_KINDS :: "string list" where
  "REGISTERED_SOURCE_KINDS = [''OWNER_DECISION_RECORD'', ''PUBLISHER_REFERENCE'']"
definition SOURCE_KINDS :: "string list" where
  "SOURCE_KINDS = REGISTERED_SOURCE_KINDS @ [''TEST_CONSTRUCTED'']"

definition check_provenance :: "'a provenance_scheme \<Rightarrow> unit xres" where
  "check_provenance r =
     rbind (canonical_identifier (record_id r)) (\<lambda>_.
       if source_kind r \<notin> set SOURCE_KINDS then Inl (refuse ''BLOCKED_UNREGISTERED_SOURCE_KIND'')
       else if strip (record_source r) = [] \<or> strip (source_reference r) = []
       then Inl (refuse ''BLOCKED_UNREGISTERED_SOURCE_KIND'')
       else Inr ())"

record cost_rate_policy = provenance +
  transaction_cost_rate_bps :: string
  regulatory_authority :: bool

definition mk_cost_rate_policy :: "cost_rate_policy \<Rightarrow> cost_rate_policy xres" where
  "mk_cost_rate_policy r =
     rbind (check_provenance r) (\<lambda>_.
     rbind (ledger_of_text (transaction_cost_rate_bps r)) (\<lambda>rate.
       if rate < 0 \<or> rate \<ge> 10000 then Inl (refuse malformed)
       else if rate \<noteq> of_int \<lfloor>rate\<rfloor> then Inl (refuse ''BLOCKED_NONINTEGER_COST_RATE_BASIS_POINTS'')
       else Inr r))"

definition policy_rate_bps :: "cost_rate_policy \<Rightarrow> rat xres" where
  "policy_rate_bps r = ledger_of_text (transaction_cost_rate_bps r)"

record maximum_fill_deferral = provenance +
  maximum_deferral_sessions :: int

definition mk_maximum_fill_deferral :: "maximum_fill_deferral \<Rightarrow> maximum_fill_deferral xres" where
  "mk_maximum_fill_deferral r =
     rbind (check_provenance r) (\<lambda>_.
       if maximum_deferral_sessions r < 0 then Inl (refuse malformed) else Inr r)"

record participation_limit = provenance +
  maximum_participation :: string

definition mk_participation_limit :: "participation_limit \<Rightarrow> participation_limit xres" where
  "mk_participation_limit r =
     rbind (check_provenance r) (\<lambda>_.
     rbind (ledger_of_text (maximum_participation r)) (\<lambda>value.
       if value \<le> 0 \<or> value > 1 then Inl (refuse malformed) else Inr r))"

record spread_impact_model = provenance +
  half_spread_bps :: string
  impact_coefficient :: string

definition mk_spread_impact_model :: "spread_impact_model \<Rightarrow> spread_impact_model xres" where
  "mk_spread_impact_model r =
     rbind (check_provenance r) (\<lambda>_.
     rbind (map_res (\<lambda>raw. rbind (ledger_of_text raw) (\<lambda>x.
               if x < 0 then Inl (refuse malformed) else Inr ()))
             [half_spread_bps r, impact_coefficient r]) (\<lambda>_. Inr r))"

record residual_cash_disposition = provenance +
  disposition :: string

definition mk_residual_cash_disposition :: "residual_cash_disposition \<Rightarrow> residual_cash_disposition xres" where
  "mk_residual_cash_disposition r =
     rbind (check_provenance r) (\<lambda>_. rbind (canonical_identifier (disposition r)) (\<lambda>_. Inr r))"

record unsupported_event_outcome = provenance +
  outcome_action_type :: string
  terminal_value_per_share :: string

definition mk_unsupported_event_outcome :: "unsupported_event_outcome \<Rightarrow> unsupported_event_outcome xres" where
  "mk_unsupported_event_outcome r =
     rbind (check_provenance r) (\<lambda>_.
     rbind (canonical_identifier (outcome_action_type r)) (\<lambda>_.
     rbind (ledger_of_text (terminal_value_per_share r)) (\<lambda>value.
       if value < 0 then Inl (refuse malformed) else Inr r)))"

record withholding_policy = provenance +
  withholding_rate :: string

definition mk_withholding_policy :: "withholding_policy \<Rightarrow> withholding_policy xres" where
  "mk_withholding_policy r =
     rbind (check_provenance r) (\<lambda>_.
     rbind (ledger_of_text (withholding_rate r)) (\<lambda>rate.
       if rate < 0 \<or> rate > 1 then Inl (refuse malformed) else Inr r))"

definition FORBIDDEN_LEDGER_COORDINATE_TOKENS :: "string list" where
  "FORBIDDEN_LEDGER_COORDINATE_TOKENS =
    [''adj_close'', ''adjclose'', ''adjusted_close'', ''adjusted_volume'', ''cutoff_aware_total_return'',
     ''gross_return'', ''split_adjusted_close'', ''split_adjusted_price'', ''split_adjusted_volume'',
     ''split_adjustment_factor'', ''total_return'', ''total_return_index'']"

definition names_adjusted :: "string \<Rightarrow> bool" where
  "names_adjusted text = list_ex (\<lambda>token. text_in token (map to_lower text)) FORBIDDEN_LEDGER_COORDINATE_TOKENS"

definition RAW_LEDGER_COORDINATE_SYSTEM :: string where "RAW_LEDGER_COORDINATE_SYSTEM = ''raw_price''"

record ledger_coordinate_source = provenance +
  coordinate_system :: string

definition mk_ledger_coordinate_source :: "ledger_coordinate_source \<Rightarrow> ledger_coordinate_source xres" where
  "mk_ledger_coordinate_source r =
     rbind (check_provenance r) (\<lambda>_.
       if coordinate_system r \<noteq> RAW_LEDGER_COORDINATE_SYSTEM \<or> names_adjusted (record_id r)
       then Inl (refuse ''BLOCKED_UNREGISTERED_LEDGER_COORDINATE_SOURCE'')
       else Inr r)"

text \<open>
  The walk over a registry. \<open>shipped\<close> says whether the records are the shipped tuple itself;
  every shipped tuple is empty, so a registry that gets as far as the walk never is.
\<close>

fun registry_walk :: "bool \<Rightarrow> string \<Rightarrow> string list \<Rightarrow> 'a provenance_scheme list \<Rightarrow> unit xres" where
  "registry_walk shipped empty_state seen [] = Inr ()"
| "registry_walk shipped empty_state seen (r # rs) =
     (if record_id r \<in> set seen then Inl (refuse empty_state)
      else if shipped \<and> source_kind r \<notin> set REGISTERED_SOURCE_KINDS
      then Inl (refuse ''BLOCKED_UNREGISTERED_SOURCE_KIND'')
      else registry_walk shipped empty_state (record_id r # seen) rs)"

definition validate_registry :: "bool \<Rightarrow> string \<Rightarrow> 'a provenance_scheme list \<Rightarrow> unit xres" where
  "validate_registry shipped empty_state records =
     (if records = [] then Inl (refuse empty_state) else registry_walk shipped empty_state [] records)"

definition resolve_record :: "bool \<Rightarrow> string \<Rightarrow> string \<Rightarrow> 'a provenance_scheme list \<Rightarrow> 'a provenance_scheme xres" where
  "resolve_record shipped empty_state rid records =
     rbind (validate_registry shipped empty_state records) (\<lambda>_.
       let matches = filter (\<lambda>r. record_id r = rid) records
       in if length matches \<noteq> 1 then Inl (refuse empty_state) else Inr (hd matches))"

definition resolve_cost_rate_policy :: "string \<Rightarrow> cost_rate_policy list \<Rightarrow> cost_rate_policy xres" where
  "resolve_cost_rate_policy = resolve_record False ''BLOCKED_NO_REGISTERED_COST_RATE_POLICY''"

definition resolve_maximum_fill_deferral :: "string \<Rightarrow> maximum_fill_deferral list \<Rightarrow> maximum_fill_deferral xres" where
  "resolve_maximum_fill_deferral = resolve_record False ''BLOCKED_NO_REGISTERED_MAXIMUM_FILL_DEFERRAL''"

definition resolve_participation_limit :: "string \<Rightarrow> participation_limit list \<Rightarrow> participation_limit xres" where
  "resolve_participation_limit = resolve_record False ''BLOCKED_NO_REGISTERED_PARTICIPATION_LIMIT''"

definition resolve_spread_impact_model :: "string \<Rightarrow> spread_impact_model list \<Rightarrow> spread_impact_model xres" where
  "resolve_spread_impact_model = resolve_record False ''BLOCKED_NO_REGISTERED_SPREAD_IMPACT_MODEL''"

definition resolve_residual_cash_disposition ::
    "string \<Rightarrow> residual_cash_disposition list \<Rightarrow> residual_cash_disposition xres" where
  "resolve_residual_cash_disposition = resolve_record False ''BLOCKED_NO_REGISTERED_RESIDUAL_CASH_DISPOSITION''"

definition resolve_unsupported_event_outcome ::
    "string \<Rightarrow> unsupported_event_outcome list \<Rightarrow> unsupported_event_outcome xres" where
  "resolve_unsupported_event_outcome = resolve_record False ''BLOCKED_NO_REGISTERED_UNSUPPORTED_EVENT_OUTCOME''"

definition resolve_withholding_policy :: "string \<Rightarrow> withholding_policy list \<Rightarrow> withholding_policy xres" where
  "resolve_withholding_policy = resolve_record False ''BLOCKED_NO_REGISTERED_WITHHOLDING_POLICY''"

definition resolve_ledger_coordinate_source ::
    "string \<Rightarrow> ledger_coordinate_source list \<Rightarrow> ledger_coordinate_source xres" where
  "resolve_ledger_coordinate_source = resolve_record False ''BLOCKED_UNREGISTERED_LEDGER_COORDINATE_SOURCE''"

text \<open>The registries a run resolves against; the shipped ones are all empty.\<close>

record registry_overrides =
  cost_rate_policies :: "cost_rate_policy list"
  maximum_fill_deferrals :: "maximum_fill_deferral list"
  participation_limits :: "participation_limit list"
  spread_impact_models :: "spread_impact_model list"
  residual_cash_dispositions :: "residual_cash_disposition list"
  unsupported_event_outcomes :: "unsupported_event_outcome list"
  withholding_policies :: "withholding_policy list"
  ledger_coordinate_sources :: "ledger_coordinate_source list"

definition shipped_registries :: registry_overrides where
  "shipped_registries =
     \<lparr>cost_rate_policies = [], maximum_fill_deferrals = [], participation_limits = [],
      spread_impact_models = [], residual_cash_dispositions = [], unsupported_event_outcomes = [],
      withholding_policies = [], ledger_coordinate_sources = []\<rparr>"

end
