(* ===== verification/Execution_Fills.thy ===== *)
theory Execution_Fills
  imports Execution_Records
begin

text \<open>
  The execution kernel \<open>qme/quant/execution_v1.py\<close>, second part: the session types that keep a
  fill off the signal bar, the wall against adjusted prices, the declared availability of a price
  and the fill hierarchy, the signed deltas and their order, and the equal-weight targets.
\<close>

section \<open>Sessions\<close>

record session_ref =
  ref_calendar :: string
  ref_digest :: string
  ref_date :: int
  ref_ordinal :: int

definition mk_session_ref :: "session_ref \<Rightarrow> session_ref xres" where
  "mk_session_ref s =
     rbind (canonical_identifier (ref_calendar s)) (\<lambda>_.
     rbind (ungroup_sha256 (ref_digest s)) (\<lambda>_.
       if ref_ordinal s < 0 then Inl (refuse malformed) else Inr s))"

definition calendar_identity :: "session_ref \<Rightarrow> string \<times> string" where
  "calendar_identity s = (ref_calendar s, ref_digest s)"

definition as_exchange_session_ref :: "session_ref \<Rightarrow> exchange_session_ref xres" where
  "as_exchange_session_ref s =
     rbind (ungroup_sha256 (ref_digest s)) (\<lambda>sha.
     let_through (mk_exchange_session_ref (ref_calendar s) sha (ref_date s) (ref_ordinal s)))"

definition timing_refusal :: "string \<Rightarrow> session_ref \<Rightarrow> exec_exc" where
  "timing_refusal state s = refusal state None (Some (ref_date s)) None"

definition invalid_timing :: string where "invalid_timing = ''BLOCKED_INVALID_FILL_TIMING''"

record eligible_fill_session =
  signal_ref :: session_ref
  eligible_ref :: session_ref

definition derive_eligible_fill_session :: "session_ref \<Rightarrow> session_ref \<Rightarrow> eligible_fill_session xres" where
  "derive_eligible_fill_session sig el =
     (if calendar_identity sig \<noteq> calendar_identity el then Inl (refuse invalid_timing)
      else if ref_ordinal el = ref_ordinal sig then Inl (timing_refusal ''BLOCKED_SAME_SESSION_FILL'' el)
      else if ref_ordinal el \<noteq> ref_ordinal sig + 1 then Inl (timing_refusal invalid_timing el)
      else if ref_date el \<le> ref_date sig then Inl (timing_refusal invalid_timing el)
      else Inr \<lparr>signal_ref = sig, eligible_ref = el\<rparr>)"

definition FILL_REASONS :: "string list" where
  "FILL_REASONS = [''OFFICIAL_NEXT_SESSION_RAW_OPEN'', ''DECLARED_FIRST_REGULAR_SESSION_PRINT'',
     ''BOUNDED_NEXT_SESSION_DEFERRAL'', ''SOURCED_DELISTING_OR_UNSUPPORTED_EVENT'']"

record fill_session =
  eligible :: eligible_fill_session
  fill_ref :: session_ref
  fill_reason :: string

text \<open>The frozen validation runs in a \<open>try\<close> that also catches the kernel's own refusals.\<close>

definition frozen_timing :: "eligible_fill_session \<Rightarrow> session_ref \<Rightarrow> unit xres" where
  "frozen_timing el s =
     rbind (as_exchange_session_ref (signal_ref el)) (\<lambda>a.
     rbind (as_exchange_session_ref (eligible_ref el)) (\<lambda>b.
     rbind (as_exchange_session_ref s) (\<lambda>c.
     let_through (validate_fill_timing a b c))))"

definition catches :: "exec_exc \<Rightarrow> bool" where
  "catches x = (case x of Refused _ \<Rightarrow> True | Escaped e \<Rightarrow> caught_text e \<noteq> None)"

definition mk_fill_session :: "eligible_fill_session \<Rightarrow> session_ref \<Rightarrow> string \<Rightarrow> fill_session xres" where
  "mk_fill_session el s code =
     (if code \<notin> set FILL_REASONS then Inl (refuse ''BLOCKED_UNREGISTERED_FILL_REASON_CODE'')
      else if calendar_identity s \<noteq> calendar_identity (eligible_ref el) then Inl (refuse invalid_timing)
      else if ref_ordinal s < ref_ordinal (eligible_ref el) then Inl (timing_refusal invalid_timing s)
      else if ref_date s < ref_date (eligible_ref el) then Inl (timing_refusal invalid_timing s)
      else (case frozen_timing el s of
          Inl x \<Rightarrow> Inl (if catches x then timing_refusal invalid_timing s else x)
        | Inr _ \<Rightarrow> Inr \<lparr>eligible = el, fill_ref = s, fill_reason = code\<rparr>))"

definition deferral_sessions :: "fill_session \<Rightarrow> int" where
  "deferral_sessions f = ref_ordinal (fill_ref f) - ref_ordinal (eligible_ref (eligible f))"

section \<open>The wall against adjusted prices\<close>

definition assert_raw_ledger_evidence :: "market_evidence_binding \<Rightarrow> string \<Rightarrow> unit xres" where
  "assert_raw_ledger_evidence ev traded =
     (if list_ex names_adjusted [source_id ev, snapshot_id ev, security_id ev]
      then Inl (refuse_for ''BLOCKED_ADJUSTED_PRICE_LEDGER_INPUT'' traded)
      else Inr ())"

fun ledger_mark_set_loop :: "(string, raw_mark) dict \<Rightarrow> (string, raw_mark) dict \<Rightarrow> (string, raw_mark) dict xres" where
  "ledger_mark_set_loop acc [] = Inr acc"
| "ledger_mark_set_loop acc ((raw_symbol, mark) # rest) =
     rbind (canonical_identifier raw_symbol) (\<lambda>sec.
       if dict_get acc sec \<noteq> None then Inl (refuse_for ''BLOCKED_DUPLICATE_SECURITY_ROW'' sec)
       else if security_id (mark_evidence mark) \<noteq> sec then Inl (refuse_for malformed sec)
       else rbind (assert_raw_ledger_evidence (mark_evidence mark) sec) (\<lambda>_.
         ledger_mark_set_loop (dict_set acc sec mark) rest))"

definition mk_ledger_mark_set :: "(string, raw_mark) dict \<Rightarrow> (string, raw_mark) dict xres" where
  "mk_ledger_mark_set marks = ledger_mark_set_loop [] marks"

definition require_mark :: "(string, raw_mark) dict \<Rightarrow> string \<Rightarrow> int option \<Rightarrow> raw_mark xres" where
  "require_mark marks sec session = (case dict_get marks sec of
     None \<Rightarrow> Inl (refusal ''BLOCKED_MISSING_HELD_RAW_MARK'' (Some sec) session None)
   | Some m \<Rightarrow> Inr m)"

section \<open>Declared availability and the fill hierarchy\<close>

record fill_price_availability =
  avail_security :: string
  official_open :: bool
  regular_print :: bool
  halted :: bool
  delisted :: bool
  registered_outcome_id :: "string option"

definition priced :: "fill_price_availability \<Rightarrow> bool" where
  "priced a = (official_open a \<or> regular_print a)"

definition optional_identifier :: "string option \<Rightarrow> unit xres" where
  "optional_identifier v = (case v of None \<Rightarrow> Inr () | Some t \<Rightarrow> rbind (canonical_identifier t) (\<lambda>_. Inr ()))"

definition mk_fill_price_availability :: "fill_price_availability \<Rightarrow> fill_price_availability xres" where
  "mk_fill_price_availability a =
     rbind (canonical_identifier (avail_security a)) (\<lambda>_.
     rbind (optional_identifier (registered_outcome_id a)) (\<lambda>_.
       if halted a \<and> priced a \<or> delisted a \<and> priced a
       then Inl (refuse_for ''BLOCKED_CONTRADICTORY_FILL_AVAILABILITY'' (avail_security a))
       else Inr a))"

definition resolve_fill_reason ::
    "fill_price_availability \<Rightarrow> int \<Rightarrow> string option \<Rightarrow> registry_overrides \<Rightarrow> string \<Rightarrow> int \<Rightarrow> string xres" where
  "resolve_fill_reason a deferral bound_id registries stage session =
     (let refuse_here = (\<lambda>state. Inl (refusal state (Some (avail_security a)) (Some session) (Some stage))) in
      if delisted a
      then (case registered_outcome_id a of
          None \<Rightarrow> refuse_here ''BLOCKED_DELISTING_BETWEEN_SIGNAL_AND_FILL''
        | Some rid \<Rightarrow> rbind (resolve_unsupported_event_outcome rid (unsupported_event_outcomes registries))
            (\<lambda>_. Inr ''SOURCED_DELISTING_OR_UNSUPPORTED_EVENT''))
      else if deferral = 0 \<and> official_open a then Inr ''OFFICIAL_NEXT_SESSION_RAW_OPEN''
      else if deferral = 0 \<and> regular_print a then Inr ''DECLARED_FIRST_REGULAR_SESSION_PRINT''
      else if \<not> priced a
      then (if halted a then refuse_here ''BLOCKED_HALTED_SECURITY_NO_REGULAR_SESSION_PRINT''
            else refuse_here ''BLOCKED_MISSING_OFFICIAL_RAW_OPEN'')
      else (case bound_id of
          None \<Rightarrow> refuse_here ''BLOCKED_NO_REGISTERED_MAXIMUM_FILL_DEFERRAL''
        | Some rid \<Rightarrow>
            rbind (resolve_maximum_fill_deferral rid (maximum_fill_deferrals registries)) (\<lambda>bound.
              if deferral > maximum_deferral_sessions bound
              then refuse_here ''BLOCKED_UNAVAILABLE_FILL_AFTER_REGISTERED_BOUND''
              else Inr ''BOUNDED_NEXT_SESSION_DEFERRAL'')))"

section \<open>Signed deltas\<close>

record signed_target_delta =
  delta_security :: string
  delta_raw_shares :: string
  delta_price :: raw_execution_price

definition mk_signed_target_delta :: "signed_target_delta \<Rightarrow> signed_target_delta xres" where
  "mk_signed_target_delta d =
     rbind (canonical_identifier (delta_security d)) (\<lambda>sec.
       if security_id (price_evidence (delta_price d)) \<noteq> sec then Inl (refuse_for malformed sec)
       else rbind (assert_raw_ledger_evidence (price_evidence (delta_price d)) sec) (\<lambda>_.
         rbind (ledger_of_text (delta_raw_shares d)) (\<lambda>delta.
         rbind (require_share_quantum delta (Some sec)) (\<lambda>_.
           if delta = 0 then Inl (refuse_for malformed sec) else Inr d))))"

definition delta_of :: "signed_target_delta \<Rightarrow> rat xres" where
  "delta_of d = ledger_of_text (delta_raw_shares d)"

fun declared_deltas_loop :: "string list \<Rightarrow> signed_target_delta list \<Rightarrow> unit xres" where
  "declared_deltas_loop seen [] = Inr ()"
| "declared_deltas_loop seen (d # ds) =
     (if delta_security d \<in> set seen
      then Inl (refuse_for ''BLOCKED_DUPLICATE_SECURITY_ROW'' (delta_security d))
      else declared_deltas_loop (delta_security d # seen) ds)"

definition mk_declared_signed_deltas :: "signed_target_delta list \<Rightarrow> signed_target_delta list xres" where
  "mk_declared_signed_deltas ds =
     (if ds = [] then Inl (refuse malformed)
      else rbind (declared_deltas_loop [] ds) (\<lambda>_. Inr ds))"

text \<open>All sells, then all buys; within each stage by security.\<close>

definition fill_key :: "signed_target_delta \<Rightarrow> ((nat \<times> string) \<times> signed_target_delta) xres" where
  "fill_key d = rbind (delta_of d) (\<lambda>x. Inr ((if x < 0 then 0 else 1, delta_security d), d))"

definition order_fills :: "signed_target_delta list \<Rightarrow> signed_target_delta list xres" where
  "order_fills ds = rbind (map_res fill_key ds) (\<lambda>ks. Inr (map snd (sort_key fst ks)))"

section \<open>Equal-weight targets\<close>

record equal_weight_program =
  program_selected :: "string list"
  program_prices :: "(string, raw_execution_price) dict"

fun selection_loop :: "string list \<Rightarrow> string list \<Rightarrow> unit xres" where
  "selection_loop seen [] = Inr ()"
| "selection_loop seen (s # ss) =
     rbind (canonical_identifier s) (\<lambda>_.
       if s \<in> set seen then Inl (refuse_for ''BLOCKED_DUPLICATE_SECURITY_ROW'' s)
       else selection_loop (s # seen) ss)"

fun program_prices_loop ::
    "(string, raw_execution_price) dict \<Rightarrow> (string, raw_execution_price) dict \<Rightarrow> (string, raw_execution_price) dict xres" where
  "program_prices_loop acc [] = Inr acc"
| "program_prices_loop acc ((raw_symbol, price) # rest) =
     rbind (canonical_identifier raw_symbol) (\<lambda>sec.
       if security_id (price_evidence price) \<noteq> sec then Inl (refuse_for malformed sec)
       else rbind (assert_raw_ledger_evidence (price_evidence price) sec) (\<lambda>_.
         program_prices_loop (dict_set acc sec price) rest))"

definition mk_equal_weight_program :: "string list \<Rightarrow> (string, raw_execution_price) dict \<Rightarrow> equal_weight_program xres" where
  "mk_equal_weight_program selected prices =
     (if selected = [] then Inl (refuse malformed)
      else rbind (selection_loop [] selected) (\<lambda>_.
        rbind (program_prices_loop [] prices) (\<lambda>ps.
          if list_ex (\<lambda>s. dict_get ps s = None) selected then Inl (refuse malformed)
          else Inr \<lparr>program_selected = selected, program_prices = ps\<rparr>)))"

text \<open>\<open>Decimal(numerator) / Decimal(denominator)\<close> at the working precision.\<close>

definition decimal_from_fraction :: "rat \<Rightarrow> rat xres" where
  "decimal_from_fraction value =
     (let (n, d) = quotient_of value in let_through (ddiv DECIMAL_PRECISION (of_int n) (of_int d)))"

definition fractional_part_at :: "rat \<Rightarrow> rat \<Rightarrow> rat" where
  "fractional_part_at quantum position = position - of_int \<lfloor>position / quantum\<rfloor> * quantum"

definition equal_weight_target ::
    "equal_weight_program \<Rightarrow> (string, rat) dict \<Rightarrow> rat \<Rightarrow> rat \<Rightarrow> string \<Rightarrow> string \<Rightarrow> rat xres" where
  "equal_weight_target program held nav_minus quantum stage sec =
     (let residual = fractional_part_at quantum (dict_get_or held sec 0) in
      case dict_get (program_prices program) sec of
        None \<Rightarrow> Inl (Escaped KeyError)
      | Some observed \<Rightarrow>
          let price = price_value observed;
              budget = nav_minus / of_nat (length (program_selected program)) - residual * price;
              whole = of_int \<lfloor>budget / price / quantum\<rfloor> * quantum;
              target = residual + whole
          in if target < 0 then Inl (refusal ''BLOCKED_SHORT_POSITION'' (Some sec) None (Some stage))
             else if budget < 0 then Inr target
             else rbind (decimal_from_fraction budget) (\<lambda>b.
               rbind (let_through (round_long_target_shares (PDecimal b) observed (PDecimal quantum))) (\<lambda>kernel_units.
                 if kernel_units \<noteq> whole then Inl (refusal malformed (Some sec) None (Some stage))
                 else Inr target)))"

definition equal_weight_targets ::
    "equal_weight_program \<Rightarrow> (string, rat) dict \<Rightarrow> rat \<Rightarrow> rat \<Rightarrow> string \<Rightarrow> (string, rat) dict xres" where
  "equal_weight_targets program held nav_minus quantum stage =
     rbind (map_res (\<lambda>sec. rbind (equal_weight_target program held nav_minus quantum stage sec)
               (\<lambda>t. Inr (sec, t))) (program_selected program)) (\<lambda>selected_targets.
     Inr (foldl (\<lambda>ts (sec, quantity).
             if dict_get ts sec \<noteq> None then ts else dict_set ts sec (fractional_part_at quantum quantity))
           selected_targets held))"

fun deltas_loop ::
    "(string, rat) dict \<Rightarrow> (string, rat) dict \<Rightarrow> (string, raw_execution_price) dict \<Rightarrow> string
     \<Rightarrow> string list \<Rightarrow> signed_target_delta list xres" where
  "deltas_loop targets held prices stage [] = Inr []"
| "deltas_loop targets held prices stage (sec # rest) =
     (let delta = dict_get_or targets sec 0 - dict_get_or held sec 0 in
      if delta = 0 then deltas_loop targets held prices stage rest
      else (case dict_get prices sec of
          None \<Rightarrow> Inl (refusal malformed (Some sec) None (Some stage))
        | Some price \<Rightarrow>
            rbind (format_exact_fraction delta) (\<lambda>text.
            rbind (mk_signed_target_delta \<lparr>delta_security = sec, delta_raw_shares = text, delta_price = price\<rparr>) (\<lambda>d.
            rbind (deltas_loop targets held prices stage rest) (\<lambda>ds. Inr (d # ds))))))"

definition deltas_from_targets ::
    "(string, rat) dict \<Rightarrow> (string, rat) dict \<Rightarrow> (string, raw_execution_price) dict \<Rightarrow> string
     \<Rightarrow> signed_target_delta list xres" where
  "deltas_from_targets targets held prices stage =
     deltas_loop targets held prices stage (sorted_symbols (map fst targets))"

end
