(* ===== verification/Execution_Engine.thy ===== *)
theory Execution_Engine
  imports Execution_Fills
begin

text \<open>
  The rebalance stage of the execution kernel \<open>qme/quant/execution_v1.py\<close> under the excluded
  regulatory-fee mode: the equal-weight solve with its negative-cash repair, the batch execution,
  the fill-by-fill replay that must agree with it, the published ledger and the session close. The
  posted-fee mode, fill identities, digests and lineage are left out; ratios stay rationals. The
  repair is a \<open>while True\<close> loop, so its value is \<open>None\<close> where it would not return.
\<close>

section \<open>Stages and programs\<close>

datatype target_specification = DeclaredDeltas "signed_target_delta list" | EqualWeight equal_weight_program

record rebalance_stage =
  rebalance_id :: string
  stage_fill :: fill_session
  stage_marks :: "(string, raw_mark) dict"
  stage_target :: target_specification
  stage_trade_date :: int
  stage_availability :: "(string, fill_price_availability) dict"
  stage_order_quantum :: string
  declared_external_flow :: string
  actions_effective :: "string list"
  deferral_bound_id :: "string option"
  participation_limit_id :: "string option"
  spread_impact_model_id :: "string option"
  residual_disposition_id :: "string option"

fun availability_loop ::
    "string \<Rightarrow> (string, fill_price_availability) dict \<Rightarrow> (string, fill_price_availability) dict
     \<Rightarrow> (string, fill_price_availability) dict xres" where
  "availability_loop rid acc [] = Inr acc"
| "availability_loop rid acc ((raw, item) # rest) =
     rbind (canonical_identifier raw) (\<lambda>sec.
       if avail_security item \<noteq> sec then Inl (refusal malformed (Some sec) None (Some rid))
       else availability_loop rid (dict_set acc sec item) rest)"

definition mk_rebalance_stage :: "rebalance_stage \<Rightarrow> rebalance_stage xres" where
  "mk_rebalance_stage st =
     (let at_stage = (\<lambda>state. Inl (refusal state None None (Some (rebalance_id st)))) in
      rbind (canonical_identifier (rebalance_id st)) (\<lambda>_.
      rbind (ledger_of_text (stage_order_quantum st)) (\<lambda>quantum.
      if quantum \<noteq> 1 then at_stage malformed
      else (case participation_limit_id st of
          None \<Rightarrow> at_stage ''BLOCKED_NO_REGISTERED_PARTICIPATION_LIMIT''
        | Some pid \<Rightarrow>
            rbind (canonical_identifier pid) (\<lambda>_.
            rbind (availability_loop (rebalance_id st) [] (stage_availability st)) (\<lambda>av.
            rbind (map_res canonical_identifier (actions_effective st)) (\<lambda>_.
            Inr (st\<lparr>stage_availability := av\<rparr>))))))))"

text \<open>What a rebalance reads of its program.\<close>

record engine_program =
  program_id :: string
  whole_share_mode :: bool
  engine_cost_policy_id :: string
  engine_tax_policy :: transaction_tax_policy
  engine_registries :: registry_overrides

definition program_rate :: "engine_program \<Rightarrow> rat xres" where
  "program_rate p =
     rbind (resolve_cost_rate_policy (engine_cost_policy_id p) (cost_rate_policies (engine_registries p))) policy_rate_bps"

definition stage_session :: "rebalance_stage \<Rightarrow> int" where
  "stage_session st = ref_date (fill_ref (stage_fill st))"

definition stage_refusal :: "string \<Rightarrow> rebalance_stage \<Rightarrow> exec_exc" where
  "stage_refusal state st = refusal state None (Some (stage_session st)) (Some (rebalance_id st))"

definition engine_portfolio ::
    "rat \<Rightarrow> (string, rat) dict \<Rightarrow> rat \<Rightarrow> (string, raw_mark) dict \<Rightarrow> string \<Rightarrow> int \<Rightarrow> portfolio_state xres" where
  "engine_portfolio c held recv marks stage session =
     rbind (map_res (\<lambda>(sec, q). require_mark marks sec (Some session)) held) (\<lambda>_.
     if c < 0 then Inl (refusal ''BLOCKED_NEGATIVE_POST_TRADE_CASH'' None (Some session) (Some stage))
     else translated_to (refusal malformed None (Some session) (Some stage))
       (mk_portfolio_state (PDecimal c) (map (\<lambda>(s, q). (s, PDecimal q)) held) marks (PDecimal recv)))"

section \<open>Execution\<close>

definition engine_trade :: "string \<Rightarrow> signed_target_delta \<Rightarrow> trade xres" where
  "engine_trade stage d =
     rbind (delta_of d) (\<lambda>delta.
     translated_to (refusal malformed (Some (delta_security d)) None (Some stage))
       (mk_trade (delta_security d) (PDecimal delta) (delta_price d)))"

definition kernel_error_state :: "string \<Rightarrow> string" where
  "kernel_error_state text =
     (if text_in ''negative cash'' text \<or> text_in ''no-margin cash'' text then ''BLOCKED_NEGATIVE_POST_TRADE_CASH''
      else if text_in ''short position'' text then ''BLOCKED_SHORT_POSITION''
      else if text_in ''not representable at quantum'' text then ''BLOCKED_NONREPRESENTABLE_SHARE_QUANTITY''
      else malformed)"

definition translate_kernel_error :: "rebalance_stage \<Rightarrow> 'a res \<Rightarrow> 'a xres" where
  "translate_kernel_error st r = (case r of Inr a \<Rightarrow> Inr a
     | Inl e \<Rightarrow> (case caught_text e of None \<Rightarrow> Inl (Escaped e)
         | Some text \<Rightarrow> Inl (stage_refusal (kernel_error_state text) st)))"

definition engine_rebalance ::
    "engine_program \<Rightarrow> rat \<Rightarrow> rebalance_stage \<Rightarrow> portfolio_state \<Rightarrow> trade list \<Rightarrow> rebalance_result res" where
  "engine_rebalance p bps st before trades =
     rebalance before trades (PDecimal bps) (engine_tax_policy p) (PInt 0) (Some (stage_marks st)) None"

text \<open>The batch; a declared external flow is refused before and inside the kernel.\<close>

definition execute_fills ::
    "engine_program \<Rightarrow> rebalance_stage \<Rightarrow> portfolio_state \<Rightarrow> signed_target_delta list \<Rightarrow> rebalance_result xres" where
  "execute_fills p st before ordered =
     rbind (ledger_of_text (declared_external_flow st)) (\<lambda>flow.
     if flow \<noteq> 0 then Inl (stage_refusal ''BLOCKED_UNSUPPORTED_EXTERNAL_FLOW'' st)
     else
     rbind (map_res (engine_trade (rebalance_id st)) ordered) (\<lambda>trades.
     rbind (program_rate p) (\<lambda>bps.
     case engine_rebalance p bps st before trades of
       Inl (Raised c m) \<Rightarrow> Inl (stage_refusal ''BLOCKED_UNSUPPORTED_EXTERNAL_FLOW'' st)
     | r \<Rightarrow> translate_kernel_error st r)))"

record executed_fill =
  fill_index :: nat
  fill_security :: string
  fill_is_sell :: bool
  fill_delta :: string
  fill_price :: string
  fill_gross :: string
  fill_cost :: string
  fill_tax :: string
  cash_after_fill :: string
  positions_after_fill :: "(string, string) dict"
  fill_reason_code :: string

definition format_positions :: "(string, rat) dict \<Rightarrow> (string, string) dict xres" where
  "format_positions held =
     map_res (\<lambda>sec. rbind (format_ledger (PDecimal (dict_get_or held sec 0))) (\<lambda>t. Inr (sec, t)))
       (sorted_symbols (map fst held))"

definition integral_custody :: "rebalance_stage \<Rightarrow> (string, rat) dict \<Rightarrow> unit xres" where
  "integral_custody st held =
     rbind (map_res (\<lambda>(sec, q). if q \<noteq> of_int \<lfloor>q\<rfloor>
              then Inl (refusal ''BLOCKED_NONREPRESENTABLE_SHARE_QUANTITY'' (Some sec) None (Some (rebalance_id st)))
              else Inr ()) held) (\<lambda>_. Inr ())"

definition replay_one ::
    "engine_program \<Rightarrow> rebalance_stage \<Rightarrow> (string, string) dict \<Rightarrow> executed_fill list \<times> portfolio_state
     \<Rightarrow> signed_target_delta \<Rightarrow> (executed_fill list \<times> portfolio_state) xres" where
  "replay_one p st reasons = (\<lambda>(rows, state) d.
     rbind (engine_trade (rebalance_id st) d) (\<lambda>t.
     rbind (program_rate p) (\<lambda>bps.
     rbind (translate_kernel_error st (engine_rebalance p bps st state [t])) (\<lambda>step.
     let after = result_after step in
     rbind (if whole_share_mode p then integral_custody st (positions after) else Inr ()) (\<lambda>_.
     rbind (delta_of d) (\<lambda>delta.
     rbind (map_res (\<lambda>x. format_ledger (PDecimal x)) [delta, price_value (delta_price d)]) (\<lambda>ps.
     rbind (let_through (gross_notional DEFAULT_PRECISION t)) (\<lambda>gross.
     rbind (map_res (\<lambda>x. format_ledger (PDecimal x))
              [gross, transaction_cost step, transaction_taxes step, cash after]) (\<lambda>as.
     rbind (format_positions (positions after)) (\<lambda>held.
     rbind (case dict_get reasons (delta_security d) of None \<Rightarrow> Inl (Escaped KeyError) | Some r \<Rightarrow> Inr r) (\<lambda>reason.
     Inr (rows @ [\<lparr>fill_index = length rows, fill_security = delta_security d, fill_is_sell = (delta < 0),
                   fill_delta = ps ! 0, fill_price = ps ! 1, fill_gross = as ! 0, fill_cost = as ! 1, fill_tax = as ! 2,
                   cash_after_fill = as ! 3, positions_after_fill = held, fill_reason_code = reason\<rparr>], after))))))))))))"

definition replay_fills ::
    "engine_program \<Rightarrow> rebalance_stage \<Rightarrow> (string, string) dict \<Rightarrow> portfolio_state \<Rightarrow> signed_target_delta list
     \<Rightarrow> (executed_fill list \<times> portfolio_state) xres" where
  "replay_fills p st reasons before ordered = fold_res (replay_one p st reasons) ([], before) ordered"

text \<open>The residual of the self-financing identity, or \<open>None\<close> where it does not apply.\<close>

definition engine_self_financing :: "rebalance_result \<Rightarrow> (string option) xres" where
  "engine_self_financing r = (case self_financing_error DEFAULT_PRECISION r of
     Inl (ValueError _) \<Rightarrow> Inr None
   | Inl e \<Rightarrow> Inl (Escaped e)
   | Inr residual \<Rightarrow> rbind (quantize_ledger residual) (\<lambda>q.
       rbind (format_ledger (PDecimal q)) (\<lambda>t. Inr (Some t))))"

section \<open>The equal-weight solve\<close>

definition engine_candidates ::
    "string list \<Rightarrow> (string, rat) dict \<Rightarrow> rat \<Rightarrow> (string, rat) dict \<Rightarrow> string list" where
  "engine_candidates selected held quantum ts =
     filter (\<lambda>sec. dict_get_or ts sec 0 \<ge> fractional_part_at quantum (dict_get_or held sec 0) + quantum) selected"

definition engine_key :: "(string, raw_execution_price) dict \<Rightarrow> (string, rat) dict \<Rightarrow> string \<Rightarrow> rat \<times> string" where
  "engine_key prices ts sec =
     (dict_get_or ts sec 0 * (case dict_get prices sec of None \<Rightarrow> 0 | Some p \<Rightarrow> price_value p), sec)"

text \<open>One round: the deltas when the kernel posts them, else the targets of the next round.\<close>

definition solve_round ::
    "engine_program \<Rightarrow> rebalance_stage \<Rightarrow> portfolio_state \<Rightarrow> equal_weight_program \<Rightarrow> (string, rat) dict \<Rightarrow> rat
     \<Rightarrow> (string, rat) dict \<Rightarrow> (signed_target_delta list + (string, rat) dict) xres" where
  "solve_round p st before prog held quantum ts =
     rbind (deltas_from_targets ts held (program_prices prog) (rebalance_id st)) (\<lambda>ds.
     if ds = [] then Inl (refusal malformed None None (Some (rebalance_id st)))
     else
     rbind (order_fills ds) (\<lambda>ordered.
     case execute_fills p st before ordered of
       Inr _ \<Rightarrow> Inr (Inl ds)
     | Inl (Refused x) \<Rightarrow>
         if xe_state x \<noteq> ''BLOCKED_NEGATIVE_POST_TRADE_CASH'' then Inl (Refused x)
         else (case engine_candidates (program_selected prog) held quantum ts of
             [] \<Rightarrow> Inl (refusal ''BLOCKED_NEGATIVE_POST_TRADE_CASH'' None None (Some (rebalance_id st)))
           | c # cs \<Rightarrow>
               let chosen = max_by (engine_key (program_prices prog) ts) c cs
               in Inr (Inr (dict_set ts chosen (dict_get_or ts chosen 0 - quantum))))
     | Inl e \<Rightarrow> Inl e))"

partial_function (option) solve_with_negative_cash_repair ::
    "engine_program \<Rightarrow> rebalance_stage \<Rightarrow> portfolio_state \<Rightarrow> equal_weight_program \<Rightarrow> (string, rat) dict \<Rightarrow> rat
     \<Rightarrow> (string, rat) dict \<Rightarrow> (signed_target_delta list xres) option" where
  "solve_with_negative_cash_repair p st before prog held quantum ts =
     (case solve_round p st before prog held quantum ts of
        Inl e \<Rightarrow> Some (Inl e)
      | Inr (Inl ds) \<Rightarrow> Some (Inr ds)
      | Inr (Inr us) \<Rightarrow> solve_with_negative_cash_repair p st before prog held quantum us)"

section \<open>The rebalance stage\<close>

record published_rebalance =
  pub_rebalance :: string
  pub_nav_minus :: string
  pub_gross_notional :: string
  pub_cost :: string
  pub_tax :: string
  pub_regulatory_fees :: string
  pub_fills :: "executed_fill list"
  pub_cash :: string
  pub_positions :: "(string, string) dict"
  pub_receivables :: string
  pub_nav_plus :: string
  pub_residual :: "string option"
  pub_gtn_ratio :: rat
  pub_turnover :: rat

record lot_event =
  lot_security :: string
  lot_trade_date :: int
  lot_is_sell :: bool
  lot_shares :: string
  lot_price :: string
  lot_fees :: string

record stage_state =
  st_cash :: rat
  st_positions :: "(string, rat) dict"
  st_receivables :: rat
  st_marks :: "(string, raw_mark) dict"

definition lot_event_of :: "rebalance_stage \<Rightarrow> executed_fill \<Rightarrow> lot_event xres" where
  "lot_event_of st row =
     rbind (map_res ledger_of_text [fill_delta row, fill_cost row, fill_tax row]) (\<lambda>vs.
     rbind (format_ledger (PDecimal (dec DEFAULT_PRECISION \<bar>vs ! 0\<bar>))) (\<lambda>shares.
     rbind (format_ledger (PDecimal (dec DEFAULT_PRECISION (dec DEFAULT_PRECISION (vs ! 1 + vs ! 2) + 0)))) (\<lambda>fees.
     Inr \<lparr>lot_security = fill_security row, lot_trade_date = stage_trade_date st, lot_is_sell = fill_is_sell row,
          lot_shares = shares, lot_price = fill_price row, lot_fees = fees\<rparr>)))"

definition same_dict :: "(string, 'v) dict \<Rightarrow> (string, 'v) dict \<Rightarrow> bool" where
  "same_dict a b = (set (map fst a) = set (map fst b) \<and> list_all (\<lambda>k. dict_get a k = dict_get b k) (map fst a))"

definition optional_resolved :: "(string \<Rightarrow> 'a xres) \<Rightarrow> string option \<Rightarrow> unit xres" where
  "optional_resolved resolve rid = (case rid of None \<Rightarrow> Inr () | Some t \<Rightarrow> rbind (resolve t) (\<lambda>_. Inr ()))"

text \<open>What a stage must name and resolve before it may trade.\<close>

definition stage_admitted :: "engine_program \<Rightarrow> rebalance_stage \<Rightarrow> unit xres" where
  "stage_admitted p st =
     (let regs = engine_registries p in
      if actions_effective st \<noteq> [] then Inl (stage_refusal ''BLOCKED_CORPORATE_ACTION_ON_FILL_DATE'' st)
      else
      rbind (optional_resolved (\<lambda>rid. resolve_spread_impact_model rid (spread_impact_models regs)) (spread_impact_model_id st)) (\<lambda>_.
      rbind (optional_resolved (\<lambda>rid. resolve_residual_cash_disposition rid (residual_cash_dispositions regs))
               (residual_disposition_id st)) (\<lambda>_.
      (case participation_limit_id st of
         None \<Rightarrow> Inl (stage_refusal ''BLOCKED_NO_REGISTERED_PARTICIPATION_LIMIT'' st)
       | Some rid \<Rightarrow> rbind (resolve_participation_limit rid (participation_limits regs)) (\<lambda>_. Inr ())))))"

definition fill_reason_of :: "engine_program \<Rightarrow> rebalance_stage \<Rightarrow> signed_target_delta \<Rightarrow> (string \<times> string) xres" where
  "fill_reason_of p st d =
     (let sec = delta_security d;
          here = (\<lambda>state. Inl (refusal state (Some sec) (Some (stage_session st)) (Some (rebalance_id st))))
      in case dict_get (stage_availability st) sec of
           None \<Rightarrow> here ''BLOCKED_MISSING_OFFICIAL_RAW_OPEN''
         | Some a \<Rightarrow>
             rbind (resolve_fill_reason a (deferral_sessions (stage_fill st)) (deferral_bound_id st) (engine_registries p)
                      (rebalance_id st) (stage_session st)) (\<lambda>reason.
             if reason \<noteq> fill_reason (stage_fill st) then here ''BLOCKED_UNREGISTERED_FILL_REASON_CODE''
             else Inr (sec, reason)))"

text \<open>The signed deltas of the stage: declared, or solved with the repair.\<close>

definition stage_deltas ::
    "engine_program \<Rightarrow> rebalance_stage \<Rightarrow> portfolio_state \<Rightarrow> (string, rat) dict \<Rightarrow> rat \<Rightarrow> (signed_target_delta list xres) option" where
  "stage_deltas p st before held nav_minus = (case stage_target st of
     DeclaredDeltas ds \<Rightarrow> Some (Inr ds)
   | EqualWeight prog \<Rightarrow>
       (case rbind (ledger_of_text (stage_order_quantum st)) (\<lambda>quantum.
               rbind (equal_weight_targets prog held nav_minus quantum (rebalance_id st)) (\<lambda>ts. Inr (quantum, ts))) of
          Inl e \<Rightarrow> Some (Inl e)
        | Inr (quantum, ts) \<Rightarrow> solve_with_negative_cash_repair p st before prog held quantum ts))"

definition published_rebalance_of ::
    "rebalance_stage \<Rightarrow> rat \<Rightarrow> rebalance_result \<Rightarrow> executed_fill list \<Rightarrow> published_rebalance xres" where
  "published_rebalance_of st nav_minus base rows =
     (let after = result_after base in
      rbind (engine_self_financing base) (\<lambda>residual.
      rbind (map_res (\<lambda>x. format_ledger (PDecimal x))
               [nav_minus, gross_trade_notional base, transaction_cost base, transaction_taxes base, 0, cash after]) (\<lambda>as.
      rbind (format_positions (positions after)) (\<lambda>held.
      rbind (format_ledger (PDecimal (receivables after))) (\<lambda>recv.
      rbind (let_through (nav after)) (\<lambda>nav_plus.
      rbind (format_ledger (PDecimal nav_plus)) (\<lambda>navt.
      Inr \<lparr>pub_rebalance = rebalance_id st, pub_nav_minus = as ! 0, pub_gross_notional = as ! 1, pub_cost = as ! 2,
           pub_tax = as ! 3, pub_regulatory_fees = as ! 4, pub_fills = rows, pub_cash = as ! 5, pub_positions = held,
           pub_receivables = recv, pub_nav_plus = navt, pub_residual = residual,
           pub_gtn_ratio = gtn_ratio base, pub_turnover = one_way_turnover base\<rparr>)))))))"

text \<open>From the deltas on: the reasons, the batch, the replay and its agreement, the ledger.\<close>

definition post_deltas ::
    "engine_program \<Rightarrow> rebalance_stage \<Rightarrow> portfolio_state \<Rightarrow> rat \<Rightarrow> signed_target_delta list
     \<Rightarrow> (stage_state \<times> published_rebalance \<times> lot_event list) xres" where
  "post_deltas p st before nav_minus candidate =
     rbind (order_fills candidate) (\<lambda>ordered.
     rbind (map_res (fill_reason_of p st) ordered) (\<lambda>reasons.
     rbind (execute_fills p st before ordered) (\<lambda>base.
     rbind (replay_fills p st reasons before ordered) (\<lambda>(rows, replayed).
     if \<not> same_dict (positions replayed) (positions (result_after base)) \<or> cash replayed \<noteq> cash (result_after base)
     then Inl (refusal malformed None None (Some (rebalance_id st)))
     else
     rbind (published_rebalance_of st nav_minus base rows) (\<lambda>ledger.
     rbind (map_res (lot_event_of st) rows) (\<lambda>lots.
     let after = result_after base in
     Inr (\<lparr>st_cash = cash after, st_positions = positions after, st_receivables = receivables after,
           st_marks = stage_marks st\<rparr>, ledger, lots)))))))"

definition execute_rebalance_stage ::
    "engine_program \<Rightarrow> rebalance_stage \<Rightarrow> stage_state \<Rightarrow> ((stage_state \<times> published_rebalance \<times> lot_event list) xres) option" where
  "execute_rebalance_stage p st s =
     (case rbind (stage_admitted p st) (\<lambda>_.
           rbind (engine_portfolio (st_cash s) (st_positions s) (st_receivables s) (stage_marks st) (rebalance_id st)
                    (stage_session st)) (\<lambda>before.
           rbind (let_through (nav before)) (\<lambda>nav_minus. Inr (before, nav_minus)))) of
        Inl e \<Rightarrow> Some (Inl e)
      | Inr (before, nav_minus) \<Rightarrow>
          (case stage_deltas p st before (st_positions s) nav_minus of
             None \<Rightarrow> None
           | Some r \<Rightarrow> Some (rbind r (post_deltas p st before nav_minus))))"

section \<open>The session close\<close>

record receivable_settlement =
  settlement_event :: string
  settlement_amount :: string

definition mk_receivable_settlement :: "receivable_settlement \<Rightarrow> receivable_settlement xres" where
  "mk_receivable_settlement r =
     rbind (canonical_identifier (settlement_event r)) (\<lambda>_.
     rbind (ledger_of_text (settlement_amount r)) (\<lambda>x. if x < 0 then Inl (refuse malformed) else Inr r))"

record session_close_stage =
  close_stage :: string
  close_session :: session_ref
  close_marks :: "(string, raw_mark) dict"
  receivable_settlements :: "receivable_settlement list"

fun settlements_loop :: "string \<Rightarrow> string list \<Rightarrow> receivable_settlement list \<Rightarrow> unit xres" where
  "settlements_loop sid seen [] = Inr ()"
| "settlements_loop sid seen (r # rs) =
     (if settlement_event r \<in> set seen then Inl (refusal ''BLOCKED_DOUBLE_BOOKED_EVENT'' None None (Some sid))
      else settlements_loop sid (settlement_event r # seen) rs)"

definition mk_session_close_stage :: "session_close_stage \<Rightarrow> session_close_stage xres" where
  "mk_session_close_stage st =
     rbind (canonical_identifier (close_stage st)) (\<lambda>_.
     rbind (settlements_loop (close_stage st) [] (receivable_settlements st)) (\<lambda>_. Inr st))"

record session_close_record =
  closed_stage :: string
  closed_session :: session_ref
  closed_settlements :: "(string \<times> string) list"
  closed_cash :: string
  closed_receivables :: string
  closed_nav :: string

definition settle_one :: "rat \<Rightarrow> receivable_settlement \<Rightarrow> rat xres" where
  "settle_one settled r =
     rbind (ledger_of_text (settlement_amount r)) (\<lambda>x. quantize_ledger (dec DEFAULT_PRECISION (settled + x)))"

definition apply_session_close :: "session_close_stage \<Rightarrow> stage_state \<Rightarrow> (stage_state \<times> session_close_record) xres" where
  "apply_session_close st s =
     rbind (fold_res settle_one 0 (receivable_settlements st)) (\<lambda>settled.
     if settled > st_receivables s
     then Inl (refusal malformed None (Some (ref_date (close_session st))) (Some (close_stage st)))
     else
     rbind (quantize_ledger (dec DEFAULT_PRECISION (st_cash s + settled))) (\<lambda>cash_after.
     rbind (quantize_ledger (dec DEFAULT_PRECISION (st_receivables s - settled))) (\<lambda>recv_after.
     rbind (engine_portfolio cash_after (st_positions s) recv_after (close_marks st) (close_stage st)
              (ref_date (close_session st))) (\<lambda>state.
     rbind (map_res (\<lambda>r. rbind (format_ledger (PStr (settlement_amount r))) (\<lambda>t. Inr (t, settlement_event r)))
              (sort_key settlement_event (receivable_settlements st))) (\<lambda>lines.
     rbind (let_through (nav state)) (\<lambda>nav_after.
     rbind (map_res (\<lambda>x. format_ledger (PDecimal x)) [cash_after, recv_after, nav_after]) (\<lambda>as.
     Inr (\<lparr>st_cash = cash_after, st_positions = st_positions s, st_receivables = recv_after, st_marks = close_marks st\<rparr>,
          \<lparr>closed_stage = close_stage st, closed_session = close_session st, closed_settlements = lines,
           closed_cash = as ! 0, closed_receivables = as ! 1, closed_nav = as ! 2\<rparr>))))))))"

end
