(* ===== verification/Execution_Actions.thy ===== *)
theory Execution_Actions
  imports Execution_Engine
begin

text \<open>
  The corporate-action stage of the execution kernel \<open>qme/quant/execution_v1.py\<close>, the declared program
  with its checks, and the walk over its stages. The publication of the lots and of the manifest
  after the walk is left out; a program of this model has the excluded fee mode.
\<close>

section \<open>Terms\<close>

record split_term =
  split_term_event :: string
  split_term_security :: string
  split_term_factor :: string

record dividend_term =
  dividend_event :: string
  dividend_security :: string
  dividend_basis :: string
  dividend_cash :: string

record payment_term =
  payment_event :: string
  paid_dividend :: string
  payment_ref :: session_ref

record unsupported_term =
  unsupported_event :: string
  unsupported_security :: string
  unsupported_type :: string
  unsupported_outcome :: "string option"

definition mk_split_term :: "split_term \<Rightarrow> split_term xres" where
  "mk_split_term t =
     rbind (canonical_identifier (split_term_event t)) (\<lambda>_.
     rbind (canonical_identifier (split_term_security t)) (\<lambda>_.
     rbind (ledger_of_text (split_term_factor t)) (\<lambda>x.
     if x \<le> 0 then Inl (refuse_for malformed (split_term_security t)) else Inr t)))"

definition mk_dividend_term :: "dividend_term \<Rightarrow> dividend_term xres" where
  "mk_dividend_term t =
     rbind (canonical_identifier (dividend_event t)) (\<lambda>_.
     rbind (canonical_identifier (dividend_security t)) (\<lambda>_.
     if dividend_basis t \<noteq> ''POST_SPLIT'' then Inl (refuse_for malformed (dividend_security t))
     else
     rbind (ledger_of_text (dividend_cash t)) (\<lambda>x.
     if x < 0 then Inl (refuse_for malformed (dividend_security t)) else Inr t)))"

definition mk_payment_term :: "payment_term \<Rightarrow> payment_term xres" where
  "mk_payment_term t =
     rbind (canonical_identifier (payment_event t)) (\<lambda>_.
     rbind (canonical_identifier (paid_dividend t)) (\<lambda>_. Inr t))"

definition mk_unsupported_term :: "unsupported_term \<Rightarrow> unsupported_term xres" where
  "mk_unsupported_term t =
     rbind (canonical_identifier (unsupported_event t)) (\<lambda>_.
     rbind (canonical_identifier (unsupported_security t)) (\<lambda>_.
     rbind (canonical_identifier (unsupported_type t)) (\<lambda>_.
     rbind (optional_identifier (unsupported_outcome t)) (\<lambda>_. Inr t))))"

section \<open>The stage\<close>

record action_stage =
  action_id :: string
  action_session :: session_ref
  registry_before :: "string list"
  marks_after_split :: "(string, raw_mark) dict"
  marks_after_entitlement :: "(string, raw_mark) dict"
  action_split :: "split_term option"
  action_dividend :: "dividend_term option"
  action_payment :: "payment_term option"
  unsupported_actions :: "unsupported_term list"
  action_order :: "string list"
  withholding_id :: "string option"

definition REGISTERED_SAME_SESSION_EVENT_ORDER :: "string list" where
  "REGISTERED_SAME_SESSION_EVENT_ORDER = [''SPLIT'', ''DIVIDEND_ENTITLEMENT'']"

definition no_withholding :: string where "no_withholding = ''BLOCKED_NO_REGISTERED_WITHHOLDING_POLICY''"
definition double_booked :: string where "double_booked = ''BLOCKED_DOUBLE_BOOKED_EVENT''"

definition mk_action_stage :: "action_stage \<Rightarrow> action_stage xres" where
  "mk_action_stage st =
     (let at_stage = (\<lambda>state. Inl (refusal state None None (Some (action_id st)))) in
      rbind (canonical_identifier (action_id st)) (\<lambda>_.
      if action_order st \<noteq> REGISTERED_SAME_SESSION_EVENT_ORDER then at_stage malformed
      else if \<not> distinct (registry_before st) then at_stage double_booked
      else
      rbind (map_res canonical_identifier (registry_before st)) (\<lambda>_.
      if action_dividend st \<noteq> None \<and> withholding_id st = None then at_stage no_withholding
      else Inr st)))"

definition action_refusal :: "string \<Rightarrow> string option \<Rightarrow> action_stage \<Rightarrow> exec_exc" where
  "action_refusal state sec st = refusal state sec (Some (ref_date (action_session st))) (Some (action_id st))"

text \<open>Only a registered zero rate may accompany the stage.\<close>

definition withholding_admitted :: "registry_overrides \<Rightarrow> action_stage \<Rightarrow> unit xres" where
  "withholding_admitted regs st = (case withholding_id st of
     None \<Rightarrow> Inr ()
   | Some wid \<Rightarrow>
       rbind (resolve_withholding_policy wid (withholding_policies regs)) (\<lambda>w.
       rbind (ledger_of_text (withholding_rate w)) (\<lambda>r.
       if r \<noteq> 0 then Inl (action_refusal no_withholding None st) else Inr ())))"

text \<open>The unsupported actions that are excluded: not held, and without a registered outcome.\<close>

definition excluded_action ::
    "registry_overrides \<Rightarrow> action_stage \<Rightarrow> (string, rat) dict \<Rightarrow> unsupported_term \<Rightarrow> unsupported_term list xres" where
  "excluded_action regs st held a = (case unsupported_outcome a of
     Some rid \<Rightarrow> rbind (resolve_unsupported_event_outcome rid (unsupported_event_outcomes regs)) (\<lambda>_. Inr [])
   | None \<Rightarrow>
       if dict_get_or held (unsupported_security a) 0 > 0
       then Inl (action_refusal ''BLOCKED_UNSUPPORTED_HELD_CORPORATE_ACTION'' (Some (unsupported_security a)) st)
       else Inr [a])"

definition action_security :: "action_stage \<Rightarrow> string option xres" where
  "action_security st = (case (action_split st, action_dividend st) of
     (Some s, Some d) \<Rightarrow>
       if split_term_security s \<noteq> dividend_security d then Inl (action_refusal malformed None st)
       else Inr (Some (split_term_security s))
   | (Some s, None) \<Rightarrow> Inr (Some (split_term_security s))
   | (None, Some d) \<Rightarrow> Inr (Some (dividend_security d))
   | (None, None) \<Rightarrow> Inr None)"

definition option_list :: "('a \<Rightarrow> string) \<Rightarrow> 'a option \<Rightarrow> string list" where
  "option_list f v = (case v of None \<Rightarrow> [] | Some x \<Rightarrow> [f x])"

definition stage_events :: "action_stage \<Rightarrow> string list" where
  "stage_events st = option_list split_term_event (action_split st) @ option_list dividend_event (action_dividend st)
     @ option_list payment_event (action_payment st)"

text \<open>Every event of the stage is compared with the registry before the stage.\<close>

definition events_unbooked :: "action_stage \<Rightarrow> unit xres" where
  "events_unbooked st =
     (if list_ex (\<lambda>e. e \<in> set (registry_before st)) (stage_events st)
      then Inl (action_refusal double_booked None st) else Inr ())"

definition split_shares :: "action_stage \<Rightarrow> string option \<Rightarrow> rat \<Rightarrow> rat xres" where
  "split_shares st sec held_before = (case action_split st of
     None \<Rightarrow> Inr held_before
   | Some s \<Rightarrow>
       rbind (ledger_of_text (split_term_factor s)) (\<lambda>factor.
       translated_to (action_refusal ''BLOCKED_NONREPRESENTABLE_SHARE_QUANTITY'' sec st)
         (apply_split (PDecimal held_before) (PDecimal factor))))"

definition require_integral_custody :: "rat \<Rightarrow> string \<Rightarrow> string \<Rightarrow> unit xres" where
  "require_integral_custody q sec stage =
     (if q \<noteq> of_int \<lfloor>q\<rfloor>
      then Inl (refusal ''BLOCKED_NONREPRESENTABLE_SHARE_QUANTITY'' (Some sec) None (Some stage)) else Inr ())"

text \<open>The reference values before and after the split, which must be equal.\<close>

definition split_reference ::
    "action_stage \<Rightarrow> (string, raw_mark) dict \<Rightarrow> string option \<Rightarrow> rat \<Rightarrow> rat \<Rightarrow> (rat \<times> rat) xres" where
  "split_reference st marks_before security held_before held_after = (case security of
     None \<Rightarrow> Inr (0, 0)
   | Some sec \<Rightarrow>
       rbind (require_mark marks_before sec (Some (ref_date (action_session st)))) (\<lambda>mb.
       rbind (require_mark (marks_after_split st) sec (Some (ref_date (action_session st)))) (\<lambda>ma.
       let b = held_before * mark_value mb; a = held_after * mark_value ma in
       if b \<noteq> a then Inl (action_refusal ''BLOCKED_SPLIT_CONSERVATION_VIOLATED'' (Some sec) st) else Inr (b, a))))"

definition stage_entitlement :: "action_stage \<Rightarrow> string option \<Rightarrow> rat \<Rightarrow> rat xres" where
  "stage_entitlement st sec held_after = (case action_dividend st of
     None \<Rightarrow> Inr 0
   | Some d \<Rightarrow>
       rbind (ledger_of_text (dividend_cash d)) (\<lambda>per_share.
       translated_to (action_refusal malformed sec st)
         (dividend_receivable (PDecimal held_after) (PDecimal per_share))))"

text \<open>The payment of the entitlement: cash and receivables after it.\<close>

definition stage_payment :: "action_stage \<Rightarrow> rat \<Rightarrow> rat \<Rightarrow> rat \<Rightarrow> rat \<Rightarrow> (rat \<times> rat) xres" where
  "stage_payment st c recv recv_entitled entitlement = (case action_payment st of
     None \<Rightarrow> Inr (c, recv_entitled)
   | Some p \<Rightarrow>
       if map_option dividend_event (action_dividend st) \<noteq> Some (paid_dividend p) then Inl (action_refusal malformed None st)
       else if calendar_identity (payment_ref p) \<noteq> calendar_identity (action_session st)
       then Inl (action_refusal invalid_timing None st)
       else if ref_ordinal (payment_ref p) \<le> ref_ordinal (action_session st)
         \<or> ref_date (payment_ref p) \<le> ref_date (action_session st)
       then Inl (refusal invalid_timing None (Some (ref_date (payment_ref p))) (Some (action_id st)))
       else rbind (quantize_ledger (dec DEFAULT_PRECISION (c + entitlement))) (\<lambda>c'. Inr (c', recv)))"

record action_outcome =
  outcome_stage :: string
  outcome_session :: session_ref
  outcome_registry :: "string list"
  post_split_shares :: string
  reference_before :: string
  reference_after :: string
  nav_after_split :: string
  eligible_shares :: string
  entitlement_text :: string
  nav_after_entitlement :: string
  cash_after_payment :: string
  receivables_after_payment :: string
  nav_after_payment :: string
  excluded_actions :: "unsupported_term list"

definition nav_text :: "portfolio_state \<Rightarrow> string xres" where
  "nav_text s = rbind (let_through (nav s)) (\<lambda>n. format_ledger (PDecimal n))"

definition outcome_of ::
    "action_stage \<Rightarrow> unsupported_term list \<Rightarrow> rat \<Rightarrow> rat \<times> rat \<Rightarrow> rat \<Rightarrow> rat \<times> rat \<Rightarrow> portfolio_state \<Rightarrow> portfolio_state
     \<Rightarrow> portfolio_state \<Rightarrow> action_outcome xres" where
  "outcome_of st excluded held refs ent paid s1 s2 s3 =
     rbind (format_ledger (PDecimal held)) (\<lambda>held_text.
     rbind (format_exact_fraction (fst refs)) (\<lambda>ref_b.
     rbind (format_exact_fraction (snd refs)) (\<lambda>ref_a.
     rbind (nav_text s1) (\<lambda>n1.
     rbind (format_ledger (PDecimal ent)) (\<lambda>ent_text.
     rbind (nav_text s2) (\<lambda>n2.
     rbind (format_ledger (PDecimal (fst paid))) (\<lambda>cash_text.
     rbind (format_ledger (PDecimal (snd paid))) (\<lambda>recv_text.
     rbind (nav_text s3) (\<lambda>n3.
     Inr \<lparr>outcome_stage = action_id st, outcome_session = action_session st,
          outcome_registry = registry_before st @ stage_events st, post_split_shares = held_text,
          reference_before = ref_b, reference_after = ref_a, nav_after_split = n1, eligible_shares = held_text,
          entitlement_text = ent_text, nav_after_entitlement = n2, cash_after_payment = cash_text,
          receivables_after_payment = recv_text, nav_after_payment = n3, excluded_actions = excluded\<rparr>)))))))))"

definition apply_corporate_action_stage ::
    "action_stage \<Rightarrow> stage_state \<Rightarrow> bool \<Rightarrow> registry_overrides \<Rightarrow> (stage_state \<times> action_outcome) xres" where
  "apply_corporate_action_stage st s whole regs =
     (let book = (\<lambda>c held recv marks.
            engine_portfolio c held recv marks (action_id st) (ref_date (action_session st))) in
      rbind (withholding_admitted regs st) (\<lambda>_.
      rbind (map_res (excluded_action regs st (st_positions s)) (unsupported_actions st)) (\<lambda>ex.
      rbind (action_security st) (\<lambda>security.
      rbind (events_unbooked st) (\<lambda>_.
      let held_before = (case security of None \<Rightarrow> 0 | Some sec \<Rightarrow> dict_get_or (st_positions s) sec 0) in
      rbind (split_shares st security held_before) (\<lambda>held_after.
      let updated = (case (action_split st, security) of
            (Some _, Some sec) \<Rightarrow> dict_set (st_positions s) sec held_after | _ \<Rightarrow> st_positions s) in
      rbind (case security of Some sec \<Rightarrow>
               if whole then require_integral_custody held_after sec (action_id st) else Inr () | None \<Rightarrow> Inr ()) (\<lambda>_.
      rbind (split_reference st (st_marks s) security held_before held_after) (\<lambda>refs.
      rbind (book (st_cash s) updated (st_receivables s) (marks_after_split st)) (\<lambda>s1.
      rbind (stage_entitlement st security held_after) (\<lambda>ent.
      rbind (quantize_ledger (dec DEFAULT_PRECISION (st_receivables s + ent))) (\<lambda>recv1.
      rbind (book (st_cash s) updated recv1 (marks_after_entitlement st)) (\<lambda>s2.
      rbind (stage_payment st (st_cash s) (st_receivables s) recv1 ent) (\<lambda>paid.
      rbind (book (fst paid) updated (snd paid) (marks_after_entitlement st)) (\<lambda>s3.
      rbind (outcome_of st (concat ex) held_after refs ent paid s1 s2 s3) (\<lambda>out.
      Inr (\<lparr>st_cash = fst paid, st_positions = updated, st_receivables = snd paid,
            st_marks = marks_after_entitlement st\<rparr>, out))))))))))))))))"

section \<open>The program\<close>

datatype execution_stage = Action action_stage | Rebalance rebalance_stage | Close session_close_stage

record execution_program = engine_program +
  opening_session :: session_ref
  opening_cash :: string
  opening_positions :: "(string, string) dict"
  opening_receivables :: string
  opening_marks :: "(string, raw_mark) dict"
  program_stages :: "execution_stage list"

fun opening_loop :: "(string, string) dict \<Rightarrow> (string, string) dict \<Rightarrow> (string, string) dict xres" where
  "opening_loop acc [] = Inr acc"
| "opening_loop acc ((raw, quantity) # rest) =
     rbind (canonical_identifier raw) (\<lambda>sec.
       if dict_get acc sec \<noteq> None then Inl (refuse_for ''BLOCKED_DUPLICATE_SECURITY_ROW'' sec)
       else
       rbind (ledger_of_text quantity) (\<lambda>v.
       if v < 0 then Inl (refuse_for ''BLOCKED_SHORT_POSITION'' sec)
       else
       rbind (require_share_quantum v (Some sec)) (\<lambda>_.
       rbind (format_ledger (PDecimal v)) (\<lambda>text.
       opening_loop (dict_set acc sec text) rest))))"

text \<open>The source and the place of every declared ledger observation.\<close>

definition place :: "string \<Rightarrow> string \<Rightarrow> string" where
  "place spot sec = spot @ ''['' @ sec @ '']''"

definition marks_sources :: "(string, raw_mark) dict \<Rightarrow> string \<Rightarrow> (string \<times> string) list" where
  "marks_sources marks spot = map (\<lambda>(sec, m). (source_id (mark_evidence m), place spot sec)) marks"

definition stage_sources :: "execution_stage \<Rightarrow> (string \<times> string) list" where
  "stage_sources stage = (case stage of
     Action st \<Rightarrow> marks_sources (marks_after_split st) (action_id st @ ''.raw_marks_after_split'')
       @ marks_sources (marks_after_entitlement st) (action_id st @ ''.raw_marks_after_entitlement'')
   | Rebalance st \<Rightarrow> marks_sources (stage_marks st) (rebalance_id st @ ''.raw_marks'')
       @ (case stage_target st of
            DeclaredDeltas ds \<Rightarrow> map (\<lambda>d. (source_id (price_evidence (delta_price d)),
                place (rebalance_id st @ ''.deltas'') (delta_security d))) ds
          | EqualWeight prog \<Rightarrow> map (\<lambda>(sec, p). (source_id (price_evidence p),
                place (rebalance_id st @ ''.raw_execution_prices'') sec)) (program_prices prog))
   | Close st \<Rightarrow> marks_sources (close_marks st) (close_stage st @ ''.raw_close_marks''))"

definition require_registered_ledger_sources :: "execution_program \<Rightarrow> unit xres" where
  "require_registered_ledger_sources p =
     rbind (map_res (\<lambda>(source, spot).
              case resolve_ledger_coordinate_source source (ledger_coordinate_sources (engine_registries p)) of
                Inr _ \<Rightarrow> Inr ()
              | Inl (Refused x) \<Rightarrow> Inl (Refused \<lparr>xe_state = xe_state x, xe_security = None, xe_session = None,
                    xe_stage = None, xe_path = Some spot\<rparr>)
              | Inl e \<Rightarrow> Inl e)
            (marks_sources (opening_marks p) ''opening_marks'' @ concat (map stage_sources (program_stages p)))) (\<lambda>_. Inr ())"

definition stage_entry :: "execution_stage \<Rightarrow> session_ref" where
  "stage_entry stage = (case stage of
     Action st \<Rightarrow> action_session st | Rebalance st \<Rightarrow> fill_ref (stage_fill st) | Close st \<Rightarrow> close_session st)"

definition stage_exit :: "execution_stage \<Rightarrow> session_ref" where
  "stage_exit stage = (case stage of
     Action st \<Rightarrow> (case action_payment st of None \<Rightarrow> action_session st | Some p \<Rightarrow> payment_ref p)
   | _ \<Rightarrow> stage_entry stage)"

definition stage_label :: "execution_stage \<Rightarrow> string" where
  "stage_label stage = (case stage of Action st \<Rightarrow> action_id st | Rebalance st \<Rightarrow> rebalance_id st | Close st \<Rightarrow> close_stage st)"

fun monotone_loop :: "string \<times> string \<Rightarrow> session_ref \<Rightarrow> execution_stage list \<Rightarrow> unit xres" where
  "monotone_loop calendar previous [] = Inr ()"
| "monotone_loop calendar previous (stage # rest) =
     (let entry = stage_entry stage; leave = stage_exit stage;
          backwards = (\<lambda>s. Inl (refusal ''BLOCKED_NON_MONOTONE_STAGE_SESSION'' None (Some (ref_date s)) (Some (stage_label stage))))
      in if calendar_identity entry \<noteq> calendar then backwards entry
         else if calendar_identity leave \<noteq> calendar then backwards leave
         else if ref_ordinal entry < ref_ordinal previous \<or> ref_date entry < ref_date previous then backwards entry
         else monotone_loop calendar leave rest)"

definition require_monotone_stage_sessions :: "execution_program \<Rightarrow> unit xres" where
  "require_monotone_stage_sessions p =
     monotone_loop (calendar_identity (opening_session p)) (opening_session p) (program_stages p)"

definition mk_execution_program :: "execution_program \<Rightarrow> execution_program xres" where
  "mk_execution_program p =
     rbind (canonical_identifier (program_id p)) (\<lambda>_.
     rbind (canonical_identifier (engine_cost_policy_id p)) (\<lambda>_.
     rbind (resolve_cost_rate_policy (engine_cost_policy_id p) (cost_rate_policies (engine_registries p))) (\<lambda>policy.
     if regulatory_authority policy then Inl (refuse ''BLOCKED_UNREGISTERED_REGULATORY_FEE_MODE'')
     else if program_stages p = [] then Inl (refuse malformed)
     else
     rbind (opening_loop [] (opening_positions p)) (\<lambda>ps.
     rbind (map_res ledger_of_text [opening_cash p, opening_receivables p]) (\<lambda>_.
     rbind (require_registered_ledger_sources p) (\<lambda>_.
     rbind (require_monotone_stage_sessions p) (\<lambda>_.
     Inr (p\<lparr>opening_positions := ps\<rparr>))))))))"

section \<open>The run\<close>

record run_log =
  run_book :: stage_state
  run_opening_lots :: "lot_event list"
  run_ledgers :: "published_rebalance list"
  run_outcomes :: "action_outcome list"
  run_closes :: "session_close_record list"
  run_lots :: "lot_event list"

definition opening_lot :: "execution_program \<Rightarrow> (string, rat) dict \<Rightarrow> string \<Rightarrow> lot_event xres" where
  "opening_lot p held sec =
     rbind (format_ledger (PDecimal (dict_get_or held sec 0))) (\<lambda>shares.
     rbind (require_mark (opening_marks p) sec None) (\<lambda>m.
     rbind (format_ledger (PDecimal (mark_value m))) (\<lambda>price.
     Inr \<lparr>lot_security = sec, lot_trade_date = ref_date (opening_session p), lot_is_sell = False, lot_shares = shares,
          lot_price = price, lot_fees = ''0.00000000''\<rparr>)))"

definition opened_run :: "execution_program \<Rightarrow> run_log xres" where
  "opened_run p =
     rbind (ledger_of_text (opening_cash p)) (\<lambda>c.
     rbind (ledger_of_text (opening_receivables p)) (\<lambda>recv.
     rbind (map_res (\<lambda>(sec, text). rbind (ledger_of_text text) (\<lambda>x. Inr (sec, x))) (opening_positions p)) (\<lambda>held.
     rbind (if whole_share_mode p
            then map_res (\<lambda>(sec, q). require_integral_custody q sec (program_id p)) held else Inr []) (\<lambda>_.
     rbind (engine_portfolio c held recv (opening_marks p) (program_id p) (ref_date (opening_session p))) (\<lambda>_.
     rbind (map_res (opening_lot p held)
              (filter (\<lambda>sec. dict_get_or held sec 0 \<noteq> 0) (sorted_symbols (map fst held)))) (\<lambda>lots.
     Inr \<lparr>run_book = \<lparr>st_cash = c, st_positions = held, st_receivables = recv, st_marks = opening_marks p\<rparr>,
          run_opening_lots = lots, run_ledgers = [], run_outcomes = [], run_closes = [], run_lots = []\<rparr>))))))"

text \<open>The splits that the run collects for the lots are those of the action stages.\<close>

definition run_stage :: "execution_program \<Rightarrow> run_log \<Rightarrow> execution_stage \<Rightarrow> (run_log xres) option" where
  "run_stage p l stage = (case stage of
     Action st \<Rightarrow> Some (rbind (apply_corporate_action_stage st (run_book l) (whole_share_mode p) (engine_registries p)) (\<lambda>(s, out).
       Inr (l\<lparr>run_book := s, run_outcomes := run_outcomes l @ [out]\<rparr>)))
   | Rebalance st \<Rightarrow> (case execute_rebalance_stage (engine_program.truncate p) st (run_book l) of
       None \<Rightarrow> None
     | Some r \<Rightarrow> Some (rbind r (\<lambda>(s, ledger, lots).
         Inr (l\<lparr>run_book := s, run_ledgers := run_ledgers l @ [ledger], run_lots := run_lots l @ lots\<rparr>))))
   | Close st \<Rightarrow> Some (rbind (apply_session_close st (run_book l)) (\<lambda>(s, rec).
       Inr (l\<lparr>run_book := s, run_closes := run_closes l @ [rec]\<rparr>))))"

fun run_stages :: "execution_program \<Rightarrow> run_log \<Rightarrow> execution_stage list \<Rightarrow> (run_log xres) option" where
  "run_stages p l [] = Some (Inr l)"
| "run_stages p l (stage # rest) = (case run_stage p l stage of
     Some (Inr l') \<Rightarrow> run_stages p l' rest | r \<Rightarrow> r)"

text \<open>The walk up to the final book; the lots are published from the log after it.\<close>

definition run_walk :: "execution_program \<Rightarrow> (run_log xres) option" where
  "run_walk p = (case opened_run p of
     Inl e \<Rightarrow> Some (Inl e)
   | Inr l \<Rightarrow> (case run_stages p l (program_stages p) of
       Some (Inr l') \<Rightarrow> Some (rbind
         (engine_portfolio (st_cash (run_book l')) (st_positions (run_book l')) (st_receivables (run_book l'))
            (st_marks (run_book l')) (program_id p) (ref_date (opening_session p))) (\<lambda>_. Inr l'))
     | r \<Rightarrow> r))"

end
