(* ===== verification/Execution_Rules.thy ===== *)
theory Execution_Rules
  imports Execution_Fills Decimal_Text Ledger
begin

text \<open>
  Facts about the records and operations of the execution kernel: the texts of ledger amounts are
  read back exactly, a registry resolves exactly its unambiguous records, and the session types
  admit no fill on the signal bar.
\<close>

section \<open>Ledger texts\<close>

definition plain_char :: "char \<Rightarrow> bool" where
  "plain_char c \<longleftrightarrow> is_digit c \<or> c = CHR ''.'' \<or> c = CHR ''-''"

lemma digit_range: "is_digit c \<Longrightarrow> (48::nat) \<le> of_char c \<and> of_char c \<le> (57::nat)"
  by (simp add: is_digit_def less_eq_char_def)

lemma plain_char_fixed:
  assumes "plain_char c" shows "\<not> py_space c" "c \<noteq> CHR ''_''" "to_lower c = c"
proof -
  have r: "(45::nat) \<le> of_char c \<and> of_char c \<le> (57::nat)"
    using assms digit_range [of c] by (auto simp: plain_char_def)
  then show "\<not> py_space c" "c \<noteq> CHR ''_''" by (auto simp: py_space_def)
  show "to_lower c = c" using r by (simp add: to_lower_def less_eq_char_def)
qed

lemma plain_text:
  assumes "list_all plain_char s"
  shows "strip s = s" "filter (\<lambda>c. c \<noteq> CHR ''_'') s = s" "map to_lower s = s"
proof -
  have d: "dropWhile py_space t = t" if "list_all plain_char t" for t
    using that plain_char_fixed(1) by (cases t) auto
  have "list_all plain_char (rev s)" using assms by (simp add: list_all_iff)
  with d [OF assms] d [OF this] show "strip s = s" by (simp add: strip_def)
  show "filter (\<lambda>c. c \<noteq> CHR ''_'') s = s" using assms plain_char_fixed(2) by (simp add: list_all_iff filter_id_conv)
  show "map to_lower s = s" using assms plain_char_fixed(3) by (intro map_idI) (auto simp: list_all_iff)
qed

lemma digit_not_letter: "is_digit c \<Longrightarrow> c \<noteq> CHR ''i'' \<and> c \<noteq> CHR ''n'' \<and> c \<noteq> CHR ''s'' \<and> c \<noteq> CHR ''-'' \<and> c \<noteq> CHR ''+'' \<and> c \<noteq> CHR ''.''"
  using digit_range [of c] by auto

lemma dec_of_signed:
  assumes "whole_part ip" "list_all is_digit fp" "fp \<noteq> []"
  shows "dec_of_text (signed_text neg (dec_text ip fp)) = Some (Finite (if neg then - dec_value ip fp else dec_value ip fp))"
proof -
  let ?t = "signed_text neg (dec_text ip fp)"
  obtain c cs where ip: "ip = c # cs" "is_digit c" "list_all is_digit ip" using assms(1) by (cases ip) (auto simp: whole_part_def)
  have "list_all plain_char ?t"
    using ip assms(2) by (auto simp: signed_text_def dec_text_def plain_char_def list_all_iff)
  note plain = plain_text [OF this]
  have c: "c \<noteq> CHR ''i''" "c \<noteq> CHR ''n''" "c \<noteq> CHR ''s''" "c \<noteq> CHR ''-''" "c \<noteq> CHR ''+''"
    using digit_not_letter [OF ip(2)] by auto
  have sg: "split_sign ?t = (if neg then -1 else 1, dec_text ip fp)"
    using c by (simp add: split_sign_def signed_text_def ip dec_text_def)
  note parts = dec_text_parts [OF ip(3) assms(2)]
  have dd: "dropWhile is_digit fp = []" "takeWhile is_digit fp = fp" using assms(2) by (simp_all add: list_all_iff takeWhile_eq_all_conv)
  have no: "dec_text ip fp \<noteq> ''inf''" "dec_text ip fp \<noteq> ''infinity''" "take 3 (dec_text ip fp) \<noteq> ''nan''" "take 4 (dec_text ip fp) \<noteq> ''snan''"
    using c by (simp_all add: dec_text_def ip)
  have ex: "exponent_part [] = Some 0" by (simp add: exponent_part_def)
  have fp: "(if fp = [] then [] else CHR ''.'' # fp) = CHR ''.'' # fp" and ne: "ip \<noteq> []" using assms(3) ip by simp_all
  show ?thesis
    unfolding dec_of_text_def plain Let_def sg prod.case parts fp list.sel
    by (simp only: dd ex option.case no simp_thms if_True if_False list.distinct list.sel ne)
      (simp add: dec_value_def power_int_minus divide_inverse)
qed

lemma digit_48: "is_digit c \<Longrightarrow> of_char c = (48::nat) \<Longrightarrow> c = CHR ''0''"
  using of_char_eq_iff [where 'a = nat, of c "CHR ''0''"] by simp

lemma digits_value_nonneg: "list_all is_digit s \<Longrightarrow> 0 \<le> digits_value s"
proof (induction s rule: rev_induct)
  case (snoc c s)
  then show ?case using digit_range [of c] by (simp add: digits_value_snoc digit_value_def)
qed (simp add: digits_value_def)

lemma rjust_fraction:
  fixes m :: int
  assumes "0 \<le> m" "m < 10 ^ scale" "0 < scale"
  defines "d \<equiv> rjust scale (nat_text (nat m))"
  shows "list_all is_digit d" "digits_value d = m" "length d = scale"
proof -
  define t where "t = nat_text (nat m)"
  have t: "list_all is_digit t" "digits_value t = m" "t \<noteq> []" "whole_part t"
    using nat_text_digits [of "nat m"] whole_nat_text [of "nat m"] assms(1) by (simp_all add: t_def)
  have d: "d = replicate (scale - length t) (CHR ''0'') @ t" by (simp add: d_def rjust_def t_def)
  show "list_all is_digit d" using t(1) by (auto simp: d list_all_iff not_digit)
  show "digits_value d = m" unfolding d digits_value_zeros by (rule t(2))
  have "length t \<le> scale"
  proof (rule ccontr)
    assume "\<not> length t \<le> scale"
    then obtain c u where tc: "t = c # u" "scale \<le> length u" using t(3) by (cases t) auto
    with t(4) assms(3) have "c \<noteq> CHR ''0''" "is_digit c" by (auto simp: whole_part_def)
    then have "1 \<le> digit_value c" using digit_range [of c]
      by (auto simp: digit_value_def dest: digit_48)
    then have "1 * 10 ^ length u \<le> digit_value c * 10 ^ length u" by (rule mult_right_mono) simp
    moreover have "0 \<le> digits_value u" using t(1) tc by (intro digits_value_nonneg) simp
    moreover have "m = digit_value c * 10 ^ length u + digits_value u"
      using t(2) digits_value_append [of "[c]" u] by (simp add: tc digits_value_def)
    moreover have "(10::int) ^ scale \<le> 10 ^ length u" using tc by (intro power_increasing) auto
    ultimately show False using assms(2) by linarith
  qed
  then show "length d = scale" by (simp add: d)
qed

lemma fixed_text_signed:
  assumes "0 < scale"
  obtains ip fp where "fixed_text scale n = signed_text (n < 0) (dec_text ip fp)" "whole_part ip"
    "list_all is_digit fp" "fp \<noteq> []" "dec_value ip fp = of_int \<bar>n\<bar> / 10 ^ scale"
proof -
  define fp where "fp = rjust scale (nat_text (nat (\<bar>n\<bar> mod 10 ^ scale)))"
  define ip where "ip = nat_text (nat (\<bar>n\<bar> div 10 ^ scale))"
  have fp: "list_all is_digit fp" "digits_value fp = \<bar>n\<bar> mod 10 ^ scale" "length fp = scale"
    unfolding fp_def using assms by (intro rjust_fraction; simp)+
  have ip: "whole_part ip" "digits_value ip = \<bar>n\<bar> div 10 ^ scale"
    using whole_nat_text nat_text_digits by (auto simp: ip_def pos_imp_zdiv_nonneg_iff)
  have ne: "fp \<noteq> []" using fp(3) assms by auto
  have "fixed_text scale n = signed_text (n < 0) (dec_text ip fp)"
    using ne unfolding fixed_text_def signed_text_def dec_text_def ip_def [symmetric] fp_def [symmetric] by simp
  moreover have "digits_value (ip @ fp) = \<bar>n\<bar>" using fp(3) by (simp add: digits_value_append ip(2) fp(2) mult_div_mod_eq [symmetric] div_mult_mod_eq)
  ultimately show thesis using that ip(1) fp ne by (simp add: dec_value_def)
qed

lemma dec_of_fixed_text: "0 < scale \<Longrightarrow> dec_of_text (fixed_text scale n) = Some (Finite (of_int n / 10 ^ scale))"
  by (rule fixed_text_signed [of scale n], assumption) (auto simp: dec_of_signed)

lemma ledger_of_fixed_text [simp]: "ledger_of_text (fixed_text 8 n) = Inr (of_int n / 100000000)"
  by (simp add: to_ledger_decimal_def decimal_def dec_of_fixed_text)

lemma on_grid_8: "on_grid (- 8) x \<longleftrightarrow> of_int \<lfloor>x * 100000000\<rfloor> = x * 100000000"
proof
  assume "on_grid (- 8) x"
  then obtain n where "x = of_int n * 10 powi (- 8)" by (auto simp: on_grid_def)
  then have "x * 100000000 = of_int n" by (simp add: power_int_minus)
  then show "of_int \<lfloor>x * 100000000\<rfloor> = x * 100000000" by (metis floor_of_int)
next
  assume "of_int \<lfloor>x * 100000000\<rfloor> = x * 100000000"
  moreover have "x = x * 100000000 * 10 powi (- 8)" by (simp add: power_int_minus)
  ultimately show "on_grid (- 8) x" by (metis on_gridI)
qed

lemma format_exact_Inr: "format_exact_fraction x = Inr t \<longleftrightarrow> on_grid (- 8) x \<and> t = fixed_text 8 \<lfloor>x * 100000000\<rfloor>"
  by (auto simp: format_exact_fraction_def on_grid_8 Let_def)

lemma ledger_of_exact: "format_exact_fraction x = Inr t \<Longrightarrow> ledger_of_text t = Inr x"
  unfolding format_exact_Inr on_grid_8 by (clarsimp simp: field_simps)

lemma format_ledger_Inr:
  assumes "format_ledger v = Inr t"
  obtains x q where "to_ledger_decimal v = Inr x" "quantize 38 (- 8) x = Inr q" "ledger_of_text t = Inr q"
    "on_grid (- 8) q" "format_exact_fraction q = Inr t"
proof -
  from assms obtain x q where x: "to_ledger_decimal v = Inr x" "quantize_ledger x = Inr q"
    and t: "t = fixed_text 8 \<lfloor>q * 100000000\<rfloor>" by (auto simp: format_ledger_def)
  then have q: "quantize 38 (- 8) x = Inr q" by (auto simp: quantize_ledger_def equations_constants split: sum.splits)
  then have "on_grid (- 8) q" by (rule quantize_InrD)
  then show thesis using that x(1) q t ledger_of_exact [of q t] by (simp add: format_exact_Inr)
qed

section \<open>Registries\<close>

lemma registry_walk_Inr:
  "registry_walk shipped st seen rs = Inr () \<longleftrightarrow>
     distinct (map record_id rs) \<and> set (map record_id rs) \<inter> set seen = {}
     \<and> (shipped \<longrightarrow> (\<forall>r \<in> set rs. source_kind r \<in> set REGISTERED_SOURCE_KINDS))"
  by (induction rs arbitrary: seen) auto

lemma resolve_record_Inr:
  "resolve_record shipped st rid rs = Inr r \<longleftrightarrow>
     distinct (map record_id rs) \<and> (shipped \<longrightarrow> (\<forall>r \<in> set rs. source_kind r \<in> set REGISTERED_SOURCE_KINDS))
     \<and> r \<in> set rs \<and> record_id r = rid"
proof -
  have one: "length (filter (\<lambda>r. record_id r = rid) rs) = 1 \<and> hd (filter (\<lambda>r. record_id r = rid) rs) = r
      \<longleftrightarrow> r \<in> set rs \<and> record_id r = rid" if "distinct (map record_id rs)"
    using that
  proof (induction rs)
    case (Cons a rs)
    have "filter (\<lambda>r. record_id r = rid) rs = [] \<longleftrightarrow> rid \<notin> record_id ` set rs" by (auto simp: filter_empty_conv)
    with Cons show ?case by auto
  qed simp
  show ?thesis
    unfolding resolve_record_def validate_registry_def Let_def
    using one by (cases "rs = []") (auto simp: rbind_Inr_iff registry_walk_Inr)
qed

lemma resolve_record_Inl:
  "resolve_record False st rid rs = Inl e \<Longrightarrow> e = refuse st"
proof -
  have "registry_walk False st seen rs = Inl e \<Longrightarrow> e = refuse st" for seen
    by (induction rs arbitrary: seen) (auto split: if_splits)
  then show "resolve_record False st rid rs = Inl e \<Longrightarrow> e = refuse st"
    by (auto simp: resolve_record_def validate_registry_def Let_def split: if_splits)
qed

section \<open>Fill windows\<close>

lemma hex_char: "is_hex c \<Longrightarrow> \<not> py_space c \<and> to_lower c = c"
proof -
  assume "is_hex c"
  then have r: "((48::nat) \<le> of_char c \<and> of_char c \<le> (57::nat)) \<or> ((97::nat) \<le> of_char c \<and> of_char c \<le> (102::nat))"
    by (auto simp: is_hex_def is_digit_def less_eq_char_def)
  then show ?thesis by (auto simp: py_space_def to_lower_def less_eq_char_def)
qed

lemma required_sha256_hex: "is_sha256 t \<Longrightarrow> required_sha256 t name = Inr t"
proof -
  assume t: "is_sha256 t"
  then have ne: "t \<noteq> []" and all: "list_all is_hex t" by (auto simp: is_sha256_def)
  have "\<not> py_space (hd t)" "\<not> py_space (last t)" using ne all hex_char by (auto simp: list_all_iff)
  then have "dropWhile py_space t = t" "dropWhile py_space (rev t) = rev t" using ne
    by (simp_all only: dropWhile_fixed hd_rev simp_thms)
  then have "strip t = t" by (simp add: strip_def)
  moreover have "map to_lower t = t" using all hex_char by (intro map_idI) (auto simp: list_all_iff)
  ultimately show ?thesis using t ne by (simp add: required_sha256_def required_text_def Let_def)
qed

lemma length_concat_8: "\<forall>g \<in> set gs. length g = 8 \<Longrightarrow> length (concat gs) = 8 * length gs"
  by (induction gs) auto

lemma ungroup_is_sha256: "ungroup_sha256 text = Inr t \<Longrightarrow> is_sha256 t"
  by (auto simp: ungroup_sha256_def Let_def is_sha256_def length_concat_8 list_all_iff list_ex_iff split: if_splits)

lemma canonical_identifier_Inr:
  "canonical_identifier t = Inr u \<longleftrightarrow> u = t \<and> t \<noteq> [] \<and> length t \<le> 128 \<and> strip t = t
     \<and> \<not> list_ex (\<lambda>c. c \<in> set [CHR 0x00, CHR 0x0D, CHR 0x0A, CHR 0x09]) t"
  unfolding canonical_identifier_def by auto

lemma session_ref_lifts:
  assumes "mk_session_ref s = Inr s"
  obtains sha where "as_exchange_session_ref s = Inr \<lparr>session_calendar_id = ref_calendar s,
      session_calendar_sha256 = sha, session_date = ref_date s, ordinal = ref_ordinal s\<rparr>"
    "ungroup_sha256 (ref_digest s) = Inr sha"
proof -
  from assms obtain sha where sha: "ungroup_sha256 (ref_digest s) = Inr sha" and cal: "ref_calendar s \<noteq> []" "strip (ref_calendar s) = ref_calendar s"
    and ord: "0 \<le> ref_ordinal s"
    by (auto simp: mk_session_ref_def canonical_identifier_Inr)
  have "as_exchange_session_ref s = Inr \<lparr>session_calendar_id = ref_calendar s,
      session_calendar_sha256 = sha, session_date = ref_date s, ordinal = ref_ordinal s\<rparr>"
    using cal ord required_sha256_hex [OF ungroup_is_sha256 [OF sha]]
    by (simp add: as_exchange_session_ref_def sha mk_exchange_session_ref_def required_text_def let_through_def)
  with sha that show thesis by blast
qed

definition fill_window :: "session_ref \<Rightarrow> session_ref \<Rightarrow> session_ref \<Rightarrow> bool" where
  "fill_window sig el s \<longleftrightarrow>
     calendar_identity el = calendar_identity sig \<and> calendar_identity s = calendar_identity sig
     \<and> ref_ordinal el = ref_ordinal sig + 1 \<and> ref_date sig < ref_date el
     \<and> ref_ordinal el \<le> ref_ordinal s \<and> ref_date el \<le> ref_date s"

text \<open>
  C10: the session types keep every fill off the signal bar. For valid sessions a fill session can be
  built exactly when all three belong to one calendar, the eligible session is the next after
  the signal, the fill is not before it, and the reason is a registered one; its deferral
  is then the number of sessions from the eligible one to the fill.\<close>

theorem fill_window_exact:
  assumes "mk_session_ref sig = Inr sig" "mk_session_ref el = Inr el" "mk_session_ref s = Inr s"
  shows "(\<exists>w. rbind (derive_eligible_fill_session sig el) (\<lambda>e. mk_fill_session e s code) = Inr w
            \<and> deferral_sessions w = ref_ordinal s - ref_ordinal el)
    \<longleftrightarrow> fill_window sig el s \<and> code \<in> set FILL_REASONS"
proof -
  obtain a where a: "as_exchange_session_ref sig = Inr \<lparr>session_calendar_id = ref_calendar sig,
      session_calendar_sha256 = a, session_date = ref_date sig, ordinal = ref_ordinal sig\<rparr>"
    "ungroup_sha256 (ref_digest sig) = Inr a" by (rule session_ref_lifts [OF assms(1)])
  obtain b where b: "as_exchange_session_ref el = Inr \<lparr>session_calendar_id = ref_calendar el,
      session_calendar_sha256 = b, session_date = ref_date el, ordinal = ref_ordinal el\<rparr>"
    "ungroup_sha256 (ref_digest el) = Inr b" by (rule session_ref_lifts [OF assms(2)])
  obtain c where c: "as_exchange_session_ref s = Inr \<lparr>session_calendar_id = ref_calendar s,
      session_calendar_sha256 = c, session_date = ref_date s, ordinal = ref_ordinal s\<rparr>"
    "ungroup_sha256 (ref_digest s) = Inr c" by (rule session_ref_lifts [OF assms(3)])
  have frozen: "frozen_timing \<lparr>signal_ref = sig, eligible_ref = el\<rparr> s = Inr ()" if "fill_window sig el s"
    using that a b c by (auto simp: fill_window_def calendar_identity_def frozen_timing_def validate_fill_timing_def let_through_def)
  show ?thesis
    using frozen
    by (auto simp: derive_eligible_fill_session_def mk_fill_session_def fill_window_def deferral_sessions_def rbind_Inr_iff
        split: sum.splits if_splits)
qed

definition ex_sessions :: "int \<Rightarrow> session_ref" where
  "ex_sessions n = \<lparr>ref_calendar = ''XNYS'', ref_digest = concat (replicate 7 ''0123abcd:'') @ ''0123abcd'', ref_date = 100 + n, ref_ordinal = n\<rparr>"

lemma ex_sessions_valid: "0 \<le> n \<Longrightarrow> mk_session_ref (ex_sessions n) = Inr (ex_sessions n)"
proof -
  have "canonical_identifier ''XNYS'' = Inr ''XNYS''" "ungroup_sha256 (concat (replicate 7 ''0123abcd:'') @ ''0123abcd'')
      = Inr (concat (replicate 8 ''0123abcd''))" by code_simp+
  then show "0 \<le> n \<Longrightarrow> mk_session_ref (ex_sessions n) = Inr (ex_sessions n)" by (simp only: mk_session_ref_def ex_sessions_def) simp
qed

theorem fill_window_exact_witness:
  "(\<exists>w. rbind (derive_eligible_fill_session (ex_sessions 3) (ex_sessions 4))
       (\<lambda>e. mk_fill_session e (ex_sessions 6) ''BOUNDED_NEXT_SESSION_DEFERRAL'') = Inr w \<and> deferral_sessions w = 2)
   \<and> \<not> (\<exists>w. rbind (derive_eligible_fill_session (ex_sessions 3) (ex_sessions 4))
       (\<lambda>e. mk_fill_session e (ex_sessions 3) ''BOUNDED_NEXT_SESSION_DEFERRAL'') = Inr w \<and> deferral_sessions w = -1)"
  using fill_window_exact [OF ex_sessions_valid ex_sessions_valid ex_sessions_valid, of 3 4 6 "''BOUNDED_NEXT_SESSION_DEFERRAL''"]
    fill_window_exact [OF ex_sessions_valid ex_sessions_valid ex_sessions_valid, of 3 4 3 "''BOUNDED_NEXT_SESSION_DEFERRAL''"]
  by (simp add: fill_window_def calendar_identity_def FILL_REASONS_def) (simp add: ex_sessions_def)

end
