(* ===== verification/Target_Construction.thy ===== *)
theory Target_Construction
  imports Execution_Fills
begin

text \<open>
  The target-construction kernel \<open>qme/quant/targets_v1.py\<close>: the request and its checks, the
  frozen equal-weight formula, the projection of costs, taxes and cash through the accounting
  kernel, the repair loop, and the rows and totals of the result. Exact positions and targets are
  rationals. Digests and lineage are left out: of the artifact binding only the refusal of an
  unreadable file remains, and of the input document the amounts that are formatted for it.
\<close>

section \<open>Refusals\<close>

text \<open>The kernel's own refusal, or an exception of the execution layer that it lets through.\<close>

datatype target_exc = Target (t_state: string) (t_security: "string option") | Execution exec_exc

type_synonym 'a tres = "target_exc + 'a"

definition invalid_input :: string where "invalid_input = ''INVALID_WEIGHTING_INPUT''"
definition kernel_refusal :: string where "kernel_refusal = ''BLOCKED_BOUND_KERNEL_REFUSAL''"
definition missing_artifact :: string where "missing_artifact = ''BLOCKED_MISSING_BOUND_ARTIFACT''"
definition no_cost_policy :: string where "no_cost_policy = ''BLOCKED_NO_REGISTERED_COST_RATE_POLICY''"
definition unregistered_source :: string where
  "unregistered_source = ''BLOCKED_UNREGISTERED_LEDGER_COORDINATE_SOURCE''"
definition negative_cash_state :: string where "negative_cash_state = ''INVALID_NEGATIVE_POST_TRADE_CASH''"
definition no_handler :: string where "no_handler = ''BLOCKED_NO_REGISTERED_FRACTIONAL_DISPOSITION_HANDLER''"
definition repair_ceiling_state :: string where "repair_ceiling_state = ''BLOCKED_REPAIR_ITERATION_CEILING''"

definition TARGET_FAIL_CLOSED_STATES :: "string list" where
  "TARGET_FAIL_CLOSED_STATES =
    [kernel_refusal, missing_artifact, no_cost_policy, no_handler, repair_ceiling_state, unregistered_source,
     ''BLOCKED_UNSUPPORTED_REGULATORY_FEE_MODE'', ''INVALID_DUPLICATE_SECURITY_ID'',
     ''INVALID_NEGATIVE_LONG_ONLY_TARGET'', negative_cash_state, ''INVALID_PRE_TRADE_NAV_IDENTITY'',
     ''INVALID_SELECTION_COUNT_MISMATCH'', invalid_input, ''INVALID_ZERO_SELECTION_SIZE'']"

definition PASS_THROUGH_STATES :: "string list" where
  "PASS_THROUGH_STATES = [missing_artifact, no_cost_policy, unregistered_source]"

definition untranslated :: "'a xres \<Rightarrow> 'a tres" where
  "untranslated r = (case r of Inl x \<Rightarrow> Inl (Execution x) | Inr a \<Rightarrow> Inr a)"

text \<open>\<open>except ExecutionAccountingError\<close> followed by \<open>_translated\<close>.\<close>

definition translated :: "string \<Rightarrow> 'a xres \<Rightarrow> 'a tres" where
  "translated fallback r = (case r of Inr a \<Rightarrow> Inr a
     | Inl (Escaped e) \<Rightarrow> Inl (Execution (Escaped e))
     | Inl (Refused x) \<Rightarrow>
         Inl (Target (if xe_state x \<in> set PASS_THROUGH_STATES then xe_state x else fallback) (xe_security x)))"

text \<open>\<open>except (TypeError, ValueError)\<close> around a call of the accounting kernel.\<close>

definition kernel_call :: "string \<Rightarrow> string option \<Rightarrow> 'a res \<Rightarrow> 'a tres" where
  "kernel_call state sec r = (case r of Inr a \<Rightarrow> Inr a
     | Inl e \<Rightarrow> Inl (if caught_text e = None then Execution (Escaped e) else Target state sec))"

abbreviation let_out :: "'a res \<Rightarrow> 'a tres" where "let_out r \<equiv> untranslated (let_through r)"

section \<open>The fractional-disposition registry\<close>

record fractional_disposition_handler = provenance +
  handler_disposition :: string

definition mk_fractional_disposition_handler ::
    "fractional_disposition_handler \<Rightarrow> fractional_disposition_handler xres" where
  "mk_fractional_disposition_handler r =
     rbind (check_provenance r) (\<lambda>_. rbind (canonical_identifier (handler_disposition r)) (\<lambda>_. Inr r))"

fun handler_walk :: "bool \<Rightarrow> string list \<Rightarrow> fractional_disposition_handler list \<Rightarrow> unit tres" where
  "handler_walk shipped seen [] = Inr ()"
| "handler_walk shipped seen (r # rs) =
     (if record_id r \<in> set seen \<or> shipped \<and> source_kind r \<notin> set REGISTERED_SOURCE_KINDS
      then Inl (Target no_handler None)
      else handler_walk shipped (record_id r # seen) rs)"

definition validate_fractional_disposition_registry :: "fractional_disposition_handler list \<Rightarrow> unit tres" where
  "validate_fractional_disposition_registry records =
     (if records = [] then Inl (Target no_handler None) else handler_walk False [] records)"

definition resolve_fractional_disposition_handler ::
    "string \<Rightarrow> fractional_disposition_handler list \<Rightarrow> fractional_disposition_handler tres" where
  "resolve_fractional_disposition_handler hid records =
     rbind (validate_fractional_disposition_registry records) (\<lambda>_.
       let matches = filter (\<lambda>r. record_id r = hid) records
       in if length matches \<noteq> 1 then Inl (Target no_handler None) else Inr (hd matches))"

definition REGISTERED_FRACTIONAL_DISPOSITION_HANDLERS :: "fractional_disposition_handler list" where
  "REGISTERED_FRACTIONAL_DISPOSITION_HANDLERS = []"

definition TARGET_BOUND_ARTIFACT_PATHS :: "string list" where
  "TARGET_BOUND_ARTIFACT_PATHS =
    [''configs/quant/accounting-equations-v1.json'', ''qme/quant/equations.py'',
     ''configs/quant/qme-v0.1-contract-v2.json'', ''qme/quant/execution_v1.py'']"

text \<open>Binding reads every artifact; \<open>readable\<close> says which paths below the root can be read.\<close>

definition bind_target_kernels :: "(string \<Rightarrow> bool) \<Rightarrow> unit tres" where
  "bind_target_kernels readable =
     (if list_all readable TARGET_BOUND_ARTIFACT_PATHS then Inr () else Inl (Target missing_artifact None))"

section \<open>The request\<close>

record target_request =
  request_id :: string
  selected :: "string list"
  declared_selection_count :: int
  prior_positions :: "(string, string) dict"
  raw_execution_prices :: "(string, raw_execution_price) dict"
  cash_pre :: string
  receivables_pre :: string
  declared_pre_trade_nav :: string
  cost_policy_id :: string
  request_tax_policy :: transaction_tax_policy
  regulatory_fee_mode :: string
  registries :: registry_overrides
  disposition_handler_id :: "string option"
  order_quantum :: string

fun selected_loop :: "string list \<Rightarrow> string list \<Rightarrow> unit tres" where
  "selected_loop seen [] = Inr ()"
| "selected_loop seen (raw # rest) =
     rbind (translated invalid_input (canonical_identifier raw)) (\<lambda>sec.
       if sec \<in> set seen then Inl (Target ''INVALID_DUPLICATE_SECURITY_ID'' (Some sec))
       else selected_loop (sec # seen) rest)"

fun prior_positions_loop :: "(string, string) dict \<Rightarrow> (string, string) dict \<Rightarrow> (string, string) dict tres" where
  "prior_positions_loop acc [] = Inr acc"
| "prior_positions_loop acc ((raw, quantity) # rest) =
     rbind (translated invalid_input (canonical_identifier raw)) (\<lambda>sec.
       if dict_get acc sec \<noteq> None then Inl (Target ''INVALID_DUPLICATE_SECURITY_ID'' (Some sec))
       else
       rbind (translated invalid_input (rbind (ledger_of_text quantity) (\<lambda>v.
               rbind (require_share_quantum v (Some sec)) (\<lambda>_. Inr v)))) (\<lambda>value.
       if value < 0 then Inl (Target invalid_input (Some sec))
       else
       rbind (untranslated (format_ledger (PDecimal value))) (\<lambda>text.
       prior_positions_loop (dict_set acc sec text) rest)))"

fun execution_prices_loop ::
    "(string, raw_execution_price) dict \<Rightarrow> (string, raw_execution_price) dict \<Rightarrow> (string, raw_execution_price) dict tres" where
  "execution_prices_loop acc [] = Inr acc"
| "execution_prices_loop acc ((raw, price) # rest) =
     rbind (translated invalid_input (canonical_identifier raw)) (\<lambda>sec.
       if security_id (price_evidence price) \<noteq> sec then Inl (Target invalid_input (Some sec))
       else
       rbind (translated invalid_input (rbind (assert_raw_ledger_evidence (price_evidence price) sec) (\<lambda>_.
               require_ledger_price_quantum (PDecimal (price_value price)) (Some sec)))) (\<lambda>_.
       execution_prices_loop (dict_set acc sec price) rest))"

definition mk_target_request :: "target_request \<Rightarrow> target_request tres" where
  "mk_target_request r =
     rbind (translated invalid_input (canonical_identifier (request_id r))) (\<lambda>_.
     rbind (translated invalid_input (canonical_identifier (cost_policy_id r))) (\<lambda>_.
     rbind (selected_loop [] (selected r)) (\<lambda>_.
     if declared_selection_count r \<noteq> int (length (selected r))
     then Inl (Target ''INVALID_SELECTION_COUNT_MISMATCH'' None)
     else if declared_selection_count r = 0 then Inl (Target ''INVALID_ZERO_SELECTION_SIZE'' None)
     else
     rbind (untranslated (ledger_of_text (order_quantum r))) (\<lambda>quantum.
     if quantum \<noteq> 1 then Inl (Target invalid_input None)
     else
     rbind (prior_positions_loop [] (prior_positions r)) (\<lambda>ps.
     rbind (execution_prices_loop [] (raw_execution_prices r)) (\<lambda>prices.
     rbind (map_res (\<lambda>text. translated invalid_input (ledger_of_text text))
              [cash_pre r, receivables_pre r, declared_pre_trade_nav r]) (\<lambda>_.
     rbind (translated invalid_input (optional_identifier (disposition_handler_id r))) (\<lambda>_.
     Inr (r\<lparr>prior_positions := ps, raw_execution_prices := prices\<rparr>)))))))))"

definition trade_universe :: "target_request \<Rightarrow> string list" where
  "trade_universe r = sorted_symbols (remdups (selected r @ map fst (prior_positions r)))"

text \<open>The amounts that the input document formats: the prices, then the amounts of the request.\<close>

definition input_document_amounts :: "target_request \<Rightarrow> string list xres" where
  "input_document_amounts r =
     rbind (map_res (\<lambda>(sec, price). format_ledger (PDecimal (price_value price))) (raw_execution_prices r)) (\<lambda>ps.
     rbind (map_res format_ledger
              [PStr (cash_pre r), PStr (declared_pre_trade_nav r), PStr (receivables_pre r),
               PDecimal (rate_bps (request_tax_policy r))]) (\<lambda>as. Inr (ps @ as)))"

section \<open>The frozen target formula\<close>

definition fractional_residual :: "rat \<Rightarrow> rat \<Rightarrow> rat" where
  "fractional_residual position quantum = position - of_int \<lfloor>position / quantum\<rfloor> * quantum"

definition selected_target ::
    "string \<Rightarrow> rat \<Rightarrow> raw_execution_price \<Rightarrow> rat \<Rightarrow> int \<Rightarrow> rat \<Rightarrow> rat tres" where
  "selected_target sec position price nav_exact count quantum =
     (let residual = fractional_residual position quantum;
          price_exact = price_value price;
          budget = nav_exact / of_int count - residual * price_exact;
          units = of_int \<lfloor>budget / price_exact / quantum\<rfloor>;
          target = residual + units * quantum
      in if target < 0 then Inl (Target ''INVALID_NEGATIVE_LONG_ONLY_TARGET'' (Some sec))
         else if budget < 0 then Inr target
         else
         rbind (let (n, d) = quotient_of budget in let_out (ddiv DECIMAL_PRECISION (of_int n) (of_int d))) (\<lambda>b.
         rbind (kernel_call kernel_refusal (Some sec)
                  (round_long_target_shares (PDecimal b) price (PDecimal quantum))) (\<lambda>kernel_units.
         if kernel_units \<noteq> units * quantum then Inl (Target kernel_refusal (Some sec))
         else Inr target)))"

definition decimal_display_weight :: "int \<Rightarrow> string tres" where
  "decimal_display_weight count =
     rbind (let_out (ddiv 50 1 (of_int count))) (\<lambda>w.
     rbind (let_out (quantize 50 (- 18) w)) (\<lambda>q. Inr (fixed_text 18 \<lfloor>q * 10 ^ 18\<rfloor>)))"

section \<open>The projection through the accounting kernel\<close>

record projection =
  engine_accepts :: bool
  cash_post :: rat
  projected_cost :: rat
  projected_tax :: rat
  gross_buy_notional :: rat
  gross_sell_notional :: rat
  projected_deltas :: "signed_target_delta list"

text \<open>What the closure \<open>project\<close> of \<open>construct_targets\<close> keeps fixed.\<close>

record target_env =
  env_before :: portfolio_state
  env_positions :: "(string, rat) dict"
  env_prices :: "(string, raw_execution_price) dict"
  env_marks :: "(string, raw_mark) dict"
  env_rate :: rat
  env_policy :: transaction_tax_policy
  env_selected :: "string list"
  env_quantum :: rat

fun target_deltas_loop :: "target_env \<Rightarrow> (string, rat) dict \<Rightarrow> string list \<Rightarrow> signed_target_delta list tres" where
  "target_deltas_loop env working [] = Inr []"
| "target_deltas_loop env working (sec # rest) =
     (let delta = dict_get_or working sec 0 - dict_get_or (env_positions env) sec 0 in
      if delta = 0 then target_deltas_loop env working rest
      else
      rbind (translated kernel_refusal (format_exact_fraction delta)) (\<lambda>text.
      rbind (case dict_get (env_prices env) sec of
               None \<Rightarrow> Inl (Execution (Escaped KeyError))
             | Some price \<Rightarrow> translated kernel_refusal (mk_signed_target_delta
                 \<lparr>delta_security = sec, delta_raw_shares = text, delta_price = price\<rparr>)) (\<lambda>d.
      rbind (target_deltas_loop env working rest) (\<lambda>ds. Inr (d # ds)))))"

definition target_deltas :: "target_env \<Rightarrow> (string, rat) dict \<Rightarrow> signed_target_delta list tres" where
  "target_deltas env working = target_deltas_loop env working (sorted_symbols (map fst working))"

definition trade_of_delta :: "signed_target_delta \<Rightarrow> trade tres" where
  "trade_of_delta row =
     rbind (untranslated (delta_of row)) (\<lambda>delta.
     kernel_call kernel_refusal (Some (delta_security row))
       (mk_trade (delta_security row) (PDecimal delta) (delta_price row)))"

definition notional_sum :: "(trade \<Rightarrow> bool) \<Rightarrow> trade list \<Rightarrow> rat tres" where
  "notional_sum keep trades =
     rbind (let_out (map_res (gross_notional DECIMAL_PRECISION) (filter keep trades))) (\<lambda>ns.
     Inr (dsum DECIMAL_PRECISION 0 ns))"

definition run_bound_rebalance :: "target_env \<Rightarrow> portfolio_state \<Rightarrow> trade list \<Rightarrow> rebalance_result res" where
  "run_bound_rebalance env before trades =
     rebalance before trades (PDecimal (env_rate env)) (env_policy env) (PInt 0) (Some (env_marks env)) None"

definition negative_cash_text :: "string \<Rightarrow> bool" where
  "negative_cash_text text = (text_in ''negative cash'' text \<or> text_in ''no-margin cash'' text)"

definition projection_of ::
    "bool \<Rightarrow> rat \<Rightarrow> rebalance_result \<Rightarrow> rat \<Rightarrow> rat \<Rightarrow> signed_target_delta list \<Rightarrow> projection" where
  "projection_of accepts cash_after r buys sells ordered =
     \<lparr>engine_accepts = accepts, cash_post = cash_after, projected_cost = transaction_cost r,
      projected_tax = transaction_taxes r, gross_buy_notional = buys, gross_sell_notional = sells,
      projected_deltas = ordered\<rparr>"

text \<open>The cushion-shifted run that observes the cash of a refused projection.\<close>

definition observe_refused ::
    "target_env \<Rightarrow> trade list \<Rightarrow> rat \<Rightarrow> rat \<Rightarrow> signed_target_delta list \<Rightarrow> projection tres" where
  "observe_refused env trades buys sells ordered =
     (let cushion = dec DECIMAL_PRECISION (dec DECIMAL_PRECISION (dec DECIMAL_PRECISION (buys + sells) * 3) + 1);
          shifted_cash = dec DECIMAL_PRECISION (cash (env_before env) + cushion)
      in rbind (kernel_call kernel_refusal None
           (rbind (mk_portfolio_state (PDecimal shifted_cash)
                     (map (\<lambda>(s, q). (s, PDecimal q)) (positions (env_before env)))
                     (raw_marks (env_before env)) (PDecimal (receivables (env_before env)))) (\<lambda>shifted.
            run_bound_rebalance env shifted trades))) (\<lambda>observed.
         Inr (projection_of False (dec DECIMAL_PRECISION (cash (result_after observed) - cushion))
                observed buys sells ordered)))"

definition project_targets :: "target_env \<Rightarrow> (string, rat) dict \<Rightarrow> projection tres" where
  "project_targets env working =
     rbind (target_deltas env working) (\<lambda>candidate.
     if candidate = []
     then Inr \<lparr>engine_accepts = True, cash_post = cash (env_before env), projected_cost = 0, projected_tax = 0,
               gross_buy_notional = 0, gross_sell_notional = 0, projected_deltas = []\<rparr>
     else
     rbind (untranslated (order_fills candidate)) (\<lambda>ordered.
     rbind (map_res trade_of_delta ordered) (\<lambda>trades.
     rbind (notional_sum (\<lambda>t. delta_shares t > 0) trades) (\<lambda>buys.
     rbind (notional_sum (\<lambda>t. delta_shares t < 0) trades) (\<lambda>sells.
     case run_bound_rebalance env (env_before env) trades of
       Inr r \<Rightarrow> Inr (projection_of True (cash (result_after r)) r buys sells ordered)
     | Inl (Raised c m) \<Rightarrow> Inl (Target kernel_refusal None)
     | Inl e \<Rightarrow> (case caught_text e of
           None \<Rightarrow> Inl (Execution (Escaped e))
         | Some text \<Rightarrow>
             if \<not> negative_cash_text text then Inl (Target kernel_refusal None)
             else observe_refused env trades buys sells ordered))))))"

section \<open>The repair loop\<close>

record repair_row =
  step_index :: int
  step_security :: string
  target_before_text :: string
  target_after_text :: string
  recomputed_cost :: string
  recomputed_tax :: string
  recomputed_withholding :: string
  recomputed_fees :: string
  recomputed_cash_post :: string
  recomputed_gross_buy :: string
  step_accepted :: bool

record repair_state =
  working :: "(string, rat) dict"
  current :: projection
  steps :: int
  trace :: "repair_row list"
  decrements :: "(string, int) dict"

definition target_of :: "(string, rat) dict \<Rightarrow> string \<Rightarrow> rat" where
  "target_of ts sec = dict_get_or ts sec 0"

definition residual_of :: "target_env \<Rightarrow> string \<Rightarrow> rat" where
  "residual_of env sec = fractional_residual (dict_get_or (env_positions env) sec 0) (env_quantum env)"

definition repair_candidates :: "target_env \<Rightarrow> (string, rat) dict \<Rightarrow> string list" where
  "repair_candidates env ts =
     filter (\<lambda>sec. target_of ts sec \<ge> residual_of env sec + env_quantum env) (env_selected env)"

definition price_of :: "target_env \<Rightarrow> string \<Rightarrow> rat" where
  "price_of env sec = (case dict_get (env_prices env) sec of None \<Rightarrow> 0 | Some p \<Rightarrow> price_value p)"

definition repair_key :: "target_env \<Rightarrow> (string, rat) dict \<Rightarrow> string \<Rightarrow> rat \<times> string" where
  "repair_key env ts sec = (target_of ts sec * price_of env sec, sec)"

definition repair_row_of :: "int \<Rightarrow> string \<Rightarrow> rat \<Rightarrow> rat \<Rightarrow> projection \<Rightarrow> repair_row xres" where
  "repair_row_of index sec before after proj =
     rbind (map_res format_exact_fraction [before, after]) (\<lambda>ts.
     rbind (map_res (\<lambda>x. format_ledger (PDecimal x))
              [projected_cost proj, projected_tax proj, 0, 0, cash_post proj, gross_buy_notional proj]) (\<lambda>as.
     Inr \<lparr>step_index = index, step_security = sec, target_before_text = ts ! 0, target_after_text = ts ! 1,
          recomputed_cost = as ! 0, recomputed_tax = as ! 1, recomputed_withholding = as ! 2,
          recomputed_fees = as ! 3, recomputed_cash_post = as ! 4, recomputed_gross_buy = as ! 5,
          step_accepted = engine_accepts proj\<rparr>))"

definition repair_once :: "target_env \<Rightarrow> int \<Rightarrow> repair_state \<Rightarrow> repair_state tres" where
  "repair_once env limit s =
     (case repair_candidates env (working s) of
        [] \<Rightarrow> Inl (Target negative_cash_state None)
      | c # cs \<Rightarrow>
          if steps s + 1 > limit then Inl (Target repair_ceiling_state None)
          else
          let chosen = max_by (repair_key env (working s)) c cs;
              target_before = target_of (working s) chosen;
              ts = dict_set (working s) chosen (target_before - env_quantum env)
          in rbind (project_targets env ts) (\<lambda>proj.
             rbind (untranslated (repair_row_of (steps s + 1) chosen target_before
                      (target_before - env_quantum env) proj)) (\<lambda>row.
             Inr \<lparr>working = ts, current = proj, steps = steps s + 1, trace = trace s @ [row],
                  decrements = dict_set (decrements s) chosen (dict_get_or (decrements s) chosen 0 + 1)\<rparr>)))"

lemma repair_once_steps:
  "repair_once env limit s = Inr s' \<Longrightarrow> steps s' = steps s + 1 \<and> steps s' \<le> limit"
  by (auto simp: repair_once_def Let_def split: list.splits if_splits)

lemma rbind_fun_cong [fundef_cong]:
  "m = m' \<Longrightarrow> (\<And>a. m' = Inr a \<Longrightarrow> f a = g a) \<Longrightarrow> rbind m f = rbind m' g"
  by (cases m') auto

text \<open>\<open>while not projection.engine_accepts\<close>: every round is one more step, up to the limit.\<close>

function repair_loop :: "target_env \<Rightarrow> int \<Rightarrow> repair_state \<Rightarrow> repair_state tres" where
  "repair_loop env limit s =
     (if engine_accepts (current s) then Inr s
      else rbind (repair_once env limit s) (repair_loop env limit))"
  by pat_completeness auto

termination
  by (relation "measure (\<lambda>(env, limit, s). nat (limit - steps s))") (auto dest: repair_once_steps)

declare repair_loop.simps [simp del]

section \<open>The entry point\<close>

record target_row =
  row_security :: string
  row_selected :: bool
  prior_raw_shares :: string
  weight_rational :: "(string \<times> string) option"
  weight_display :: "string option"
  residual_in :: string
  target_raw_shares :: string
  signed_delta_raw_shares :: string
  residual_out :: string
  repair_decrements :: int
  row_price :: string

record target_totals =
  selection_count :: int
  pre_trade_nav :: string
  declared_nav_text :: string
  total_cost :: string
  total_tax :: string
  total_withholding :: string
  total_fees :: string
  total_cash_post :: string
  initial_cash_post :: string
  total_gross_buy :: string
  total_gross_sell :: string
  repair_steps_total :: int

record target_result =
  result_request :: string
  result_selected :: "string list"
  result_rows :: "target_row list"
  result_totals :: target_totals
  result_repair :: "repair_row list"
  repair_iteration_ceiling :: int
  result_weight :: "string \<times> string"
  result_display :: string

definition PRE_TRADE_NAV_IDENTITY_TOLERANCE :: rat where "PRE_TRADE_NAV_IDENTITY_TOLERANCE = 1 / 1000000"

text \<open>The guards before the book is opened: artifacts, input document, registries and fee mode.\<close>

definition admitted_cost_policy :: "(string \<Rightarrow> bool) \<Rightarrow> target_request \<Rightarrow> cost_rate_policy tres" where
  "admitted_cost_policy readable r =
     rbind (bind_target_kernels readable) (\<lambda>_.
     rbind (untranslated (input_document_amounts r)) (\<lambda>_.
     rbind (translated no_cost_policy
              (resolve_cost_rate_policy (cost_policy_id r) (cost_rate_policies (registries r)))) (\<lambda>policy.
     if regulatory_fee_mode r \<noteq> ''EXCLUDED_SYNTHETIC_NON_REGULATORY_SOURCE'' \<or> regulatory_authority policy
     then Inl (Target ''BLOCKED_UNSUPPORTED_REGULATORY_FEE_MODE'' None)
     else
     rbind (case disposition_handler_id r of None \<Rightarrow> Inr ()
            | Some hid \<Rightarrow> rbind (resolve_fractional_disposition_handler hid REGISTERED_FRACTIONAL_DISPOSITION_HANDLERS)
                (\<lambda>_. Inr ())) (\<lambda>_.
     rbind (map_res (\<lambda>sec. translated unregistered_source
              (case dict_get (raw_execution_prices r) sec of
                 None \<Rightarrow> Inl (Escaped KeyError)
               | Some price \<Rightarrow> resolve_ledger_coordinate_source (source_id (price_evidence price))
                   (ledger_coordinate_sources (registries r))))
              (sorted_symbols (map fst (raw_execution_prices r)))) (\<lambda>_.
     Inr policy)))))"

definition universe_marks :: "target_request \<Rightarrow> (string, raw_mark) dict tres" where
  "universe_marks r =
     (if list_ex (\<lambda>sec. dict_get (raw_execution_prices r) sec = None) (trade_universe r)
      then Inl (Target invalid_input None)
      else map_res (\<lambda>sec. case dict_get (raw_execution_prices r) sec of
               None \<Rightarrow> Inl (Execution (Escaped KeyError))
             | Some price \<Rightarrow> rbind (kernel_call kernel_refusal (Some sec)
                   (mk_raw_mark (PDecimal (price_value price)) (price_evidence price))) (\<lambda>m. Inr (sec, m)))
             (trade_universe r))"

definition positions_decimal :: "target_request \<Rightarrow> (string, rat) dict tres" where
  "positions_decimal r =
     map_res (\<lambda>(sec, text). rbind (untranslated (ledger_of_text text)) (\<lambda>x. Inr (sec, x))) (prior_positions r)"

text \<open>The frozen portfolio state; the parsing of its amounts is inside the same \<open>try\<close>.\<close>

definition opening_book ::
    "target_request \<Rightarrow> (string, rat) dict \<Rightarrow> (string, raw_mark) dict \<Rightarrow> portfolio_state tres" where
  "opening_book r held marks =
     (case (ledger_of_text (cash_pre r), ledger_of_text (receivables_pre r)) of
        (Inr c, Inr recv) \<Rightarrow> kernel_call invalid_input None
          (mk_portfolio_state (PDecimal c) (map (\<lambda>(s, q). (s, PDecimal q)) held) marks (PDecimal recv))
      | _ \<Rightarrow> Inl (Target invalid_input None))"

definition checked_nav :: "target_request \<Rightarrow> portfolio_state \<Rightarrow> rat tres" where
  "checked_nav r before =
     rbind (let_out (nav before)) (\<lambda>nav_decimal.
     if nav_decimal \<le> 0 then Inl (Target invalid_input None)
     else
     rbind (untranslated (ledger_of_text (declared_pre_trade_nav r))) (\<lambda>declared_nav.
     if \<bar>dec DECIMAL_PRECISION (declared_nav - nav_decimal)\<bar> > PRE_TRADE_NAV_IDENTITY_TOLERANCE
     then Inl (Target ''INVALID_PRE_TRADE_NAV_IDENTITY'' None)
     else Inr nav_decimal))"

text \<open>The selected securities in their order, then the other holdings in theirs.\<close>

definition formula_targets :: "target_env \<Rightarrow> rat \<Rightarrow> int \<Rightarrow> (string, rat) dict tres" where
  "formula_targets env nav_exact count =
     rbind (map_res (\<lambda>sec. case dict_get (env_prices env) sec of
               None \<Rightarrow> Inl (Execution (Escaped KeyError))
             | Some price \<Rightarrow> rbind (selected_target sec (dict_get_or (env_positions env) sec 0) price
                   nav_exact count (env_quantum env)) (\<lambda>t. Inr (sec, t))) (env_selected env)) (\<lambda>ts.
     Inr (foldl (\<lambda>ts (sec, position).
             if dict_get ts sec \<noteq> None then ts
             else dict_set ts sec (fractional_residual position (env_quantum env))) ts (env_positions env)))"

fun ceiling_loop :: "target_env \<Rightarrow> (string, rat) dict \<Rightarrow> int \<Rightarrow> string list \<Rightarrow> int tres" where
  "ceiling_loop env ts acc [] = Inr acc"
| "ceiling_loop env ts acc (sec # rest) =
     (let available = (target_of ts sec - residual_of env sec) / env_quantum env
      in if available \<noteq> of_int \<lfloor>available\<rfloor> \<or> available < 0 then Inl (Target invalid_input (Some sec))
         else ceiling_loop env ts (acc + \<lfloor>available\<rfloor>) rest)"

definition target_row_of ::
    "target_env \<Rightarrow> (string, rat) dict \<Rightarrow> (string, int) dict \<Rightarrow> string \<times> string \<Rightarrow> string \<Rightarrow> string \<Rightarrow> target_row tres" where
  "target_row_of env ts decs weight display sec =
     (let position = dict_get_or (env_positions env) sec 0;
          res_in = residual_of env sec;
          target = target_of ts sec;
          res_out = fractional_residual target (env_quantum env);
          delta = target - position;
          member = (sec \<in> set (env_selected env))
      in if res_out \<noteq> res_in then Inl (Target invalid_input (Some sec))
         else if delta / env_quantum env \<noteq> of_int \<lfloor>delta / env_quantum env\<rfloor>
         then Inl (Target invalid_input (Some sec))
         else
         rbind (untranslated (map_res format_exact_fraction [position, res_in, target, delta, res_out])) (\<lambda>texts.
         rbind (untranslated (format_ledger (PDecimal (price_of env sec)))) (\<lambda>price_text.
         Inr \<lparr>row_security = sec, row_selected = member, prior_raw_shares = texts ! 0,
              weight_rational = (if member then Some weight else None),
              weight_display = (if member then Some display else None),
              residual_in = texts ! 1, target_raw_shares = texts ! 2, signed_delta_raw_shares = texts ! 3,
              residual_out = texts ! 4, repair_decrements = dict_get_or decs sec 0, row_price = price_text\<rparr>)))"

definition target_totals_of ::
    "int \<Rightarrow> rat \<Rightarrow> rat \<Rightarrow> projection \<Rightarrow> projection \<Rightarrow> int \<Rightarrow> target_totals xres" where
  "target_totals_of count nav_decimal declared_nav initial final n =
     rbind (map_res (\<lambda>x. format_ledger (PDecimal x))
              [nav_decimal, declared_nav, projected_cost final, projected_tax final, 0, 0, cash_post final,
               cash_post initial, gross_buy_notional final, gross_sell_notional final]) (\<lambda>as.
     Inr \<lparr>selection_count = count, pre_trade_nav = as ! 0, declared_nav_text = as ! 1, total_cost = as ! 2,
          total_tax = as ! 3, total_withholding = as ! 4, total_fees = as ! 5, total_cash_post = as ! 6,
          initial_cash_post = as ! 7, total_gross_buy = as ! 8, total_gross_sell = as ! 9,
          repair_steps_total = n\<rparr>)"

definition target_env_of ::
    "target_request \<Rightarrow> portfolio_state \<Rightarrow> (string, rat) dict \<Rightarrow> (string, raw_mark) dict \<Rightarrow> rat \<Rightarrow> target_env" where
  "target_env_of r before held marks bps =
     \<lparr>env_before = before, env_positions = held, env_prices = raw_execution_prices r, env_marks = marks,
      env_rate = bps, env_policy = request_tax_policy r, env_selected = selected r, env_quantum = 1\<rparr>"

definition opened_repair :: "(string, rat) dict \<Rightarrow> projection \<Rightarrow> repair_state" where
  "opened_repair ts proj = \<lparr>working = ts, current = proj, steps = 0, trace = [], decrements = []\<rparr>"

text \<open>The targets and the projection that the rows publish, with the repair that led to them.\<close>

definition solved_targets :: "target_env \<Rightarrow> rat \<Rightarrow> int \<Rightarrow> (projection \<times> int \<times> repair_state) tres" where
  "solved_targets env nav_decimal count =
     rbind (formula_targets env nav_decimal count) (\<lambda>ts.
     rbind (ceiling_loop env ts 0 (env_selected env)) (\<lambda>limit.
     rbind (project_targets env ts) (\<lambda>initial.
     rbind (repair_loop env limit (opened_repair ts initial)) (\<lambda>s.
     if cash_post (current s) < 0 then Inl (Target negative_cash_state None)
     else Inr (initial, limit, s)))))"

definition construct_targets :: "(string \<Rightarrow> bool) \<Rightarrow> target_request \<Rightarrow> target_result tres" where
  "construct_targets readable r =
     rbind (admitted_cost_policy readable r) (\<lambda>policy.
     rbind (universe_marks r) (\<lambda>marks.
     rbind (positions_decimal r) (\<lambda>held.
     rbind (opening_book r held marks) (\<lambda>before.
     rbind (checked_nav r before) (\<lambda>nav_decimal.
     rbind (untranslated (policy_rate_bps policy)) (\<lambda>bps.
     let env = target_env_of r before held marks bps; count = declared_selection_count r in
     rbind (solved_targets env nav_decimal count) (\<lambda>(initial, limit, s).
     let weight = (''1'', nat_text (nat count)) in
     rbind (decimal_display_weight count) (\<lambda>display.
     rbind (map_res (target_row_of env (working s) (decrements s) weight display) (trade_universe r)) (\<lambda>rows.
     rbind (untranslated (ledger_of_text (declared_pre_trade_nav r))) (\<lambda>declared_nav.
     rbind (untranslated (target_totals_of count nav_decimal declared_nav initial (current s) (steps s))) (\<lambda>totals.
     Inr \<lparr>result_request = request_id r, result_selected = selected r, result_rows = rows,
          result_totals = totals, result_repair = trace s, repair_iteration_ceiling = limit,
          result_weight = weight, result_display = display\<rparr>)))))))))))"

definition signed_deltas :: "target_result \<Rightarrow> (string, string) dict xres" where
  "signed_deltas res =
     rbind (map_res (\<lambda>row. rbind (ledger_of_text (signed_delta_raw_shares row)) (\<lambda>x. Inr (row, x))) (result_rows res)) (\<lambda>ks.
     Inr (map (\<lambda>(row, x). (row_security row, signed_delta_raw_shares row)) (filter (\<lambda>(row, x). x \<noteq> 0) ks)))"

end
