(* ===== verification/Target_Rules.thy ===== *)
theory Target_Rules
  imports Execution_Rules Target_Construction
begin

text \<open>
  What the projection of the target-construction kernel computes: the deltas it trades, and the
  contract's cash formula for accepted and refused projections alike. The repair loop and the
  published rows follow in \<open>Target_Repair\<close>.
\<close>

section \<open>Deltas, fills and trades\<close>

lemma untranslated_Inr [simp]: "untranslated r = Inr a \<longleftrightarrow> r = Inr a"
  by (simp add: untranslated_def split: sum.splits)

lemma let_through_Inr [simp]: "let_through r = Inr a \<longleftrightarrow> r = Inr a"
  by (simp add: let_through_def split: sum.splits)

lemma translated_Inr [simp]: "translated f r = Inr a \<longleftrightarrow> r = Inr a"
  by (simp add: translated_def split: sum.splits exec_exc.splits)

lemma kernel_call_Inr [simp]: "kernel_call st sec r = Inr a \<longleftrightarrow> r = Inr a"
  by (simp add: kernel_call_def split: sum.splits)

definition target_delta :: "target_env \<Rightarrow> (string, rat) dict \<Rightarrow> string \<Rightarrow> rat" where
  "target_delta env ts sec = target_of ts sec - dict_get_or (env_positions env) sec 0"

text \<open>A row of the deltas: its text denotes the delta and it passed the checks of its constructor.\<close>

definition delta_row :: "target_env \<Rightarrow> (string, rat) dict \<Rightarrow> signed_target_delta \<Rightarrow> bool" where
  "delta_row env ts d \<longleftrightarrow> delta_of d = Inr (target_delta env ts (delta_security d))
     \<and> target_delta env ts (delta_security d) \<noteq> 0
     \<and> dict_get (env_prices env) (delta_security d) = Some (delta_price d) \<and> mk_signed_target_delta d = Inr d"

lemma mk_signed_target_delta_Inr: "mk_signed_target_delta d = Inr d' \<Longrightarrow> d' = d"
  by (auto simp: mk_signed_target_delta_def split: if_splits)

lemma target_deltas_loop_Inr:
  "target_deltas_loop env ts secs = Inr ds \<Longrightarrow>
     map delta_security ds = filter (\<lambda>sec. target_delta env ts sec \<noteq> 0) secs \<and> list_all (delta_row env ts) ds"
proof (induction secs arbitrary: ds)
  case (Cons sec secs)
  show ?case
  proof (cases "target_delta env ts sec = 0")
    case True
    with Cons show ?thesis by (simp add: target_delta_def target_of_def)
  next
    case False
    with Cons.prems obtain tx price d rest where
      t: "format_exact_fraction (target_delta env ts sec) = Inr tx" "dict_get (env_prices env) sec = Some price"
      and d: "mk_signed_target_delta \<lparr>delta_security = sec, delta_raw_shares = tx, delta_price = price\<rparr> = Inr d"
      and r: "target_deltas_loop env ts secs = Inr rest" "ds = d # rest"
      by (auto simp: target_delta_def target_of_def Let_def split: if_splits option.splits)
    from mk_signed_target_delta_Inr [OF d] have deq: "d = \<lparr>delta_security = sec, delta_raw_shares = tx, delta_price = price\<rparr>" .
    have "delta_row env ts d" using t(2) d False ledger_of_exact [OF t(1)] by (simp add: delta_row_def deq delta_of_def)
    with Cons.IH [OF r(1)] r(2) False show ?thesis by (simp add: deq)
  qed
qed simp

lemma target_deltas_Inr:
  assumes "target_deltas env ts = Inr ds"
  shows "map delta_security ds = filter (\<lambda>sec. target_delta env ts sec \<noteq> 0) (sort (map fst ts))"
    "list_all (delta_row env ts) ds"
  using target_deltas_loop_Inr assms by (auto simp: target_deltas_def sorted_symbols_def)

lemma order_fills_Inr:
  assumes "order_fills ds = Inr os"
  shows "mset os = mset ds"
proof -
  from assms obtain ks where ks: "map_res fill_key ds = Inr ks" and os: "os = map snd (sort_key fst ks)"
    by (auto simp: order_fills_def)
  have "map snd ks = ds" using ks by (induction ds arbitrary: ks) (auto simp: fill_key_def)
  moreover have "mset os = mset (map snd ks)" unfolding os by (simp only: mset_map mset_sort)
  ultimately show ?thesis by simp
qed

lemma trade_of_delta_Inr:
  assumes "trade_of_delta d = Inr t" "delta_of d = Inr x"
  shows "delta_shares t = x" "symbol t = strip (delta_security d)" "execution_price t = delta_price d" "wf_trade t"
proof -
  from assms have m: "mk_trade (delta_security d) (PDecimal x) (delta_price d) = Inr t" by (auto simp: trade_of_delta_def)
  then show "delta_shares t = x" "symbol t = strip (delta_security d)" "execution_price t = delta_price d"
    by (auto simp: mk_trade_def Let_def dest!: require_quantum_Inr split: if_splits)
  from m show "wf_trade t" by (rule mk_trade_wf)
qed

section \<open>The projected cash\<close>

lemma gross_sums:
  assumes "map_res (gross_notional 38) (filter P ts) = Inr bs" "map_res (gross_notional 38) (filter Q ts) = Inr ss"
    and "\<And>t. t \<in> set ts \<Longrightarrow> P t \<longleftrightarrow> \<not> Q t"
  obtains ns where "map_res signed_notional ts = Inr ns"
    "sum_list bs + sum_list ss = sum_list (map abs ns)"
    "\<forall>x \<in> set bs \<union> set ss. 0 \<le> x \<and> on_grid (- 8) x"
proof -
  have "\<exists>ns. map_res signed_notional ts = Inr ns \<and> sum_list bs + sum_list ss = sum_list (map abs ns)
      \<and> (\<forall>x \<in> set bs \<union> set ss. 0 \<le> x \<and> on_grid (- 8) x)"
    using assms
  proof (induction ts arbitrary: bs ss)
    case (Cons t ts)
    have g: "\<exists>n. signed_notional t = Inr n \<and> g = \<bar>n\<bar> \<and> on_grid (- 8) g" if "gross_notional 38 t = Inr g" for g
    proof -
      from that obtain n where n: "signed_notional t = Inr n" by (auto simp: gross_notional_def)
      with gross_notional_amount [OF n] signed_notional_amount [OF n] that show ?thesis by auto
    qed
    have sep: "\<And>u. u \<in> set ts \<Longrightarrow> P u \<longleftrightarrow> \<not> Q u" "P t \<longleftrightarrow> \<not> Q t" using Cons.prems(3) by auto
    show ?case
    proof (cases "P t")
      case True
      with Cons.prems sep(2) obtain x bs' where x: "gross_notional 38 t = Inr x" "bs = x # bs'"
        "map_res (gross_notional 38) (filter P ts) = Inr bs'" "map_res (gross_notional 38) (filter Q ts) = Inr ss" by auto
      from Cons.IH [OF x(3,4) sep(1)] g [OF x(1)] x(2) show ?thesis by auto
    next
      case False
      with Cons.prems sep(2) obtain x ss' where x: "gross_notional 38 t = Inr x" "ss = x # ss'"
        "map_res (gross_notional 38) (filter P ts) = Inr bs" "map_res (gross_notional 38) (filter Q ts) = Inr ss'" by auto
      from Cons.IH [OF x(3,4) sep(1)] g [OF x(1)] x(2) show ?thesis by auto
    qed
  qed simp
  with that show thesis by blast
qed


lemma notional_sums:
  assumes "notional_sum (\<lambda>t. 0 < delta_shares t) ts = Inr b" "notional_sum (\<lambda>t. delta_shares t < 0) ts = Inr s"
    and "list_all wf_trade ts" "b + s < 10 ^ 30"
  obtains ns where "map_res signed_notional ts = Inr ns" "b + s = sum_list (map abs ns)"
    "0 \<le> b" "0 \<le> s" "on_grid (- 8) b" "on_grid (- 8) s"
proof -
  from assms(1,2) obtain bs ss where m: "map_res (gross_notional 38) (filter (\<lambda>t. 0 < delta_shares t) ts) = Inr bs"
      "map_res (gross_notional 38) (filter (\<lambda>t. delta_shares t < 0) ts) = Inr ss" and bs: "b = dsum 38 0 bs" "s = dsum 38 0 ss"
    by (auto simp: notional_sum_def equations_constants)
  have "0 < delta_shares t \<longleftrightarrow> \<not> delta_shares t < 0" if "t \<in> set ts" for t
    using assms(3) that by (auto simp: list_all_iff wf_trade_def)
  then obtain ns where ns: "map_res signed_notional ts = Inr ns" "sum_list bs + sum_list ss = sum_list (map abs ns)"
    and nn: "\<forall>x \<in> set bs \<union> set ss. 0 \<le> x \<and> on_grid (- 8) x"
    using gross_sums [OF m] by blast
  have pos: "0 \<le> b" "0 \<le> s" unfolding bs using nn by (auto intro!: dsum_nonneg)
  have "dsum 38 0 bs < 10 ^ 30" "dsum 38 0 ss < 10 ^ 30" using pos assms(4) unfolding bs by linarith+
  then have "b = sum_list bs" "s = sum_list ss"
    unfolding bs using nn dsum_below_exact [of 0 bs] dsum_below_exact [of 0 ss] by simp_all
  moreover have "on_grid (- 8) (sum_list bs)" "on_grid (- 8) (sum_list ss)" using nn by (auto intro!: on_grid_sum_list)
  ultimately show thesis using that ns pos by simp
qed

lemma notional_sum_nonneg: "notional_sum P ts = Inr b \<Longrightarrow> 0 \<le> b"
proof -
  assume "notional_sum P ts = Inr b"
  then obtain bs where bs: "map_res (gross_notional 38) (filter P ts) = Inr bs" "b = dsum 38 0 bs"
    by (auto simp: notional_sum_def equations_constants)
  have "0 \<le> x" if "x \<in> set bs" for x
  proof -
    from map_res_Inr_set [OF bs(1) that] obtain t where "gross_notional 38 t = Inr x" .
    then obtain n where "x = dec 38 \<bar>n\<bar>" by (auto simp: gross_notional_def)
    then show ?thesis by (simp add: dec38.rnd_nonneg)
  qed
  then show "0 \<le> b" unfolding bs(2) by (intro dsum_nonneg) auto
qed

definition wf_env :: "target_env \<Rightarrow> bool" where
  "wf_env env \<longleftrightarrow> wf_portfolio (env_before env) \<and> wf_policy (env_policy env)"

definition gross_of :: "projection \<Rightarrow> rat" where
  "gross_of proj = gross_buy_notional proj + gross_sell_notional proj"

text \<open>The contract's cash formula for the trades of a projection.\<close>

definition follows_cash_formula :: "target_env \<Rightarrow> projection \<Rightarrow> bool" where
  "follows_cash_formula env proj \<longleftrightarrow> (\<exists>trades ns.
     map_res trade_of_delta (projected_deltas proj) = Inr trades \<and> map_res signed_notional trades = Inr ns
     \<and> gross_of proj = sum_list (map abs ns)
     \<and> cash_post proj = cash (env_before env) - sum_list ns - projected_cost proj - projected_tax proj
     \<and> 0 \<le> projected_cost proj \<and> projected_cost proj \<le> gross_of proj
     \<and> 0 \<le> projected_tax proj \<and> projected_tax proj \<le> gross_of proj)"

lemma observe_refused_cash:
  assumes obs: "observe_refused env trades b s ordered = Inr proj" and wf: "wf_env env" "list_all wf_trade trades"
    and ns: "map_res signed_notional trades = Inr ns" and g: "b + s = sum_list (map abs ns)" "0 \<le> b" "0 \<le> s" "on_grid (- 8) b" "on_grid (- 8) s"
    and room: "cash (env_before env) + 6 * (b + s) + 1 < 10 ^ 30"
  shows "cash_post proj = cash (env_before env) - sum_list ns - projected_cost proj - projected_tax proj"
    "0 \<le> projected_cost proj" "projected_cost proj \<le> b + s" "0 \<le> projected_tax proj" "projected_tax proj \<le> b + s"
    "gross_buy_notional proj = b" "gross_sell_notional proj = s" "projected_deltas proj = ordered" "\<not> engine_accepts proj"
proof -
  let ?c = "cash (env_before env)" and ?G = "b + s"
  have c: "0 \<le> ?c" "on_grid (- 8) ?c" "?c < 10 ^ 30" using wf(1) by (auto simp: wf_env_def wf_portfolio_def)
  have one: "on_grid (- 8) 1" by (rule on_gridI [of _ 100000000]) (simp add: power_int_minus)
  have G: "on_grid (- 8) ?G" using g(4,5) by auto
  note on_grid_add [OF on_grid_add [OF G G] G]
  moreover have "?G + ?G + ?G = ?G * 3" by simp
  ultimately have G3: "on_grid (- 8) (?G * 3)" by metis
  then have G31: "on_grid (- 8) (?G * 3 + 1)" using one by auto
  have small: "?G < 10 ^ 30" "?G * 3 < 10 ^ 30" "?G * 3 + 1 < 10 ^ 30" "?c + (?G * 3 + 1) < 10 ^ 30" "0 \<le> ?G"
    using room c(1) g(2,3) by (simp_all add: algebra_simps)
  have cushion: "dec 38 (dec 38 (dec 38 ?G * 3) + 1) = ?G * 3 + 1"
    using G G3 G31 small by (simp add: dec38_amount)
  have shift: "dec 38 (?c + (?G * 3 + 1)) = ?c + (?G * 3 + 1)" using c G31 small by (intro dec38_amount) auto
  obtain sh r where sh: "mk_portfolio_state (PDecimal (?c + (?G * 3 + 1)))
        (map (\<lambda>(s, q). (s, PDecimal q)) (positions (env_before env))) (raw_marks (env_before env))
        (PDecimal (receivables (env_before env))) = Inr sh"
    and r: "run_bound_rebalance env sh trades = Inr r"
    and proj: "proj = projection_of False (dec 38 (cash (result_after r) - (?G * 3 + 1))) r b s ordered"
    using obs unfolding observe_refused_def Let_def DECIMAL_PRECISION_def cushion shift
    by (elim rbind_InrE) (auto simp del: distrib_right_numeral)
  have cs: "cash sh = ?c + (?G * 3 + 1)" using sh c G31 by (intro mk_portfolio_state_cash [OF sh]) auto
  have pol: "wf_policy (env_policy env)" using wf(1) by (simp add: wf_env_def)
  have rm: "cash sh + 3 * sum_list (map abs ns) < 10 ^ 30" using room by (simp add: cs flip: g(1))
  note reb = rebalance_cash [OF r [unfolded run_bound_rebalance_def] mk_portfolio_state_wf [OF sh] pol wf(2) ns rm]
  have after: "wf_portfolio (result_after r)" using r unfolding run_bound_rebalance_def by (rule rebalance_wf)
  then have "dec 38 (cash (result_after r) - (?G * 3 + 1)) = cash (result_after r) - (?G * 3 + 1)"
    using G31 small by (intro dec38_amount) (auto simp: wf_portfolio_def)
  with reb(1-6) show "cash_post proj = cash (env_before env) - sum_list ns - projected_cost proj - projected_tax proj"
    "0 \<le> projected_cost proj" "projected_cost proj \<le> b + s" "0 \<le> projected_tax proj" "projected_tax proj \<le> b + s"
    "gross_buy_notional proj = b" "gross_sell_notional proj = s" "projected_deltas proj = ordered" "\<not> engine_accepts proj"
    by (simp_all add: proj projection_of_def cs g(1))
qed


lemma deltas_trades_wf:
  assumes "map_res trade_of_delta ds = Inr ts" "list_all (delta_row env x) ds"
  shows "list_all wf_trade ts"
proof -
  have "wf_trade t" if "t \<in> set ts" for t
  proof -
    from map_res_Inr_set [OF assms(1) that] obtain d where d: "d \<in> set ds" "trade_of_delta d = Inr t" .
    with assms(2) have "delta_of d = Inr (target_delta env x (delta_security d))" by (auto simp: list_all_iff delta_row_def)
    from trade_of_delta_Inr(4) [OF d(2) this] show ?thesis .
  qed
  then show ?thesis by (simp add: list_all_iff)
qed

lemma ordered_rows:
  assumes "target_deltas env ts = Inr ds" "order_fills ds = Inr os"
  shows "list_all (delta_row env ts) os" "distinct (map delta_security os) \<longleftrightarrow> distinct (map delta_security ds)"
proof -
  note m = order_fills_Inr [OF assms(2)]
  show "list_all (delta_row env ts) os"
    using target_deltas_Inr(2) [OF assms(1)] mset_eq_setD [OF m] by (simp add: list_all_iff)
  have "mset (map delta_security os) = mset (map delta_security ds)" using m by simp
  then show "distinct (map delta_security os) \<longleftrightarrow> distinct (map delta_security ds)" by (rule mset_eq_imp_distinct_iff)
qed

lemma project_targets_cases:
  assumes "project_targets env ts = Inr proj"
  obtains (none) "target_deltas env ts = Inr []" "engine_accepts proj" "cash_post proj = cash (env_before env)"
      "projected_cost proj = 0" "projected_tax proj = 0" "gross_buy_notional proj = 0" "gross_sell_notional proj = 0"
      "projected_deltas proj = []"
  | (fills) ds os trades b s where "target_deltas env ts = Inr ds" "ds \<noteq> []" "order_fills ds = Inr os"
      "map_res trade_of_delta os = Inr trades" "notional_sum (\<lambda>t. 0 < delta_shares t) trades = Inr b"
      "notional_sum (\<lambda>t. delta_shares t < 0) trades = Inr s"
      "(\<exists>r. run_bound_rebalance env (env_before env) trades = Inr r \<and> proj = projection_of True (cash (result_after r)) r b s os)
       \<or> (\<exists>e. run_bound_rebalance env (env_before env) trades = Inl e \<and> observe_refused env trades b s os = Inr proj)"
proof -
  from assms obtain ds where ds: "target_deltas env ts = Inr ds" by (auto simp: project_targets_def)
  show thesis
  proof (cases "ds = []")
    case True
    with assms ds none show thesis by (auto simp: project_targets_def)
  next
    case False
    with assms ds obtain os trades b s where o: "order_fills ds = Inr os" "map_res trade_of_delta os = Inr trades"
        "notional_sum (\<lambda>t. 0 < delta_shares t) trades = Inr b" "notional_sum (\<lambda>t. delta_shares t < 0) trades = Inr s"
      by (auto simp: project_targets_def)
    show thesis
    proof (rule fills [OF ds False o])
      show "(\<exists>r. run_bound_rebalance env (env_before env) trades = Inr r \<and> proj = projection_of True (cash (result_after r)) r b s os)
       \<or> (\<exists>e. run_bound_rebalance env (env_before env) trades = Inl e \<and> observe_refused env trades b s os = Inr proj)"
        using assms ds False o
        by (auto simp: project_targets_def split: sum.splits py_exc.splits option.splits if_splits)
    qed
  qed
qed



end
