(* ===== verification/Target_Repair.thy ===== *)
theory Target_Repair
  imports Target_Rules
begin

text \<open>
  The repair loop of the target-construction kernel refines the contract's repair as a relation,
  spends one order quantum above the residuals in every round, and so ends within its ceiling;
  its own refusals carry declared states only.
\<close>

section \<open>The repair choice\<close>

definition greatest_candidate :: "target_env \<Rightarrow> (string, rat) dict \<Rightarrow> string \<Rightarrow> bool" where
  "greatest_candidate env ts sec \<longleftrightarrow> sec \<in> set (repair_candidates env ts)
     \<and> (\<forall>c \<in> set (repair_candidates env ts). repair_key env ts c \<le> repair_key env ts sec)"

text \<open>
  The contract's repair as a relation: while the projection of the targets is refused, one order
  quantum is taken from the candidate of greatest notional, the greater identifier on a tie.
\<close>

inductive repairs :: "target_env \<Rightarrow> (string, rat) dict \<Rightarrow> nat \<Rightarrow> (string, rat) dict \<Rightarrow> bool" where
  repaired: "repairs env ts 0 ts"
| repair_more: "project_targets env ts = Inr p \<Longrightarrow> \<not> engine_accepts p \<Longrightarrow> greatest_candidate env ts sec
    \<Longrightarrow> repairs env (dict_set ts sec (target_of ts sec - env_quantum env)) n us \<Longrightarrow> repairs env ts (Suc n) us"

inductive_cases repairs_SucE: "repairs env ts (Suc n) us"

definition projected :: "target_env \<Rightarrow> repair_state \<Rightarrow> bool" where
  "projected env s \<longleftrightarrow> project_targets env (working s) = Inr (current s)"

lemma repair_once_Inr:
  assumes "repair_once env limit s = Inr s'"
  obtains sec where "greatest_candidate env (working s) sec"
    "working s' = dict_set (working s) sec (target_of (working s) sec - env_quantum env)"
    "projected env s'" "steps s' = steps s + 1" "steps s' \<le> limit"
    "decrements s' = dict_set (decrements s) sec (dict_get_or (decrements s) sec 0 + 1)"
    "\<exists>row. trace s' = trace s @ [row]"
proof -
  from assms obtain c cs where cs: "repair_candidates env (working s) = c # cs" by (auto simp: repair_once_def split: list.splits)
  define sec where "sec = max_by (repair_key env (working s)) c cs"
  have g: "greatest_candidate env (working s) sec"
    using max_by_greatest [of "repair_key env (working s)" c cs] by (auto simp: greatest_candidate_def cs sec_def)
  show thesis
    by (rule that [OF g]) (use assms in \<open>auto simp: repair_once_def cs Let_def sec_def projected_def split: if_splits\<close>)
qed

lemma repair_loop_refines:
  "repair_loop env limit s = Inr s' \<Longrightarrow> projected env s \<Longrightarrow>
     (\<exists>n. repairs env (working s) n (working s') \<and> steps s' = steps s + int n \<and> length (trace s') = length (trace s) + n)
     \<and> projected env s' \<and> engine_accepts (current s')"
proof (induction env limit s rule: repair_loop.induct)
  case (1 env limit s)
  show ?case
  proof (cases "engine_accepts (current s)")
    case True
    with 1(2,3) show ?thesis by (auto simp: repair_loop.simps [of env limit s] intro!: exI [of _ 0] repaired)
  next
    case False
    with 1(2) obtain s1 where s1: "repair_once env limit s = Inr s1" and rest: "repair_loop env limit s1 = Inr s'"
      by (auto simp: repair_loop.simps [of env limit s])
    from s1 obtain sec where r: "greatest_candidate env (working s) sec"
      "working s1 = dict_set (working s) sec (target_of (working s) sec - env_quantum env)"
      "projected env s1" "steps s1 = steps s + 1" "\<exists>row. trace s1 = trace s @ [row]" by (rule repair_once_Inr)
    from 1(1) [OF False s1 rest r(3)] obtain n where n: "repairs env (working s1) n (working s')" "steps s' = steps s1 + int n"
      "length (trace s') = length (trace s1) + n" "projected env s'" "engine_accepts (current s')" by blast
    have "repairs env (working s) (Suc n) (working s')"
      using n(1) 1(3) False r(1) by (auto simp: r(2) projected_def intro: repair_more)
    with n r(4,5) show ?thesis by (intro conjI exI [of _ "Suc n"]) auto
  qed
qed

lemma repair_loop_limit: "repair_loop env limit s = Inr s' \<Longrightarrow> steps s \<le> limit \<Longrightarrow> steps s' \<le> limit"
proof (induction env limit s rule: repair_loop.induct)
  case (1 env limit s)
  then show ?case by (auto simp: repair_loop.simps [of env limit s] split: if_splits dest: repair_once_steps)
qed

section \<open>The order quanta above the residuals\<close>

definition spare_quanta :: "target_env \<Rightarrow> (string, rat) dict \<Rightarrow> string \<Rightarrow> rat" where
  "spare_quanta env ts sec = (target_of ts sec - residual_of env sec) / env_quantum env"

definition above_residuals :: "target_env \<Rightarrow> (string, rat) dict \<Rightarrow> bool" where
  "above_residuals env ts \<longleftrightarrow> (\<forall>sec \<in> set (env_selected env). \<exists>n::nat. spare_quanta env ts sec = of_nat n)"

definition spare :: "target_env \<Rightarrow> (string, rat) dict \<Rightarrow> int" where
  "spare env ts = sum_list (map (\<lambda>sec. \<lfloor>spare_quanta env ts sec\<rfloor>) (env_selected env))"

lemma ceiling_loop_Inr:
  "ceiling_loop env ts acc secs = Inr limit \<Longrightarrow>
     (\<forall>sec \<in> set secs. \<exists>n::nat. spare_quanta env ts sec = of_nat n)
     \<and> limit = acc + sum_list (map (\<lambda>sec. \<lfloor>spare_quanta env ts sec\<rfloor>) secs)"
proof (induction secs arbitrary: acc)
  case (Cons sec secs)
  let ?a = "spare_quanta env ts sec"
  from Cons.prems have a: "?a = of_int \<lfloor>?a\<rfloor>" "0 \<le> ?a" and rest: "ceiling_loop env ts (acc + \<lfloor>?a\<rfloor>) secs = Inr limit"
    by (auto simp: spare_quanta_def Let_def split: if_splits)
  have "?a = of_nat (nat \<lfloor>?a\<rfloor>)" using a by (metis of_int_0_le_iff of_nat_nat of_int_of_nat_eq)
  then have "\<exists>n::nat. ?a = of_nat n" ..
  with Cons.IH [OF rest] show ?case by auto
qed simp

lemma target_of_set: "target_of (dict_set ts sec x) s = (if s = sec then x else target_of ts s)"
  by (auto simp: target_of_def update_conv')

lemma sum_list_drop:
  fixes f g :: "'a \<Rightarrow> int"
  shows "x \<in> set xs \<Longrightarrow> g x \<le> f x - 1 \<Longrightarrow> (\<And>y. g y \<le> f y) \<Longrightarrow> sum_list (map g xs) \<le> sum_list (map f xs) - 1"
proof (induction xs)
  case (Cons a xs)
  have le: "sum_list (map g xs) \<le> sum_list (map f xs)" using Cons.prems(3) by (simp add: sum_list_mono)
  show ?case
  proof (cases "x \<in> set xs")
    case True
    from Cons.IH [OF True Cons.prems(2,3)] Cons.prems(3) [of a] show ?thesis by simp
  next
    case False
    with Cons.prems(1,2) le show ?thesis by simp
  qed
qed simp

lemma repair_spends_one:
  assumes q: "0 < env_quantum env" and above: "above_residuals env ts" and g: "greatest_candidate env ts sec"
  defines "us \<equiv> dict_set ts sec (target_of ts sec - env_quantum env)"
  shows "above_residuals env us" "spare env us \<le> spare env ts - 1" "1 \<le> spare env ts"
proof -
  have sel: "sec \<in> set (env_selected env)" and room: "residual_of env sec + env_quantum env \<le> target_of ts sec"
    using g by (auto simp: greatest_candidate_def repair_candidates_def)
  have other: "spare_quanta env us s = spare_quanta env ts s" if "s \<noteq> sec" for s
    using that by (simp add: us_def spare_quanta_def target_of_set)
  have at_sec: "spare_quanta env us sec = spare_quanta env ts sec - 1"
    using q by (simp add: us_def spare_quanta_def target_of_set field_simps)
  have "1 \<le> spare_quanta env ts sec" using q room by (simp add: spare_quanta_def field_simps)
  show ab: "above_residuals env us"
    unfolding above_residuals_def
  proof
    fix s assume s: "s \<in> set (env_selected env)"
    with above obtain n :: nat where n: "spare_quanta env ts s = of_nat n" by (auto simp: above_residuals_def)
    show "\<exists>n::nat. spare_quanta env us s = of_nat n"
    proof (cases "s = sec")
      case True
      with n \<open>1 \<le> spare_quanta env ts sec\<close> have "1 \<le> n" by simp
      with n True at_sec show ?thesis by (intro exI [of _ "n - 1"]) (simp add: of_nat_diff)
    qed (use n other in auto)
  qed
  show "spare env us \<le> spare env ts - 1"
    unfolding spare_def
  proof (rule sum_list_drop [OF sel])
    show "\<lfloor>spare_quanta env us sec\<rfloor> \<le> \<lfloor>spare_quanta env ts sec\<rfloor> - 1" by (simp add: at_sec)
    show "\<lfloor>spare_quanta env us y\<rfloor> \<le> \<lfloor>spare_quanta env ts y\<rfloor>" for y
      by (cases "y = sec") (simp_all add: at_sec other)
  qed
  moreover have "0 \<le> spare env us"
    unfolding spare_def using ab by (intro sum_list_nonneg) (force simp: above_residuals_def)
  ultimately show "1 \<le> spare env ts" by simp
qed


section \<open>Refusals\<close>

definition refusals_in :: "string set \<Rightarrow> 'a tres \<Rightarrow> bool" where
  "refusals_in S r \<longleftrightarrow> (\<forall>st sec. r = Inl (Target st sec) \<longrightarrow> st \<in> S)"

lemma refusals_in_Inr [simp]: "refusals_in S (Inr a)" "refusals_in S (Inl (Execution x))"
  by (simp_all add: refusals_in_def)

lemma refusals_in_Target [simp]: "refusals_in S (Inl (Target st sec)) \<longleftrightarrow> st \<in> S"
  by (simp add: refusals_in_def)

lemma refusals_in_rbind: "refusals_in S m \<Longrightarrow> (\<And>a. m = Inr a \<Longrightarrow> refusals_in S (f a)) \<Longrightarrow> refusals_in S (rbind m f)"
  by (cases m) (auto simp: refusals_in_def)

lemma refusals_in_untranslated [simp]: "refusals_in S (untranslated r)"
  by (simp add: refusals_in_def untranslated_def split: sum.splits)

lemma refusals_in_translated: "fallback \<in> S \<Longrightarrow> set PASS_THROUGH_STATES \<subseteq> S \<Longrightarrow> refusals_in S (translated fallback r)"
  by (auto simp: refusals_in_def translated_def split: sum.splits exec_exc.splits)

lemma refusals_in_kernel_call: "state \<in> S \<Longrightarrow> refusals_in S (kernel_call state sec r)"
  by (auto simp: refusals_in_def kernel_call_def split: sum.splits)

lemma refusals_in_map_res: "(\<And>x. x \<in> set xs \<Longrightarrow> refusals_in S (f x)) \<Longrightarrow> refusals_in S (map_res f xs)"
  by (induction xs) (auto intro!: refusals_in_rbind)

definition declared_states :: "string set" where
  "declared_states = set TARGET_FAIL_CLOSED_STATES - {repair_ceiling_state}"

lemma declared_states_eq: "declared_states = {kernel_refusal, missing_artifact, no_cost_policy, no_handler, unregistered_source,
     ''BLOCKED_UNSUPPORTED_REGULATORY_FEE_MODE'', ''INVALID_DUPLICATE_SECURITY_ID'',
     ''INVALID_NEGATIVE_LONG_ONLY_TARGET'', negative_cash_state, ''INVALID_PRE_TRADE_NAV_IDENTITY'',
     ''INVALID_SELECTION_COUNT_MISMATCH'', invalid_input, ''INVALID_ZERO_SELECTION_SIZE''}"
  unfolding declared_states_def TARGET_FAIL_CLOSED_STATES_def kernel_refusal_def missing_artifact_def no_cost_policy_def
    no_handler_def unregistered_source_def negative_cash_state_def invalid_input_def repair_ceiling_state_def
  by auto

lemma declared [simp]: "set PASS_THROUGH_STATES \<subseteq> declared_states" "kernel_refusal \<in> declared_states"
    "invalid_input \<in> declared_states" "negative_cash_state \<in> declared_states" "no_cost_policy \<in> declared_states"
    "no_handler \<in> declared_states" "unregistered_source \<in> declared_states" "missing_artifact \<in> declared_states"
    "''BLOCKED_UNSUPPORTED_REGULATORY_FEE_MODE'' \<in> declared_states" "''INVALID_DUPLICATE_SECURITY_ID'' \<in> declared_states"
    "''INVALID_NEGATIVE_LONG_ONLY_TARGET'' \<in> declared_states" "''INVALID_PRE_TRADE_NAV_IDENTITY'' \<in> declared_states"
    "''INVALID_SELECTION_COUNT_MISMATCH'' \<in> declared_states" "''INVALID_ZERO_SELECTION_SIZE'' \<in> declared_states"
  by (simp_all add: declared_states_eq PASS_THROUGH_STATES_def)

lemmas refusal_rules = refusals_in_rbind refusals_in_untranslated refusals_in_translated [OF _ declared(1)]
  refusals_in_kernel_call refusals_in_map_res

lemma project_refusals: "refusals_in declared_states (project_targets env ts)"
proof -
  have "refusals_in declared_states (target_deltas_loop env ts secs)" for secs
    by (induction secs) (auto simp: Let_def intro!: refusal_rules split: option.splits)
  then have "refusals_in declared_states (target_deltas env ts)" by (simp add: target_deltas_def)
  moreover have "refusals_in declared_states (observe_refused env trades b s os)" for trades b s os
    by (auto simp: observe_refused_def Let_def intro!: refusal_rules)
  ultimately show ?thesis
    unfolding project_targets_def
    by (auto simp: trade_of_delta_def notional_sum_def intro!: refusal_rules split: sum.splits py_exc.splits option.splits)
qed

lemma repair_loop_refusals:
  "0 < env_quantum env \<Longrightarrow> above_residuals env (working s) \<Longrightarrow> steps s + spare env (working s) \<le> limit
     \<Longrightarrow> refusals_in declared_states (repair_loop env limit s)"
proof (induction env limit s rule: repair_loop.induct)
  case (1 env limit s)
  show ?case
  proof (cases "engine_accepts (current s)")
    case False
    have one: "refusals_in declared_states (repair_once env limit s)"
    proof (cases "repair_candidates env (working s)")
      case (Cons c cs)
      have g: "greatest_candidate env (working s) (max_by (repair_key env (working s)) c cs)"
        using max_by_greatest [of "repair_key env (working s)" c cs] by (auto simp: greatest_candidate_def Cons)
      from repair_spends_one(3) [OF 1(2,3) g] 1(4) have "\<not> steps s + 1 > limit" by simp
      then show ?thesis by (auto simp: repair_once_def Cons Let_def intro!: refusal_rules project_refusals)
    qed (simp add: repair_once_def)
    have "refusals_in declared_states (repair_loop env limit s1)" if s1: "repair_once env limit s = Inr s1" for s1
    proof -
      from s1 obtain sec where g: "greatest_candidate env (working s) sec"
        and w: "working s1 = dict_set (working s) sec (target_of (working s) sec - env_quantum env)" and st: "steps s1 = steps s + 1"
        by (rule repair_once_Inr)
      from repair_spends_one(1,2) [OF 1(2,3) g] 1(4) show ?thesis
        by (intro 1(1) [OF False s1 1(2)]) (simp_all add: w st)
    qed
    with one False show ?thesis by (subst repair_loop.simps) (auto intro!: refusals_in_rbind)
  qed (simp add: repair_loop.simps [of env limit s])
qed

lemma solved_refusals: "0 < env_quantum env \<Longrightarrow> refusals_in declared_states (solved_targets env nav_exact k)"
proof -
  assume q: "0 < env_quantum env"
  have sel: "refusals_in declared_states (selected_target sec pos price n c qu)" for sec pos price n c qu
    by (auto simp: selected_target_def Let_def split: prod.splits intro!: refusal_rules)
  have form: "refusals_in declared_states (formula_targets env nav_exact k)"
    unfolding formula_targets_def by (auto intro!: refusal_rules sel split: option.splits)
  have ceil: "refusals_in declared_states (ceiling_loop env ts acc secs)" for ts acc secs
    by (induction secs arbitrary: acc) (auto simp: Let_def)
  have rep: "refusals_in declared_states (repair_loop env limit (opened_repair ts p))"
    if "ceiling_loop env ts 0 (env_selected env) = Inr limit" for ts limit p
    using ceiling_loop_Inr [OF that]
    by (intro repair_loop_refusals q) (auto simp: opened_repair_def above_residuals_def spare_def)
  show ?thesis
    unfolding solved_targets_def
    by (intro refusals_in_rbind form ceil project_refusals rep) auto
qed

end
