(* ===== verification/Target_Weights.thy ===== *)
theory Target_Weights
  imports Target_Repair
begin

text \<open>
  What target construction publishes: the equal-weight formula, what the repair keeps of it, and
  the rows, read back from their texts.
\<close>

section \<open>The frozen formula\<close>

lemma residual_bounds: "0 \<le> fractional_residual x 1" "fractional_residual x 1 < 1"
  by (simp_all add: fractional_residual_def) linarith

lemma residual_add_int: "fractional_residual (x + of_int n) 1 = fractional_residual x 1"
  by (simp add: fractional_residual_def)

lemma residual_fix: "0 \<le> x \<Longrightarrow> x < 1 \<Longrightarrow> fractional_residual x 1 = x"
  by (simp add: fractional_residual_def floor_unique)

lemma residual_residual: "fractional_residual (fractional_residual x 1) 1 = fractional_residual x 1"
  by (rule residual_fix [OF residual_bounds])

lemma selected_target_Inr:
  assumes "selected_target sec position price n k 1 = Inr t" "0 < price_value price"
  obtains u :: nat where "t = fractional_residual position 1 + of_nat u"
    "t * price_value price \<le> n / of_int k" "n / of_int k < (t + 1) * price_value price"
proof -
  let ?r = "fractional_residual position 1" and ?p = "price_value price"
  let ?b = "n / of_int k - ?r * ?p"
  let ?u = "\<lfloor>?b / ?p / 1\<rfloor>"
  from assms(1) have t: "t = ?r + of_int ?u" and pos: "0 \<le> t"
    by (auto simp: selected_target_def Let_def split: if_splits prod.splits)
  have "-1 < (of_int ?u :: rat)" using pos t residual_bounds(2) [of position] by linarith
  then have u0: "0 \<le> ?u" by linarith
  then have "t = ?r + of_nat (nat ?u)" using t by simp
  moreover have "of_int ?u * ?p \<le> ?b"
  proof -
    have "of_int ?u \<le> ?b / ?p" unfolding div_by_1 by (rule of_int_floor_le)
    then show ?thesis unfolding pos_le_divide_eq [OF assms(2)] .
  qed
  then have "t * ?p \<le> n / of_int k" by (simp add: t algebra_simps)
  moreover have "?b < (of_int ?u + 1) * ?p"
  proof -
    have "?b / ?p < of_int ?u + 1" unfolding div_by_1 by linarith
    then show ?thesis unfolding pos_divide_less_eq [OF assms(2)] .
  qed
  then have "n / of_int k < (t + 1) * ?p" by (simp add: t algebra_simps)
  ultimately show thesis by (rule that)
qed

section \<open>The targets before the repair\<close>

lemma residual_fold:
  "dict_get (foldl (\<lambda>ts (sec, position). if dict_get ts sec \<noteq> None then ts else dict_set ts sec (f position)) ts ps) s
     = (case dict_get ts s of Some t \<Rightarrow> Some t | None \<Rightarrow> map_option f (dict_get ps s))"
proof (induction ps arbitrary: ts)
  case (Cons x ps)
  obtain a b where x: "x = (a, b)" by (cases x)
  show ?case unfolding foldl.simps Cons.IH by (auto simp: x update_conv' split: option.splits)
qed (simp split: option.splits)

lemma map_res_pairs:
  "map_res (\<lambda>x. rbind (f x) (\<lambda>y. Inr (x, y))) xs = Inr ps \<Longrightarrow>
     map fst ps = xs \<and> (\<forall>x \<in> set xs. \<exists>y. dict_get ps x = Some y \<and> f x = Inr y)"
  by (induction xs arbitrary: ps) auto

lemma formula_targets_Inr:
  assumes ft: "formula_targets env n k = Inr ts"
  shows "sec \<in> set (env_selected env) \<Longrightarrow> \<exists>price. dict_get (env_prices env) sec = Some price
      \<and> selected_target sec (dict_get_or (env_positions env) sec 0) price n k (env_quantum env) = Inr (target_of ts sec)"
    and "sec \<notin> set (env_selected env) \<Longrightarrow> dict_get ts sec =
      map_option (\<lambda>p. fractional_residual p (env_quantum env)) (dict_get (env_positions env) sec)"
    and "dict_get ts sec \<noteq> None \<longleftrightarrow> sec \<in> set (env_selected env) \<or> dict_get (env_positions env) sec \<noteq> None"
proof -
  define f where "f = (\<lambda>sec. case dict_get (env_prices env) sec of
       None \<Rightarrow> Inl (Execution (Escaped KeyError))
     | Some price \<Rightarrow> selected_target sec (dict_get_or (env_positions env) sec 0) price n k (env_quantum env))"
  have eq: "(\<lambda>sec. case dict_get (env_prices env) sec of
       None \<Rightarrow> Inl (Execution (Escaped KeyError))
     | Some price \<Rightarrow> rbind (selected_target sec (dict_get_or (env_positions env) sec 0) price n k (env_quantum env))
         (\<lambda>t. Inr (sec, t))) = (\<lambda>sec. rbind (f sec) (\<lambda>t. Inr (sec, t)))"
    by (auto simp: f_def split: option.splits)
  from ft obtain ps where ps: "map_res (\<lambda>sec. rbind (f sec) (\<lambda>t. Inr (sec, t))) (env_selected env) = Inr ps"
    and ts: "ts = foldl (\<lambda>ts (sec, position). if dict_get ts sec \<noteq> None then ts
        else dict_set ts sec (fractional_residual position (env_quantum env))) ps (env_positions env)"
    unfolding formula_targets_def eq by (auto simp del: foldl.simps)
  note m = map_res_pairs [OF ps]
  have get: "dict_get ts s = (case dict_get ps s of Some t \<Rightarrow> Some t
      | None \<Rightarrow> map_option (\<lambda>p. fractional_residual p (env_quantum env)) (dict_get (env_positions env) s))" for s
    unfolding ts residual_fold [where f = "\<lambda>p. fractional_residual p (env_quantum env)"] ..
  have none: "dict_get ps s = None \<longleftrightarrow> s \<notin> set (env_selected env)" for s
    using m by (metis list.set_map map_of_eq_None_iff)
  show "sec \<in> set (env_selected env) \<Longrightarrow> \<exists>price. dict_get (env_prices env) sec = Some price
      \<and> selected_target sec (dict_get_or (env_positions env) sec 0) price n k (env_quantum env) = Inr (target_of ts sec)"
    using m by (force simp: get f_def target_of_def split: option.splits)
  show "sec \<notin> set (env_selected env) \<Longrightarrow> dict_get ts sec =
      map_option (\<lambda>p. fractional_residual p (env_quantum env)) (dict_get (env_positions env) sec)"
    using none [of sec] by (simp add: get)
  show "dict_get ts sec \<noteq> None \<longleftrightarrow> sec \<in> set (env_selected env) \<or> dict_get (env_positions env) sec \<noteq> None"
    using none [of sec] by (auto simp: get split: option.splits)
qed

section \<open>What the repair keeps\<close>

definition decremented :: "repair_state \<Rightarrow> string \<Rightarrow> int" where
  "decremented s sec = dict_get_or (decrements s) sec 0"

definition repair_keeps :: "target_env \<Rightarrow> (string, rat) dict \<Rightarrow> repair_state \<Rightarrow> bool" where
  "repair_keeps env ts s \<longleftrightarrow> above_residuals env (working s)
     \<and> (\<forall>sec. target_of (working s) sec = target_of ts sec - of_int (decremented s sec) * env_quantum env
          \<and> 0 \<le> decremented s sec \<and> (sec \<notin> set (env_selected env) \<longrightarrow> decremented s sec = 0)
          \<and> (dict_get (working s) sec = None \<longrightarrow> dict_get ts sec = None))"

lemma repair_loop_keeps:
  "repair_loop env limit s = Inr s' \<Longrightarrow> 0 < env_quantum env \<Longrightarrow> repair_keeps env ts s \<Longrightarrow> repair_keeps env ts s'"
proof (induction env limit s rule: repair_loop.induct)
  case (1 env limit s)
  show ?case
  proof (cases "engine_accepts (current s)")
    case True
    with 1(2,4) show ?thesis by (simp add: repair_loop.simps [of env limit s])
  next
    case False
    with 1(2) obtain s1 where s1: "repair_once env limit s = Inr s1" and rest: "repair_loop env limit s1 = Inr s'"
      by (auto simp: repair_loop.simps [of env limit s])
    from s1 obtain sec where g: "greatest_candidate env (working s) sec"
      and w: "working s1 = dict_set (working s) sec (target_of (working s) sec - env_quantum env)"
      and d: "decrements s1 = dict_set (decrements s) sec (dict_get_or (decrements s) sec 0 + 1)" by (rule repair_once_Inr)
    have sel: "sec \<in> set (env_selected env)" using g by (simp add: greatest_candidate_def repair_candidates_def)
    have d': "decremented s1 x = (if x = sec then decremented s sec + 1 else decremented s x)" for x
      by (auto simp: decremented_def d update_conv')
    have "above_residuals env (working s)" using 1(4) by (simp add: repair_keeps_def)
    from repair_spends_one(1) [OF 1(3) this g] have ab: "above_residuals env (working s1)" by (simp add: w)
    have t: "target_of (working s1) x = (if x = sec then target_of (working s) sec - env_quantum env else target_of (working s) x)" for x
      by (simp add: w target_of_set)
    have "repair_keeps env ts s1"
      using 1(4) sel ab unfolding repair_keeps_def d' t
      by (auto simp: w update_conv' algebra_simps split: if_splits)
    from 1(1) [OF False s1 rest 1(3) this] show ?thesis .
  qed
qed

lemma opened_keeps: "above_residuals env ts \<Longrightarrow> repair_keeps env ts (opened_repair ts p)"
  by (simp add: repair_keeps_def opened_repair_def decremented_def)


section \<open>Solved targets\<close>

definition positive_prices :: "target_env \<Rightarrow> bool" where
  "positive_prices env \<longleftrightarrow> (\<forall>sec \<in> set (env_selected env). \<forall>p. dict_get (env_prices env) sec = Some p \<longrightarrow> 0 < price_value p)"

lemma solved_targets_Inr:
  assumes "solved_targets env n k = Inr (initial, limit, s)"
  obtains ts where "formula_targets env n k = Inr ts" "ceiling_loop env ts 0 (env_selected env) = Inr limit"
    "project_targets env ts = Inr initial" "repair_loop env limit (opened_repair ts initial) = Inr s" "0 \<le> cash_post (current s)"
  using assms by (auto simp: solved_targets_def split: if_splits)

lemma solved_keeps:
  assumes sol: "solved_targets env n k = Inr (initial, limit, s)" and q: "env_quantum env = 1"
  obtains ts where "formula_targets env n k = Inr ts" "repair_keeps env ts s"
    "engine_accepts (current s)" "0 \<le> cash_post (current s)" "projected env s"
    "\<exists>m. repairs env ts m (working s) \<and> steps s = int m \<and> length (trace s) = m" "limit = spare env ts"
proof -
  from sol obtain ts where ts: "formula_targets env n k = Inr ts" "ceiling_loop env ts 0 (env_selected env) = Inr limit"
    "project_targets env ts = Inr initial" "repair_loop env limit (opened_repair ts initial) = Inr s" "0 \<le> cash_post (current s)"
    by (rule solved_targets_Inr)
  from ceiling_loop_Inr [OF ts(2)] have ab: "above_residuals env ts" and lim: "limit = spare env ts"
    by (simp_all add: above_residuals_def spare_def)
  have keeps: "repair_keeps env ts s" by (rule repair_loop_keeps [OF ts(4) _ opened_keeps [OF ab]]) (simp add: q)
  have "projected env (opened_repair ts initial)" using ts(3) by (simp add: projected_def opened_repair_def)
  from repair_loop_refines [OF ts(4) this] have "\<exists>m. repairs env ts m (working s) \<and> steps s = int m \<and> length (trace s) = m"
    "projected env s" "engine_accepts (current s)" by (auto simp: opened_repair_def)
  with that ts(1,5) keeps lim show thesis by blast
qed

lemma solved_weight:
  assumes sol: "solved_targets env n k = Inr (initial, limit, s)" and q: "env_quantum env = 1" and pos: "positive_prices env"
    and sec: "sec \<in> set (env_selected env)"
  shows "(\<exists>u::nat. target_of (working s) sec = residual_of env sec + of_nat u)"
    "target_of (working s) sec * price_of env sec \<le> n / of_int k"
    "n / of_int k < (target_of (working s) sec + of_int (decremented s sec) + 1) * price_of env sec"
proof -
  from sol q obtain ts where ts: "formula_targets env n k = Inr ts" and keeps: "repair_keeps env ts s" by (rule solved_keeps)
  from formula_targets_Inr(1) [OF ts sec] obtain p where p: "dict_get (env_prices env) sec = Some p"
    and sel: "selected_target sec (dict_get_or (env_positions env) sec 0) p n k 1 = Inr (target_of ts sec)" by (auto simp: q)
  have p0: "0 < price_value p" and pe: "price_of env sec = price_value p" using pos sec p by (auto simp: positive_prices_def price_of_def)
  from sel p0 have w: "target_of ts sec * price_value p \<le> n / of_int k" "n / of_int k < (target_of ts sec + 1) * price_value p"
    by (rule selected_target_Inr, simp)+
  have k: "target_of (working s) sec = target_of ts sec - of_int (decremented s sec)" "0 \<le> decremented s sec"
    using keeps by (auto simp: repair_keeps_def q)
  obtain u :: nat where "spare_quanta env (working s) sec = of_nat u" using keeps sec by (auto simp: repair_keeps_def above_residuals_def)
  then have "target_of (working s) sec = residual_of env sec + of_nat u" by (simp add: spare_quanta_def q)
  then show "\<exists>u::nat. target_of (working s) sec = residual_of env sec + of_nat u" ..
  have "target_of (working s) sec * price_value p \<le> target_of ts sec * price_value p" using k p0 by simp
  also have "\<dots> \<le> n / of_int k" by (rule w)
  finally show "target_of (working s) sec * price_of env sec \<le> n / of_int k" by (simp add: pe)
  show "n / of_int k < (target_of (working s) sec + of_int (decremented s sec) + 1) * price_of env sec"
    using w(2) by (simp add: k(1) pe)
qed

lemma solved_unselected:
  assumes sol: "solved_targets env n k = Inr (initial, limit, s)" and q: "env_quantum env = 1"
    and sec: "sec \<notin> set (env_selected env)"
  shows "target_of (working s) sec = residual_of env sec"
proof -
  from sol q obtain ts where ts: "formula_targets env n k = Inr ts" and keeps: "repair_keeps env ts s" by (rule solved_keeps)
  from formula_targets_Inr(2) [OF ts sec] have "target_of ts sec = residual_of env sec"
    by (auto simp: target_of_def residual_of_def q fractional_residual_def split: option.splits)
  with keeps sec show ?thesis by (simp add: repair_keeps_def)
qed

section \<open>Constructed requests\<close>

definition admitted_price :: "string \<times> raw_execution_price \<Rightarrow> bool" where
  "admitted_price = (\<lambda>(sec, p). on_grid (- 8) (price_value p) \<and> security_id (price_evidence p) = sec)"

lemma execution_prices_loop_Inr:
  "execution_prices_loop acc ps = Inr out \<Longrightarrow> list_all admitted_price acc \<Longrightarrow> list_all admitted_price out"
proof (induction acc ps rule: execution_prices_loop.induct)
  case (2 acc raw price rest)
  from 2(2) obtain sec where sec: "canonical_identifier raw = Inr sec" "security_id (price_evidence price) = sec"
    and qu: "require_ledger_price_quantum (PDecimal (price_value price)) (Some sec) = Inr (price_value price)"
    and rest: "execution_prices_loop (dict_set acc sec price) rest = Inr out"
    by (auto simp: require_ledger_price_quantum_def to_ledger_decimal_def split: if_splits)
  have "quantize 38 (- 8) (price_value price) = Inr (price_value price)"
    using qu by (auto simp: require_ledger_price_quantum_def to_ledger_decimal_def equations_constants split: if_splits)
  then have "admitted_price (sec, price)" using sec(2) by (auto simp: admitted_price_def dest: quantize_InrD(1))
  with 2(3) have "list_all admitted_price (dict_set acc sec price)" by (intro list_all_dict_set)
  with 2(1) 2(2) sec(2) show ?case by (auto split: if_splits)
qed simp

lemma mk_target_request_Inr:
  assumes "mk_target_request r0 = Inr r"
  shows "declared_selection_count r = int (length (selected r))" "selected r \<noteq> []"
    "list_all admitted_price (raw_execution_prices r)"
  using assms execution_prices_loop_Inr [of "[]"]
  by (auto simp: mk_target_request_def split: if_splits)


section \<open>The published rows\<close>

text \<open>What a row says: its texts denote an integer trade from the prior holding to a target that
  keeps the fractional residual.\<close>

definition row_trades :: "target_row \<Rightarrow> rat \<Rightarrow> rat \<Rightarrow> bool" where
  "row_trades row prior target \<longleftrightarrow>
     ledger_of_text (prior_raw_shares row) = Inr prior \<and> ledger_of_text (target_raw_shares row) = Inr target
     \<and> ledger_of_text (signed_delta_raw_shares row) = Inr (target - prior) \<and> (\<exists>n. target - prior = of_int n)
     \<and> ledger_of_text (residual_in row) = Inr (fractional_residual prior 1) \<and> residual_out row = residual_in row"

definition equal_weight_row :: "target_row \<Rightarrow> rat \<Rightarrow> int \<Rightarrow> rat \<Rightarrow> bool" where
  "equal_weight_row row nav_minus k target \<longleftrightarrow>
     (\<exists>price. ledger_of_text (row_price row) = Inr price \<and> target * price \<le> nav_minus / of_int k
        \<and> nav_minus / of_int k < (target + of_int (repair_decrements row) + 1) * price)"

lemma format_exact_list:
  "map_res format_exact_fraction xs = Inr ts \<Longrightarrow> length ts = length xs \<and> (\<forall>i < length xs. ledger_of_text (ts ! i) = Inr (xs ! i))"
  using map_res_Inr ledger_of_exact by blast

lemma format_exact_value: "format_exact_fraction x = Inr t \<Longrightarrow> on_grid (- 8) x"
  by (simp add: format_exact_Inr)

lemma format_ledger_grid:
  assumes "format_ledger (PDecimal x) = Inr t" "on_grid (- 8) x"
  shows "ledger_of_text t = Inr x"
proof -
  from assms(1) obtain y q where "to_ledger_decimal (PDecimal x) = Inr y" "quantize 38 (- 8) y = Inr q" "ledger_of_text t = Inr q"
    by (rule format_ledger_Inr)
  then have "quantize 38 (- 8) x = Inr q" "ledger_of_text t = Inr q" by (auto simp: to_ledger_decimal_def)
  with quantize_on_grid assms(2) show ?thesis by blast
qed

lemma target_row_of_Inr:
  assumes "target_row_of env ts decs w display sec = Inr row" "env_quantum env = 1"
  shows "row_security row = sec" "row_selected row \<longleftrightarrow> sec \<in> set (env_selected env)"
    "repair_decrements row = dict_get_or decs sec 0"
    "row_trades row (dict_get_or (env_positions env) sec 0) (target_of ts sec)"
    "on_grid (- 8) (price_of env sec) \<Longrightarrow> ledger_of_text (row_price row) = Inr (price_of env sec)"
proof -
  define position where "position = dict_get_or (env_positions env) sec 0"
  define target where "target = target_of ts sec"
  define res where "res = fractional_residual position 1"
  have res_eq: "residual_of env sec = res" by (simp add: residual_of_def res_def position_def assms(2))
  from assms obtain texts pt where t: "map_res format_exact_fraction [position, res, target, target - position, fractional_residual target 1] = Inr texts"
    and pt: "format_ledger (PDecimal (price_of env sec)) = Inr pt"
    and same: "fractional_residual target 1 = res" and int: "(target - position) = of_int \<lfloor>target - position\<rfloor>"
    and row: "row_security row = sec" "row_selected row \<longleftrightarrow> sec \<in> set (env_selected env)" "repair_decrements row = dict_get_or decs sec 0"
      "prior_raw_shares row = texts ! 0" "residual_in row = texts ! 1" "target_raw_shares row = texts ! 2"
      "signed_delta_raw_shares row = texts ! 3" "residual_out row = texts ! 4" "row_price row = pt"
    unfolding target_row_of_def Let_def position_def [symmetric] target_def [symmetric] res_eq
    by (auto simp del: map_res.simps split: if_splits)
  from format_exact_list [OF t] have x: "\<forall>i < 5. ledger_of_text (texts ! i)
      = Inr ([position, res, target, target - position, fractional_residual target 1] ! i)" by simp
  have x4: "texts ! 4 = texts ! 1" using t same by auto
  show "row_security row = sec" "row_selected row \<longleftrightarrow> sec \<in> set (env_selected env)" "repair_decrements row = dict_get_or decs sec 0"
    by (rule row)+
  show "row_trades row (dict_get_or (env_positions env) sec 0) (target_of ts sec)"
    unfolding row_trades_def position_def [symmetric] target_def [symmetric] row(4-8) res_def [symmetric] x4
    using x [rule_format, of 0] x [rule_format, of 1] x [rule_format, of 2] x [rule_format, of 3] int by auto
  show "on_grid (- 8) (price_of env sec) \<Longrightarrow> ledger_of_text (row_price row) = Inr (price_of env sec)"
    using format_ledger_grid [OF pt] by (simp add: row)
qed


lemma construct_targets_Inr:
  assumes "construct_targets readable r = Inr res"
  obtains policy marks held before n bps initial limit s display totals where
    "admitted_cost_policy readable r = Inr policy" "universe_marks r = Inr marks" "positions_decimal r = Inr held"
    "opening_book r held marks = Inr before" "checked_nav r before = Inr n" "policy_rate_bps policy = Inr bps"
    "solved_targets (target_env_of r before held marks bps) n (declared_selection_count r) = Inr (initial, limit, s)"
    "map_res (target_row_of (target_env_of r before held marks bps) (working s) (decrements s)
       (''1'', nat_text (nat (declared_selection_count r))) display) (trade_universe r) = Inr (result_rows res)"
    "\<exists>d. target_totals_of (declared_selection_count r) n d initial (current s) (steps s) = Inr (result_totals res)"
    "result_repair res = trace s" "repair_iteration_ceiling res = limit" "result_selected res = selected r"
  using assms unfolding construct_targets_def Let_def
  by (elim rbind_InrE) (auto intro!: that)

lemma target_totals_of_Inr:
  assumes "target_totals_of k n d initial final m = Inr t"
  shows "format_ledger (PDecimal n) = Inr (pre_trade_nav t)" "format_ledger (PDecimal (cash_post final)) = Inr (total_cash_post t)"
    "format_ledger (PDecimal (projected_cost final)) = Inr (total_cost t)" "format_ledger (PDecimal (projected_tax final)) = Inr (total_tax t)"
    "repair_steps_total t = m"
proof -
  from assms obtain as where as: "map_res (\<lambda>x. format_ledger (PDecimal x))
      [n, d, projected_cost final, projected_tax final, 0, 0, cash_post final,
       cash_post initial, gross_buy_notional final, gross_sell_notional final] = Inr as"
    and t: "pre_trade_nav t = as ! 0" "total_cost t = as ! 2" "total_tax t = as ! 3" "total_cash_post t = as ! 6" "repair_steps_total t = m"
    by (auto simp: target_totals_of_def simp del: map_res.simps)
  from map_res_Inr [OF as] have x: "\<forall>i < 10. format_ledger (PDecimal ([n, d, projected_cost final, projected_tax final, 0, 0, cash_post final,
       cash_post initial, gross_buy_notional final, gross_sell_notional final] ! i)) = Inr (as ! i)" by simp
  from x [rule_format, of 0] x [rule_format, of 2] x [rule_format, of 3] x [rule_format, of 6]
  show "format_ledger (PDecimal n) = Inr (pre_trade_nav t)" "format_ledger (PDecimal (cash_post final)) = Inr (total_cash_post t)"
    "format_ledger (PDecimal (projected_cost final)) = Inr (total_cost t)" "format_ledger (PDecimal (projected_tax final)) = Inr (total_tax t)"
    "repair_steps_total t = m" by (simp_all add: t)
qed

lemma positions_decimal_get:
  assumes "positions_decimal r = Inr held"
  shows "map fst held = map fst (prior_positions r)"
    "case dict_get (prior_positions r) sec of None \<Rightarrow> dict_get held sec = None
     | Some text \<Rightarrow> (\<exists>x. dict_get held sec = Some x \<and> ledger_of_text text = Inr x)"
proof -
  have "map fst held = map fst ps \<and> (case dict_get ps sec of None \<Rightarrow> dict_get held sec = None
     | Some text \<Rightarrow> (\<exists>x. dict_get held sec = Some x \<and> ledger_of_text text = Inr x))"
    if "map_res (\<lambda>(sec, text). rbind (untranslated (ledger_of_text text)) (\<lambda>x. Inr (sec, x))) ps = Inr held" for ps
    using that by (induction ps arbitrary: held) (auto split: option.splits)
  then show "map fst held = map fst (prior_positions r)"
    "case dict_get (prior_positions r) sec of None \<Rightarrow> dict_get held sec = None
     | Some text \<Rightarrow> (\<exists>x. dict_get held sec = Some x \<and> ledger_of_text text = Inr x)"
    using assms unfolding positions_decimal_def by blast+
qed

lemma universe_prices:
  assumes "universe_marks r = Inr marks" "sec \<in> set (trade_universe r)"
  shows "\<exists>p. dict_get (raw_execution_prices r) sec = Some p \<and> 0 < price_value p"
proof -
  from assms obtain p where p: "dict_get (raw_execution_prices r) sec = Some p"
    by (auto simp: universe_marks_def list_ex_iff split: if_splits)
  let ?f = "\<lambda>sec. case dict_get (raw_execution_prices r) sec of
               None \<Rightarrow> Inl (Execution (Escaped KeyError))
             | Some price \<Rightarrow> rbind (kernel_call kernel_refusal (Some sec)
                   (mk_raw_mark (PDecimal (price_value price)) (price_evidence price))) (\<lambda>m. Inr (sec, m))"
  from assms(1) have "map_res ?f (trade_universe r) = Inr marks" by (auto simp: universe_marks_def split: if_splits)
  from map_res_defined [OF this assms(2)] have "\<exists>m. ?f sec = Inr m" .
  with p show ?thesis by (auto simp: mk_raw_mark_def split: if_splits)
qed

lemma trade_universe_set: "set (trade_universe r) = set (selected r) \<union> set (map fst (prior_positions r))"
  by (simp add: trade_universe_def sorted_symbols_def)

definition prior_holding :: "target_request \<Rightarrow> string \<Rightarrow> rat \<Rightarrow> bool" where
  "prior_holding r sec prior \<longleftrightarrow> (case dict_get (prior_positions r) sec of None \<Rightarrow> prior = 0 | Some text \<Rightarrow> ledger_of_text text = Inr prior)"



end
