(* ===== verification/Engine_Rules.thy ===== *)
theory Engine_Rules
  imports Execution_Engine Target_Weights
begin

text \<open>
  The rebalance stage of the execution kernel runs its fills twice: once as a batch and once fill by
  fill, to publish the book after each. The two runs agree, for every batch the kernel accepts.
\<close>

section \<open>The replay agrees with the batch\<close>

definition same_book :: "rebalance_ledger \<Rightarrow> portfolio_state \<Rightarrow> bool" where
  "same_book l s \<longleftrightarrow> led_cash l = cash s \<and> led_positions l = positions s"

lemma apply_fill_same:
  assumes "apply_fill bps pol l t = Inr l1" "apply_fill bps pol k t = Inr k1"
    and "led_cash l = led_cash k" "led_positions l = led_positions k"
  shows "led_cash l1 = led_cash k1" "led_positions l1 = led_positions k1"
  using assms by (auto simp: apply_fill_def Let_def split: if_splits)

lemma apply_fill_grid: "apply_fill bps pol l t = Inr l1 \<Longrightarrow> on_grid (- 8) (led_cash l1)"
  by (auto simp: apply_fill_def Let_def equations_constants split: if_splits dest: quantize_at_InrD(1))

lemma single_rebalance:
  assumes "rebalance s [t] c pol x ma ra = Inr r" "wf_portfolio s" "wf_trade t"
    and "apply_fill bps pol l t = Inr l1" "decimal c ''transaction_cost_rate_bps'' = Inr bps" "same_book l s"
  shows "same_book l1 (result_after r)" "wf_portfolio (result_after r)"
proof -
  obtain bps' k where c: "decimal c ''transaction_cost_rate_bps'' = Inr bps'"
    and k: "fold_res (apply_fill bps' pol) (initial_ledger s) [t] = Inr k"
    and pos: "positions (result_after r) = led_positions k" and cash: "on_grid (- 8) (led_cash k) \<Longrightarrow> cash (result_after r) = led_cash k"
    by (rule rebalance_after [OF assms(1,2)]) (use assms(3) in simp, blast)
  with assms(5) have f: "apply_fill bps pol (initial_ledger s) t = Inr k" by auto
  have "led_cash (initial_ledger s) = led_cash l" "led_positions (initial_ledger s) = led_positions l"
    using assms(6) by (simp_all add: initial_ledger_def same_book_def)
  from apply_fill_same [OF f assms(4) this] pos cash [OF apply_fill_grid [OF f]] show "same_book l1 (result_after r)"
    by (simp add: same_book_def)
  show "wf_portfolio (result_after r)" by (rule rebalance_wf [OF assms(1)])
qed

lemma translate_kernel_error_Inr [simp]: "translate_kernel_error st r = Inr a \<longleftrightarrow> r = Inr a"
  by (simp add: translate_kernel_error_def split: sum.splits option.splits)

lemma translated_to_Inr [simp]: "translated_to x r = Inr a \<longleftrightarrow> r = Inr a"
  by (simp add: translated_to_def split: sum.splits)

lemma engine_trade_wf: "engine_trade stage d = Inr t \<Longrightarrow> wf_trade t"
  by (auto simp: engine_trade_def dest: mk_trade_wf)

lemma execute_fills_Inr:
  assumes "execute_fills p st before ordered = Inr base"
  obtains trades bps where "map_res (engine_trade (rebalance_id st)) ordered = Inr trades" "program_rate p = Inr bps"
    "engine_rebalance p bps st before trades = Inr base" "ledger_of_text (declared_external_flow st) = Inr 0"
proof -
  from assms have flow: "ledger_of_text (declared_external_flow st) = Inr 0"
    by (auto simp: execute_fills_def rbind_def split: if_splits sum.splits)
  with assms obtain trades bps where t: "map_res (engine_trade (rebalance_id st)) ordered = Inr trades" "program_rate p = Inr bps"
    by (auto simp: execute_fills_def rbind_def split: if_splits sum.splits)
  with assms flow have "engine_rebalance p bps st before trades = Inr base"
    by (auto simp: execute_fills_def split: sum.splits py_exc.splits)
  with t flow show thesis by (intro that)
qed

lemma execute_fills_nonempty: "execute_fills p st before ordered = Inr base \<Longrightarrow> ordered \<noteq> []"
  by (erule execute_fills_Inr) (auto simp: engine_rebalance_def rebalance_def)

lemma replay_books:
  assumes "fold_res (replay_one p st reasons) (rows, s) ds = Inr (rows', s')"
    and "fold_res (apply_fill bps (engine_tax_policy p)) l trades = Inr l'"
    and "map_res (engine_trade (rebalance_id st)) ds = Inr trades" "program_rate p = Inr bps"
    and "same_book l s" "wf_portfolio s"
  shows "same_book l' s'"
  using assms
proof (induction ds arbitrary: rows s l trades)
  case (Cons d ds)
  from Cons.prems(3) obtain t ts where t: "engine_trade (rebalance_id st) d = Inr t"
    "map_res (engine_trade (rebalance_id st)) ds = Inr ts" "trades = t # ts" by auto
  from Cons.prems(2) t(3) obtain l1 where l1: "apply_fill bps (engine_tax_policy p) l t = Inr l1"
    "fold_res (apply_fill bps (engine_tax_policy p)) l1 ts = Inr l'" by auto
  from Cons.prems(1) obtain rows1 s1 where step: "replay_one p st reasons (rows, s) d = Inr (rows1, s1)"
    and rest: "fold_res (replay_one p st reasons) (rows1, s1) ds = Inr (rows', s')" by auto
  from step t(1) Cons.prems(4) obtain r where r: "engine_rebalance p bps st s [t] = Inr r" "s1 = result_after r"
    by (auto simp: replay_one_def Let_def)
  have dec: "decimal (PDecimal bps) ''transaction_cost_rate_bps'' = Inr bps" by simp
  note one = single_rebalance [OF r(1) [unfolded engine_rebalance_def] Cons.prems(6) engine_trade_wf [OF t(1)] l1(1) dec Cons.prems(5)]
  show ?case by (rule Cons.IH [OF rest l1(2) t(2) Cons.prems(4)]) (use one r(2) in simp_all)
qed simp

lemma replay_agrees:
  assumes ex: "execute_fills p st before ordered = Inr base" and re: "replay_fills p st reasons before ordered = Inr (rows, s)"
    and wf: "wf_portfolio before"
  shows "cash s = cash (result_after base)" "positions s = positions (result_after base)"
proof -
  from ex obtain trades bps where t: "map_res (engine_trade (rebalance_id st)) ordered = Inr trades" "program_rate p = Inr bps"
    "engine_rebalance p bps st before trades = Inr base" by (rule execute_fills_Inr)
  have wft: "list_all wf_trade trades"
    using map_res_Inr_set [OF t(1)] engine_trade_wf by (metis list_all_iff)
  obtain l where l: "fold_res (apply_fill bps (engine_tax_policy p)) (initial_ledger before) trades = Inr l"
    and pos: "positions (result_after base) = led_positions l" and cash: "on_grid (- 8) (led_cash l) \<Longrightarrow> cash (result_after base) = led_cash l"
    using rebalance_after [OF t(3) [unfolded engine_rebalance_def] wf wft] by auto
  have "same_book (initial_ledger before) before" by (simp add: same_book_def initial_ledger_def)
  from replay_books [OF re [unfolded replay_fills_def] l t(1,2) this wf] have b: "same_book l s" .
  have ne: "trades \<noteq> []" using t(3) by (auto simp: engine_rebalance_def rebalance_def)
  then obtain ts t' where "trades = ts @ [t']" by (cases trades rule: rev_cases) auto
  with l have "on_grid (- 8) (led_cash l)" by (auto simp: fold_res_append dest: apply_fill_grid)
  with b pos cash show "cash s = cash (result_after base)" "positions s = positions (result_after base)" by (simp_all add: same_book_def)
qed

text \<open>What the rows of a replay say.\<close>

definition publishes :: "executed_fill \<Rightarrow> portfolio_state \<Rightarrow> bool" where
  "publishes row s \<longleftrightarrow> format_ledger (PDecimal (cash s)) = Inr (cash_after_fill row)
     \<and> format_positions (positions s) = Inr (positions_after_fill row)"

lemma replay_one_row:
  assumes "replay_one p st reasons (rows, s) d = Inr (rows', s')"
  obtains row where "rows' = rows @ [row]" "fill_index row = length rows" "fill_security row = delta_security d"
    "delta_of d = Inr x \<Longrightarrow> fill_is_sell row = (x < 0)" "publishes row s'"
proof -
  from assms obtain t bps step where 1: "engine_trade (rebalance_id st) d = Inr t" "program_rate p = Inr bps"
      "translate_kernel_error st (engine_rebalance p bps st s [t]) = Inr step" "s' = result_after step"
    by (auto simp: replay_one_def Let_def)
  from assms 1 obtain delta gross ps as held reason where 2: "delta_of d = Inr delta"
      "map_res (\<lambda>x. format_ledger (PDecimal x)) [gross, transaction_cost step, transaction_taxes step, cash s'] = Inr as"
      "format_positions (positions s') = Inr held"
      "rows' = rows @ [\<lparr>fill_index = length rows, fill_security = delta_security d, fill_is_sell = (delta < 0),
                   fill_delta = ps ! 0, fill_price = ps ! 1, fill_gross = as ! 0, fill_cost = as ! 1, fill_tax = as ! 2,
                   cash_after_fill = as ! 3, positions_after_fill = held, fill_reason_code = reason\<rparr>]"
    by (auto simp: replay_one_def Let_def simp del: map_res.simps)
  have "format_ledger (PDecimal (cash s')) = Inr (as ! 3)" using map_res_Inr [OF 2(2)] by (auto dest: spec [of _ 3])
  then show thesis using 2(1,3,4) by (intro that) (auto simp: publishes_def)
qed

lemma replay_rows:
  "fold_res (replay_one p st reasons) (rows, s) ds = Inr (rows', s') \<Longrightarrow>
     \<exists>new. rows' = rows @ new \<and> map fill_security new = map delta_security ds
       \<and> map fill_index new = [length rows..<length rows'] \<and> (ds \<noteq> [] \<longrightarrow> publishes (last rows') s')"
proof (induction ds arbitrary: rows s)
  case (Cons d ds)
  from Cons.prems obtain rows1 s1 where one: "replay_one p st reasons (rows, s) d = Inr (rows1, s1)"
    and rest: "fold_res (replay_one p st reasons) (rows1, s1) ds = Inr (rows', s')" by auto
  from one obtain row where row: "rows1 = rows @ [row]" "fill_index row = length rows" "fill_security row = delta_security d"
    "publishes row s1" by (rule replay_one_row)
  from Cons.IH [OF rest] obtain new where new: "rows' = rows1 @ new" "map fill_security new = map delta_security ds"
    "map fill_index new = [length rows1..<length rows']" "ds \<noteq> [] \<longrightarrow> publishes (last rows') s'" by blast
  have "publishes (last rows') s'"
  proof (cases "ds = []")
    case True
    with rest new(1,2) row show ?thesis by auto
  qed (use new(4) in blast)
  moreover have "[length rows..<length rows'] = length rows # [length rows1..<length rows']"
    using row(1) new(1) by (simp add: upt_conv_Cons del: upt_Suc)
  then have "map fill_index (row # new) = [length rows..<length rows']" using row(2) new(3) by simp
  ultimately show ?case using new(1,2) row(1,3) by (intro exI [of _ "row # new"]) auto
qed simp

end
