(* ===== verification/Engine_Targets.thy ===== *)
theory Engine_Targets
  imports Engine_Rules Target_Weights
begin

text \<open>
  The equal-weight solve of the execution kernel always returns, and it is the solve of the
  target-construction kernel: one projection of that kernel is one round here, so both reach the
  same targets and the same book.
\<close>

section \<open>The solve always returns\<close>

definition engine_spare :: "string list \<Rightarrow> (string, rat) dict \<Rightarrow> rat \<Rightarrow> (string, rat) dict \<Rightarrow> nat" where
  "engine_spare secs held quantum ts = sum_list (map (\<lambda>sec.
     nat \<lfloor>(dict_get_or ts sec 0 - fractional_part_at quantum (dict_get_or held sec 0)) / quantum\<rfloor>) secs)"

lemma sum_list_drops:
  fixes f g :: "'a \<Rightarrow> nat"
  shows "x \<in> set xs \<Longrightarrow> g x < f x \<Longrightarrow> (\<And>y. g y \<le> f y) \<Longrightarrow> sum_list (map g xs) < sum_list (map f xs)"
proof (induction xs)
  case (Cons a xs)
  have "sum_list (map g xs) \<le> sum_list (map f xs)" using Cons.prems(3) by (simp add: sum_list_mono)
  with Cons show ?case by (cases "x \<in> set xs") (auto intro: add_le_less_mono add_less_le_mono)
qed simp

lemma solve_round_spends:
  assumes q: "0 < quantum" and r: "solve_round p st before prog held quantum ts = Inr (Inr us)"
  shows "engine_spare (program_selected prog) held quantum us < engine_spare (program_selected prog) held quantum ts"
proof -
  from r obtain c cs where cs: "engine_candidates (program_selected prog) held quantum ts = c # cs"
    and us: "us = dict_set ts (max_by (engine_key (program_prices prog) ts) c cs)
      (dict_get_or ts (max_by (engine_key (program_prices prog) ts) c cs) 0 - quantum)"
    by (auto simp: solve_round_def Let_def split: if_splits sum.splits exec_exc.splits list.splits)
  define sec where "sec = max_by (engine_key (program_prices prog) ts) c cs"
  let ?frac = "\<lambda>s. fractional_part_at quantum (dict_get_or held s 0)"
  have "sec \<in> set (engine_candidates (program_selected prog) held quantum ts)"
    using max_by_greatest [of "engine_key (program_prices prog) ts" c cs] by (auto simp: sec_def cs)
  then have sel: "sec \<in> set (program_selected prog)" and room: "?frac sec + quantum \<le> dict_get_or ts sec 0"
    by (auto simp: engine_candidates_def)
  have at_sec: "(dict_get_or us sec 0 - ?frac sec) / quantum = (dict_get_or ts sec 0 - ?frac sec) / quantum - 1"
    using q by (simp add: us flip: sec_def) (simp add: update_conv' field_simps)
  have other: "dict_get_or us s 0 = dict_get_or ts s 0" if "s \<noteq> sec" for s
    using that by (simp add: us update_conv' flip: sec_def)
  have "1 \<le> (dict_get_or ts sec 0 - ?frac sec) / quantum" using q room by (simp add: field_simps)
  then have one: "1 \<le> \<lfloor>(dict_get_or ts sec 0 - ?frac sec) / quantum\<rfloor>" by simp
  show ?thesis
    unfolding engine_spare_def
  proof (rule sum_list_drops [OF sel])
    show "nat \<lfloor>(dict_get_or us sec 0 - ?frac sec) / quantum\<rfloor> < nat \<lfloor>(dict_get_or ts sec 0 - ?frac sec) / quantum\<rfloor>"
      using one by (simp add: at_sec)
    show "nat \<lfloor>(dict_get_or us y 0 - ?frac y) / quantum\<rfloor> \<le> nat \<lfloor>(dict_get_or ts y 0 - ?frac y) / quantum\<rfloor>" for y
      using one by (cases "y = sec") (simp_all add: at_sec other)
  qed
qed

lemma solve_returns:
  "0 < quantum \<Longrightarrow> \<exists>r. solve_with_negative_cash_repair p st before prog held quantum ts = Some r"
proof (induction "engine_spare (program_selected prog) held quantum ts" arbitrary: ts rule: less_induct)
  case less
  show ?case
  proof (cases "solve_round p st before prog held quantum ts")
    case (Inr r)
    show ?thesis
    proof (cases r)
      case (Inr us)
      with \<open>solve_round p st before prog held quantum ts = Inr r\<close>
      have us: "solve_round p st before prog held quantum ts = Inr (Inr us)" by simp
      from less.hyps [OF solve_round_spends [OF less.prems us] less.prems] show ?thesis
        by (subst solve_with_negative_cash_repair.simps) (simp add: us)
    qed (use Inr in \<open>simp add: solve_with_negative_cash_repair.simps [of p st before prog held quantum ts]\<close>)
  qed (simp add: solve_with_negative_cash_repair.simps [of p st before prog held quantum ts])
qed

section \<open>The two kernels solve the same targets\<close>

text \<open>What both kernels see of one rebalance.\<close>

definition same_rebalance ::
    "target_env \<Rightarrow> engine_program \<Rightarrow> rebalance_stage \<Rightarrow> equal_weight_program \<Rightarrow> bool" where
  "same_rebalance env p st prog \<longleftrightarrow>
     env_prices env = program_prices prog \<and> env_selected env = program_selected prog
     \<and> env_marks env = stage_marks st \<and> env_policy env = engine_tax_policy p
     \<and> program_rate p = Inr (env_rate env) \<and> ledger_of_text (declared_external_flow st) = Inr 0"

lemma map_res_transfer:
  "map_res f xs = Inr ys \<Longrightarrow> (\<And>x y. x \<in> set xs \<Longrightarrow> f x = Inr y \<Longrightarrow> g x = Inr y) \<Longrightarrow> map_res g xs = Inr ys"
  by (induction xs arbitrary: ys) auto

lemma same_target:
  assumes "selected_target sec position price n (int (length (program_selected prog))) q = Inr t"
    and "dict_get (program_prices prog) sec = Some price" "position = dict_get_or held sec 0"
  shows "equal_weight_target prog held n q stage sec = Inr t"
proof -
  define res b u where defs: "res = fractional_residual position q" "b = n / of_nat (length (program_selected prog)) - res * price_value price"
    "u = of_int \<lfloor>b / price_value price / q\<rfloor> * q"
  have part: "fractional_part_at q (dict_get_or held sec 0) = res"
    by (simp only: fractional_part_at_def fractional_residual_def assms(3) defs(1))
  from assms(1) have "(if res + u < 0 then Inl (Target ''INVALID_NEGATIVE_LONG_ONLY_TARGET'' (Some sec))
      else if b < 0 then Inr (res + u)
      else rbind (untranslated (decimal_from_fraction b)) (\<lambda>x.
        rbind (kernel_call kernel_refusal (Some sec) (round_long_target_shares (PDecimal x) price (PDecimal q))) (\<lambda>units.
        if units \<noteq> u then Inl (Target kernel_refusal (Some sec)) else Inr (res + u)))) = Inr t"
    unfolding selected_target_def Let_def defs decimal_from_fraction_def case_prod_beta of_int_of_nat_eq .
  then have "(if res + u < 0 then Inl (refusal ''BLOCKED_SHORT_POSITION'' (Some sec) None (Some stage))
      else if b < 0 then Inr (res + u)
      else rbind (decimal_from_fraction b) (\<lambda>x.
        rbind (let_through (round_long_target_shares (PDecimal x) price (PDecimal q))) (\<lambda>units.
        if units \<noteq> u then Inl (refusal malformed (Some sec) None (Some stage)) else Inr (res + u)))) = Inr t"
    by (auto simp: let_through_def split: if_splits)
  then show ?thesis
    unfolding equal_weight_target_def Let_def part assms(2) option.case defs(2,3) .
qed

lemma same_targets:
  assumes "same_rebalance env p st prog" and k: "k = int (length (program_selected prog))"
    and f: "formula_targets env n k = Inr ts"
  shows "equal_weight_targets prog (env_positions env) n (env_quantum env) stage = Inr ts"
proof -
  have eq: "env_prices env = program_prices prog" "env_selected env = program_selected prog"
    using assms(1) by (simp_all add: same_rebalance_def)
  from f obtain us where us: "map_res (\<lambda>sec. case dict_get (program_prices prog) sec of
               None \<Rightarrow> Inl (Execution (Escaped KeyError))
             | Some price \<Rightarrow> rbind (selected_target sec (dict_get_or (env_positions env) sec 0) price
                   n k (env_quantum env)) (\<lambda>t. Inr (sec, t))) (program_selected prog) = Inr us"
    and ts: "ts = foldl (\<lambda>ts (sec, position). if dict_get ts sec \<noteq> None then ts
             else dict_set ts sec (fractional_residual position (env_quantum env))) us (env_positions env)"
    unfolding formula_targets_def eq by (elim rbind_InrE) simp
  have "map_res (\<lambda>sec. rbind (equal_weight_target prog (env_positions env) n (env_quantum env) stage sec) (\<lambda>t. Inr (sec, t)))
      (program_selected prog) = Inr us"
  proof (rule map_res_transfer [OF us])
    fix sec y
    assume y: "(case dict_get (program_prices prog) sec of
               None \<Rightarrow> Inl (Execution (Escaped KeyError))
             | Some price \<Rightarrow> rbind (selected_target sec (dict_get_or (env_positions env) sec 0) price
                   n k (env_quantum env)) (\<lambda>t. Inr (sec, t))) = Inr y"
    then obtain price where p: "dict_get (program_prices prog) sec = Some price" by (cases "dict_get (program_prices prog) sec") auto
    with y obtain t where t: "selected_target sec (dict_get_or (env_positions env) sec 0) price n k (env_quantum env) = Inr t" "y = (sec, t)"
      by (cases "selected_target sec (dict_get_or (env_positions env) sec 0) price n k (env_quantum env)") auto
    from same_target [OF t(1) [unfolded k] p refl] t(2)
    show "rbind (equal_weight_target prog (env_positions env) n (env_quantum env) stage sec) (\<lambda>t. Inr (sec, t)) = Inr y" by simp
  qed
  then show ?thesis unfolding equal_weight_targets_def ts fractional_residual_def fractional_part_at_def by simp
qed

lemma same_deltas:
  assumes "same_rebalance env p st prog" "target_deltas env ts = Inr ds"
  shows "deltas_from_targets ts (env_positions env) (program_prices prog) stage = Inr ds"
proof -
  have eq: "env_prices env = program_prices prog" using assms(1) by (simp add: same_rebalance_def)
  have "deltas_loop ts (env_positions env) (program_prices prog) stage secs = Inr ds"
    if "target_deltas_loop env ts secs = Inr ds" for secs ds
    using that by (induction secs arbitrary: ds) (auto simp: Let_def eq split: option.splits if_splits)
  with assms(2) show ?thesis by (simp add: target_deltas_def deltas_from_targets_def)
qed

lemma same_trades: "map_res trade_of_delta ds = Inr ts \<Longrightarrow> map_res (engine_trade stage) ds = Inr ts"
  by (erule map_res_transfer) (auto simp: trade_of_delta_def engine_trade_def)

lemma same_batch:
  assumes same: "same_rebalance env p st prog" and trades: "map_res trade_of_delta ordered = Inr trades"
  shows "execute_fills p st (env_before env) ordered = (case run_bound_rebalance env (env_before env) trades of
       Inl (Raised c m) \<Rightarrow> Inl (stage_refusal ''BLOCKED_UNSUPPORTED_EXTERNAL_FLOW'' st)
     | r \<Rightarrow> translate_kernel_error st r)"
  using same same_trades [OF trades, of "rebalance_id st"]
  by (simp add: same_rebalance_def execute_fills_def engine_rebalance_def run_bound_rebalance_def)

text \<open>One projection against one round of the solve.\<close>

lemma same_accepted:
  assumes same: "same_rebalance env p st prog" and proj: "project_targets env ts = Inr proj" and ok: "engine_accepts proj"
    and trades: "projected_deltas proj \<noteq> []"
  obtains ds base where "solve_round p st (env_before env) prog (env_positions env) (env_quantum env) ts = Inr (Inl ds)"
    "order_fills ds = Inr (projected_deltas proj)"
    "execute_fills p st (env_before env) (projected_deltas proj) = Inr base" "cash (result_after base) = cash_post proj"
    "transaction_cost base = projected_cost proj" "transaction_taxes base = projected_tax proj"
  using proj
proof (cases rule: project_targets_cases)
  case (fills ds os trades b s)
  from fills(7) ok obtain r where r: "run_bound_rebalance env (env_before env) trades = Inr r"
      "proj = projection_of True (cash (result_after r)) r b s os"
    by (auto simp: observe_refused_def projection_of_def Let_def)
  have ex: "execute_fills p st (env_before env) os = Inr r" using r(1) same_batch [OF same fills(4)] by simp
  have pd: "projected_deltas proj = os" by (simp add: r(2) projection_of_def)
  have "solve_round p st (env_before env) prog (env_positions env) (env_quantum env) ts = Inr (Inl ds)"
    using same_deltas [OF same fills(1)] fills(2,3) ex by (simp add: solve_round_def)
  with ex fills(3) show thesis by (intro that) (simp_all add: pd r(2) projection_of_def)
qed (use trades in simp)

lemma same_refused:
  assumes same: "same_rebalance env p st prog" and proj: "project_targets env ts = Inr proj" and no: "\<not> engine_accepts proj"
    and once: "repair_once env limit s = Inr s'" and w: "working s = ts"
  shows "solve_round p st (env_before env) prog (env_positions env) (env_quantum env) ts = Inr (Inr (working s'))"
  using proj
proof (cases rule: project_targets_cases)
  case (fills ds os trades b se)
  from fills(7) no obtain e where e: "run_bound_rebalance env (env_before env) trades = Inl e"
    by (auto simp: projection_of_def)
  have eq: "env_prices env = program_prices prog" "env_selected env = program_selected prog"
    using same by (simp_all add: same_rebalance_def)
  from proj fills(1-6) e no obtain msg where msg: "caught_text e = Some msg" "negative_cash_text msg" "\<nexists>c m. e = Raised c m"
    by (auto simp: project_targets_def split: py_exc.splits if_splits)
  have "execute_fills p st (env_before env) os = translate_kernel_error st (Inl e)"
    using msg(3) same_batch [OF same fills(4)] e by (simp split: py_exc.splits)
  also have "\<dots> = Inl (stage_refusal ''BLOCKED_NEGATIVE_POST_TRADE_CASH'' st)"
    using msg(1,2) by (auto simp: translate_kernel_error_def kernel_error_state_def negative_cash_text_def)
  finally have ex: "execute_fills p st (env_before env) os = Inl (stage_refusal ''BLOCKED_NEGATIVE_POST_TRADE_CASH'' st)" .
  have cand: "engine_candidates (program_selected prog) (env_positions env) (env_quantum env) ts = repair_candidates env ts"
    by (simp only: engine_candidates_def repair_candidates_def target_of_def residual_of_def fractional_residual_def fractional_part_at_def eq)
  have key: "engine_key (program_prices prog) ts = repair_key env ts"
    by (rule ext) (simp only: engine_key_def repair_key_def target_of_def price_of_def eq)
  from once w obtain c cs where cs: "repair_candidates env ts = c # cs" by (auto simp: repair_once_def split: list.splits)
  have "working s' = dict_set ts (max_by (repair_key env ts) c cs)
      (target_of ts (max_by (repair_key env ts) c cs) - env_quantum env)"
    using once by (auto simp: repair_once_def w cs Let_def split: if_splits)
  then show ?thesis
    using same_deltas [OF same fills(1)] fills(2,3) ex
    by (simp add: solve_round_def cand cs key Let_def stage_refusal_def refusal_def target_of_def del: max_by.simps)
qed (use no in simp)

lemma same_repair:
  assumes same: "same_rebalance env p st prog"
  shows "repair_loop env limit s = Inr s' \<Longrightarrow> projected env s \<Longrightarrow>
    solve_with_negative_cash_repair p st (env_before env) prog (env_positions env) (env_quantum env) (working s)
      = solve_with_negative_cash_repair p st (env_before env) prog (env_positions env) (env_quantum env) (working s')
    \<and> projected env s' \<and> engine_accepts (current s')"
  using same
proof (induction env limit s rule: repair_loop.induct)
  case (1 env limit s)
  show ?case
  proof (cases "engine_accepts (current s)")
    case True
    with 1(2,3) show ?thesis by (simp add: repair_loop.simps [of env limit s])
  next
    case False
    with 1(2) obtain s1 where s1: "repair_once env limit s = Inr s1" and rest: "repair_loop env limit s1 = Inr s'"
      by (auto simp: repair_loop.simps [of env limit s])
    from s1 have p1: "projected env s1" by (rule repair_once_Inr)
    have "solve_round p st (env_before env) prog (env_positions env) (env_quantum env) (working s) = Inr (Inr (working s1))"
      by (rule same_refused [OF 1(4) 1(3) [unfolded projected_def] False s1 refl])
    then have "solve_with_negative_cash_repair p st (env_before env) prog (env_positions env) (env_quantum env) (working s)
      = solve_with_negative_cash_repair p st (env_before env) prog (env_positions env) (env_quantum env) (working s1)"
      by (subst solve_with_negative_cash_repair.simps) simp
    with 1(1) [OF False s1 rest p1 1(4)] show ?thesis by simp
  qed
qed

definition settled_alike :: "projection \<Rightarrow> rebalance_result \<Rightarrow> bool" where
  "settled_alike proj base \<longleftrightarrow> cash (result_after base) = cash_post proj
     \<and> transaction_cost base = projected_cost proj \<and> transaction_taxes base = projected_tax proj"

lemma kernels_agree:
  assumes same: "same_rebalance env p st prog" and k: "k = int (length (program_selected prog))"
    and sol: "solved_targets env n k = Inr (initial, limit, s)" and trades: "projected_deltas (current s) \<noteq> []"
  shows "\<exists>ts ds base. equal_weight_targets prog (env_positions env) n (env_quantum env) (rebalance_id st) = Inr ts
    \<and> solve_with_negative_cash_repair p st (env_before env) prog (env_positions env) (env_quantum env) ts = Some (Inr ds)
    \<and> order_fills ds = Inr (projected_deltas (current s))
    \<and> execute_fills p st (env_before env) (projected_deltas (current s)) = Inr base \<and> settled_alike (current s) base"
proof -
  from sol obtain ts where ts: "formula_targets env n k = Inr ts" "project_targets env ts = Inr initial"
      "repair_loop env limit (opened_repair ts initial) = Inr s"
    by (auto simp: solved_targets_def split: if_splits)
  have "projected env (opened_repair ts initial)" using ts(2) by (simp add: projected_def opened_repair_def)
  note rep = same_repair [OF same ts(3) this]
  then have p: "project_targets env (working s) = Inr (current s)" and ok: "engine_accepts (current s)" by (simp_all add: projected_def)
  obtain ds base where ds: "solve_round p st (env_before env) prog (env_positions env) (env_quantum env) (working s) = Inr (Inl ds)"
    "order_fills ds = Inr (projected_deltas (current s))"
    "execute_fills p st (env_before env) (projected_deltas (current s)) = Inr base" "settled_alike (current s) base"
    by (rule same_accepted [OF same p ok trades]) (auto simp: settled_alike_def intro: that)
  have "solve_with_negative_cash_repair p st (env_before env) prog (env_positions env) (env_quantum env) (working s) = Some (Inr ds)"
    by (subst solve_with_negative_cash_repair.simps) (simp add: ds(1))
  with rep have "solve_with_negative_cash_repair p st (env_before env) prog (env_positions env) (env_quantum env) ts = Some (Inr ds)"
    by (simp add: opened_repair_def)
  with same_targets [OF same k ts(1)] ds(2-4) show ?thesis by blast
qed

end
