(* ===== verification/Run_Rules.thy ===== *)
theory Run_Rules
  imports Execution_Actions Engine_Targets
begin

text \<open>
  The walk of the execution kernel over its stages always returns, its sessions never run backwards,
  and a corporate-action stage moves exactly the split shares and the declared entitlement.
\<close>

section \<open>Every run returns\<close>

definition stage_made :: "execution_stage \<Rightarrow> bool" where
  "stage_made stage = (case stage of Rebalance st \<Rightarrow> mk_rebalance_stage st = Inr st | _ \<Rightarrow> True)"

lemma made_quantum: "mk_rebalance_stage st = Inr st' \<Longrightarrow> ledger_of_text (stage_order_quantum st) = Inr 1"
  by (auto simp: mk_rebalance_stage_def Let_def split: if_splits)

lemma stage_deltas_return:
  assumes "mk_rebalance_stage st = Inr st'"
  shows "\<exists>r. stage_deltas p st before held n = Some r"
proof (cases "stage_target st")
  case (EqualWeight prog)
  show ?thesis
  proof (cases "equal_weight_targets prog held n 1 (rebalance_id st)")
    case (Inr ts)
    with solve_returns [of 1 p st before prog held ts] show ?thesis
      by (simp add: stage_deltas_def EqualWeight made_quantum [OF assms])
  qed (simp add: stage_deltas_def EqualWeight made_quantum [OF assms])
qed (simp add: stage_deltas_def)

lemma rebalance_returns:
  assumes "mk_rebalance_stage st = Inr st'"
  shows "\<exists>r. execute_rebalance_stage p st s = Some r"
proof -
  obtain f where f: "\<And>before held n. stage_deltas p st before held n = Some (f before held n)"
    using stage_deltas_return [OF assms, of p] by metis
  show ?thesis by (auto simp: execute_rebalance_stage_def f split: sum.splits prod.splits)
qed

lemma stage_returns: "stage_made stage \<Longrightarrow> \<exists>r. run_stage p l stage = Some r"
proof (cases stage)
  case (Rebalance st)
  assume "stage_made stage"
  then have "mk_rebalance_stage st = Inr st" by (simp add: stage_made_def Rebalance)
  from rebalance_returns [OF this] obtain r where "execute_rebalance_stage (engine_program.truncate p) st (run_book l) = Some r" by blast
  then show ?thesis by (simp add: run_stage_def Rebalance)
qed (simp_all add: run_stage_def)

lemma stages_return: "list_all stage_made stages \<Longrightarrow> \<exists>r. run_stages p l stages = Some r"
proof (induction stages arbitrary: l)
  case (Cons stage stages)
  from Cons.prems stage_returns [of stage p l] obtain r where "run_stage p l stage = Some r" by auto
  with Cons show ?case by (cases r) auto
qed simp

section \<open>The order of the stages\<close>

definition not_after :: "session_ref \<Rightarrow> session_ref \<Rightarrow> bool" where
  "not_after a b \<longleftrightarrow> ref_ordinal a \<le> ref_ordinal b \<and> ref_date a \<le> ref_date b"

lemma not_after_trans: "not_after a b \<Longrightarrow> not_after b c \<Longrightarrow> not_after a c"
  by (auto simp: not_after_def)

lemma monotone_loop_Inr:
  "monotone_loop cal prev stages = Inr () \<Longrightarrow> list_all (\<lambda>s. not_after (stage_entry s) (stage_exit s)) stages \<Longrightarrow>
     list_all (\<lambda>s. not_after prev (stage_entry s)) stages
     \<and> sorted_wrt (\<lambda>a b. not_after (stage_exit a) (stage_entry b)) stages
     \<and> list_all (\<lambda>s. calendar_identity (stage_entry s) = cal \<and> calendar_identity (stage_exit s) = cal) stages"
proof (induction stages arbitrary: prev)
  case (Cons stage stages)
  from Cons.prems(1) have c: "calendar_identity (stage_entry stage) = cal" "calendar_identity (stage_exit stage) = cal"
    "not_after prev (stage_entry stage)" and rest: "monotone_loop cal (stage_exit stage) stages = Inr ()"
    by (auto simp: Let_def not_after_def split: if_splits)
  from Cons.IH [OF rest] Cons.prems(2) have ih: "list_all (\<lambda>s. not_after (stage_exit stage) (stage_entry s)) stages"
     "sorted_wrt (\<lambda>a b. not_after (stage_exit a) (stage_entry b)) stages"
     "list_all (\<lambda>s. calendar_identity (stage_entry s) = cal \<and> calendar_identity (stage_exit s) = cal) stages" by simp_all
  have "not_after prev (stage_exit stage)" using c(3) Cons.prems(2) by (auto intro: not_after_trans)
  with ih(1) have "list_all (\<lambda>s. not_after prev (stage_entry s)) stages" by (auto simp: list_all_iff intro: not_after_trans)
  with ih c show ?case by (simp add: list_all_iff)
qed simp

lemma stage_payment_forward:
  "stage_payment st c r r1 e = Inr x \<Longrightarrow> not_after (stage_entry (Action st)) (stage_exit (Action st))"
  by (auto simp: stage_payment_def stage_entry_def stage_exit_def not_after_def split: option.splits if_splits)

lemma action_Inr:
  assumes "apply_corporate_action_stage st s whole regs = Inr (s', out)"
  obtains security held_after ent recv1 refs where
    "action_security st = Inr security" "events_unbooked st = Inr ()"
    "split_shares st security (case security of None \<Rightarrow> 0 | Some sec \<Rightarrow> dict_get_or (st_positions s) sec 0) = Inr held_after"
    "split_reference st (st_marks s) security (case security of None \<Rightarrow> 0 | Some sec \<Rightarrow> dict_get_or (st_positions s) sec 0) held_after = Inr refs"
    "stage_entitlement st security held_after = Inr ent"
    "quantize_ledger (dec DEFAULT_PRECISION (st_receivables s + ent)) = Inr recv1"
    "stage_payment st (st_cash s) (st_receivables s) recv1 ent = Inr (st_cash s', st_receivables s')"
    "st_positions s' = (case (action_split st, security) of
       (Some _, Some sec) \<Rightarrow> dict_set (st_positions s) sec held_after | _ \<Rightarrow> st_positions s)"
    "outcome_registry out = registry_before st @ stage_events st"
  using assms unfolding apply_corporate_action_stage_def Let_def
  by (elim rbind_InrE) (auto simp: outcome_of_def intro!: that)

lemma run_stages_forward:
  "run_stages p l stages = Some (Inr l') \<Longrightarrow> list_all (\<lambda>s. not_after (stage_entry s) (stage_exit s)) stages"
proof (induction stages arbitrary: l)
  case (Cons stage stages)
  from Cons.prems obtain l1 where l1: "run_stage p l stage = Some (Inr l1)" "run_stages p l1 stages = Some (Inr l')"
    by (auto split: option.splits sum.splits)
  have "not_after (stage_entry stage) (stage_exit stage)"
  proof (cases stage)
    case (Action st)
    from l1(1) obtain s out where "apply_corporate_action_stage st (run_book l) (whole_share_mode p) (engine_registries p) = Inr (s, out)"
      by (auto simp: run_stage_def Action)
    then show ?thesis unfolding Action by (rule action_Inr) (rule stage_payment_forward)
  qed (simp_all add: stage_exit_def not_after_def)
  with Cons.IH [OF l1(2)] show ?case by simp
qed simp

lemma mk_program_Inr:
  "mk_execution_program p0 = Inr p \<Longrightarrow> program_stages p \<noteq> [] \<and> monotone_loop (calendar_identity (opening_session p)) (opening_session p) (program_stages p) = Inr ()"
  by (auto simp: mk_execution_program_def require_monotone_stage_sessions_def split: if_splits)

lemma run_walk_Inr: "run_walk p = Some (Inr l) \<Longrightarrow> \<exists>l0. opened_run p = Inr l0 \<and> run_stages p l0 (program_stages p) = Some (Inr l)"
  by (auto simp: run_walk_def split: sum.splits option.splits)

section \<open>The ledger of an action stage\<close>

lemma ledger_exact:
  assumes "quantize_ledger (dec DEFAULT_PRECISION x) = Inr q" "on_grid (- 8) x" "\<bar>x\<bar> < 10 ^ 20"
  shows "q = x"
proof -
  have "dec 28 x = x" using assms(2,3) by (intro dec_grid [where k = "- 8"]) simp_all
  with assms(1) have "quantize 38 (- 8) x = Inr q" by (auto simp: quantize_ledger_def equations_constants split: sum.splits)
  with assms(2) show ?thesis using quantize_on_grid by blast
qed

lemma entitlement_amount:
  assumes "stage_entitlement st sec q = Inr ent"
  shows "0 \<le> ent" "on_grid (- 8) ent"
proof -
  have "0 \<le> ent \<and> on_grid (- 8) ent"
  proof (cases "action_dividend st")
    case (Some d)
    with assms obtain c where c: "0 \<le> q" "0 \<le> c" "quantize_at (- 8) (dec 38 (q * c)) = Inr ent"
      by (auto simp: stage_entitlement_def dividend_receivable_def equations_constants not_less split: if_splits)
    from c(1,2) have "0 \<le> dec 38 (q * c)" by (intro dec38.rnd_nonneg) simp
    with c(3) show ?thesis by (blast intro: quantize_at_nonneg dest: quantize_at_InrD(1))
  qed (use assms in \<open>simp add: stage_entitlement_def\<close>)
  then show "0 \<le> ent" "on_grid (- 8) ent" by simp_all
qed

text \<open>What the stage books: shares of one security, and an entitlement that is paid or stays receivable.\<close>

definition books_entitlement :: "action_stage \<Rightarrow> stage_state \<Rightarrow> rat \<Rightarrow> stage_state \<Rightarrow> bool" where
  "books_entitlement st s ent s' \<longleftrightarrow>
     (if action_payment st = None then st_cash s' = st_cash s \<and> st_receivables s' = st_receivables s + ent
      else st_cash s' = st_cash s + ent \<and> st_receivables s' = st_receivables s)"

definition shares_at :: "stage_state \<Rightarrow> string \<Rightarrow> rat" where
  "shares_at s sec = dict_get_or (st_positions s) sec 0"

definition declared_entitlement :: "action_stage \<Rightarrow> rat \<Rightarrow> rat \<Rightarrow> bool" where
  "declared_entitlement st q ent \<longleftrightarrow> (case action_dividend st of None \<Rightarrow> ent = 0
     | Some d \<Rightarrow> \<exists>c. ledger_of_text (dividend_cash d) = Inr c \<and> dividend_receivable (PDecimal q) (PDecimal c) = Inr ent)"

lemma split_shares_none: "split_shares st sec q = Inr q' \<Longrightarrow> action_split st = None \<Longrightarrow> q' = q"
  by (simp add: split_shares_def)

lemma action_security_split: "action_security st = Inr sec \<Longrightarrow> action_split st \<noteq> None \<Longrightarrow> sec \<noteq> None"
  by (auto simp: action_security_def split: option.splits if_splits)

lemma entitlement_declared: "stage_entitlement st sec q = Inr ent \<Longrightarrow> declared_entitlement st q ent"
  by (auto simp: stage_entitlement_def declared_entitlement_def split: option.splits)

lemma action_books:
  assumes app: "apply_corporate_action_stage st s whole regs = Inr (s', out)"
    and grid: "on_grid (- 8) (st_cash s)" "on_grid (- 8) (st_receivables s)" "0 \<le> st_cash s" "0 \<le> st_receivables s"
  shows "\<exists>security ent. action_security st = Inr security
    \<and> (\<forall>sec. Some sec \<noteq> security \<longrightarrow> shares_at s' sec = shares_at s sec)
    \<and> (case security of None \<Rightarrow> ent = 0 | Some sec \<Rightarrow> declared_entitlement st (shares_at s' sec) ent
        \<and> (\<exists>mb ma. dict_get (st_marks s) sec = Some mb \<and> dict_get (marks_after_split st) sec = Some ma
            \<and> shares_at s sec * mark_value mb = shares_at s' sec * mark_value ma))
    \<and> (st_cash s + st_receivables s + ent < 10 ^ 20 \<longrightarrow> books_entitlement st s ent s')
    \<and> set (stage_events st) \<inter> set (registry_before st) = {} \<and> outcome_registry out = registry_before st @ stage_events st"
  using app
proof (rule action_Inr)
  fix security q ent r1 refs
  let ?before = "case security of None \<Rightarrow> 0 | Some sec \<Rightarrow> dict_get_or (st_positions s) sec 0"
  assume sec: "action_security st = Inr security" and ev: "events_unbooked st = Inr ()"
    and q: "split_shares st security ?before = Inr q"
    and ref: "split_reference st (st_marks s) security ?before q = Inr refs"
    and ent: "stage_entitlement st security q = Inr ent"
    and r1: "quantize_ledger (dec DEFAULT_PRECISION (st_receivables s + ent)) = Inr r1"
    and pay: "stage_payment st (st_cash s) (st_receivables s) r1 ent = Inr (st_cash s', st_receivables s')"
    and pos: "st_positions s' = (case (action_split st, security) of
       (Some _, Some sec) \<Rightarrow> dict_set (st_positions s) sec q | _ \<Rightarrow> st_positions s)"
    and reg: "outcome_registry out = registry_before st @ stage_events st"
  have other: "shares_at s' x = shares_at s x" if "Some x \<noteq> security" for x
    using that by (auto simp: shares_at_def pos update_conv' split: option.splits)
  have at_sec: "shares_at s' x = q" if "security = Some x" for x
    using that split_shares_none [OF q] by (cases "action_split st") (simp_all add: shares_at_def pos update_conv')
  have e: "0 \<le> ent" "on_grid (- 8) ent" using entitlement_amount [OF ent] by simp_all
  have "books_entitlement st s ent s'" if small: "st_cash s + st_receivables s + ent < 10 ^ 20"
  proof -
    have "r1 = st_receivables s + ent" using grid e small by (intro ledger_exact [OF r1]) auto
    moreover have "c = st_cash s + ent" if "quantize_ledger (dec DEFAULT_PRECISION (st_cash s + ent)) = Inr c" for c
      using grid e small by (intro ledger_exact [OF that]) auto
    ultimately show ?thesis using pay by (auto simp: stage_payment_def books_entitlement_def split: option.splits if_splits)
  qed
  moreover have "set (stage_events st) \<inter> set (registry_before st) = {}"
    using ev by (auto simp: events_unbooked_def list_ex_iff split: if_splits)
  moreover have "case security of None \<Rightarrow> ent = 0 | Some x \<Rightarrow> declared_entitlement st (shares_at s' x) ent
        \<and> (\<exists>mb ma. dict_get (st_marks s) x = Some mb \<and> dict_get (marks_after_split st) x = Some ma
            \<and> shares_at s x * mark_value mb = shares_at s' x * mark_value ma)"
  proof (cases security)
    case None
    with sec ent show ?thesis by (auto simp: action_security_def stage_entitlement_def split: option.splits if_splits)
  next
    case (Some x)
    with ref obtain mb ma where "dict_get (st_marks s) x = Some mb" "dict_get (marks_after_split st) x = Some ma"
      "shares_at s x * mark_value mb = q * mark_value ma"
      by (auto simp: split_reference_def require_mark_def shares_at_def Let_def split: option.splits if_splits)
    with at_sec [OF Some] entitlement_declared [OF ent] show ?thesis by (simp add: Some)
  qed
  ultimately show ?thesis using sec other reg by blast
qed

end
