(* ===== verification/Target_Refusals.thy ===== *)
theory Target_Refusals
  imports Target_Weights
begin

text \<open>
  What leaves the target-construction kernel besides its own refusals: the execution layer's
  refusal of a ledger value and the decimal context's \<open>InvalidOperation\<close>, and nothing else. No
  lookup of a mark or a price fails and nothing is divided by zero, because the request was
  constructed and its universe is marked.
\<close>

section \<open>Which errors a result can carry\<close>

definition raises_only :: "('e \<Rightarrow> bool) \<Rightarrow> 'e + 'a \<Rightarrow> bool" where
  "raises_only P r \<longleftrightarrow> (\<forall>e. r = Inl e \<longrightarrow> P e)"

lemma raises_only_simps [simp]: "raises_only P (Inr a)" "raises_only P (Inl e) \<longleftrightarrow> P e"
  by (simp_all add: raises_only_def)

lemma raises_only_rbind:
  "raises_only P m \<Longrightarrow> (\<And>a. m = Inr a \<Longrightarrow> raises_only P (f a)) \<Longrightarrow> raises_only P (rbind m f)"
  by (cases m) auto

lemma raises_only_map_res: "(\<And>x. x \<in> set xs \<Longrightarrow> raises_only P (f x)) \<Longrightarrow> raises_only P (map_res f xs)"
  by (induction xs) (auto intro!: raises_only_rbind)

lemma raises_only_fold_res: "(\<And>s x. raises_only P (f s x)) \<Longrightarrow> raises_only P (fold_res f s xs)"
  by (induction xs arbitrary: s) (auto intro!: raises_only_rbind)

lemma raises_only_mono: "raises_only P r \<Longrightarrow> (\<And>e. P e \<Longrightarrow> Q e) \<Longrightarrow> raises_only Q r"
  by (auto simp: raises_only_def)

lemma raises_only_lookup:
  "m \<noteq> None \<Longrightarrow> (\<And>p. m = Some p \<Longrightarrow> raises_only P (f p)) \<Longrightarrow> raises_only P (case m of None \<Rightarrow> e | Some p \<Rightarrow> f p)"
  by (cases m) auto

section \<open>The numeric layer\<close>

definition caught_or_invalid :: "py_exc \<Rightarrow> bool" where
  "caught_or_invalid e \<longleftrightarrow> caught_text e \<noteq> None \<or> e = InvalidOperation"

lemma caught_or_invalid [simp]: "caught_or_invalid (TypeError m)" "caught_or_invalid (ValueError m)"
  "caught_or_invalid (Raised c m)" "caught_or_invalid InvalidOperation"
  by (simp_all add: caught_or_invalid_def)

lemma quantize_invalid [simp]: "P InvalidOperation \<Longrightarrow> raises_only P (quantize p k x)"
  by (simp add: quantize_def Let_def)

lemma quantize_at_invalid [simp]: "P InvalidOperation \<Longrightarrow> raises_only P (quantize_at k x)"
  by (simp add: quantize_at_def)

lemma ddiv_invalid [simp]: "b \<noteq> 0 \<Longrightarrow> raises_only P (ddiv p a b)"
  by (simp add: ddiv_def)

lemma decimal_caught [simp]: "raises_only caught_or_invalid (decimal v name)"
  unfolding decimal_def
  by (intro raises_only_rbind) (auto split: pyval.splits option.splits pydec.splits)

lemma require_quantum_caught [simp]: "raises_only caught_or_invalid (require_quantum x k name)"
  by (auto simp: require_quantum_def intro!: raises_only_rbind)

lemma signed_notional_invalid [simp]: "P InvalidOperation \<Longrightarrow> raises_only P (signed_notional t)"
  by (simp add: signed_notional_def)

lemma gross_notional_invalid [simp]: "P InvalidOperation \<Longrightarrow> raises_only P (gross_notional p t)"
  by (auto simp: gross_notional_def intro!: raises_only_rbind)

lemma assess_invalid [simp]: "P InvalidOperation \<Longrightarrow> raises_only P (assess p policy t)"
  by (auto simp: assess_def Let_def intro!: raises_only_rbind)

lemma mk_trade_caught: "raises_only caught_or_invalid (mk_trade s d p)"
  by (auto simp: mk_trade_def Let_def intro!: raises_only_rbind)

lemma mk_raw_mark_caught: "raises_only caught_or_invalid (mk_raw_mark v e)"
  by (auto simp: mk_raw_mark_def intro!: raises_only_rbind)

lemma round_long_caught: "raises_only caught_or_invalid (round_long_target_shares n price q)"
  by (auto simp: round_long_target_shares_def intro!: raises_only_rbind)

lemma decimal_mapping_caught: "raises_only caught_or_invalid (decimal_mapping_loop name nn pos acc ps)"
  by (induction name nn pos acc ps rule: decimal_mapping_loop.induct)
    (auto simp: Let_def intro!: raises_only_rbind)

lemma raw_marks_caught: "raises_only caught_or_invalid (raw_marks_loop acc ms)"
  by (induction acc ms rule: raw_marks_loop.induct) (auto simp: Let_def)

lemma mk_portfolio_state_caught: "raises_only caught_or_invalid (mk_portfolio_state c ps ms r)"
proof -
  have "raises_only caught_or_invalid (storage_checked x)" for x by (cases x) (auto intro!: raises_only_rbind)
  then show ?thesis
    by (auto simp: mk_portfolio_state_def decimal_mapping_def
      intro!: raises_only_rbind raises_only_map_res decimal_mapping_caught raw_marks_caught)
qed

section \<open>Marked books\<close>

definition marked_book :: "portfolio_state \<Rightarrow> bool" where
  "marked_book s \<longleftrightarrow> set (map fst (positions s)) \<subseteq> set (map fst (raw_marks s))"

lemma dict_set_keys: "set (map fst (dict_set m k v)) = insert k (set (map fst m))"
  by (induction m) (auto split: if_splits)

lemma decimal_mapping_keys:
  "decimal_mapping_loop name nn pos acc ps = Inr d \<Longrightarrow> set (map fst d) = set (map fst acc) \<union> strip ` set (map fst ps)"
proof (induction name nn pos acc ps rule: decimal_mapping_loop.induct)
  case (2 name nn pos acc k v rest)
  from 2(2) obtain x where c: "strip k \<noteq> []" "dict_get acc (strip k) = None" "decimal v (name @ ''['' @ strip k @ '']'') = Inr x"
    "\<not> (pos \<and> x \<le> 0)" "\<not> (nn \<and> x < 0)" "decimal_mapping_loop name nn pos (dict_set acc (strip k) x) rest = Inr d"
    by (auto simp: Let_def split: if_splits)
  have "set (map fst d) = set (map fst (dict_set acc (strip k) x)) \<union> strip ` set (map fst rest)"
    by (rule 2(1) [OF refl _ c(4,5,6)]) (use c(1,2) in auto)
  then show ?case by (simp add: dict_set_keys del: set_map)
qed simp

lemma raw_marks_keys:
  "raw_marks_loop acc ms = Inr d \<Longrightarrow> set (map fst d) = set (map fst acc) \<union> strip ` set (map fst ms)"
  by (induction acc ms arbitrary: d rule: raw_marks_loop.induct)
    (auto simp: Let_def dict_set_keys simp del: set_map split: if_splits)

lemma storage_keys: "map_res storage_checked ps = Inr qs \<Longrightarrow> map fst qs = map fst ps"
  by (induction ps arbitrary: qs) auto

lemma mk_portfolio_state_marked:
  assumes "mk_portfolio_state c ps ms r = Inr b" "set (map fst ps) \<subseteq> set (map fst ms)"
  shows "marked_book b"
proof -
  from assms(1) obtain ps0 where ps0: "decimal_mapping_loop ''positions'' True False [] ps = Inr ps0"
    "map_res storage_checked ps0 = Inr (positions b)" "raw_marks_loop [] ms = Inr (raw_marks b)"
    by (auto simp: mk_portfolio_state_def decimal_mapping_def split: if_splits)
  from image_mono [OF assms(2), of strip] decimal_mapping_keys [OF ps0(1)] storage_keys [OF ps0(2)] raw_marks_keys [OF ps0(3)]
  show ?thesis by (simp add: marked_book_def del: set_map)
qed

lemma nav_invalid:
  assumes "marked_book s"
  shows "raises_only (\<lambda>e. e = InvalidOperation) (nav s)"
proof -
  have "raises_only (\<lambda>e. e = InvalidOperation) (marked_position (raw_marks s) x)" if x: "x \<in> set (positions s)" for x
  proof -
    obtain sym q where sq: "x = (sym, q)" by (cases x)
    with x assms have "sym \<in> fst ` set (raw_marks s)" by (force simp: marked_book_def)
    then obtain m where "dict_get (raw_marks s) sym = Some m" by (metis map_of_eq_None_iff option.exhaust)
    then show ?thesis by (simp add: sq)
  qed
  then show ?thesis unfolding nav_def Let_def by (intro raises_only_rbind raises_only_map_res) simp_all
qed

lemma rebalance_caught:
  assumes "marked_book pre"
  shows "raises_only caught_or_invalid (rebalance pre fills c policy flow marks recv)"
proof -
  have fill: "raises_only caught_or_invalid (apply_fill bps policy l t)" for bps l t
    by (auto simp: apply_fill_def Let_def intro!: raises_only_rbind)
  have nv: "raises_only caught_or_invalid (nav pre)"
    by (rule raises_only_mono [OF nav_invalid [OF assms]]) simp
  have "0 < dec DECIMAL_PRECISION (2 * n)" if "0 < n" for n
    using that by (intro dec_pos) (simp_all add: equations_constants)
  then have "dec DECIMAL_PRECISION (2 * n) \<noteq> 0" if "0 < n" for n using that by (metis less_irrefl)
  then show ?thesis
    unfolding rebalance_def Let_def
    by (auto intro!: raises_only_rbind nv fill raises_only_fold_res mk_portfolio_state_caught split: option.splits)
qed

section \<open>The execution layer\<close>

text \<open>The two exceptions that the kernel does not translate.\<close>

definition passed_on :: "exec_exc \<Rightarrow> bool" where
  "passed_on x \<longleftrightarrow> x = refuse malformed \<or> x = Escaped InvalidOperation"

definition escapes_invalid :: "exec_exc \<Rightarrow> bool" where
  "escapes_invalid x \<longleftrightarrow> (\<forall>e. x = Escaped e \<longrightarrow> e = InvalidOperation)"

lemma escapes_invalid [simp]: "escapes_invalid (refusal st sec ses stage)" "escapes_invalid (Escaped InvalidOperation)"
  by (simp_all add: escapes_invalid_def refusal_def)

lemma passed_on [simp]: "passed_on (refuse malformed)" "passed_on (Escaped InvalidOperation)"
  by (simp_all add: passed_on_def)

lemma to_ledger_malformed [simp]: "P (refuse malformed) \<Longrightarrow> raises_only P (to_ledger_decimal v)"
  by (simp add: to_ledger_decimal_def split: sum.splits)

lemma format_ledger_malformed [simp]: "P (refuse malformed) \<Longrightarrow> raises_only P (format_ledger v)"
  by (auto simp: format_ledger_def quantize_ledger_def intro!: raises_only_rbind split: sum.splits)

lemma format_exact_malformed [simp]: "P (refuse malformed) \<Longrightarrow> raises_only P (format_exact_fraction x)"
  by (simp add: format_exact_fraction_def Let_def)

lemma order_fills_malformed: "P (refuse malformed) \<Longrightarrow> raises_only P (order_fills ds)"
  by (auto simp: order_fills_def fill_key_def delta_of_def intro!: raises_only_rbind raises_only_map_res)

lemma canonical_identifier_escapes [simp]: "raises_only escapes_invalid (canonical_identifier t)"
  by (simp add: canonical_identifier_def)

lemma let_through_escapes: "raises_only (\<lambda>e. e = InvalidOperation) r \<Longrightarrow> raises_only escapes_invalid (let_through r)"
  by (cases r) (auto simp: let_through_def)

lemma require_share_quantum_escapes [simp]: "raises_only escapes_invalid (require_share_quantum x sec)"
  by (auto simp: require_share_quantum_def intro!: raises_only_rbind let_through_escapes)

lemma require_ledger_price_escapes [simp]: "raises_only escapes_invalid (require_ledger_price_quantum v sec)"
  by (auto simp: require_ledger_price_quantum_def intro!: raises_only_rbind let_through_escapes)

lemma assert_raw_escapes [simp]: "raises_only escapes_invalid (assert_raw_ledger_evidence ev sec)"
  by (simp add: assert_raw_ledger_evidence_def)

lemma optional_identifier_escapes [simp]: "raises_only escapes_invalid (optional_identifier t)"
  by (auto simp: optional_identifier_def intro!: raises_only_rbind split: option.splits)

lemma mk_signed_target_delta_escapes [simp]: "raises_only escapes_invalid (mk_signed_target_delta d)"
  by (auto simp: mk_signed_target_delta_def intro!: raises_only_rbind)

lemma resolve_record_escapes: "raises_only escapes_invalid (resolve_record sh st rid rs)"
proof -
  have "raises_only escapes_invalid (registry_walk sh st seen rs)" for seen rs
    by (induction rs arbitrary: seen) auto
  then show ?thesis
    by (auto simp: resolve_record_def validate_registry_def Let_def intro!: raises_only_rbind)
qed

section \<open>What the kernel lets out\<close>

definition lets_out :: "target_exc \<Rightarrow> bool" where
  "lets_out e \<longleftrightarrow> (\<forall>x. e = Execution x \<longrightarrow> passed_on x)"

lemma lets_out [simp]: "lets_out (Target st sec)" "lets_out (Execution x) \<longleftrightarrow> passed_on x"
  by (simp_all add: lets_out_def)

lemma untranslated_lets_out: "raises_only passed_on r \<Longrightarrow> raises_only lets_out (untranslated r)"
  by (cases r) (auto simp: untranslated_def)

lemma let_out_lets_out: "raises_only (\<lambda>e. e = InvalidOperation) r \<Longrightarrow> raises_only lets_out (let_out r)"
  by (cases r) (auto simp: untranslated_def let_through_def)

lemma translated_lets_out: "raises_only escapes_invalid r \<Longrightarrow> raises_only lets_out (translated fallback r)"
  by (cases r) (auto simp: translated_def escapes_invalid_def split: exec_exc.splits)

lemma kernel_call_lets_out: "raises_only caught_or_invalid r \<Longrightarrow> raises_only lets_out (kernel_call st sec r)"
  by (cases r) (auto simp: kernel_call_def caught_or_invalid_def)

lemmas let_out_rules = raises_only_rbind raises_only_map_res untranslated_lets_out let_out_lets_out
  translated_lets_out kernel_call_lets_out

definition priced_targets :: "target_env \<Rightarrow> (string, rat) dict \<Rightarrow> bool" where
  "priced_targets env ts \<longleftrightarrow> marked_book (env_before env)
     \<and> (\<forall>sec \<in> set (map fst ts). dict_get (env_prices env) sec \<noteq> None)"

lemma target_deltas_lets_out:
  assumes "priced_targets env ts"
  shows "raises_only lets_out (target_deltas env ts)"
proof -
  have "raises_only lets_out (target_deltas_loop env ts secs)"
    if "\<forall>sec \<in> set secs. dict_get (env_prices env) sec \<noteq> None" for secs
    using that by (induction secs) (auto simp: Let_def intro!: let_out_rules split: option.splits)
  moreover have "set (sorted_symbols (map fst ts)) = set (map fst ts)" by (simp add: sorted_symbols_def)
  ultimately show ?thesis using assms unfolding target_deltas_def priced_targets_def by metis
qed

lemma observe_lets_out:
  assumes "marked_book (env_before env)"
  shows "raises_only lets_out (observe_refused env trades b s os)"
proof -
  have "marked_book p"
    if "mk_portfolio_state (PDecimal c) (map (\<lambda>(s, q). (s, PDecimal q)) (positions (env_before env)))
                     (raw_marks (env_before env)) (PDecimal (receivables (env_before env))) = Inr p" for p c
    by (rule mk_portfolio_state_marked [OF that]) (use assms in \<open>force simp: marked_book_def\<close>)
  then show ?thesis
    unfolding observe_refused_def Let_def run_bound_rebalance_def
    by (auto intro!: let_out_rules mk_portfolio_state_caught rebalance_caught)
qed

lemma project_lets_out:
  assumes "priced_targets env ts"
  shows "raises_only lets_out (project_targets env ts)"
proof -
  have book: "marked_book (env_before env)" using assms by (simp add: priced_targets_def)
  have reb: "raises_only caught_or_invalid (run_bound_rebalance env (env_before env) trades)" for trades
    unfolding run_bound_rebalance_def by (rule rebalance_caught [OF book])
  have "raises_only lets_out (trade_of_delta d)" for d
    by (auto simp: trade_of_delta_def delta_of_def intro!: let_out_rules mk_trade_caught)
  moreover have "raises_only lets_out (notional_sum keep trades)" for keep trades
    by (auto simp: notional_sum_def intro!: let_out_rules)
  moreover have "raises_only lets_out (case run_bound_rebalance env (env_before env) trades of
       Inr r \<Rightarrow> Inr (projection_of True (cash (result_after r)) r b s os)
     | Inl (Raised c m) \<Rightarrow> Inl (Target kernel_refusal None)
     | Inl e \<Rightarrow> (case caught_text e of
           None \<Rightarrow> Inl (Execution (Escaped e))
         | Some text \<Rightarrow>
             if \<not> negative_cash_text text then Inl (Target kernel_refusal None)
             else observe_refused env trades b s os))" for trades b s os
    using reb [of trades] observe_lets_out [OF book, of trades b s os]
    by (auto simp: raises_only_def caught_or_invalid_def split: sum.splits py_exc.splits option.splits)
  ultimately show ?thesis
    unfolding project_targets_def
    by (intro let_out_rules target_deltas_lets_out assms) (auto intro!: let_out_rules order_fills_malformed)
qed

section \<open>The targets and their repair\<close>

lemma priced_targets_set: "priced_targets env ts \<Longrightarrow> dict_get (env_prices env) sec \<noteq> None \<Longrightarrow> priced_targets env (dict_set ts sec x)"
  by (simp add: priced_targets_def dict_set_keys del: set_map)

definition priced_env :: "target_env \<Rightarrow> bool" where
  "priced_env env \<longleftrightarrow> marked_book (env_before env)
     \<and> (\<forall>sec \<in> set (env_selected env) \<union> set (map fst (env_positions env)). dict_get (env_prices env) sec \<noteq> None)"

lemma repair_once_lets_out:
  assumes "priced_env env" "priced_targets env (working s)"
  shows "raises_only lets_out (repair_once env limit s)"
proof (cases "repair_candidates env (working s)")
  case (Cons c cs)
  define sec where "sec = max_by (repair_key env (working s)) c cs"
  have "sec \<in> set (c # cs)" using max_by_greatest [of "repair_key env (working s)" c cs] by (auto simp: sec_def)
  then have "sec \<in> set (env_selected env)" unfolding Cons [symmetric] by (simp add: repair_candidates_def)
  with assms have "priced_targets env (dict_set (working s) sec x)" for x by (intro priced_targets_set) (auto simp: priced_env_def)
  then show ?thesis
    unfolding repair_once_def Cons list.case sec_def [symmetric] Let_def repair_row_of_def
    by (auto intro!: let_out_rules project_lets_out simp del: map_res.simps)
qed (simp add: repair_once_def)

lemma repair_loop_lets_out:
  "priced_env env \<Longrightarrow> priced_targets env (working s) \<Longrightarrow> raises_only lets_out (repair_loop env limit s)"
proof (induction env limit s rule: repair_loop.induct)
  case (1 env limit s)
  have "raises_only lets_out (repair_loop env limit s1)" if e: "\<not> engine_accepts (current s)" and s1: "repair_once env limit s = Inr s1" for s1
  proof (rule 1(1) [OF e s1 1(2)])
    from s1 obtain sec where g: "greatest_candidate env (working s) sec"
      and w: "working s1 = dict_set (working s) sec (target_of (working s) sec - env_quantum env)" by (rule repair_once_Inr)
    show "priced_targets env (working s1)"
      unfolding w using 1(2,3) g
      by (intro priced_targets_set) (auto simp: priced_env_def greatest_candidate_def repair_candidates_def)
  qed
  then show ?case
    by (subst repair_loop.simps) (auto intro!: raises_only_rbind repair_once_lets_out 1(2,3))
qed

lemma selected_target_lets_out: "raises_only lets_out (selected_target sec pos price n k q)"
proof -
  have "snd (quotient_of x) \<noteq> 0" for x using quotient_of_denom_pos' [of x] by simp
  then show ?thesis
    by (auto simp: selected_target_def Let_def split: prod.splits intro!: let_out_rules round_long_caught)
      (metis snd_conv of_int_eq_0_iff ddiv_invalid)
qed

lemma solved_lets_out:
  assumes env: "priced_env env"
  shows "raises_only lets_out (solved_targets env n k)"
proof -
  have form: "raises_only lets_out (formula_targets env n k)"
    unfolding formula_targets_def
    by (intro raises_only_rbind raises_only_map_res raises_only_lookup selected_target_lets_out)
      (use env in \<open>auto simp: priced_env_def\<close>)
  have ceil: "raises_only lets_out (ceiling_loop env ts acc secs)" for ts acc secs
    by (induction secs arbitrary: acc) (auto simp: Let_def)
  have "priced_targets env ts" if ft: "formula_targets env n k = Inr ts" for ts
    using env formula_targets_Inr(3) [OF ft] unfolding priced_targets_def priced_env_def
    by (metis Un_iff list.set_map map_of_eq_None_iff)
  then show ?thesis
    unfolding solved_targets_def
    by (intro raises_only_rbind form ceil project_lets_out repair_loop_lets_out env) (auto simp: opened_repair_def)
qed

section \<open>The kernel and its request\<close>

lemma admitted_lets_out: "raises_only lets_out (admitted_cost_policy readable r)"
proof -
  have "raises_only lets_out (handler_walk sh seen rs)" for sh seen rs
    by (induction rs arbitrary: seen) auto
  then have handler: "raises_only lets_out (resolve_fractional_disposition_handler hid rs)" for hid rs
    by (auto simp: resolve_fractional_disposition_handler_def validate_fractional_disposition_registry_def Let_def
        intro!: let_out_rules)
  have doc: "raises_only passed_on (input_document_amounts r)"
    by (auto simp: input_document_amounts_def simp del: map_res.simps intro!: raises_only_rbind raises_only_map_res)
  have source: "raises_only escapes_invalid (case dict_get (raw_execution_prices r) sec of None \<Rightarrow> Inl (Escaped KeyError)
      | Some price \<Rightarrow> resolve_ledger_coordinate_source (source_id (price_evidence price)) (ledger_coordinate_sources (registries r)))"
    if sec: "sec \<in> set (sorted_symbols (map fst (raw_execution_prices r)))" for sec
  proof -
    have "sec \<in> fst ` set (raw_execution_prices r)" using sec by (simp add: sorted_symbols_def)
    then obtain price where "dict_get (raw_execution_prices r) sec = Some price" by (metis map_of_eq_None_iff option.exhaust)
    then show ?thesis by (simp add: resolve_ledger_coordinate_source_def resolve_record_escapes)
  qed
  show ?thesis
    unfolding admitted_cost_policy_def bind_target_kernels_def resolve_cost_rate_policy_def
    by (intro raises_only_rbind untranslated_lets_out translated_lets_out doc resolve_record_escapes)
      (auto intro!: let_out_rules handler source split: option.splits)
qed

lemma universe_marks_lets_out: "raises_only lets_out (universe_marks r)"
  by (auto simp: universe_marks_def list_ex_iff intro!: raises_only_map_res raises_only_lookup raises_only_rbind
      kernel_call_lets_out mk_raw_mark_caught)

lemma universe_marks_keys: "universe_marks r = Inr marks \<Longrightarrow> map fst marks = trade_universe r"
proof -
  have "map fst ps = secs" if "map_res (\<lambda>sec. case dict_get (raw_execution_prices r) sec of
               None \<Rightarrow> Inl (Execution (Escaped KeyError))
             | Some price \<Rightarrow> rbind (kernel_call kernel_refusal (Some sec)
                   (mk_raw_mark (PDecimal (price_value price)) (price_evidence price))) (\<lambda>m. Inr (sec, m))) secs = Inr ps" for secs ps
    using that by (induction secs arbitrary: ps) (auto split: option.splits)
  from this [of "trade_universe r" marks] show "universe_marks r = Inr marks \<Longrightarrow> map fst marks = trade_universe r"
    unfolding universe_marks_def by (auto split: if_splits)
qed

lemma opening_book_lets_out: "raises_only lets_out (opening_book r held marks)"
  by (auto simp: opening_book_def intro!: let_out_rules mk_portfolio_state_caught split: sum.splits)

lemma opening_book_marked:
  assumes "universe_marks r = Inr marks" "positions_decimal r = Inr held" "opening_book r held marks = Inr before"
  shows "marked_book before"
proof -
  from assms(3) obtain c recv where
    b: "mk_portfolio_state (PDecimal c) (map (\<lambda>(s, q). (s, PDecimal q)) held) marks (PDecimal recv) = Inr before"
    by (auto simp: opening_book_def split: sum.splits)
  have "set (map fst held) \<subseteq> set (map fst marks)"
    using positions_decimal_get(1) [OF assms(2)] universe_marks_keys [OF assms(1)] trade_universe_set [of r] by simp
  moreover have "map fst (map (\<lambda>(s, q). (s, PDecimal q)) held) = map fst held" by auto
  ultimately show ?thesis by (intro mk_portfolio_state_marked [OF b]) metis
qed

lemma construct_targets_lets_out:
  assumes "declared_selection_count r \<noteq> 0"
  shows "raises_only lets_out (construct_targets readable r)"
proof -
  have held: "raises_only lets_out (positions_decimal r)"
    by (auto simp: positions_decimal_def intro!: let_out_rules)
  have nv: "raises_only lets_out (checked_nav r before)" if "marked_book before" for before
    using that by (auto simp: checked_nav_def intro!: let_out_rules nav_invalid)
  have env: "priced_env (target_env_of r before held marks bps)"
    if m: "universe_marks r = Inr marks" "positions_decimal r = Inr held" "opening_book r held marks = Inr before" for marks held before bps
    using opening_book_marked [OF m] universe_prices [OF m(1)] trade_universe_set [of r] positions_decimal_get(1) [OF m(2)]
    unfolding priced_env_def target_env_of_def by (auto simp del: set_map)
  have disp: "raises_only lets_out (decimal_display_weight (declared_selection_count r))"
    using assms by (auto simp: decimal_display_weight_def intro!: let_out_rules)
  have row: "raises_only lets_out (target_row_of env ts decs w d sec)" for env ts decs w d sec
    by (auto simp: target_row_of_def Let_def simp del: map_res.simps intro!: let_out_rules)
  have totals: "raises_only passed_on (target_totals_of k n d p q m)" for k n d p q m
    by (auto simp: target_totals_of_def simp del: map_res.simps intro!: raises_only_rbind raises_only_map_res)
  show ?thesis
    unfolding construct_targets_def Let_def
    by (intro raises_only_rbind admitted_lets_out universe_marks_lets_out held opening_book_lets_out)
      (auto intro!: raises_only_rbind nv opening_book_marked solved_lets_out env disp raises_only_map_res row
        untranslated_lets_out totals simp: policy_rate_bps_def)
qed

lemma selected_loop_raises: "raises_only lets_out (selected_loop seen xs)" "refusals_in declared_states (selected_loop seen xs)"
  by (induction xs arbitrary: seen) (auto intro!: let_out_rules refusal_rules)

lemma prior_positions_loop_raises:
  "raises_only lets_out (prior_positions_loop acc xs)" "refusals_in declared_states (prior_positions_loop acc xs)"
  by (induction acc xs rule: prior_positions_loop.induct) (auto intro!: let_out_rules refusal_rules)

lemma execution_prices_loop_raises:
  "raises_only lets_out (execution_prices_loop acc xs)" "refusals_in declared_states (execution_prices_loop acc xs)"
  by (induction acc xs rule: execution_prices_loop.induct) (auto intro!: let_out_rules refusal_rules)

lemma mk_target_request_raises:
  "raises_only lets_out (mk_target_request r)" "refusals_in declared_states (mk_target_request r)"
  unfolding mk_target_request_def
  by (auto simp del: map_res.simps
    intro!: let_out_rules selected_loop_raises prior_positions_loop_raises execution_prices_loop_raises)
    (auto simp del: map_res.simps
    intro!: refusal_rules selected_loop_raises prior_positions_loop_raises execution_prices_loop_raises)

lemma construct_targets_declared: "refusals_in declared_states (construct_targets readable r)"
proof -
  have "refusals_in declared_states (handler_walk sh seen rs)" for sh seen rs
    by (induction rs arbitrary: seen) auto
  then have handler: "refusals_in declared_states (resolve_fractional_disposition_handler hid rs)" for hid rs
    by (auto simp: resolve_fractional_disposition_handler_def validate_fractional_disposition_registry_def Let_def
        intro!: refusal_rules)
  have "refusals_in declared_states (admitted_cost_policy readable r)"
    by (auto simp: admitted_cost_policy_def bind_target_kernels_def intro!: refusal_rules handler split: option.splits)
  moreover have "refusals_in declared_states (universe_marks r)"
    by (auto simp: universe_marks_def intro!: refusal_rules split: option.splits)
  moreover have "refusals_in declared_states (positions_decimal r)"
    by (auto simp: positions_decimal_def intro!: refusal_rules)
  moreover have "refusals_in declared_states (opening_book r held marks)" for held marks
    by (auto simp: opening_book_def intro!: refusal_rules split: sum.splits)
  moreover have "refusals_in declared_states (checked_nav r before)" for before
    by (auto simp: checked_nav_def intro!: refusal_rules)
  moreover have "refusals_in declared_states (solved_targets (target_env_of r before held marks bps) n c)" for before held marks bps n c
    by (rule solved_refusals) (simp add: target_env_of_def)
  moreover have "refusals_in declared_states (decimal_display_weight c)" for c
    by (auto simp: decimal_display_weight_def intro!: refusal_rules)
  moreover have "refusals_in declared_states (target_row_of env ts decs w d sec)" for env ts decs w d sec
    by (auto simp: target_row_of_def Let_def intro!: refusal_rules)
  ultimately show ?thesis
    unfolding construct_targets_def Let_def
    by (auto intro!: refusals_in_rbind refusals_in_untranslated refusals_in_map_res)
qed

end
