(* ===== verification/Target_Contract.thy ===== *)
theory Target_Contract
  imports Target_Refusals
begin

text \<open>
  The contract of target construction: a worked request whose projection is refused twice before
  the repair ends, and the properties of the kernel, each applied to it.
\<close>

section \<open>A worked example\<close>

definition ex_price :: "string \<Rightarrow> rat \<Rightarrow> raw_execution_price" where
  "ex_price s p = RawExecutionPrice p (ex_evidence s)"

definition ex_env :: target_env where
  "ex_env = \<lparr>env_before = \<lparr>cash = 480, positions = [(''A'', 10), (''C'', 1/2)],
       raw_marks = [(''A'', RawMark 50 (ex_evidence ''A'')), (''B'', RawMark 20 (ex_evidence ''B'')), (''C'', RawMark 40 (ex_evidence ''C''))],
       receivables = 0\<rparr>,
     env_positions = [(''A'', 10), (''C'', 1/2)],
     env_prices = [(''A'', ex_price ''A'' 50), (''B'', ex_price ''B'' 20), (''C'', ex_price ''C'' 40)],
     env_marks = [(''A'', RawMark 50 (ex_evidence ''A'')), (''B'', RawMark 20 (ex_evidence ''B'')), (''C'', RawMark 40 (ex_evidence ''C''))],
     env_rate = 10, env_policy = ex_policy, env_selected = [''B'', ''A''], env_quantum = 1\<rparr>"

definition ex_delta :: "string \<Rightarrow> int \<Rightarrow> rat \<Rightarrow> signed_target_delta" where
  "ex_delta s n p = \<lparr>delta_security = s, delta_raw_shares = fixed_text 8 n, delta_price = ex_price s p\<rparr>"

lemma ex_names: "names_adjusted ''src'' = False" "names_adjusted ''snap'' = False" "names_adjusted ''A'' = False" "names_adjusted ''B'' = False"
  by code_simp+

lemma ex_ids: "canonical_identifier ''A'' = Inr ''A''" "canonical_identifier ''B'' = Inr ''B''"
  by code_simp+

lemma ex_sorted: "sorted_symbols [''B'', ''A'', ''C''] = [''A'', ''B'', ''C'']"
  by code_simp

lemma ex_texts: "negative_cash_text ''buy stage produces negative cash''"
  by code_simp

lemmas target_eval = project_targets_def target_deltas_def target_deltas_loop.simps ex_sorted format_exact_fraction_def mk_signed_target_delta_def
  assert_raw_ledger_evidence_def ex_names ex_ids translated_def ex_env_def ex_evidence_def ex_price_def require_share_quantum_def let_through_def

lemma ex_deltas0: "target_deltas ex_env [(''B'', 25), (''A'', 10), (''C'', 1/2)] = Inr [ex_delta ''B'' 2500000000 20]"
  by (simp add: target_eval ex_delta_def eval_simps cong: eval_congs)

lemma ex_deltas2: "target_deltas ex_env [(''B'', 24), (''A'', 9), (''C'', 1/2)] = Inr [ex_delta ''A'' (- 100000000) 50, ex_delta ''B'' 2400000000 20]"
  by (simp add: target_eval ex_delta_def eval_simps cong: eval_congs)


lemma ex_deltas1: "target_deltas ex_env [(''B'', 24), (''A'', 10), (''C'', 1/2)] = Inr [ex_delta ''B'' 2400000000 20]"
  by (simp add: target_eval ex_delta_def eval_simps cong: eval_congs)

lemma ex_order: "order_fills [ex_delta ''B'' n p] = Inr [ex_delta ''B'' n p]"
  "order_fills [ex_delta ''A'' (- 100000000) 50, ex_delta ''B'' 2400000000 20] = Inr [ex_delta ''A'' (- 100000000) 50, ex_delta ''B'' 2400000000 20]"
  by (simp_all add: order_fills_def fill_key_def delta_of_def ex_delta_def sort_key_def)

lemma ex_trades: "trade_of_delta (ex_delta ''B'' 2500000000 20) = Inr (ex_trade ''B'' 25 20)"
  "trade_of_delta (ex_delta ''B'' 2400000000 20) = Inr (ex_trade ''B'' 24 20)"
  "trade_of_delta (ex_delta ''A'' (- 100000000) 50) = Inr (ex_trade ''A'' (-1) 50)"
  by (simp_all add: trade_of_delta_def ex_delta_def delta_of_def ex_price_def ex_trade_def ex_evidence_def untranslated_def kernel_call_def eval_simps cong: eval_congs)

definition ex_projection :: "bool \<Rightarrow> rat \<Rightarrow> rat \<Rightarrow> rat \<Rightarrow> rat \<Rightarrow> rat \<Rightarrow> signed_target_delta list \<Rightarrow> projection" where
  "ex_projection ok c cost tax b s ds = \<lparr>engine_accepts = ok, cash_post = c, projected_cost = cost, projected_tax = tax,
     gross_buy_notional = b, gross_sell_notional = s, projected_deltas = ds\<rparr>"

lemmas project_eval = project_targets_def ex_order ex_trades notional_sum_def run_bound_rebalance_def ex_texts
  observe_refused_def projection_of_def ex_projection_def untranslated_def let_through_def kernel_call_def ex_env_def ex_trade_def ex_evidence_def ex_policy_def

lemma ex_project0: "project_targets ex_env [(''B'', 25), (''A'', 10), (''C'', 1/2)]
    = Inr (ex_projection False (- (41/2)) (1/2) 0 500 0 [ex_delta ''B'' 2500000000 20])"
  unfolding project_targets_def ex_deltas0 by (simp add: project_eval eval_simps cong: eval_congs)

lemma ex_project1: "project_targets ex_env [(''B'', 24), (''A'', 10), (''C'', 1/2)]
    = Inr (ex_projection False (- (12/25)) (12/25) 0 480 0 [ex_delta ''B'' 2400000000 20])"
  unfolding project_targets_def ex_deltas1 by (simp add: project_eval eval_simps cong: eval_congs)

lemma ex_project2: "project_targets ex_env [(''B'', 24), (''A'', 9), (''C'', 1/2)]
    = Inr (ex_projection True (9891/200) (53/100) (3/200) 480 50 [ex_delta ''A'' (- 100000000) 50, ex_delta ''B'' 2400000000 20])"
  unfolding project_targets_def ex_deltas2 by (simp add: project_eval eval_simps cong: eval_congs)


abbreviation q8 :: "rat \<Rightarrow> string" where "q8 x \<equiv> fixed_text 8 \<lfloor>x * 100000000\<rfloor>"

definition ex_steps :: "repair_row list" where
  "ex_steps =
    [\<lparr>step_index = 1, step_security = ''B'', target_before_text = fixed_text 8 2500000000, target_after_text = fixed_text 8 2400000000,
      recomputed_cost = fixed_text 8 48000000, recomputed_tax = fixed_text 8 0, recomputed_withholding = fixed_text 8 0,
      recomputed_fees = fixed_text 8 0, recomputed_cash_post = fixed_text 8 (- 48000000), recomputed_gross_buy = fixed_text 8 48000000000, step_accepted = False\<rparr>,
     \<lparr>step_index = 2, step_security = ''A'', target_before_text = fixed_text 8 1000000000, target_after_text = fixed_text 8 900000000,
      recomputed_cost = fixed_text 8 53000000, recomputed_tax = fixed_text 8 1500000, recomputed_withholding = fixed_text 8 0,
      recomputed_fees = fixed_text 8 0, recomputed_cash_post = fixed_text 8 4945500000, recomputed_gross_buy = fixed_text 8 48000000000, step_accepted = True\<rparr>]"

definition ex_final :: repair_state where
  "ex_final = \<lparr>working = [(''B'', 24), (''A'', 9), (''C'', 1/2)],
     current = ex_projection True (9891/200) (53/100) (3/200) 480 50 [ex_delta ''A'' (- 100000000) 50, ex_delta ''B'' 2400000000 20],
     steps = 2, trace = ex_steps, decrements = [(''B'', 1), (''A'', 1)]\<rparr>"

lemmas repair_eval = repair_once_def repair_candidates_def target_of_def residual_of_def fractional_residual_def repair_key_def price_of_def
  repair_row_of_def format_exact_fraction_def format_ledger_def quantize_ledger_def to_ledger_decimal_def untranslated_def

lemma ex_choice: "max_by (repair_key ex_env [(''B'', 25), (''A'', 10), (''C'', 1/2)]) ''B'' [''A''] = ''B''"
  "max_by (repair_key ex_env [(''B'', 24), (''A'', 10), (''C'', 1/2)]) ''B'' [''A''] = ''A''"
  by code_simp+

lemma ex_candidates: "repair_candidates ex_env [(''B'', 25), (''A'', 10), (''C'', 1/2)] = [''B'', ''A'']"
  "repair_candidates ex_env [(''B'', 24), (''A'', 10), (''C'', 1/2)] = [''B'', ''A'']"
  by code_simp+

lemma repair_loop_step: "\<not> engine_accepts (current s) \<Longrightarrow> repair_once env l s = Inr s' \<Longrightarrow> repair_loop env l s = repair_loop env l s'"
  by (simp add: repair_loop.simps [of env l s])

lemma repair_loop_done: "engine_accepts (current s) \<Longrightarrow> repair_loop env l s = Inr s"
  by (simp add: repair_loop.simps [of env l s])

lemma ex_repaired: "repair_loop ex_env 35 (opened_repair [(''B'', 25), (''A'', 10), (''C'', 1/2)]
     (ex_projection False (- (41/2)) (1/2) 0 500 0 [ex_delta ''B'' 2500000000 20])) = Inr ex_final"
proof -
  have q: "env_quantum ex_env = 1" by (simp add: ex_env_def)
  note step = repair_once_def ex_candidates ex_choice list.case Let_def
  have r1: "repair_once ex_env 35 (opened_repair [(''B'', 25), (''A'', 10), (''C'', 1/2)]
     (ex_projection False (- (41/2)) (1/2) 0 500 0 [ex_delta ''B'' 2500000000 20]))
    = Inr \<lparr>working = [(''B'', 24), (''A'', 10), (''C'', 1/2)], current = ex_projection False (- (12/25)) (12/25) 0 480 0 [ex_delta ''B'' 2400000000 20],
        steps = 1, trace = [hd ex_steps], decrements = [(''B'', 1)]\<rparr>"
    by (simp add: step opened_repair_def q target_of_def ex_project1 del: max_by.simps)
      (simp add: ex_projection_def ex_steps_def repair_eval eval_simps cong: eval_congs)
  have r2: "repair_once ex_env 35 \<lparr>working = [(''B'', 24), (''A'', 10), (''C'', 1/2)],
       current = ex_projection False (- (12/25)) (12/25) 0 480 0 [ex_delta ''B'' 2400000000 20],
       steps = 1, trace = [hd ex_steps], decrements = [(''B'', 1)]\<rparr> = Inr ex_final"
    by (simp add: step q target_of_def ex_project2 del: max_by.simps)
      (simp add: ex_final_def ex_projection_def ex_steps_def repair_eval eval_simps cong: eval_congs)
  have "repair_loop ex_env 35 (opened_repair [(''B'', 25), (''A'', 10), (''C'', 1/2)]
     (ex_projection False (- (41/2)) (1/2) 0 500 0 [ex_delta ''B'' 2500000000 20])) = repair_loop ex_env 35 ex_final"
    by (subst repair_loop_step [OF _ r1], simp add: opened_repair_def ex_projection_def)
      (subst repair_loop_step [OF _ r2], simp_all add: ex_projection_def)
  also have "\<dots> = Inr ex_final" by (rule repair_loop_done) (simp add: ex_final_def ex_projection_def)
  finally show ?thesis .
qed

lemma ex_solved: "solved_targets ex_env 1000 2 = Inr (ex_projection False (- (41/2)) (1/2) 0 500 0 [ex_delta ''B'' 2500000000 20], 35, ex_final)"
proof -
  have f: "formula_targets ex_env 1000 2 = Inr [(''B'', 25), (''A'', 10), (''C'', 1/2)]"
    by (simp add: formula_targets_def ex_env_def selected_target_def fractional_residual_def ex_price_def
       round_long_target_shares_def eval_simps let_through_def untranslated_def kernel_call_def cong: eval_congs)
  have c: "ceiling_loop ex_env [(''B'', 25), (''A'', 10), (''C'', 1/2)] 0 (env_selected ex_env) = Inr 35"
    by code_simp
  have "\<not> cash_post (current ex_final) < 0" by (simp add: ex_final_def ex_projection_def)
  then show ?thesis by (simp add: solved_targets_def f c ex_project0 ex_repaired)
qed

section \<open>A request\<close>

definition ex_cost :: cost_rate_policy where
  "ex_cost = \<lparr>record_id = ''cost'', source_kind = ''TEST_CONSTRUCTED'', record_source = ''t'', source_reference = ''t'',
     effective_date = 1, transaction_cost_rate_bps = ''10'', regulatory_authority = False\<rparr>"

definition ex_source :: ledger_coordinate_source where
  "ex_source = \<lparr>record_id = ''src'', source_kind = ''TEST_CONSTRUCTED'', record_source = ''t'', source_reference = ''t'',
     effective_date = 1, coordinate_system = ''raw_price''\<rparr>"

definition ex_request :: "bool \<Rightarrow> target_request" where
  "ex_request normal = \<lparr>request_id = ''r1'', selected = [''B'', ''A''], declared_selection_count = 2,
     prior_positions = (if normal then [(''A'', fixed_text 8 1000000000), (''C'', fixed_text 8 50000000)] else [(''A'', ''10''), (''C'', ''0.5'')]),
     raw_execution_prices = [(''A'', ex_price ''A'' 50), (''B'', ex_price ''B'' 20), (''C'', ex_price ''C'' 40)],
     cash_pre = ''480'', receivables_pre = ''0'', declared_pre_trade_nav = ''1000'', cost_policy_id = ''cost'',
     request_tax_policy = ex_policy, regulatory_fee_mode = ''EXCLUDED_SYNTHETIC_NON_REGULATORY_SOURCE'',
     registries = shipped_registries\<lparr>cost_rate_policies := [ex_cost], ledger_coordinate_sources := [ex_source]\<rparr>,
     disposition_handler_id = None, order_quantum = ''1''\<rparr>"

lemma ex_numbers: "ledger_of_text ''480'' = Inr 480" "ledger_of_text ''0'' = Inr 0" "ledger_of_text ''1000'' = Inr 1000"
  "ledger_of_text ''10'' = Inr 10" "ledger_of_text ''0.5'' = Inr (1/2)" "ledger_of_text ''1'' = Inr 1"
  by code_simp+

lemma ex_more_ids: "canonical_identifier ''r1'' = Inr ''r1''" "canonical_identifier ''cost'' = Inr ''cost''" "canonical_identifier ''C'' = Inr ''C''"
  "names_adjusted ''C'' = False"
  by code_simp+

lemma ledger_of_decimal: "to_ledger_decimal (PDecimal x) = Inr x"
  by (simp add: to_ledger_decimal_def)

lemmas request_eval = ex_numbers ex_ids ex_more_ids ex_names translated_def untranslated_def let_through_def kernel_call_def
  require_share_quantum_def require_ledger_price_quantum_def assert_raw_ledger_evidence_def optional_identifier_def
  format_ledger_def quantize_ledger_def ledger_of_decimal ex_price_def ex_evidence_def

lemma ex_request_made: "mk_target_request (ex_request False) = Inr (ex_request True)"
proof -
  have p: "prior_positions_loop [] (prior_positions (ex_request False)) = Inr (prior_positions (ex_request True))"
    by (simp add: ex_request_def request_eval eval_simps cong: eval_congs)
  have e: "execution_prices_loop [] (raw_execution_prices (ex_request False)) = Inr (raw_execution_prices (ex_request True))"
    by (simp add: ex_request_def request_eval eval_simps cong: eval_congs)
  show ?thesis
    unfolding mk_target_request_def p e
    by (simp add: ex_request_def ex_numbers ex_ids ex_more_ids translated_def untranslated_def optional_identifier_def)
qed

text \<open>
  The same request with cash that its constructor accepts and no ledger text can hold: the amount
  is formatted for the input digest outside every \<open>try\<close>.\<close>

definition ex_unpostable :: target_request where
  "ex_unpostable = (ex_request False)\<lparr>cash_pre := ''1e33''\<rparr>"

lemma ex_unposted:
  "rbind (mk_target_request ex_unpostable) (construct_targets (\<lambda>_. True)) = Inl (Execution (refuse malformed))"
proof -
  define r where "r = (ex_request True)\<lparr>cash_pre := ''1e33''\<rparr>"
  have big: "ledger_of_text ''1e33'' = Inr (10 ^ 33)" by code_simp
  have made: "mk_target_request ex_unpostable = Inr r"
  proof -
    have p: "prior_positions_loop [] (prior_positions ex_unpostable) = Inr (prior_positions (ex_request True))"
      by (simp add: ex_unpostable_def ex_request_def request_eval eval_simps cong: eval_congs)
    have e: "execution_prices_loop [] (raw_execution_prices ex_unpostable) = Inr (raw_execution_prices (ex_request True))"
      by (simp add: ex_unpostable_def ex_request_def request_eval eval_simps cong: eval_congs)
    show ?thesis
      unfolding mk_target_request_def p e r_def
      by (simp add: ex_unpostable_def ex_request_def ex_numbers big ex_ids ex_more_ids translated_def untranslated_def
          optional_identifier_def)
  qed
  have "input_document_amounts r = Inl (refuse malformed)"
    by (simp add: input_document_amounts_def r_def ex_request_def request_eval big ex_policy_def eval_simps cong: eval_congs)
  then have "construct_targets (\<lambda>_. True) r = Inl (Execution (refuse malformed))"
    by (simp add: construct_targets_def admitted_cost_policy_def bind_target_kernels_def untranslated_def list_all_iff)
  then show ?thesis by (simp add: made)
qed

definition ex_target_row :: "string \<Rightarrow> bool \<Rightarrow> int \<Rightarrow> int \<Rightarrow> int \<Rightarrow> int \<Rightarrow> int \<Rightarrow> int \<Rightarrow> target_row" where
  "ex_target_row s member prior res target delta decs price =
     \<lparr>row_security = s, row_selected = member, prior_raw_shares = fixed_text 8 prior,
      weight_rational = (if member then Some (''1'', ''2'') else None),
      weight_display = (if member then Some (fixed_text 18 500000000000000000) else None),
      residual_in = fixed_text 8 res, target_raw_shares = fixed_text 8 target, signed_delta_raw_shares = fixed_text 8 delta,
      residual_out = fixed_text 8 res, repair_decrements = decs, row_price = fixed_text 8 price\<rparr>"

definition ex_built :: target_result where
  "ex_built = \<lparr>result_request = ''r1'', result_selected = [''B'', ''A''],
     result_rows = [ex_target_row ''A'' True 1000000000 0 900000000 (- 100000000) 1 5000000000,
       ex_target_row ''B'' True 0 0 2400000000 2400000000 1 2000000000,
       ex_target_row ''C'' False 50000000 50000000 50000000 0 0 4000000000],
     result_totals = \<lparr>selection_count = 2, pre_trade_nav = fixed_text 8 100000000000, declared_nav_text = fixed_text 8 100000000000,
       total_cost = fixed_text 8 53000000, total_tax = fixed_text 8 1500000, total_withholding = fixed_text 8 0, total_fees = fixed_text 8 0,
       total_cash_post = fixed_text 8 4945500000, initial_cash_post = fixed_text 8 (- 2050000000),
       total_gross_buy = fixed_text 8 48000000000, total_gross_sell = fixed_text 8 5000000000, repair_steps_total = 2\<rparr>,
     result_repair = ex_steps, repair_iteration_ceiling = 35, result_weight = (''1'', ''2''),
     result_display = fixed_text 18 500000000000000000\<rparr>"

lemma ex_universe: "trade_universe (ex_request b) = [''A'', ''B'', ''C'']"
proof -
  have "map fst (prior_positions (ex_request b)) = [''A'', ''C'']" "selected (ex_request b) = [''B'', ''A'']" by (simp_all add: ex_request_def)
  moreover have "sorted_symbols (remdups ([''B'', ''A''] @ [''A'', ''C''])) = [''A'', ''B'', ''C'']" by code_simp
  ultimately show ?thesis by (simp only: trade_universe_def)
qed

lemma ex_sorted3: "sorted_symbols [''A'', ''B'', ''C''] = [''A'', ''B'', ''C'']"
  by code_simp

lemma ex_construct: "construct_targets (\<lambda>_. True) (ex_request True) = Inr ex_built"
proof -
  let ?r = "ex_request True"
  have amounts: "input_document_amounts ?r = Inr (map (fixed_text 8) [5000000000, 2000000000, 4000000000, 48000000000, 100000000000, 0, 300000000])"
    by (simp add: input_document_amounts_def ex_request_def request_eval ex_policy_def eval_simps cong: eval_congs)
  have cost: "resolve_cost_rate_policy ''cost'' [ex_cost] = Inr ex_cost" "resolve_ledger_coordinate_source ''src'' [ex_source] = Inr ex_source"
    by (simp_all add: resolve_cost_rate_policy_def resolve_ledger_coordinate_source_def resolve_record_def validate_registry_def ex_cost_def ex_source_def)
  have reg: "\<not> regulatory_authority ex_cost" by (simp add: ex_cost_def)
  have pol: "admitted_cost_policy (\<lambda>_. True) ?r = Inr ex_cost"
    unfolding admitted_cost_policy_def amounts
    by (simp add: ex_request_def bind_target_kernels_def untranslated_def translated_def cost ex_sorted3 ex_price_def ex_evidence_def reg list_all_iff)
  have bps: "policy_rate_bps ex_cost = Inr 10" by (simp add: policy_rate_bps_def ex_cost_def ex_numbers)
  have m: "universe_marks ?r = Inr (env_marks ex_env)"
    by (simp add: universe_marks_def ex_universe) (simp add: ex_request_def ex_env_def request_eval mk_raw_mark_def eval_simps cong: eval_congs)
  have h: "positions_decimal ?r = Inr (env_positions ex_env)"
    by (simp add: positions_decimal_def ex_request_def ex_env_def untranslated_def)
  have b: "opening_book ?r (env_positions ex_env) (env_marks ex_env) = Inr (env_before ex_env)"
    by (simp add: opening_book_def ex_request_def ex_env_def ex_numbers kernel_call_def ex_evidence_def eval_simps cong: eval_congs)
  have n: "checked_nav ?r (env_before ex_env) = Inr 1000"
    by (simp add: checked_nav_def ex_request_def ex_env_def ex_numbers untranslated_def let_through_def PRE_TRADE_NAV_IDENTITY_TOLERANCE_def eval_simps cong: eval_congs)
  have e: "target_env_of ?r (env_before ex_env) (env_positions ex_env) (env_marks ex_env) 10 = ex_env"
    by (simp add: target_env_of_def ex_request_def ex_env_def)
  have w: "decimal_display_weight 2 = Inr (fixed_text 18 500000000000000000)"
    by (simp add: decimal_display_weight_def untranslated_def let_through_def eval_simps cong: eval_congs)
  have rows: "map_res (target_row_of ex_env (working ex_final) (decrements ex_final) (''1'', ''2'') (fixed_text 18 500000000000000000))
      [''A'', ''B'', ''C''] = Inr (result_rows ex_built)"
    by (simp add: target_row_of_def ex_env_def ex_final_def ex_built_def ex_target_row_def ex_price_def repair_eval ledger_of_decimal eval_simps cong: eval_congs)
  have totals: "target_totals_of 2 1000 1000 (ex_projection False (- (41/2)) (1/2) 0 500 0 [ex_delta ''B'' 2500000000 20]) (current ex_final) (steps ex_final)
      = Inr (result_totals ex_built)"
    by (simp add: target_totals_of_def ex_projection_def ex_final_def ex_built_def format_ledger_def quantize_ledger_def ledger_of_decimal
        eval_simps cong: eval_congs)
  have two: "nat_text 2 = ''2''" by code_simp
  have rest: "declared_selection_count ?r = 2" "ledger_of_text (declared_pre_trade_nav ?r) = Inr 1000" "request_id ?r = ''r1''" "selected ?r = [''B'', ''A'']"
    by (simp_all add: ex_request_def ex_numbers)
  show ?thesis
    unfolding construct_targets_def pol rbind_simps m h b n bps e Let_def rest ex_solved prod.case w ex_universe
    by (simp add: two rows untranslated_def bps e ex_solved w totals del: map_res.simps) (simp add: ex_built_def ex_final_def)
qed


lemma ex_env_wf: "wf_env ex_env"
proof -
  have "on_grid (- 8) 480" "on_grid (- 8) 0" "on_grid (- 8) 10" "on_grid (- 8) (1/2)"
    by (rule on_gridI [of _ "480 * 10 ^ 8"] on_gridI [of _ 0] on_gridI [of _ "10 ^ 9"] on_gridI [of _ "5 * 10 ^ 7"], simp add: power_int_minus)+
  then show ?thesis
    using ex_wf(2) by (simp add: wf_env_def) (simp add: ex_env_def wf_portfolio_def wf_position_def normal_entry_def strip_def py_space_def)
qed

section \<open>Properties\<close>

text \<open>
  C2: every projection obeys the contract's cash formula. Whether the accounting kernel accepts the
  fills, or refuses them for negative cash and is observed again with a cushion of cash, the
  published cash is the cash before, less the signed notionals of the projected trades, the cost
  and the tax, exactly; cost and tax lie between zero and the gross notional; and an accepted
  projection never ends below zero.\<close>

theorem projection_follows_cash_formula:
  assumes proj: "project_targets env ts = Inr proj" and wf: "wf_env env"
    and room: "cash (env_before env) + 6 * gross_of proj + 1 < 10 ^ 30"
  shows "follows_cash_formula env proj \<and> (engine_accepts proj \<longrightarrow> 0 \<le> cash_post proj)"
  using proj
proof (cases rule: project_targets_cases)
  case none
  with wf show ?thesis by (auto simp: follows_cash_formula_def gross_of_def wf_env_def wf_portfolio_def)
next
  case (fills ds os trades b s)
  have tr: "list_all wf_trade trades" by (rule deltas_trades_wf [OF fills(4) ordered_rows(1) [OF fills(1,3)]])
  have c: "0 \<le> cash (env_before env)" using wf by (simp add: wf_env_def wf_portfolio_def)
  have bs: "gross_of proj = b + s"
    using fills(7) by (auto simp: gross_of_def projection_of_def observe_refused_def Let_def)
  have os: "projected_deltas proj = os"
    using fills(7) by (auto simp: projection_of_def observe_refused_def Let_def)
  have "0 \<le> b" "0 \<le> s" using fills(5,6) by (auto intro: notional_sum_nonneg)
  then have "b + s \<le> cash (env_before env) + 6 * gross_of proj + 1" using c unfolding bs by (simp add: algebra_simps)
  then have "b + s < 10 ^ 30" using room by (rule order.strict_trans1)
  then obtain ns where ns: "map_res signed_notional trades = Inr ns" "b + s = sum_list (map abs ns)" "0 \<le> b" "0 \<le> s"
      "on_grid (- 8) b" "on_grid (- 8) s" by (rule notional_sums [OF fills(5,6) tr])
  from fills(7) show ?thesis
  proof (elim disjE exE conjE)
    fix r assume r: "run_bound_rebalance env (env_before env) trades = Inr r" and p: "proj = projection_of True (cash (result_after r)) r b s os"
    have "cash (env_before env) + 3 * sum_list (map abs ns) < 10 ^ 30" using room ns(3,4) unfolding bs by (simp flip: ns(2))
    note reb = rebalance_cash [OF r [unfolded run_bound_rebalance_def] _ _ tr ns(1) this]
    have "0 \<le> cash (result_after r)" using rebalance_wf [OF r [unfolded run_bound_rebalance_def]] by (simp add: wf_portfolio_def)
    with reb(1-6) wf fills(4) ns(1,2) show ?thesis
      by (auto simp: follows_cash_formula_def wf_env_def p projection_of_def gross_of_def)
  next
    fix e assume "observe_refused env trades b s os = Inr proj"
    note obs = observe_refused_cash [OF this wf tr ns(1) ns(2-6)]
    from room have "cash (env_before env) + 6 * (b + s) + 1 < 10 ^ 30" by (simp add: bs)
    note obs = obs [OF this]
    with fills(4) ns(1,2) show ?thesis by (auto simp: follows_cash_formula_def gross_of_def)
  qed
qed

theorem projection_follows_cash_formula_witness:
  "follows_cash_formula ex_env (ex_projection False (- (12/25)) (12/25) 0 480 0 [ex_delta ''B'' 2400000000 20])"
proof -
  have "cash (env_before ex_env) + 6 * gross_of (ex_projection False (- (12/25)) (12/25) 0 480 0 [ex_delta ''B'' 2400000000 20]) + 1 < 10 ^ 30"
    by (simp add: ex_env_def gross_of_def ex_projection_def)
  from projection_follows_cash_formula [OF ex_project1 ex_env_wf this] show ?thesis by simp
qed

text \<open>
  C5: what building a request and constructing its targets can refuse with. The kernel's own error
  carries one of its declared fail-closed states, and never the one for an exhausted repair: the
  ceiling, computed from the formula targets, is always enough for the repair to end or to run out
  of candidates first. The only other exceptions are the execution layer's refusal of a malformed
  ledger value, whose state is not among the declared ones, and the decimal context's
  \<open>InvalidOperation\<close>: no price or mark is looked up in vain and nothing is divided by zero.\<close>

theorem construct_targets_refusals:
  assumes "rbind (mk_target_request r0) (construct_targets readable) = Inl e"
  shows "(case e of Target st sec \<Rightarrow> st \<in> set TARGET_FAIL_CLOSED_STATES \<and> st \<noteq> repair_ceiling_state
      | Execution x \<Rightarrow> x = refuse malformed \<or> x = Escaped InvalidOperation)
    \<and> malformed \<notin> set TARGET_FAIL_CLOSED_STATES"
proof -
  have "raises_only lets_out (rbind (mk_target_request r0) (construct_targets readable))"
    by (intro raises_only_rbind mk_target_request_raises construct_targets_lets_out)
      (use mk_target_request_Inr(1,2) in fastforce)
  moreover have "refusals_in declared_states (rbind (mk_target_request r0) (construct_targets readable))"
    by (intro refusals_in_rbind mk_target_request_raises construct_targets_declared)
  ultimately have "lets_out e" "\<And>st sec. e = Target st sec \<Longrightarrow> st \<in> declared_states"
    using assms by (simp_all add: raises_only_def refusals_in_def)
  moreover have "malformed \<notin> set TARGET_FAIL_CLOSED_STATES" by code_simp
  ultimately show ?thesis by (cases e) (auto simp: declared_states_def passed_on_def)
qed

theorem construct_targets_refusals_witness:
  "rbind (mk_target_request (ex_request False)) (construct_targets (\<lambda>_. False)) = Inl (Target missing_artifact None)
    \<and> missing_artifact \<in> set TARGET_FAIL_CLOSED_STATES
    \<and> rbind (mk_target_request ex_unpostable) (construct_targets (\<lambda>_. True)) = Inl (Execution (refuse malformed))
    \<and> malformed \<notin> set TARGET_FAIL_CLOSED_STATES"
proof -
  have "construct_targets (\<lambda>_. False) (ex_request True) = Inl (Target missing_artifact None)"
    by (simp add: construct_targets_def admitted_cost_policy_def bind_target_kernels_def TARGET_BOUND_ARTIFACT_PATHS_def)
  then have r: "rbind (mk_target_request (ex_request False)) (construct_targets (\<lambda>_. False)) = Inl (Target missing_artifact None)"
    by (simp add: ex_request_made)
  from r construct_targets_refusals [OF r] construct_targets_refusals [OF ex_unposted] ex_unposted show ?thesis by simp
qed

text \<open>
  C4: the repair follows the contract. Whenever targets are solved, they come from the formula targets by
  a sequence of repairs, each of which takes one order quantum from the candidate of greatest
  notional, the greater identifier on a tie, while the projection is refused; the published
  number of steps is the length of that sequence and within the ceiling; and the published
  projection is the accepted projection of the final targets, with cash that is not negative.\<close>

theorem repair_follows_contract:
  assumes "solved_targets env n k = Inr (initial, limit, s)" and q: "0 < env_quantum env"
  shows "\<exists>ts m. formula_targets env n k = Inr ts \<and> repairs env ts m (working s) \<and> steps s = int m \<and> int m \<le> limit
    \<and> length (trace s) = m \<and> project_targets env (working s) = Inr (current s) \<and> engine_accepts (current s)
    \<and> 0 \<le> cash_post (current s)"
proof -
  from assms obtain ts where ts: "formula_targets env n k = Inr ts" "ceiling_loop env ts 0 (env_selected env) = Inr limit"
      "project_targets env ts = Inr initial" "repair_loop env limit (opened_repair ts initial) = Inr s" "0 \<le> cash_post (current s)"
    by (auto simp: solved_targets_def split: if_splits)
  have "projected env (opened_repair ts initial)" using ts(3) by (simp add: projected_def opened_repair_def)
  from repair_loop_refines [OF ts(4) this] obtain m where m: "repairs env ts m (working s)" "steps s = int m" "length (trace s) = m"
      "projected env s" "engine_accepts (current s)" by (auto simp: opened_repair_def)
  have "0 \<le> limit" using ceiling_loop_Inr [OF ts(2)] by (force intro: sum_list_nonneg)
  then have "steps s \<le> limit" by (intro repair_loop_limit [OF ts(4)]) (simp add: opened_repair_def)
  with ts(1,5) m show ?thesis unfolding projected_def by auto
qed

theorem repair_follows_contract_witness:
  "\<exists>ts. formula_targets ex_env 1000 2 = Inr ts \<and> repairs ex_env ts 2 [(''B'', 24), (''A'', 9), (''C'', 1/2)]"
proof -
  have q: "0 < env_quantum ex_env" by (simp add: ex_env_def)
  from repair_follows_contract [OF ex_solved q] obtain ts m where "formula_targets ex_env 1000 2 = Inr ts"
    "repairs ex_env ts m (working ex_final)" "steps ex_final = int m" by blast
  moreover have "working ex_final = [(''B'', 24), (''A'', 9), (''C'', 1/2)]" "steps ex_final = 2" by (simp_all add: ex_final_def)
  ultimately show ?thesis by (metis nat_int nat_numeral)
qed

definition sold_or_weighted :: "target_request \<Rightarrow> rat \<Rightarrow> target_row \<Rightarrow> bool" where
  "sold_or_weighted r nav_minus row \<longleftrightarrow> (\<exists>prior target. prior_holding r (row_security row) prior \<and> row_trades row prior target
     \<and> (if row_security row \<in> set (selected r)
        then fractional_residual prior 1 \<le> target \<and> equal_weight_row row nav_minus (int (length (selected r))) target
        else target = fractional_residual prior 1))"

lemma request_row:
  assumes req: "mk_target_request r0 = Inr r" and marks: "universe_marks r = Inr marks" and held: "positions_decimal r = Inr held"
    and sol: "solved_targets (target_env_of r before held marks bps) n (declared_selection_count r) = Inr (initial, limit, s)"
    and row: "target_row_of (target_env_of r before held marks bps) (working s) (decrements s) weight display sec = Inr row"
  shows "row_security row = sec" "sold_or_weighted r n row"
proof -
  note rq = mk_target_request_Inr [OF req]
  define env where "env = target_env_of r before held marks bps"
  have env: "env_quantum env = 1" "env_selected env = selected r" "env_positions env = held" "env_prices env = raw_execution_prices r"
    by (simp_all add: env_def target_env_of_def)
  have pos: "positive_prices env"
    unfolding positive_prices_def env using universe_prices [OF marks] trade_universe_set [of r] by fastforce
  have grid: "on_grid (- 8) (price_of env sec)"
    using rq(3) by (auto simp: price_of_def env list_all_iff admitted_price_def split: option.splits dest!: map_of_SomeD)
  note tr = target_row_of_Inr [OF row [folded env_def] env(1)]
  define prior where "prior = dict_get_or held sec 0"
  have "prior_holding r sec prior"
    using positions_decimal_get(2) [OF held, of sec] by (auto simp: prior_holding_def prior_def split: option.splits)
  moreover have "row_trades row prior (target_of (working s) sec)" using tr(4) by (simp add: env prior_def)
  moreover have res: "residual_of env sec = fractional_residual prior 1" by (simp add: residual_of_def env prior_def)
  moreover have "fractional_residual prior 1 \<le> target_of (working s) sec
      \<and> equal_weight_row row n (int (length (selected r))) (target_of (working s) sec)" if sec: "sec \<in> set (selected r)"
  proof -
    note w = solved_weight [OF sol [folded env_def] env(1) pos]
    have "\<exists>u::nat. target_of (working s) sec = residual_of env sec + of_nat u" using sec by (intro w) (simp add: env)
    then have "fractional_residual prior 1 \<le> target_of (working s) sec" by (auto simp: res)
    moreover have "equal_weight_row row n (int (length (selected r))) (target_of (working s) sec)"
      unfolding equal_weight_row_def tr(3)
      using tr(5) [OF grid] w(2,3) [of sec] sec by (auto simp: env decremented_def rq(1))
    ultimately show ?thesis by blast
  qed
  moreover have "target_of (working s) sec = fractional_residual prior 1" if "sec \<notin> set (selected r)"
    using solved_unselected [OF sol [folded env_def] env(1)] that by (simp add: env res)
  ultimately show "row_security row = sec" "sold_or_weighted r n row" using tr(1) by (auto simp: sold_or_weighted_def)
qed

text \<open>
  C3: the rows of constructed targets. There is one row for every security of the trade universe, in
  order. Its texts read back as the prior holding, the target and a whole-share trade between
  them; the fractional residual of the holding is kept. A security that is not selected is sold
  down to its residual; a selected one is worth at most an equal share of the pre-trade value, and
  with the shares that the repair took from it and one more it would be worth more than that.\<close>

theorem constructed_rows:
  assumes req: "mk_target_request r0 = Inr r" and con: "construct_targets readable r = Inr res"
  shows "map row_security (result_rows res) = trade_universe r
    \<and> (\<exists>nav_minus. ledger_of_text (pre_trade_nav (result_totals res)) = Inr nav_minus \<and> 0 < nav_minus
        \<and> (\<forall>row \<in> set (result_rows res). \<exists>prior target.
            prior_holding r (row_security row) prior \<and> row_trades row prior target
            \<and> (if row_security row \<in> set (selected r)
               then fractional_residual prior 1 \<le> target \<and> equal_weight_row row nav_minus (int (length (selected r))) target
               else target = fractional_residual prior 1)))"
proof -
  from con obtain policy marks held before n bps initial limit s display where
    marks: "universe_marks r = Inr marks" and held: "positions_decimal r = Inr held"
    and n: "checked_nav r before = Inr n"
    and sol: "solved_targets (target_env_of r before held marks bps) n (declared_selection_count r) = Inr (initial, limit, s)"
    and rows: "map_res (target_row_of (target_env_of r before held marks bps) (working s) (decrements s)
       (''1'', nat_text (nat (declared_selection_count r))) display) (trade_universe r) = Inr (result_rows res)"
    and totals: "\<exists>d. target_totals_of (declared_selection_count r) n d initial (current s) (steps s) = Inr (result_totals res)"
    by (rule construct_targets_Inr) blast
  from n have n0: "0 < n" "nav before = Inr n" by (auto simp: checked_nav_def split: if_splits)
  have "on_grid (- 8) n" using n0(2) by (auto simp: nav_def Let_def equations_constants dest: quantize_at_InrD(1))
  with totals have navt: "ledger_of_text (pre_trade_nav (result_totals res)) = Inr n"
    using target_totals_of_Inr(1) format_ledger_grid by blast
  note row = request_row [OF req marks held sol]
  have "map row_security (result_rows res) = trade_universe r"
    using map_res_Inr [OF rows] row(1) by (auto intro!: nth_equalityI)
  moreover have "sold_or_weighted r n row" if "row \<in> set (result_rows res)" for row
    using map_res_Inr_set [OF rows that] row(2) by metis
  ultimately show ?thesis using navt n0(1) unfolding sold_or_weighted_def by blast
qed

theorem constructed_rows_witness:
  "row_security (result_rows ex_built ! 1) = ''B'' \<and> (\<exists>nav_minus target.
     ledger_of_text (pre_trade_nav (result_totals ex_built)) = Inr nav_minus
     \<and> row_trades (result_rows ex_built ! 1) 0 target \<and> equal_weight_row (result_rows ex_built ! 1) nav_minus 2 target)"
proof -
  have sel: "selected (ex_request True) = [''B'', ''A'']" by (simp add: ex_request_def)
  have row: "result_rows ex_built ! 1 \<in> set (result_rows ex_built)" "row_security (result_rows ex_built ! 1) = ''B''"
    by (simp_all add: ex_built_def ex_target_row_def)
  have held: "prior_holding (ex_request True) ''B'' prior \<longleftrightarrow> prior = 0" for prior
    by (simp add: prior_holding_def ex_request_def)
  from constructed_rows [OF ex_request_made ex_construct] row sel obtain nav_minus prior target where
    "ledger_of_text (pre_trade_nav (result_totals ex_built)) = Inr nav_minus"
    "prior_holding (ex_request True) ''B'' prior" "row_trades (result_rows ex_built ! 1) prior target"
    "equal_weight_row (result_rows ex_built ! 1) nav_minus 2 target"
    by fastforce
  with held row(2) show ?thesis by auto
qed

end
