(* ===== verification/Engine_Contract.thy ===== *)
theory Engine_Contract
  imports Engine_Targets Target_Contract
begin

text \<open>
  The contract of the rebalance stage: the worked request of \<open>Target_Contract\<close> run through the execution
  kernel, and the properties of replay and solve, each applied to it.
\<close>

section \<open>A worked example\<close>

definition ex_program :: engine_program where
  "ex_program = \<lparr>program_id = ''prog'', whole_share_mode = False, engine_cost_policy_id = ''cost'', engine_tax_policy = ex_policy,
     engine_registries = shipped_registries\<lparr>cost_rate_policies := [ex_cost]\<rparr>\<rparr>"

definition ex_weights :: equal_weight_program where
  "ex_weights = \<lparr>program_selected = [''B'', ''A''],
     program_prices = [(''A'', ex_price ''A'' 50), (''B'', ex_price ''B'' 20), (''C'', ex_price ''C'' 40)]\<rparr>"

definition ex_session :: "int \<Rightarrow> session_ref" where
  "ex_session n = \<lparr>ref_calendar = ''XNYS'', ref_digest = ''d'', ref_date = n, ref_ordinal = n\<rparr>"

definition ex_stage :: rebalance_stage where
  "ex_stage = \<lparr>rebalance_id = ''rb'',
     stage_fill = \<lparr>eligible = \<lparr>signal_ref = ex_session 1, eligible_ref = ex_session 2\<rparr>, fill_ref = ex_session 2,
       fill_reason = ''OFFICIAL_NEXT_SESSION_RAW_OPEN''\<rparr>,
     stage_marks = env_marks ex_env, stage_target = EqualWeight ex_weights, stage_trade_date = 2, stage_availability = [],
     stage_order_quantum = ''1'', declared_external_flow = ''0'', actions_effective = [], deferral_bound_id = None,
     participation_limit_id = None, spread_impact_model_id = None, residual_disposition_id = None\<rparr>"

definition ex_ordered :: "signed_target_delta list" where
  "ex_ordered = [ex_delta ''A'' (- 100000000) 50, ex_delta ''B'' 2400000000 20]"

lemma ex_program_rate: "program_rate ex_program = Inr 10"
proof -
  have "resolve_cost_rate_policy ''cost'' [ex_cost] = Inr ex_cost"
    by (simp add: resolve_cost_rate_policy_def resolve_record_def validate_registry_def ex_cost_def)
  then show ?thesis by (simp add: program_rate_def ex_program_def policy_rate_bps_def) (simp add: ex_cost_def ex_numbers)
qed

lemma ex_same: "same_rebalance ex_env ex_program ex_stage ex_weights"
  using ex_program_rate by (simp add: same_rebalance_def) (simp add: ex_env_def ex_program_def ex_stage_def ex_weights_def ex_numbers)

lemma ex_deltas_of: "delta_of (ex_delta s n p) = Inr (of_int n / 100000000)" "delta_security (ex_delta s n p) = s"
    "delta_price (ex_delta s n p) = ex_price s p"
  by (simp_all add: delta_of_def ex_delta_def)

lemma ex_engine_trades: "engine_trade r (ex_delta ''A'' (- 100000000) 50) = Inr (ex_trade ''A'' (-1) 50)"
    "engine_trade r (ex_delta ''B'' 2400000000 20) = Inr (ex_trade ''B'' 24 20)"
  by (simp_all add: engine_trade_def ex_deltas_of translated_to_def ex_price_def ex_trade_def ex_evidence_def eval_simps cong: eval_congs)

definition ex_middle :: portfolio_state where
  "ex_middle = (env_before ex_env)\<lparr>cash := 105987/200, positions := [(''A'', 9), (''C'', 1/2)]\<rparr>"

definition ex_end :: portfolio_state where
  "ex_end = (env_before ex_env)\<lparr>cash := 9891/200, positions := [(''A'', 9), (''C'', 1/2), (''B'', 24)]\<rparr>"

definition ex_row :: "nat \<Rightarrow> string \<Rightarrow> int list \<Rightarrow> (string, string) dict \<Rightarrow> executed_fill" where
  "ex_row i s ns held = \<lparr>fill_index = i, fill_security = s, fill_is_sell = (ns ! 0 < 0), fill_delta = fixed_text 8 (ns ! 0),
     fill_price = fixed_text 8 (ns ! 1), fill_gross = fixed_text 8 (ns ! 2), fill_cost = fixed_text 8 (ns ! 3),
     fill_tax = fixed_text 8 (ns ! 4), cash_after_fill = fixed_text 8 (ns ! 5), positions_after_fill = held,
     fill_reason_code = ''OFFICIAL_NEXT_SESSION_RAW_OPEN''\<rparr>"

definition ex_rows :: "executed_fill list" where
  "ex_rows = [ex_row 0 ''A'' [- 100000000, 5000000000, 5000000000, 5000000, 1500000, 52993500000]
       [(''A'', fixed_text 8 900000000), (''C'', fixed_text 8 50000000)],
     ex_row 1 ''B'' [2400000000, 2000000000, 48000000000, 48000000, 0, 4945500000]
       [(''A'', fixed_text 8 900000000), (''B'', fixed_text 8 2400000000), (''C'', fixed_text 8 50000000)]]"

definition ex_reasons :: "(string, string) dict" where
  "ex_reasons = [(''A'', ''OFFICIAL_NEXT_SESSION_RAW_OPEN''), (''B'', ''OFFICIAL_NEXT_SESSION_RAW_OPEN'')]"

lemma ex_sorted2: "sorted_symbols [''A'', ''C''] = [''A'', ''C'']" by code_simp

lemma ex_fill_A: "\<exists>r. engine_rebalance ex_program 10 ex_stage (env_before ex_env) [ex_trade ''A'' (- 1) 50] = Inr r
    \<and> result_after r = ex_middle \<and> transaction_cost r = 1/20 \<and> transaction_taxes r = 3/200"
  by (simp add: engine_rebalance_def ex_program_def ex_stage_def ex_env_def ex_middle_def ex_trade_def ex_evidence_def ex_policy_def
      eval_simps cong: eval_congs)

lemma ex_fill_B: "\<exists>r. engine_rebalance ex_program 10 ex_stage ex_middle [ex_trade ''B'' 24 20] = Inr r
    \<and> result_after r = ex_end \<and> transaction_cost r = 12/25 \<and> transaction_taxes r = 0"
  by (simp add: engine_rebalance_def ex_program_def ex_stage_def ex_env_def ex_middle_def ex_end_def ex_trade_def ex_evidence_def ex_policy_def
      eval_simps cong: eval_congs)

lemma ex_held: "format_positions [(''A'', 9), (''C'', 1/2)] = Inr [(''A'', fixed_text 8 900000000), (''C'', fixed_text 8 50000000)]"
    "format_positions [(''A'', 9), (''C'', 1/2), (''B'', 24)]
       = Inr [(''A'', fixed_text 8 900000000), (''B'', fixed_text 8 2400000000), (''C'', fixed_text 8 50000000)]"
proof -
  have s: "sorted_symbols [''A'', ''C'', ''B''] = [''A'', ''B'', ''C'']" by code_simp
  show "format_positions [(''A'', 9), (''C'', 1/2)] = Inr [(''A'', fixed_text 8 900000000), (''C'', fixed_text 8 50000000)]"
    "format_positions [(''A'', 9), (''C'', 1/2), (''B'', 24)]
       = Inr [(''A'', fixed_text 8 900000000), (''B'', fixed_text 8 2400000000), (''C'', fixed_text 8 50000000)]"
    by (simp_all add: format_positions_def ex_sorted2 s format_ledger_def quantize_ledger_def ledger_of_decimal let_through_def eval_simps
        cong: eval_congs)
qed

lemma ex_replayed: "replay_fills ex_program ex_stage ex_reasons (env_before ex_env) ex_ordered = Inr (ex_rows, ex_end)"
proof -
  obtain ra where ra: "engine_rebalance ex_program 10 ex_stage (env_before ex_env) [ex_trade ''A'' (- 1) 50] = Inr ra"
    "result_after ra = ex_middle" "transaction_cost ra = 1/20" "transaction_taxes ra = 3/200" using ex_fill_A by blast
  obtain rb where rb: "engine_rebalance ex_program 10 ex_stage ex_middle [ex_trade ''B'' 24 20] = Inr rb"
    "result_after rb = ex_end" "transaction_cost rb = 12/25" "transaction_taxes rb = 0" using ex_fill_B by blast
  have rid: "rebalance_id ex_stage = ''rb''" "whole_share_mode ex_program = False" by (simp_all add: ex_stage_def ex_program_def)
  have g: "gross_notional DEFAULT_PRECISION (ex_trade ''A'' (- 1) 50) = Inr 50" "gross_notional DEFAULT_PRECISION (ex_trade ''B'' 24 20) = Inr 480"
    by (simp_all add: ex_trade_def eval_simps cong: eval_congs)
  note books = ex_middle_def ex_end_def
  have m: "positions ex_middle = [(''A'', 9), (''C'', 1/2)]" "cash ex_middle = 105987/200"
    "positions ex_end = [(''A'', 9), (''C'', 1/2), (''B'', 24)]" "cash ex_end = 9891/200" by (simp_all add: books)
  note step = replay_one_def ex_program_rate ex_engine_trades ra rb rid translate_kernel_error_def Let_def ex_deltas_of g let_through_def m ex_held
  note texts = ex_reasons_def ex_rows_def ex_row_def ex_price_def format_ledger_def quantize_ledger_def ledger_of_decimal let_through_def
  have "replay_one ex_program ex_stage ex_reasons ([], env_before ex_env) (ex_delta ''A'' (- 100000000) 50) = Inr ([ex_rows ! 0], ex_middle)"
    by (simp add: step) (simp add: texts eval_simps cong: eval_congs)
  moreover have "replay_one ex_program ex_stage ex_reasons ([ex_rows ! 0], ex_middle) (ex_delta ''B'' 2400000000 20) = Inr (ex_rows, ex_end)"
    by (simp add: step) (simp add: texts eval_simps cong: eval_congs)
  ultimately show ?thesis by (simp add: replay_fills_def ex_ordered_def)
qed

section \<open>Properties\<close>

text \<open>
  C6: the fills are run a second time, one by one, to publish the book after each of them, and the
  stage refuses when this replay ends elsewhere than the batch. It never does: for every well-formed
  book, batch and replay end in the same cash and the same positions, the rows are numbered in
  the order of the fills, and the last row prints the book that the stage returns.\<close>

theorem replay_publishes_batch:
  assumes batch: "execute_fills p st before ordered = Inr base"
    and replay: "replay_fills p st reasons before ordered = Inr (rows, s)" and wf: "wf_portfolio before"
  shows "cash s = cash (result_after base) \<and> positions s = positions (result_after base)
    \<and> map fill_security rows = map delta_security ordered \<and> map fill_index rows = [0..<length ordered]
    \<and> publishes (last rows) (result_after base)"
proof -
  from batch have ne: "ordered \<noteq> []" by (rule execute_fills_nonempty)
  from replay_rows [OF replay [unfolded replay_fills_def]] ne
  have r: "map fill_security rows = map delta_security ordered" "map fill_index rows = [0..<length rows]" "publishes (last rows) s" by auto
  from r(1) have "length rows = length ordered" by (rule map_eq_imp_length_eq)
  with r replay_agrees [OF batch replay wf] show ?thesis by (simp add: publishes_def)
qed

lemma ex_before_wf: "wf_portfolio (env_before ex_env)"
  using ex_env_wf by (simp add: wf_env_def)

lemma ex_batch: "\<exists>base. execute_fills ex_program ex_stage (env_before ex_env) ex_ordered = Inr base \<and> cash (result_after base) = 9891/200"
  using kernels_agree [OF ex_same _ ex_solved]
  by (simp add: ex_weights_def ex_final_def ex_projection_def settled_alike_def) (auto simp: ex_ordered_def)

theorem replay_publishes_batch_witness:
  "\<exists>base. execute_fills ex_program ex_stage (env_before ex_env) ex_ordered = Inr base
     \<and> publishes (ex_rows ! 1) (result_after base) \<and> positions (result_after base) = [(''A'', 9), (''C'', 1/2), (''B'', 24)]"
proof -
  obtain base where b: "execute_fills ex_program ex_stage (env_before ex_env) ex_ordered = Inr base" using ex_batch by blast
  from replay_publishes_batch [OF b ex_replayed ex_before_wf] b show ?thesis
    by (intro exI [of _ base]) (simp add: ex_end_def ex_rows_def)
qed

text \<open>
  C1: the target-construction kernel and the execution kernel implement the same solve. Where the first
  publishes targets that trade, the second, given the same book, prices, marks, rate and policy,
  starts from the same equal-weight targets, returns deltas that order into the published ones, and
  its batch ends with the published cash, cost and tax.\<close>

theorem kernels_solve_alike:
  assumes "same_rebalance env p st prog" "solved_targets env n (int (length (program_selected prog))) = Inr (initial, limit, s)"
    and "projected_deltas (current s) \<noteq> []"
  shows "\<exists>ts ds base. equal_weight_targets prog (env_positions env) n (env_quantum env) (rebalance_id st) = Inr ts
    \<and> solve_with_negative_cash_repair p st (env_before env) prog (env_positions env) (env_quantum env) ts = Some (Inr ds)
    \<and> order_fills ds = Inr (projected_deltas (current s))
    \<and> execute_fills p st (env_before env) (projected_deltas (current s)) = Inr base \<and> settled_alike (current s) base"
  by (rule kernels_agree [OF assms(1) refl assms(2,3)])

theorem kernels_solve_alike_witness:
  "\<exists>ts ds base. equal_weight_targets ex_weights (env_positions ex_env) 1000 (env_quantum ex_env) ''rb'' = Inr ts
    \<and> solve_with_negative_cash_repair ex_program ex_stage (env_before ex_env) ex_weights (env_positions ex_env) (env_quantum ex_env) ts
        = Some (Inr ds)
    \<and> order_fills ds = Inr ex_ordered
    \<and> execute_fills ex_program ex_stage (env_before ex_env) ex_ordered = Inr base \<and> cash (result_after base) = 9891/200"
proof -
  have sol: "solved_targets ex_env 1000 (int (length (program_selected ex_weights)))
      = Inr (ex_projection False (- (41/2)) (1/2) 0 500 0 [ex_delta ''B'' 2500000000 20], 35, ex_final)"
    using ex_solved by (simp add: ex_weights_def)
  have pd: "projected_deltas (current ex_final) = ex_ordered" "cash_post (current ex_final) = 9891/200" "rebalance_id ex_stage = ''rb''"
    by (simp_all add: ex_final_def ex_projection_def ex_ordered_def ex_stage_def)
  have "projected_deltas (current ex_final) \<noteq> []" unfolding pd by (simp add: ex_ordered_def)
  from kernels_solve_alike [OF ex_same sol this] show ?thesis unfolding pd settled_alike_def by blast
qed

end
