(* ===== verification/Execution_Run.thy ===== *)
theory Execution_Run
  imports Run_Rules Engine_Contract
begin

text \<open>
  A worked run with a split, a paid dividend and a session close, and the properties of the walk and
  of the corporate-action stage, each applied to it.
\<close>

section \<open>A worked run\<close>

definition ex_mark :: "rat \<Rightarrow> (string, raw_mark) dict" where
  "ex_mark v = [(''A'', RawMark v (ex_evidence ''A''))]"

definition ex_withholding :: withholding_policy where
  "ex_withholding = \<lparr>record_id = ''wh'', source_kind = ''TEST_CONSTRUCTED'', record_source = ''t'', source_reference = ''t'',
     effective_date = 1, withholding_rate = ''0''\<rparr>"

definition ex_registries :: registry_overrides where
  "ex_registries = shipped_registries\<lparr>cost_rate_policies := [ex_cost], ledger_coordinate_sources := [ex_source],
     withholding_policies := [ex_withholding]\<rparr>"

definition ex_action :: "string \<Rightarrow> payment_term option \<Rightarrow> action_stage" where
  "ex_action e pay = \<lparr>action_id = ''a1'', action_session = ex_sessions 3, registry_before = [], marks_after_split = ex_mark 25,
     marks_after_entitlement = ex_mark (49/2),
     action_split = Some \<lparr>split_term_event = ''E1'', split_term_security = ''A'', split_term_factor = ''2''\<rparr>,
     action_dividend = Some \<lparr>dividend_event = e, dividend_security = ''A'', dividend_basis = ''POST_SPLIT'', dividend_cash = ''0.5''\<rparr>,
     action_payment = pay, unsupported_actions = [], action_order = REGISTERED_SAME_SESSION_EVENT_ORDER, withholding_id = Some ''wh''\<rparr>"

definition ex_payment :: payment_term where
  "ex_payment = \<lparr>payment_event = ''E3'', paid_dividend = ''E2'', payment_ref = ex_sessions 4\<rparr>"

definition ex_book :: "rat \<Rightarrow> rat \<Rightarrow> rat \<Rightarrow> rat \<Rightarrow> stage_state" where
  "ex_book c q r m = \<lparr>st_cash = c, st_positions = [(''A'', q)], st_receivables = r, st_marks = ex_mark m\<rparr>"

definition ex_state :: "rat \<Rightarrow> rat \<Rightarrow> rat \<Rightarrow> rat \<Rightarrow> portfolio_state" where
  "ex_state c q r m = \<lparr>cash = c, positions = [(''A'', q)], raw_marks = ex_mark m, receivables = r\<rparr>"

lemma ex_books: "engine_portfolio 100 [(''A'', 10)] 0 (ex_mark 50) i d = Inr (ex_state 100 10 0 50)"
  "engine_portfolio 100 [(''A'', 20)] 0 (ex_mark 25) i d = Inr (ex_state 100 20 0 25)"
  "engine_portfolio 100 [(''A'', 20)] 10 (ex_mark (49/2)) i d = Inr (ex_state 100 20 10 (49/2))"
  "engine_portfolio 110 [(''A'', 20)] 0 (ex_mark (49/2)) i d = Inr (ex_state 110 20 0 (49/2))"
  "engine_portfolio 110 [(''A'', 20)] 0 (ex_mark 25) i d = Inr (ex_state 110 20 0 25)"
  by (simp_all add: engine_portfolio_def require_mark_def ex_mark_def ex_state_def translated_to_def ex_evidence_def eval_simps cong: eval_congs)

lemma ex_nav_texts: "nav_text (ex_state 100 20 0 25) = Inr (fixed_text 8 60000000000)"
  "nav_text (ex_state 100 20 10 (49/2)) = Inr (fixed_text 8 60000000000)"
  "nav_text (ex_state 110 20 0 (49/2)) = Inr (fixed_text 8 60000000000)"
  "nav_text (ex_state 110 20 0 25) = Inr (fixed_text 8 61000000000)"
  by (simp_all add: nav_text_def ex_state_def ex_mark_def let_through_def format_ledger_def quantize_ledger_def ledger_of_decimal ex_evidence_def
    eval_simps cong: eval_congs)

lemma ex_stage_numbers: "ledger_of_text ''2'' = Inr 2" "canonical_identifier ''a1'' = Inr ''a1''" "canonical_identifier ''c1'' = Inr ''c1''"
  "canonical_identifier ''E3'' = Inr ''E3''" "ledger_of_text ''100'' = Inr 100"
  by code_simp+

lemma ex_withholding_admitted: "withholding_admitted ex_registries (ex_action e pay) = Inr ()"
proof -
  have "resolve_withholding_policy ''wh'' [ex_withholding] = Inr ex_withholding"
    by (simp add: resolve_withholding_policy_def resolve_record_def validate_registry_def ex_withholding_def)
  then show ?thesis
    by (simp add: withholding_admitted_def ex_action_def ex_registries_def) (simp add: ex_withholding_def ex_numbers)
qed

lemma ex_action_steps: "action_security (ex_action e pay) = Inr (Some ''A'')"
  "split_shares (ex_action e pay) (Some ''A'') 10 = Inr 20"
  "split_reference (ex_action e pay) (ex_mark 50) (Some ''A'') 10 20 = Inr (500, 500)"
  "stage_entitlement (ex_action e pay) (Some ''A'') 20 = Inr 10"
  "quantize_ledger (dec DEFAULT_PRECISION 10) = Inr 10" "quantize_ledger (dec DEFAULT_PRECISION 110) = Inr 110"
  by (simp_all add: action_security_def split_shares_def split_reference_def stage_entitlement_def ex_action_def ex_stage_numbers ex_numbers
    translated_to_def require_mark_def ex_mark_def apply_split_def dividend_receivable_def quantize_ledger_def eval_simps cong: eval_congs)

definition ex_outcome :: "string list \<Rightarrow> int \<Rightarrow> int \<Rightarrow> action_outcome" where
  "ex_outcome es c r = \<lparr>outcome_stage = ''a1'', outcome_session = ex_sessions 3, outcome_registry = es,
     post_split_shares = fixed_text 8 2000000000, reference_before = fixed_text 8 50000000000, reference_after = fixed_text 8 50000000000,
     nav_after_split = fixed_text 8 60000000000, eligible_shares = fixed_text 8 2000000000, entitlement_text = fixed_text 8 1000000000,
     nav_after_entitlement = fixed_text 8 60000000000, cash_after_payment = fixed_text 8 c, receivables_after_payment = fixed_text 8 r,
     nav_after_payment = fixed_text 8 60000000000, excluded_actions = []\<rparr>"

lemma ex_texts8: "format_ledger (PDecimal 20) = Inr (fixed_text 8 2000000000)" "format_ledger (PDecimal 10) = Inr (fixed_text 8 1000000000)"
  "format_exact_fraction 500 = Inr (fixed_text 8 50000000000)" "format_ledger (PDecimal 100) = Inr (fixed_text 8 10000000000)"
  "format_ledger (PDecimal 110) = Inr (fixed_text 8 11000000000)" "format_ledger (PDecimal 0) = Inr (fixed_text 8 0)"
  "format_ledger (PDecimal 50) = Inr (fixed_text 8 5000000000)"
  by (simp_all add: format_ledger_def quantize_ledger_def ledger_of_decimal format_exact_fraction_def eval_simps cong: eval_congs)

lemma ex_outcomes:
  "outcome_of (ex_action e pay) [] 20 (500, 500) 10 (100, 10) (ex_state 100 20 0 25) (ex_state 100 20 10 (49/2)) (ex_state 100 20 10 (49/2))
     = Inr (ex_outcome (stage_events (ex_action e pay)) 10000000000 1000000000)"
  "outcome_of (ex_action e pay) [] 20 (500, 500) 10 (110, 0) (ex_state 100 20 0 25) (ex_state 100 20 10 (49/2)) (ex_state 110 20 0 (49/2))
     = Inr (ex_outcome (stage_events (ex_action e pay)) 11000000000 0)"
  by (simp_all add: outcome_of_def ex_texts8 ex_nav_texts ex_outcome_def) (simp_all add: ex_action_def)

lemma ex_applied:
  "apply_corporate_action_stage (ex_action ''E2'' (Some ex_payment)) (ex_book 100 10 0 50) whole ex_registries
     = Inr (ex_book 110 20 0 (49/2), ex_outcome [''E1'', ''E2'', ''E3''] 11000000000 0)"
  "apply_corporate_action_stage (ex_action ''E1'' None) (ex_book 100 10 0 50) whole ex_registries
     = Inr (ex_book 100 20 10 (49/2), ex_outcome [''E1'', ''E1''] 10000000000 1000000000)"
proof -
  have ev: "stage_events (ex_action ''E2'' (Some ex_payment)) = [''E1'', ''E2'', ''E3'']" "stage_events (ex_action ''E1'' None) = [''E1'', ''E1'']"
    by (simp_all add: stage_events_def option_list_def ex_action_def ex_payment_def)
  have sel: "action_id (ex_action e pay) = ''a1''" "unsupported_actions (ex_action e pay) = []" "registry_before (ex_action e pay) = []"
    "\<exists>x. action_split (ex_action e pay) = Some x" "marks_after_split (ex_action e pay) = ex_mark 25"
    "marks_after_entitlement (ex_action e pay) = ex_mark (49/2)" for e pay
    by (simp_all add: ex_action_def)
  obtain x where x: "\<And>e pay. action_split (ex_action e pay) = Some (x e pay)" using sel(4) by metis
  have un: "events_unbooked (ex_action e pay) = Inr ()" for e pay by (simp add: events_unbooked_def sel list_ex_iff)
  have pay: "stage_payment (ex_action ''E2'' (Some ex_payment)) 100 0 10 10 = Inr (110, 0)" "stage_payment (ex_action ''E1'' None) 100 0 10 10 = Inr (100, 10)"
    by (simp_all add: stage_payment_def ex_action_def ex_payment_def ex_sessions_def calendar_identity_def ex_action_steps)
  show "apply_corporate_action_stage (ex_action ''E2'' (Some ex_payment)) (ex_book 100 10 0 50) whole ex_registries
     = Inr (ex_book 110 20 0 (49/2), ex_outcome [''E1'', ''E2'', ''E3''] 11000000000 0)"
    "apply_corporate_action_stage (ex_action ''E1'' None) (ex_book 100 10 0 50) whole ex_registries
     = Inr (ex_book 100 20 10 (49/2), ex_outcome [''E1'', ''E1''] 10000000000 1000000000)"
    by (simp_all add: apply_corporate_action_stage_def ex_withholding_admitted ex_action_steps un sel x ex_book_def Let_def ex_books pay ex_outcomes ev require_integral_custody_def)
qed

definition ex_close :: session_close_stage where
  "ex_close = \<lparr>close_stage = ''c1'', close_session = ex_sessions 4, close_marks = ex_mark 25, receivable_settlements = []\<rparr>"

definition ex_run :: "string \<Rightarrow> execution_program" where
  "ex_run q = \<lparr>program_id = ''prog'', whole_share_mode = True, engine_cost_policy_id = ''cost'', engine_tax_policy = ex_policy,
     engine_registries = ex_registries, opening_session = ex_sessions 2, opening_cash = ''100'', opening_positions = [(''A'', q)],
     opening_receivables = ''0'', opening_marks = ex_mark 50, program_stages = [Action (ex_action ''E2'' (Some ex_payment)), Close ex_close]\<rparr>"

lemma ex_run_ids: "canonical_identifier ''prog'' = Inr ''prog''" by code_simp

lemma ex_run_made: "mk_execution_program (ex_run ''10'') = Inr (ex_run (fixed_text 8 1000000000))"
proof -
  have cost: "resolve_cost_rate_policy ''cost'' [ex_cost] = Inr ex_cost" "\<not> regulatory_authority ex_cost"
    "resolve_ledger_coordinate_source ''src'' [ex_source] = Inr ex_source"
    by (simp_all add: resolve_cost_rate_policy_def resolve_ledger_coordinate_source_def resolve_record_def validate_registry_def ex_cost_def ex_source_def)
  have src: "require_registered_ledger_sources (ex_run q) = Inr ()" for q
    by (simp add: require_registered_ledger_sources_def ex_run_def marks_sources_def ex_mark_def stage_sources_def ex_action_def ex_close_def
        ex_registries_def ex_evidence_def cost)
  have mono: "require_monotone_stage_sessions (ex_run q) = Inr ()" for q
    by (simp add: require_monotone_stage_sessions_def ex_run_def stage_entry_def stage_exit_def ex_action_def ex_payment_def ex_close_def
        calendar_identity_def Let_def) (simp add: ex_sessions_def)
  have loop: "opening_loop [] [(''A'', ''10'')] = Inr [(''A'', fixed_text 8 1000000000)]"
    by (simp add: ex_ids ex_numbers ex_texts8 require_share_quantum_def let_through_def eval_simps cong: eval_congs)
  show ?thesis
    unfolding mk_execution_program_def src mono
    by (simp add: ex_run_def ex_run_ids ex_more_ids ex_registries_def cost loop ex_stage_numbers ex_numbers del: opening_loop.simps)
qed

lemma ex_closed: "apply_session_close ex_close (ex_book 110 20 0 (49/2)) = Inr (ex_book 110 20 0 25,
   \<lparr>closed_stage = ''c1'', closed_session = ex_sessions 4, closed_settlements = [], closed_cash = fixed_text 8 11000000000,
    closed_receivables = fixed_text 8 0, closed_nav = fixed_text 8 61000000000\<rparr>)"
proof -
  have q: "quantize_ledger (dec DEFAULT_PRECISION 0) = Inr 0"
    by (simp add: quantize_ledger_def eval_simps cong: eval_congs)
  have n: "nav (ex_state 110 20 0 25) = Inr 610" "format_ledger (PDecimal 610) = Inr (fixed_text 8 61000000000)"
    by (simp_all add: ex_state_def ex_mark_def ex_evidence_def format_ledger_def quantize_ledger_def ledger_of_decimal eval_simps cong: eval_congs)
  show ?thesis
    by (simp add: apply_session_close_def ex_close_def ex_book_def ex_books q ex_action_steps n let_through_def ex_texts8 sort_key_def)
qed

lemma ex_run_walked: "\<exists>l. run_walk (ex_run (fixed_text 8 1000000000)) = Some (Inr l) \<and> run_book l = ex_book 110 20 0 25"
proof -
  let ?p = "ex_run (fixed_text 8 1000000000)"
  have s: "sorted_symbols [''A''] = [''A'']" by code_simp
  have sel: "program_id ?p = ''prog''" "whole_share_mode ?p = True" "engine_registries ?p = ex_registries" "opening_marks ?p = ex_mark 50"
    "program_stages ?p = [Action (ex_action ''E2'' (Some ex_payment)), Close ex_close]" "opening_cash ?p = ''100''" "opening_receivables ?p = ''0''"
    "opening_positions ?p = [(''A'', fixed_text 8 1000000000)]"
    by (simp_all add: ex_run_def)
  have "\<exists>lot. opening_lot ?p [(''A'', 10)] ''A'' = Inr lot"
    by (simp add: opening_lot_def ex_texts8 require_mark_def sel) (simp add: ex_mark_def ex_texts8)
  then obtain lot where lot: "opening_lot ?p [(''A'', 10)] ''A'' = Inr lot" ..
  have "opened_run ?p = Inr \<lparr>run_book = ex_book 100 10 0 50, run_opening_lots = [lot], run_ledgers = [], run_outcomes = [], run_closes = [],
      run_lots = []\<rparr>"
    unfolding opened_run_def
    by (simp add: sel ex_stage_numbers ex_numbers require_integral_custody_def ex_books lot s) (simp add: ex_book_def)
  then show ?thesis by (simp add: run_walk_def sel run_stage_def ex_applied ex_closed) (simp add: ex_book_def ex_books)
qed

section \<open>Properties\<close>

text \<open>
  C8: every run returns. The walk over the stages of a program ends with a log or with an exception, whatever the
  program declares: every rebalance stage that its constructor let through has a quantum of one share, so the
  unbounded repair of its solve takes whole shares from the targets until the cash suffices or nothing is left.\<close>

theorem runs_return:
  assumes "list_all stage_made (program_stages p)"
  shows "\<exists>r. run_walk p = Some r"
proof (cases "opened_run p")
  case (Inr l)
  from stages_return [OF assms, of p l] obtain r where "run_stages p l (program_stages p) = Some r" by blast
  with Inr show ?thesis by (cases r) (simp_all add: run_walk_def)
qed (simp add: run_walk_def)

theorem runs_return_witness:
  "\<exists>r. run_walk ((ex_run (fixed_text 8 1000000000))\<lparr>program_stages :=
     [Action (ex_action ''E2'' (Some ex_payment)), Rebalance (ex_stage\<lparr>participation_limit_id := Some ''wh''\<rparr>), Close ex_close]\<rparr>) = Some r"
proof -
  have "canonical_identifier ''rb'' = Inr ''rb''" "canonical_identifier ''wh'' = Inr ''wh''" by code_simp+
  then have "mk_rebalance_stage (ex_stage\<lparr>participation_limit_id := Some ''wh''\<rparr>) = Inr (ex_stage\<lparr>participation_limit_id := Some ''wh''\<rparr>)"
    by (simp add: mk_rebalance_stage_def ex_stage_def ex_numbers)
  then show ?thesis by (intro runs_return) (simp add: stage_made_def)
qed

text \<open>
  C7: no run looks ahead. When the walk of a constructed program returns a log, all its sessions lie on the calendar of
  the opening session, no stage enters before the opening session or leaves before it enters, and every stage enters at
  or after the session in which every earlier stage has left; a dividend leaves with its payment, so no cash is
  spent before the session that pays it.\<close>

theorem runs_never_look_ahead:
  assumes made: "mk_execution_program p0 = Inr p" and run: "run_walk p = Some (Inr l)"
  shows "list_all (\<lambda>s. not_after (opening_session p) (stage_entry s) \<and> not_after (stage_entry s) (stage_exit s)
      \<and> calendar_identity (stage_entry s) = calendar_identity (opening_session p)
      \<and> calendar_identity (stage_exit s) = calendar_identity (opening_session p)) (program_stages p)
    \<and> sorted_wrt (\<lambda>a b. not_after (stage_exit a) (stage_entry b)) (program_stages p)"
proof -
  from run_walk_Inr [OF run] obtain l0 where "run_stages p l0 (program_stages p) = Some (Inr l)" by blast
  note forward = run_stages_forward [OF this]
  from mk_program_Inr [OF made] have "monotone_loop (calendar_identity (opening_session p)) (opening_session p) (program_stages p) = Inr ()" ..
  from monotone_loop_Inr [OF this forward] forward show ?thesis by (simp add: list_all_iff)
qed

theorem runs_never_look_ahead_witness:
  "not_after (stage_exit (Action (ex_action ''E2'' (Some ex_payment)))) (stage_entry (Close ex_close))"
proof -
  obtain l where "run_walk (ex_run (fixed_text 8 1000000000)) = Some (Inr l)" using ex_run_walked by blast
  from runs_never_look_ahead [OF ex_run_made this] show ?thesis by (simp add: ex_run_def)
qed

text \<open>
  C9: a corporate-action stage books what it declares and nothing else. Only the shares of its security change, and
  their value at the declared marks is the same before and after the split; the entitlement is the dividend on the
  shares after the split, it is added exactly to the receivables or, when the stage pays it, to the cash; and none of the
  stage's events is in the registry it starts from, to which it appends them.\<close>

theorem action_stage_books:
  assumes "apply_corporate_action_stage st s whole regs = Inr (s', out)"
    and "on_grid (- 8) (st_cash s)" "on_grid (- 8) (st_receivables s)" "0 \<le> st_cash s" "0 \<le> st_receivables s"
  shows "\<exists>security ent. action_security st = Inr security
    \<and> (\<forall>sec. Some sec \<noteq> security \<longrightarrow> shares_at s' sec = shares_at s sec)
    \<and> (case security of None \<Rightarrow> ent = 0 | Some sec \<Rightarrow> declared_entitlement st (shares_at s' sec) ent
        \<and> (\<exists>mb ma. dict_get (st_marks s) sec = Some mb \<and> dict_get (marks_after_split st) sec = Some ma
            \<and> shares_at s sec * mark_value mb = shares_at s' sec * mark_value ma))
    \<and> (st_cash s + st_receivables s + ent < 10 ^ 20 \<longrightarrow> books_entitlement st s ent s')
    \<and> set (stage_events st) \<inter> set (registry_before st) = {} \<and> outcome_registry out = registry_before st @ stage_events st"
  by (rule action_books [OF assms])

theorem action_stage_books_witness:
  "\<exists>ent. declared_entitlement (ex_action ''E2'' (Some ex_payment)) 20 ent
     \<and> (100 + ent < 10 ^ 20 \<longrightarrow> books_entitlement (ex_action ''E2'' (Some ex_payment)) (ex_book 100 10 0 50) ent (ex_book 110 20 0 (49/2)))"
proof -
  have g: "on_grid (- 8) 100" "on_grid (- 8) (0 :: rat)"
    by (rule on_gridI [of _ "10 ^ 10"] on_gridI [of _ 0], simp add: power_int_minus)+
  have b: "st_cash (ex_book 100 10 0 50) = 100" "st_receivables (ex_book 100 10 0 50) = 0" "shares_at (ex_book 110 20 0 (49/2)) ''A'' = 20"
    by (simp_all add: ex_book_def shares_at_def)
  from action_stage_books [OF ex_applied(1) [of False], unfolded b, OF g] show ?thesis by (auto simp: ex_action_steps b)
qed

text \<open>
  The registry is compared with the events of a stage one by one, but the events are not compared with each other: a
  split and a dividend of one identifier are both booked, and the registry that the stage returns is one that the next
  stage's constructor refuses.\<close>

lemma one_event_booked_twice:
  "\<exists>s' out. apply_corporate_action_stage (ex_action ''E1'' None) (ex_book 100 10 0 50) True ex_registries = Inr (s', out)
     \<and> outcome_registry out = [''E1'', ''E1'']
     \<and> mk_action_stage ((ex_action e None)\<lparr>registry_before := outcome_registry out\<rparr>)
         = Inl (refusal double_booked None None (Some ''a1''))"
  using ex_applied(2) [of True]
  by (simp add: ex_outcome_def mk_action_stage_def Let_def) (simp add: ex_action_def ex_stage_numbers REGISTERED_SAME_SESSION_EVENT_ORDER_def)

end
