(* ===== verification/Spec2Isabelle.thy ===== *)
theory Spec2Isabelle
  imports Metrics Lot_Ledger Capacity_Scan Abort_Monitor Interval_Algebra Bootstrap Promotion_Rules Fee_Ledger Quota_Rules Schedule_Rules
    Factor_Documents Execution_Run
begin

text \<open>
  A verification library for QME, a research program for momentum strategies on United States equities. This theory
  imports the whole development and describes it.

  \<^bold>\<open>The program.\<close> QME separates pure kernels, which compute on typed values and raise typed errors, from the code that
  reads, hashes and stores evidence. The library models the kernels, in the order in which a run meets them:

  \<^item> provider plans and the quota ledger decide which requests may be sent for data
    (\<open>qme/data/alpha_vantage/plan_v1.py\<close>, \<open>quota.py\<close>);
  \<^item> the identity layer works on half-open date intervals (\<open>qme/data/identity/intervals_v1.py\<close>);
  \<^item> the corporate-action kernel turns raw bars and declared actions into split-adjusted and total-return series and walks a holder's
    shares, cash and receivables (\<open>qme/data/corporate_actions/factors_v1.py\<close>);
  \<^item> the exchange calendar gives the sessions, the schedule kernel the rebalance dates
    (\<open>qme/data/stores/calendar_v1.py\<close>, \<open>qme/quant/schedule_v1.py\<close>);
  \<^item> the accounting kernel rebalances a portfolio and computes its metrics (\<open>qme/quant/equations.py\<close>); regulatory fees are
    looked up in a dated schedule and charged around it (\<open>regulatory_fee_schedule.py\<close>, \<open>asymmetric_costs.py\<close>), tax lots follow the
    fills (\<open>tax_lots.py\<close>), and the capacity solver finds the greatest feasible capital (\<open>capacity_solver.py\<close>);
  \<^item> target construction turns a selection into equal-weight whole-share targets and repairs them until the cash suffices
    (\<open>qme/quant/targets_v1.py\<close>); the execution kernel guards the declared inputs of a rebalance, solves, executes and replays it
    (\<open>execution_v1.py\<close>); both call the accounting kernel;
  \<^item> the bootstrap draws replicates from a deterministic generator (\<open>qme/stats/rng.py\<close>, \<open>bootstrap.py\<close>);
  \<^item> the promotion decision and the live-abort monitor stop or release a strategy
    (\<open>qme/promotion/decision.py\<close>, \<open>live_abort_v1.py\<close>).

  \<^bold>\<open>Theories.\<close> A component is a theory of definitions, one for each class, function or loop body of the source, and one or
  more theories of lemmas. Names follow the source; a prefix avoids clashes between record fields.

  \<^descr>[\<open>Prelude\<close>] exceptions as values, the result type \<open>py_exc + 'a\<close> with \<open>rbind\<close>, loops that stop at the first exception
    (\<open>fold_res\<close>, \<open>map_res\<close>), actions whose state survives an exception, dictionaries as association lists.
  \<^descr>[\<open>Py_Decimal\<close>, \<open>Py_Values\<close>] Decimal and float arithmetic as rounded rational arithmetic, quantisation, numerals, dynamically typed
    values and JSON documents.
  \<^descr>[\<open>Equations\<close>, \<open>Ledger\<close>, \<open>Metrics\<close>] the accounting kernel: conservation of cash and shares, the order of sells and buys, the
    self-financing check, drawdown, capacity diagnostic and target shares.
  \<^descr>[\<open>Tax_Lots\<close>, \<open>Lot_Ledger\<close>] the lot engine refines an abstract account: wash sales only defer, open lots match the position, and the
    engine raises only its own errors.
  \<^descr>[\<open>Capacity_Solver\<close>, \<open>Capacity_Scan\<close>] the scan ends, the certificate names the greatest feasible scanned capital, and the dominating
    bound is missed by at most a rounding error, with an input on which it is missed.
  \<^descr>[\<open>Live_Abort\<close>, \<open>Abort_Monitor\<close>] the monitor as a state machine: total, absorbing after an alarm, never aborting without one, with an
    evidence chain that binds its history unless the hash collides.
  \<^descr>[\<open>Intervals\<close>, \<open>Interval_Algebra\<close>] merging and gaps as set operations on dates.
  \<^descr>[\<open>Rng\<close>, \<open>Bootstrap\<close>] the generator on machine words, unbiased bounded draws, and a bootstrap that always returns.
  \<^descr>[\<open>Promotion\<close>, \<open>Promotion_Rules\<close>] when promotion is granted and how an aborted policy is rearmed.
  \<^descr>[\<open>Fee_Schedule\<close>, \<open>Fee_Lookup\<close>, \<open>Asymmetric_Costs\<close>, \<open>Fee_Ledger\<close>] validated schedules have exactly one row for a date, and fees are one
    exact cash line added to the canonical rebalance.
  \<^descr>[\<open>Provider_Plan\<close>, \<open>Plan_Registry\<close>, \<open>Quota\<close>, \<open>Quota_Rules\<close>] at most one plan a day; caps and rates hold over every sequence of requests.
  \<^descr>[\<open>Trading_Calendar\<close>, \<open>Calendar_Algebra\<close>, \<open>Rebalance_Schedule\<close>, \<open>Schedule_Rules\<close>] session algebra on a loaded calendar, and schedules that
    use only past sessions.
  \<^descr>[\<open>Action_Factors\<close>, \<open>Action_Stream\<close>, \<open>Factor_Series\<close>] the corporate-action kernel: decimal texts and contract lines, validation and
    collapse of the stream, the two walks.
  \<^descr>[\<open>Stream_Rules\<close>, \<open>Factor_Rules\<close>, \<open>Ledger_Walk\<close>, \<open>Kernel_Refusals\<close>, \<open>Decimal_Text\<close>, \<open>Factor_Documents\<close>] what it promises: the order of the
    inputs is irrelevant, the index is the wealth of a reinvesting holder, the ledger follows it up to the quantum, only the inputs are
    refused, and every result is published in texts that are read back exactly.

  \<^descr>[\<open>Execution_Records\<close>, \<open>Execution_Fills\<close>, \<open>Execution_Rules\<close>] ledger texts that are read back exactly, registries that resolve exactly
    their unambiguous records, session types that admit no fill on the signal bar, deltas and their order, equal-weight targets.
  \<^descr>[\<open>Target_Construction\<close>, \<open>Target_Rules\<close>, \<open>Target_Repair\<close>, \<open>Target_Weights\<close>, \<open>Target_Refusals\<close>, \<open>Target_Contract\<close>] the request,
    the formula, the projection and the repair loop: the cash formula holds for accepted and refused projections, the loop refines the contract's repair and ends within
    its ceiling, the published rows are whole-share trades to equal weights, and every error is a declared refusal, the refusal of a
    malformed ledger value or \<open>InvalidOperation\<close>.
  \<^descr>[\<open>Execution_Engine\<close>, \<open>Engine_Rules\<close>, \<open>Engine_Targets\<close>, \<open>Engine_Contract\<close>] the rebalance stage and the session close: the replay agrees
    with the batch, the unbounded repair returns, and the two kernels solve the same targets.
  \<^descr>[\<open>Execution_Actions\<close>, \<open>Run_Rules\<close>, \<open>Execution_Run\<close>] the corporate-action stage, the program and the walk over its stages: every run
    returns, none looks ahead, and a stage books what it declares; an event named twice in one stage is booked twice.

  \<^bold>\<open>Interfaces.\<close> \<open>guarded_loop\<close>, \<open>refined_loop\<close> and \<open>checked_loop\<close> state once what an induction over a loop gives; they are interpreted on
  the fills of a rebalance, the capacity scan and the lot engine. \<open>rounding\<close> states what the components use of a rounding and is
  interpreted on the decimal contexts and on binary floats. \<open>run_invariant\<close> carries an invariant of the quota ledger over every sequence
  of requests and is interpreted on the caps and on the rate.

  \<^bold>\<open>Correspondence.\<close> A dataclass is a record and its \<open>__post_init__\<close> a function that returns it or an error; an exception is a value with
  its class and its fixed text or state, without the interpolated part of a message. Python's unbounded integers are integers, the
  generator's states are words. A finite Decimal is the rational it denotes, every operation rounds to the context's precision, and
  exponents are unbounded; a finite float rounds to 53 binary digits. A Fraction is a rational. Published amount strings of the lot engine
  and the fee lines are the decimals they print. Instants are microseconds. SHA-256, file reading and JSON parsing are parameters of
  the definitions that use them. Refusals of the execution and target kernels are values that carry their state and the identities they name.
  Loops over lists are folds. The repair of target construction ends by its step limit. The capacity scan, the rejection loop of a bounded draw,
  the filling loop of the bootstrap and the repair of the execution kernel are partial functions in the option type, and theorems show that they return; no definition uses fuel.

  \<^bold>\<open>Not modelled.\<close> The compound annual growth rate raises a Decimal to a non-integer power and the signal engine takes a Decimal
  logarithm; neither operation is in the decimal model. The inference statistics are floating-point linear algebra and special functions.
  Later versions of the cost, capacity and promotion kernels wrap the modelled ones with bindings to frozen files. The acquisition client,
  stores, receipts, governance checks, experiment registry, user interface and command line read, hash, compare and write files around these
  kernels. Universe, benchmarks and scenarios compose the kernels with content-addressed bindings of their evidence, and are left out for that
  reason, as are the loaders of the fee schedule and the digests of the calendar, schedule and target results. Of the execution kernel the
  posted-fee mode (the third version of the cost adapter), the publication of tax lots after the walk, fill identities, lineage and the
  manifest are left out.
\<close>

end
